(* ===== verification/Oro_Prelude.thy ===== *)
theory Oro_Prelude
  imports Main "HOL-Library.Char_ord" "HOL-Library.List_Lexorder" "HOL-Library.Multiset"
begin

text \<open>
  Shared vocabulary of the development: Go strings (byte strings, modelled as HOL strings),
  the functions of Go's strings, strconv and sort packages that the sources call, the error
  values of errors.go, and the result type of a Go function that returns a value and an error.
  The lemmas here are the ones several components use; the collections
  \<open>go_string_simps\<close>, \<open>result_simps\<close>, \<open>lex_simps\<close> and \<open>pg_scan_simps\<close> gather the
  rewrite rules the component proofs rely on.

  Case folding and white space are those of ASCII: \<open>strings.ToLower\<close> and
  \<open>strings.TrimSpace\<close> also fold and trim some characters beyond ASCII, which are left
  alone here.
\<close>

named_theorems go_string_simps \<open>rewrite rules for Go's string functions\<close>
named_theorems result_simps \<open>rewrite rules for results (value or error)\<close>
named_theorems lex_simps \<open>rewrite rules for the lexer of question-mark dialects\<close>
named_theorems pg_scan_simps \<open>rewrite rules for the scanner of numbered placeholders\<close>

section \<open>Results: a value or an error\<close>

text \<open>The sentinel errors of errors.go, one constructor each.\<close>

datatype error_kind =
    ErrInvalidArgument | ErrInvalidQuery | ErrUnknownField | ErrUnknownRelation
  | ErrRelationNotLoaded | ErrUnsafeUpdate | ErrUnsafeDelete | ErrScan | ErrHook | ErrEvent
  | ErrConflict | ErrConstraint | ErrTransactionRequired | ErrTransactionConnection
  | ErrStaleData | ErrUnknownConnection | ErrCrossConnectionQuery | ErrTenantRequired
  | ErrUnknownTenant | ErrShardRequired | ErrShardNotFound | ErrShardConflict
  | ErrCrossShardJoin | ErrCrossShardTransaction | ErrCacheStoreRequired
  | ErrCacheKeyRequired | ErrOrderRequired | ErrClosed | ErrDeadlock
  | ErrSerializationFailure | ErrUnsafeSchemaChange | ErrAmbiguousSchemaChange
  | ErrUnsupported

text \<open>
  A Go error value: the structured \<open>Error\<close> of errors.go (operation, kind, table, field and
  cause, the fields the modelled code sets), an error made elsewhere (its message), or a
  run-time panic, which is kept apart from every returned error.
\<close>

datatype go_error =
    OroError (err_Op: string) (err_Kind: error_kind) (err_Table: string) (err_Field: string)
      (err_Cause: "go_error option")
  | GoError string
  | GoPanic string

type_synonym 'a result = "go_error + 'a"

text \<open>\<open>&Error{Op: op, Kind: kind}\<close> and \<open>&Error{Op: op, Kind: kind, Field: field}\<close>.\<close>

definition mk_error :: "string \<Rightarrow> error_kind \<Rightarrow> go_error" where
  "mk_error op kind = OroError op kind '''' '''' None"

definition mk_field_error :: "string \<Rightarrow> error_kind \<Rightarrow> string \<Rightarrow> go_error" where
  "mk_field_error op kind field = OroError op kind '''' field None"

text \<open>\<open>if err != nil { return ..., err }\<close>: an error ends the function, a value goes on.\<close>

definition bind_res :: "'a result \<Rightarrow> ('a \<Rightarrow> 'b result) \<Rightarrow> 'b result" where
  "bind_res r f = (case r of Inl e \<Rightarrow> Inl e | Inr x \<Rightarrow> f x)"

lemma bind_res_cong [fundef_cong]:
  assumes "r = r'" and "\<And>x. f x = g x"
  shows "bind_res r f = bind_res r' g"
  using assms by (cases r') (auto simp: bind_res_def)

lemma bind_res_Inr_iff [result_simps]:
  "bind_res r f = Inr y \<longleftrightarrow> (\<exists>x. r = Inr x \<and> f x = Inr y)"
  by (cases r) (auto simp: bind_res_def)

lemma bind_res_simps [simp]:
  "bind_res (Inl e) f = Inl e"
  "bind_res (Inr x) f = f x"
  "bind_res r Inr = r"
  by (simp_all add: bind_res_def split: sum.splits)

lemma bind_res_InrE:
  assumes "bind_res r f = Inr y"
  obtains x where "r = Inr x" and "f x = Inr y"
  using assms by (auto simp: bind_res_Inr_iff)

text \<open>
  A property of every value a result can have, errors excepted: the weakest precondition of a
  computation that may fail.
\<close>

definition res_all :: "('a \<Rightarrow> bool) \<Rightarrow> 'a result \<Rightarrow> bool" where
  "res_all P r \<longleftrightarrow> (case r of Inl _ \<Rightarrow> True | Inr x \<Rightarrow> P x)"

lemma res_all_simps [simp]:
  "res_all P (Inl e)"
  "res_all P (Inr x) \<longleftrightarrow> P x"
  by (simp_all add: res_all_def)

lemma res_all_bind [result_simps]:
  "res_all P (bind_res r f) \<longleftrightarrow> res_all (\<lambda>x. res_all P (f x)) r"
  by (cases r) simp_all

lemma res_all_mono: "res_all Q r \<Longrightarrow> (\<And>x. Q x \<Longrightarrow> P x) \<Longrightarrow> res_all P r"
  by (cases r) simp_all

lemma res_all_bindI:
  assumes "res_all Q r" and "\<And>x. Q x \<Longrightarrow> res_all P (f x)"
  shows "res_all P (bind_res r f)"
  using assms by (cases r) simp_all

lemma res_all_bind_prodI:
  assumes "res_all Q r" and "\<And>a b. Q (a, b) \<Longrightarrow> res_all P (f a b)"
  shows "res_all P (bind_res r (\<lambda>(a, b). f a b))"
  using assms by (cases r) auto

lemma res_all_bind_tripleI:
  assumes "res_all Q r" and "\<And>a b c. Q (a, b, c) \<Longrightarrow> res_all P (f a b c)"
  shows "res_all P (bind_res r (\<lambda>(a, b, c). f a b c))"
  using assms by (cases r) auto

lemma res_all_ifI:
  "(b \<Longrightarrow> res_all P x) \<Longrightarrow> (\<not> b \<Longrightarrow> res_all P y) \<Longrightarrow> res_all P (if b then x else y)"
  by simp

lemma res_allD: "res_all P r \<Longrightarrow> r = Inr x \<Longrightarrow> P x"
  by simp

lemma res_allI: "(\<And>x. r = Inr x \<Longrightarrow> P x) \<Longrightarrow> res_all P r"
  by (cases r) simp_all

section \<open>Go strings\<close>

abbreviation is_space :: "char \<Rightarrow> bool" where
  "is_space c \<equiv> c \<in> {CHR '' '', CHR 0x09, CHR 0x0A, CHR 0x0B, CHR 0x0C, CHR 0x0D}"

definition is_digit_char :: "char \<Rightarrow> bool" where
  "is_digit_char c \<longleftrightarrow> 48 \<le> (of_char c :: nat) \<and> (of_char c :: nat) \<le> 57"

definition is_upper_char :: "char \<Rightarrow> bool" where
  "is_upper_char c \<longleftrightarrow> 65 \<le> (of_char c :: nat) \<and> (of_char c :: nat) \<le> 90"

definition is_lower_char :: "char \<Rightarrow> bool" where
  "is_lower_char c \<longleftrightarrow> 97 \<le> (of_char c :: nat) \<and> (of_char c :: nat) \<le> 122"

definition lower_char :: "char \<Rightarrow> char" where
  "lower_char c = (if is_upper_char c then char_of ((of_char c :: nat) + 32) else c)"

text \<open>\<open>strings.ToLower\<close>, \<open>strings.TrimSpace\<close>, \<open>strings.Fields\<close>.\<close>

definition to_lower :: "string \<Rightarrow> string" where
  "to_lower s = map lower_char s"

definition trim_space :: "string \<Rightarrow> string" where
  "trim_space s = rev (dropWhile is_space (rev (dropWhile is_space s)))"

fun fields_acc :: "string \<Rightarrow> string \<Rightarrow> string list" where
  "fields_acc w [] = (if w = [] then [] else [rev w])"
| "fields_acc w (c # cs) =
     (if is_space c then (if w = [] then fields_acc [] cs else rev w # fields_acc [] cs)
      else fields_acc (c # w) cs)"

definition go_fields :: "string \<Rightarrow> string list" where
  "go_fields s = fields_acc [] s"

text \<open>\<open>strings.Split\<close> by a one-byte separator and \<open>strings.Join\<close>.\<close>

fun split_on :: "char \<Rightarrow> string \<Rightarrow> string list" where
  "split_on c [] = [[]]"
| "split_on c (x # xs) =
     (if x = c then [] # split_on c xs
      else (case split_on c xs of [] \<Rightarrow> [[x]] | p # ps \<Rightarrow> (x # p) # ps))"

fun join :: "string \<Rightarrow> string list \<Rightarrow> string" where
  "join sep [] = []"
| "join sep [p] = p"
| "join sep (p # q # ps) = p @ sep @ join sep (q # ps)"

text \<open>\<open>strings.ReplaceAll(s, old, new)\<close> for a one-byte \<open>old\<close>.\<close>

definition replace_char :: "char \<Rightarrow> string \<Rightarrow> string \<Rightarrow> string" where
  "replace_char c new s = concat (map (\<lambda>x. if x = c then new else [x]) s)"

text \<open>\<open>strings.HasPrefix\<close>, \<open>strings.Contains\<close>, \<open>strings.Repeat\<close>, \<open>strings.TrimRight\<close>.\<close>

definition has_prefix :: "string \<Rightarrow> string \<Rightarrow> bool" where
  "has_prefix s p \<longleftrightarrow> take (length p) s = p"

fun contains :: "string \<Rightarrow> string \<Rightarrow> bool" where
  "contains [] sub = (sub = [])"
| "contains (x # xs) sub = (has_prefix (x # xs) sub \<or> contains xs sub)"

definition repeat_str :: "string \<Rightarrow> nat \<Rightarrow> string" where
  "repeat_str s n = concat (replicate n s)"

definition trim_right :: "string \<Rightarrow> string \<Rightarrow> string" where
  "trim_right s cutset = rev (dropWhile (\<lambda>c. c \<in> set cutset) (rev s))"

text \<open>Decimal printing: \<open>strconv.Itoa\<close> and the verb \<open>%d\<close>.\<close>

definition digit_char :: "nat \<Rightarrow> char" where
  "digit_char d = char_of (48 + d)"

fun itoa_nat :: "nat \<Rightarrow> string" where
  "itoa_nat n = (if n < 10 then [digit_char n] else itoa_nat (n div 10) @ [digit_char (n mod 10)])"

declare itoa_nat.simps [simp del]

definition itoa :: "int \<Rightarrow> string" where
  "itoa i = (if i < 0 then CHR ''-'' # itoa_nat (nat (- i)) else itoa_nat (nat i))"

text \<open>A Go \<open>int\<close> has 64 bits: what an arithmetic result is after wrap-around.\<close>

definition wrap64 :: "int \<Rightarrow> int" where
  "wrap64 i = (i + 2 ^ 63) mod 2 ^ 64 - 2 ^ 63"

lemma wrap64_id: "- (2 ^ 63) \<le> i \<Longrightarrow> i < 2 ^ 63 \<Longrightarrow> wrap64 i = i"
  by (simp add: wrap64_def)

section \<open>Lemmas on Go strings\<close>

lemma split_on_not_Nil [simp]: "split_on c s \<noteq> []"
  by (cases s) (auto split: list.splits)

lemma join_Cons: "join sep (p # ps) = (if ps = [] then p else p @ sep @ join sep ps)"
  by (cases ps) auto

lemma join_split_on [go_string_simps]: "join [c] (split_on c s) = s"
proof (induction s)
  case Nil
  then show ?case by simp
next
  case (Cons x xs)
  then show ?case
    by (cases "split_on c xs") (auto simp: join_Cons split: if_splits)
qed

lemma split_on_no_sep: "p \<in> set (split_on c s) \<Longrightarrow> c \<notin> set p"
proof (induction s arbitrary: p)
  case Nil
  then show ?case by simp
next
  case (Cons x xs)
  then show ?case
    by (cases "split_on c xs") (auto split: if_splits)
qed

lemma split_on_subset: "p \<in> set (split_on c s) \<Longrightarrow> set p \<subseteq> set s"
proof (induction s arbitrary: p)
  case Nil
  then show ?case by simp
next
  case (Cons x xs)
  show ?case
  proof (cases "x = c")
    case True
    with Cons show ?thesis by auto
  next
    case False
    obtain q qs where s: "split_on c xs = q # qs" by (cases "split_on c xs") auto
    with False Cons.prems have "p = x # q \<or> p \<in> set qs" by simp
    moreover have "set q \<subseteq> set xs" using Cons.IH [of q] s by simp
    moreover have "p \<in> set qs \<Longrightarrow> set p \<subseteq> set xs" using Cons.IH [of p] s by simp
    ultimately show ?thesis by auto
  qed
qed

lemma split_on_id: "c \<notin> set s \<Longrightarrow> split_on c s = [s]"
  by (induction s) auto

lemma split_on_append:
  "c \<notin> set p \<Longrightarrow> split_on c (p @ c # s) = p # split_on c s"
  by (induction p) auto

lemma split_on_join:
  assumes "ps \<noteq> []" and "\<forall>p \<in> set ps. c \<notin> set p"
  shows "split_on c (join [c] ps) = ps"
  using assms
proof (induction ps)
  case Nil
  then show ?case by simp
next
  case (Cons p ps)
  then show ?case
    by (cases "ps = []") (auto simp: join_Cons split_on_append split_on_id)
qed

text \<open>Text up to the first of some delimiters is determined by the whole.\<close>

lemma first_delimiter:
  assumes "x @ c # r = y @ d # s" and "set x \<inter> D = {}" and "set y \<inter> D = {}" and "c \<in> D" and "d \<in> D"
  shows "x = y \<and> c = d \<and> r = s"
  using assms
proof (induction x arbitrary: y)
  case Nil
  then show ?case by (cases y) auto
next
  case (Cons a x)
  then show ?case by (cases y) auto
qed

lemma replace_char_simps [simp]:
  "replace_char c r [] = []"
  "replace_char c r (x # xs) = (if x = c then r else [x]) @ replace_char c r xs"
  by (simp_all add: replace_char_def)

lemma replace_char_append [go_string_simps]:
  "replace_char c r (s @ t) = replace_char c r s @ replace_char c r t"
  by (simp add: replace_char_def)

lemma replace_char_id: "c \<notin> set s \<Longrightarrow> replace_char c r s = s"
  by (induction s) auto

lemma set_replace_char: "set (replace_char c r s) \<subseteq> set s \<union> set r"
  by (auto simp: replace_char_def split: if_splits)

lemma set_join: "set (join sep ps) \<subseteq> set sep \<union> \<Union> (set ` set ps)"
  by (induction sep ps rule: join.induct) auto

lemma join_eq_Nil: "join sep ps = [] \<Longrightarrow> (\<forall>p \<in> set ps. p = [])"
  by (induction sep ps rule: join.induct) auto

lemma is_digit_char_digit [simp]:
  assumes "d < 10"
  shows "is_digit_char (digit_char d)"
proof -
  have "of_char (digit_char d) = (48 + d) mod (256 :: nat)"
    by (simp add: digit_char_def)
  with assms show ?thesis by (simp add: is_digit_char_def)
qed

lemma digits_itoa_nat: "\<forall>c \<in> set (itoa_nat n). is_digit_char c"
proof (induction n rule: itoa_nat.induct)
  case (1 n)
  show ?case
  proof (cases "n < 10")
    case True
    then show ?thesis by (simp add: itoa_nat.simps [of n])
  next
    case False
    with "1.IH" show ?thesis by (auto simp: itoa_nat.simps [of n])
  qed
qed

lemma itoa_nat_not_Nil [simp]: "itoa_nat n \<noteq> []"
  by (subst itoa_nat.simps) simp

text \<open>Decimal numerals can be read back.\<close>

definition digit_value :: "char \<Rightarrow> nat" where
  "digit_value c = of_char c - 48"

definition read_digits :: "string \<Rightarrow> nat" where
  "read_digits s = foldl (\<lambda>n c. 10 * n + digit_value c) 0 s"

lemma digit_value_digit_char [simp]: "d < 10 \<Longrightarrow> digit_value (digit_char d) = d"
  by (simp add: digit_value_def digit_char_def)

lemma read_digits_itoa_nat: "read_digits (itoa_nat n) = n"
proof (induction n rule: itoa_nat.induct)
  case (1 n)
  then show ?case
    by (cases "n < 10") (simp_all add: itoa_nat.simps [of n] read_digits_def)
qed

lemma itoa_nat_inject [simp]: "itoa_nat m = itoa_nat n \<longleftrightarrow> m = n"
  by (metis read_digits_itoa_nat)

lemma itoa_inject:
  assumes "itoa i = itoa j"
  shows "i = j"
proof -
  have "CHR ''-'' \<notin> set (itoa_nat n)" for n
    using digits_itoa_nat [of n] by (auto simp: is_digit_char_def)
  then have "itoa_nat m \<noteq> CHR ''-'' # s" for m s by (metis list.set_intros(1))
  then show ?thesis
    using assms by (auto simp: itoa_def split: if_splits) metis+
qed

lemma trim_right_repeat_sep:
  "trim_right (repeat_str (p @ sep) n) sep = (if n = 0 then [] else join sep (replicate n p))"
  if "p \<noteq> []" and "last p \<notin> set sep"
proof (cases n)
  case 0
  then show ?thesis by (simp add: trim_right_def repeat_str_def)
next
  case (Suc m)
  have rep: "repeat_str (p @ sep) (Suc m) = join sep (replicate (Suc m) p) @ sep" for m
    by (induction m) (auto simp: repeat_str_def join_Cons)
  have last: "join sep (replicate (Suc m) p) \<noteq> [] \<and>
      last (join sep (replicate (Suc m) p)) = last p" for m
    using that by (induction m) (auto simp: join_Cons last_append)
  have drop: "dropWhile (\<lambda>c. c \<in> set sep) (rev (t @ sep)) = rev t"
    if "t \<noteq> []" "last t \<notin> set sep" for t
  proof -
    have "dropWhile (\<lambda>c. c \<in> set sep) (rev sep @ rev t) = dropWhile (\<lambda>c. c \<in> set sep) (rev t)"
      by (rule dropWhile_append2) simp
    also have "\<dots> = rev t"
      using that by (simp add: dropWhile_eq_self_iff hd_rev)
    finally show ?thesis by simp
  qed
  show ?thesis
    using Suc that rep [of m] last [of m] drop [of "join sep (replicate (Suc m) p)"]
    by (simp add: trim_right_def)
qed

end
