(* ===== verification/Query_AST.thy ===== *)
theory Query_AST
  imports Oro_Prelude "HOL-Library.Word"
begin

text \<open>
  The data the query builders hand to a dialect: the statement trees of
  internal/queryast/types.go, the expression values of expression.go and query\_helpers.go that
  travel inside a Go \<open>any\<close>, and the schema descriptions of internal/meta/types.go.

  A Go interface value is \<open>goany\<close>: one constructor for each dynamic type the modelled code
  inspects with a type switch or assertion, and \<open>AOther\<close> for a value of any other type,
  represented by the text \<open>fmt.Sprint\<close> gives for it. A \<open>time.Time\<close> is represented by its UTC
  text with seconds, a \<open>fmt.Stringer\<close> by its \<open>String()\<close>. Structs that refer back to the tree
  are datatypes with one constructor and the struct's fields as selectors, the others are
  records; a pointer field is an option. A Go map is an association list without repeated
  keys, in the order in which one particular iteration visits it.
\<close>

section \<open>Statement trees\<close>

datatype lock_mode = LockNone | LockUpdate | LockShare | LockModeOther int

record lock_spec =
  lock_Mode :: lock_mode
  lock_NoWait :: bool
  lock_SkipLocked :: bool

datatype join_type = JoinInner | JoinLeft | JoinRight | JoinFull | JoinCross | JoinTypeOther int

datatype 'a raw_spec = RawSpec (raw_SQL: string) (raw_Args: "'a list")

datatype ('a, 's) select_expr =
  SelectExpr (sel_Expr: string) (sel_Alias: string) (sel_Raw: bool) (sel_Args: "'a list")
    (sel_Source: "'s option")

datatype 'a order_expr =
  OrderExpr (ord_Expr: string) (ord_Desc: bool) (ord_Raw: bool) (ord_Args: "'a list")

datatype 'a join_condition =
  JoinCondition (jc_Bool: string) (jc_Left: string) (jc_Op: string) (jc_Right: string)
    (jc_Value: 'a) (jc_Column: bool) (jc_Group: "'a join_condition list")
    (jc_Err: "go_error option")

datatype ('a, 's) join_ast =
  JoinAST (join_Type: join_type) (join_Table: string) (join_Alias: string) (join_Source: 's)
    (join_Raw: "'a raw_spec option") (join_Err: "go_error option")
    (join_Conditions: "'a join_condition list")

datatype goany =
    ANil
  | ABool bool
  | AInt "64 word" | AInt8 "8 word" | AInt16 "16 word" | AInt32 "32 word" | AInt64 "64 word"
  | AUint "64 word" | AUint8 "8 word" | AUint16 "16 word" | AUint32 "32 word" | AUint64 "64 word"
  | AString string
  | ABytes string
  | ATime string
  | AStringer string
  | AOther string
  | AError go_error
  | AList "goany list"
  | ASource source_ast
  | ASourcePtr source_ast
  | AColumnCondition (acol_Op: string) (acol_Right: string)
  | ACountCondition (acnt_Source: "source_ast option") (acnt_Op: string) (acnt_Value: "64 word")
  | AJSONCondition (ajson_Field: string) (ajson_Parts: "string list") (ajson_Op: string)
      (ajson_Value: goany)
  | AFullTextExpr (aft_Fields: "string list") (aft_Query: string) (aft_Alias: string)
      (aft_IsScore: bool)
  | AAggregateExpr (aagg_Func: string) (aagg_Field: string) (aagg_Alias: string)
  | AIncrementExpr goany
  | ADecrementExpr goany
  | ARawExpr "goany raw_spec"
  | ACondition condition
  | AFieldExpr (afld_Name: string) (afld_Alias: string)
and source_ast =
  SourceAST (src_Table: string) (src_Alias: string) (src_Query: "select_ast option")
    (src_Raw: "goany raw_spec option")
and condition =
  Condition (cond_Bool: string) (cond_Field: string) (cond_Op: string) (cond_Value: goany)
    (cond_Conditions: "condition list") (cond_Escape: string)
and select_ast =
  SelectAST (stmt_Table: string) (stmt_Alias: string) (stmt_From: source_ast)
    (stmt_Joins: "(goany, source_ast) join_ast list") (stmt_Where: "condition list")
    (stmt_Select: "(goany, source_ast) select_expr list") (stmt_Group: "string list")
    (stmt_Having: "condition list") (stmt_Order: "goany order_expr list")
    (stmt_Limit: "int option") (stmt_Offset: "int option") (stmt_Lock: lock_spec)

type_synonym gomap = "(string \<times> goany) list"

type_synonym sel_item = "(goany, source_ast) select_expr"
type_synonym join_item = "(goany, source_ast) join_ast"
type_synonym join_cond = "goany join_condition"
type_synonym order_item = "goany order_expr"
type_synonym raw_sql = "goany raw_spec"

record conflict_spec =
  conf_Columns :: "string list"
  conf_DoNothing :: bool
  conf_UpdateAll :: bool
  conf_UpdateExcept :: "string list"
  conf_Update :: "string list"
  conf_UpdateMap :: gomap

definition no_conflict :: conflict_spec where
  "no_conflict = \<lparr>conf_Columns = [], conf_DoNothing = False, conf_UpdateAll = False,
     conf_UpdateExcept = [], conf_Update = [], conf_UpdateMap = []\<rparr>"

record insert_ast =
  ins_Table :: string
  ins_Values :: "gomap list"
  ins_Conflict :: conflict_spec
  ins_Returning :: bool

record update_ast =
  upd_Table :: string
  upd_Values :: gomap
  upd_Where :: "condition list"

record delete_ast =
  del_Table :: string
  del_Where :: "condition list"

datatype statement =
    StmtSelect select_ast
  | StmtInsert insert_ast
  | StmtUpdate update_ast
  | StmtDelete delete_ast
  | StmtOther

record compiled_sql =
  c_SQL :: string
  c_Args :: "goany list"

type_synonym fragment = "string \<times> goany list"

text \<open>Sizes of the parts of a tree, for the termination of the recursive compilers.\<close>

abbreviation sel_size :: "sel_item \<Rightarrow> nat" where
  "sel_size \<equiv> size_select_expr size size"

abbreviation join_size :: "join_item \<Rightarrow> nat" where
  "join_size \<equiv> size_join_ast size size"

named_theorems ast_size \<open>a field of a tree is smaller than the tree\<close>
named_theorems ast_size_dest \<open>what a field of a tree holds is smaller than the tree\<close>

lemma size_src_Query [ast_size_dest]: "src_Query s = Some q \<Longrightarrow> size q < size s"
  by (cases s) auto

lemma size_sel_Source [ast_size_dest]: "sel_Source i = Some s \<Longrightarrow> size s < sel_size i"
  by (cases i) auto

lemma size_sel_Args [ast_size_dest]: "sel_Args i = [ASource s] \<Longrightarrow> size s < sel_size i"
  by (cases i) auto

lemma size_join_Source [ast_size]: "size (join_Source j) < join_size j"
  by (cases j) auto

lemma size_cond_SourcePtr [ast_size_dest]: "cond_Value c = ASourcePtr s \<Longrightarrow> size s < size c"
  by (cases c) auto

lemma size_cond_Count [ast_size_dest]:
  "cond_Value c = ACountCondition (Some s) op n \<Longrightarrow> size s < size c"
  by (cases c) auto

lemma size_cond_Conditions [ast_size]: "size_list size (cond_Conditions c) < size c"
  by (cases c) auto

lemma size_stmt [ast_size]:
  "size (stmt_From st) < size st"
  "size_list sel_size (stmt_Select st) < size st"
  "size_list join_size (stmt_Joins st) < size st"
  "size_list size (stmt_Where st) < size st"
  "size_list size (stmt_Having st) < size st"
  by (cases st; simp)+

lemma size_stmt_Select [ast_size]:
  "2 * size_list sel_size (stmt_Select st) < Suc (2 * size st)"
  using size_stmt(2) [of st] by simp

lemma size_source_same [ast_size]: "size (SourceAST t a (src_Query s) (src_Raw s)) = size s"
  by (cases s) simp

lemma size_option_pos: "0 < size_option f x"
  by (cases x) auto

lemma size_source_table [ast_size]: "size (SourceAST t a None None) < size (st :: select_ast)"
proof -
  have "size (SourceAST t a None None) \<le> size (stmt_From st)"
    using size_option_pos [of size "src_Query (stmt_From st)"]
      size_option_pos [of "size_raw_spec size" "src_Raw (stmt_From st)"]
    by (cases "stmt_From st") simp
  then show ?thesis using size_stmt(1) [of st] by simp
qed

section \<open>Schema descriptions\<close>

record default_spec =
  def_Value :: goany
  def_Expr :: string

record column_spec =
  col_FieldName :: string
  col_ColumnName :: string
  col_Type :: string
  col_Size :: int
  col_SizeSet :: bool
  col_Precision :: int
  col_Scale :: int
  col_Default :: "default_spec option"
  col_EnumValues :: "string list"
  col_Comment :: string
  col_Primary :: bool
  col_Nullable :: bool

record index_spec =
  idx_Name :: string
  idx_Fields :: "string list"
  idx_Unique :: bool
  idx_FullText :: bool

record table_spec =
  tbl_Name :: string
  tbl_Columns :: "column_spec list"
  tbl_Indexes :: "index_spec list"

datatype schema_change_kind =
    SchemaCreateTable | SchemaAddColumn | SchemaCreateIndex | SchemaUnsafeChange
  | SchemaRenameColumn | SchemaChangeKindOther int

text \<open>The zero values of the structs: what a composite literal leaves unset.\<close>

definition zero_column :: column_spec where
  "zero_column = \<lparr>col_FieldName = [], col_ColumnName = [], col_Type = [], col_Size = 0,
     col_SizeSet = False, col_Precision = 0, col_Scale = 0, col_Default = None,
     col_EnumValues = [], col_Comment = [], col_Primary = False, col_Nullable = False\<rparr>"

definition zero_index :: index_spec where
  "zero_index = \<lparr>idx_Name = [], idx_Fields = [], idx_Unique = False, idx_FullText = False\<rparr>"

definition named_table :: "string \<Rightarrow> table_spec" where
  "named_table name = \<lparr>tbl_Name = name, tbl_Columns = [], tbl_Indexes = []\<rparr>"

record schema_change =
  chg_Kind :: schema_change_kind
  chg_Table :: table_spec
  chg_Column :: column_spec
  chg_Current :: column_spec
  chg_Index :: index_spec

record capabilities =
  cap_Returning :: bool
  cap_Upsert :: bool
  cap_Savepoint :: bool
  cap_LockForUpdate :: bool
  cap_LockForShare :: bool
  cap_LockNoWait :: bool
  cap_LockSkipLocked :: bool
  cap_FullJoin :: bool
  cap_JSON :: bool
  cap_FullText :: bool
  cap_CheckConstraint :: bool

section \<open>Maps\<close>

text \<open>The keys of a map, and the keys in the order \<open>sort.Strings\<close> gives them.\<close>

definition keys_of :: "gomap \<Rightarrow> string list" where
  "keys_of m = map fst m"

definition wf_map :: "gomap \<Rightarrow> bool" where
  "wf_map m \<longleftrightarrow> distinct (keys_of m)"

definition sortedKeys :: "gomap \<Rightarrow> string list" where
  "sortedKeys row = sort (keys_of row)"

text \<open>\<open>m[k]\<close> in a context that uses the value only: the zero value of \<open>any\<close> is \<open>nil\<close>.\<close>

definition map_get :: "gomap \<Rightarrow> string \<Rightarrow> goany" where
  "map_get m k = (case map_of m k of None \<Rightarrow> ANil | Some v \<Rightarrow> v)"

lemma keys_of_perm: "mset m = mset m' \<Longrightarrow> mset (keys_of m) = mset (keys_of m')"
  by (simp add: keys_of_def)

lemma sortedKeys_perm:
  assumes "mset m = mset m'"
  shows "sortedKeys m = sortedKeys m'"
proof -
  have "mset (sortedKeys m) = mset (keys_of m')"
    using keys_of_perm [OF assms] by (simp add: sortedKeys_def)
  then show ?thesis
    unfolding sortedKeys_def by (rule properties_for_sort [symmetric]) simp
qed

lemma map_of_perm:
  assumes "mset m = mset m'" and "wf_map m"
  shows "map_of m = map_of m'"
proof -
  have "mset (map fst m) = mset (map fst m')"
    using assms(1) by simp
  then have "distinct (map fst m')"
    using assms(2) by (metis wf_map_def keys_of_def mset_eq_imp_distinct_iff)
  moreover have "set m = set m'" using assms(1) by (rule mset_eq_setD)
  moreover have "distinct (map fst m)" using assms(2) by (simp add: wf_map_def keys_of_def)
  ultimately show ?thesis by (metis map_of_inject_set)
qed

lemma map_get_perm: "mset m = mset m' \<Longrightarrow> wf_map m \<Longrightarrow> map_get m = map_get m'"
  by (simp add: fun_eq_iff map_get_def map_of_perm)

lemma length_sortedKeys [simp]: "length (sortedKeys m) = length m"
  by (simp add: sortedKeys_def keys_of_def)

lemma set_sortedKeys [simp]: "set (sortedKeys m) = fst ` set m"
  by (simp add: sortedKeys_def keys_of_def)

end
