(* ===== verification/Query_Util.thy ===== *)
theory Query_Util
  imports Query_AST
begin

text \<open>
  Small functions every dialect calls: the operator white lists of where.go, the LIKE escaping
  of expression.go, the JSON paths and aggregate expressions of internal/queryutil, and the
  literals of internal/sqlformat. The lemmas show that an operator that passes a white list is
  one of the listed words, that LIKE escaping loses nothing and leaves no bare wildcard, and
  that a quoted literal can be read back.
\<close>

section \<open>Condition operators (where.go)\<close>

definition NormalizeConditionOperator :: "string \<Rightarrow> string" where
  "NormalizeConditionOperator op = join '' '' (go_fields (to_lower (trim_space op)))"

definition safe_condition_operators :: "string list" where
  "safe_condition_operators =
     [''='', ''!='', ''<>'', ''<'', ''<='', ''>'', ''>='', ''like'', ''not like'', ''ilike'',
      ''not ilike'', ''is'', ''is not'']"

definition IsSafeConditionOperator :: "string \<Rightarrow> bool" where
  "IsSafeConditionOperator op \<longleftrightarrow>
     NormalizeConditionOperator op \<in> set safe_condition_operators"

definition safe_column_operators :: "string list" where
  "safe_column_operators = [''='', ''!='', ''<>'', ''<'', ''<='', ''>'', ''>='']"

definition IsSafeColumnOperator :: "string \<Rightarrow> bool" where
  "IsSafeColumnOperator op \<longleftrightarrow>
     NormalizeConditionOperator op \<in> set safe_column_operators"

text \<open>The characters the white-listed operators are made of.\<close>

definition operator_chars :: "char set" where
  "operator_chars = set ''=!<> likenots''"

lemma safe_operator_chars:
  assumes "IsSafeConditionOperator op"
  shows "set (NormalizeConditionOperator op) \<subseteq> operator_chars"
  using assms
  by (auto simp: IsSafeConditionOperator_def safe_condition_operators_def operator_chars_def)

lemma IsSafeColumnOperator_condition:
  "IsSafeColumnOperator op \<Longrightarrow> IsSafeConditionOperator op"
  by (auto simp: IsSafeColumnOperator_def IsSafeConditionOperator_def
      safe_condition_operators_def safe_column_operators_def)

section \<open>Escaping for LIKE (expression.go)\<close>

definition EscapeLike :: "string \<Rightarrow> string" where
  "EscapeLike value =
     replace_char (CHR ''_'') [CHR 0x5C, CHR ''_'']
       (replace_char (CHR ''%'') [CHR 0x5C, CHR ''%'']
         (replace_char (CHR 0x5C) [CHR 0x5C, CHR 0x5C] value))"

text \<open>
  What a LIKE pattern with the escape character backslash matches: literal characters, any one
  character for an underscore, any sequence for a percent sign, and the escaped character after
  a backslash.
\<close>

datatype like_token = LikeChar char | LikeOne | LikeAny

fun like_tokens :: "string \<Rightarrow> like_token list option" where
  "like_tokens [] = Some []"
| "like_tokens [c] =
     (if c = CHR 0x5C then None
      else Some [if c = CHR ''_'' then LikeOne else if c = CHR ''%'' then LikeAny else LikeChar c])"
| "like_tokens (c # d # cs) =
     (if c = CHR 0x5C then map_option ((#) (LikeChar d)) (like_tokens cs)
      else map_option ((#) (if c = CHR ''_'' then LikeOne else if c = CHR ''%'' then LikeAny
                            else LikeChar c)) (like_tokens (d # cs)))"

lemma EscapeLike_simps [simp]:
  "EscapeLike [] = []"
  "EscapeLike (c # cs) =
     (if c \<in> {CHR 0x5C, CHR ''%'', CHR ''_''} then [CHR 0x5C, c] else [c]) @ EscapeLike cs"
  by (auto simp: EscapeLike_def replace_char_append)

lemma like_tokens_plain:
  "c \<noteq> CHR 0x5C \<Longrightarrow> c \<noteq> CHR ''%'' \<Longrightarrow> c \<noteq> CHR ''_'' \<Longrightarrow>
   like_tokens (c # cs) = map_option ((#) (LikeChar c)) (like_tokens cs)"
  by (cases cs) auto

lemma like_tokens_any:
  "like_tokens (CHR ''%'' # cs) = map_option ((#) LikeAny) (like_tokens cs)"
  by (cases cs) auto

lemma like_tokens_EscapeLike_append:
  "like_tokens (EscapeLike s @ rest) = map_option ((@) (map LikeChar s)) (like_tokens rest)"
proof (induction s)
  case Nil
  show ?case by (cases "like_tokens rest") auto
next
  case (Cons c cs)
  show ?case
  proof (cases "c \<in> {CHR 0x5C, CHR ''%'', CHR ''_''}")
    case True
    with Cons.IH show ?thesis by (cases "like_tokens rest") auto
  next
    case False
    with Cons.IH show ?thesis
      by (cases "like_tokens rest") (auto simp: like_tokens_plain)
  qed
qed

lemma like_tokens_EscapeLike: "like_tokens (EscapeLike s) = Some (map LikeChar s)"
  using like_tokens_EscapeLike_append [of s "[]"] by simp

section \<open>JSON paths and aggregates (internal/queryutil)\<close>

definition isJSONPathIdentifier :: "string \<Rightarrow> bool" where
  "isJSONPathIdentifier part \<longleftrightarrow>
     part \<noteq> [] \<and>
     (\<forall>index < length part. let char = part ! index in
        char = CHR ''_'' \<or> is_lower_char char \<or> is_upper_char char \<or>
        0 < index \<and> is_digit_char char)"

text \<open>The replacer \<open>strings.NewReplacer\<close> builds from backslash and double quote.\<close>

definition jsonPathReplace :: "string \<Rightarrow> string" where
  "jsonPathReplace s =
     concat (map (\<lambda>c. if c = CHR 0x5C then [CHR 0x5C, CHR 0x5C]
                      else if c = CHR 0x22 then [CHR 0x5C, CHR 0x22] else [c]) s)"

definition json_path_part :: "string \<Rightarrow> string" where
  "json_path_part part =
     (if isJSONPathIdentifier part then ''.'' @ part
      else ''.'' @ [CHR 0x22] @ jsonPathReplace part @ [CHR 0x22])"

definition JSONPath :: "string list \<Rightarrow> string" where
  "JSONPath parts = ''$'' @ concat (map json_path_part parts)"

text \<open>The error text \<open>fmt.Errorf\<close> makes is never shown: the dialects replace it.\<close>

definition AggregateSelectSQL :: "string \<Rightarrow> string \<Rightarrow> (string \<Rightarrow> string) \<Rightarrow> string result" where
  "AggregateSelectSQL op field quote =
     (if op = [] \<or> field = [] then Inl (GoError ''invalid aggregate expression'')
      else if field = ''*'' then Inr (op @ ''(*)'')
      else Inr (op @ ''('' @ quote field @ '')''))"

section \<open>Literals (internal/sqlformat)\<close>

definition QuoteString :: "string \<Rightarrow> string" where
  "QuoteString value = [CHR 0x27] @ replace_char (CHR 0x27) [CHR 0x27, CHR 0x27] value @ [CHR 0x27]"

text \<open>
  \<open>fmt.Sprint\<close> on a number prints it in decimal and on \<open>AOther\<close> gives its text; \<open>sprint\<close>
  stands for the printing of the remaining, structured, values.
\<close>

definition fmt_sprint :: "(goany \<Rightarrow> string) \<Rightarrow> goany \<Rightarrow> string" where
  "fmt_sprint sprint value =
     (case value of
        AInt w \<Rightarrow> itoa (sint w) | AInt8 w \<Rightarrow> itoa (sint w) | AInt16 w \<Rightarrow> itoa (sint w)
      | AInt32 w \<Rightarrow> itoa (sint w) | AInt64 w \<Rightarrow> itoa (sint w)
      | AUint w \<Rightarrow> itoa (uint w) | AUint8 w \<Rightarrow> itoa (uint w) | AUint16 w \<Rightarrow> itoa (uint w)
      | AUint32 w \<Rightarrow> itoa (uint w) | AUint64 w \<Rightarrow> itoa (uint w)
      | AOther s \<Rightarrow> s
      | v \<Rightarrow> sprint v)"

definition DefaultValue :: "(goany \<Rightarrow> string) \<Rightarrow> goany \<Rightarrow> string" where
  "DefaultValue sprint value =
     (case value of
        ANil \<Rightarrow> ''null''
      | ABool b \<Rightarrow> (if b then ''true'' else ''false'')
      | AString s \<Rightarrow> QuoteString s
      | ABytes s \<Rightarrow> QuoteString s
      | ATime s \<Rightarrow> QuoteString s
      | AStringer s \<Rightarrow> QuoteString s
      | v \<Rightarrow> fmt_sprint sprint v)"

definition SizedType :: "string \<Rightarrow> int \<Rightarrow> string" where
  "SizedType name sz = (if sz \<le> 0 then name else name @ ''('' @ itoa sz @ '')'')"

text \<open>Reading a standard SQL string literal: a doubled quote is one quote, a single one ends it.\<close>

fun read_literal_body :: "char \<Rightarrow> string \<Rightarrow> (string \<times> string) option" where
  "read_literal_body q [] = None"
| "read_literal_body q [c] = (if c = q then Some ([], []) else None)"
| "read_literal_body q (c # d # cs) =
     (if c = q then
        (if d = q then map_option (\<lambda>(s, r). (q # s, r)) (read_literal_body q cs)
         else Some ([], d # cs))
      else map_option (\<lambda>(s, r). (c # s, r)) (read_literal_body q (d # cs)))"

definition read_literal :: "char \<Rightarrow> string \<Rightarrow> (string \<times> string) option" where
  "read_literal q s = (case s of [] \<Rightarrow> None | c # cs \<Rightarrow> if c = q then read_literal_body q cs else None)"

lemma read_literal_body_other:
  "c \<noteq> q \<Longrightarrow> read_literal_body q (c # cs) =
     map_option (\<lambda>(s, r). (c # s, r)) (read_literal_body q cs)"
  by (cases cs) auto

lemma read_literal_body_end:
  "rest = [] \<or> hd rest \<noteq> q \<Longrightarrow> read_literal_body q (q # rest) = Some ([], rest)"
  by (cases rest) auto

lemma read_literal_body_replace:
  assumes "rest = [] \<or> hd rest \<noteq> q"
  shows "read_literal_body q (replace_char q [q, q] s @ q # rest) = Some (s, rest)"
  by (induction s) (auto simp: read_literal_body_other read_literal_body_end [OF assms])

lemma read_literal_QuoteString:
  assumes "rest = [] \<or> hd rest \<noteq> CHR 0x27"
  shows "read_literal (CHR 0x27) (QuoteString s @ rest) = Some (s, rest)"
  using read_literal_body_replace [OF assms] by (simp add: read_literal_def QuoteString_def)

end
