(* ===== verification/Sqlite_Dialect.thy ===== *)
theory Sqlite_Dialect
  imports Query_Util
begin

text \<open>
  The SQLite dialect, driver/sqlite/dialect.go: one definition per function of the file, in the
  order of the file. The functions that call each other (a select compiles its sources, a source
  its sub-select, a condition its sub-queries) are one mutually recursive definition, with a
  termination proof by the size of the tree; a \<open>for\<close> loop whose body calls back into them is a
  function of its own over the remaining list.
\<close>

record sqlite_dialect =
  disableReturning :: bool

definition sqlite_Name :: string where
  "sqlite_Name = ''sqlite''"

definition sqlite_Capabilities :: "sqlite_dialect \<Rightarrow> capabilities" where
  "sqlite_Capabilities d =
     (let capabilities = \<lparr>cap_Returning = True, cap_Upsert = True, cap_Savepoint = True,
        cap_LockForUpdate = False, cap_LockForShare = False, cap_LockNoWait = False,
        cap_LockSkipLocked = False, cap_FullJoin = False, cap_JSON = True, cap_FullText = False,
        cap_CheckConstraint = True\<rparr>
      in if disableReturning d then capabilities\<lparr>cap_Returning := False\<rparr> else capabilities)"

definition sqlite_QuoteIdent :: "string \<Rightarrow> string" where
  "sqlite_QuoteIdent name =
     join ''.'' (map (\<lambda>part. [CHR 0x22] @ replace_char (CHR 0x22) [CHR 0x22, CHR 0x22] part @ [CHR 0x22])
                     (split_on (CHR ''.'') name))"

definition sqlite_Placeholder :: "int \<Rightarrow> string" where
  "sqlite_Placeholder index = ''?''"

definition sqlite_varchar_or_text :: "column_spec \<Rightarrow> string" where
  "sqlite_varchar_or_text column =
     (if 0 < col_Size column then ''varchar('' @ itoa (col_Size column) @ '')'' else ''text'')"

definition sqlite_numeric :: "column_spec \<Rightarrow> string" where
  "sqlite_numeric column =
     (if col_Precision column \<le> 0 then ''numeric''
      else ''numeric('' @ itoa (col_Precision column) @ '','' @ itoa (col_Scale column) @ '')'')"

definition sqlite_DataType :: "column_spec \<Rightarrow> string result" where
  "sqlite_DataType column =
     (let typ = col_Type column in
      if typ = ''string'' then Inr (sqlite_varchar_or_text column)
      else if typ = ''text'' then Inr ''text''
      else if typ \<in> {''bool'', ''uint'', ''uint64'', ''uint32'', ''int'', ''int64'', ''int32''}
        then Inr ''integer''
      else if typ = ''decimal'' then Inr (sqlite_numeric column)
      else if typ \<in> {''float'', ''double''} then Inr ''real''
      else if typ = ''binary'' then Inr ''blob''
      else if typ \<in> {''json'', ''string_array'', ''int_array''} then Inr ''text''
      else if typ = ''uuid'' then Inr ''text''
      else if typ = ''time.Time'' then Inr ''datetime''
      else if typ = ''date'' then Inr ''date''
      else if typ = ''time'' then Inr ''time''
      else if typ \<in> {''enum'', ''email'', ''url'', ''ip'', ''mac'', ''phone'', ''slug'', ''color'',
                      ''point''} then Inr (sqlite_varchar_or_text column)
      else if contains typ ''time.Time'' then Inr ''datetime''
      else if contains typ ''Decimal'' then Inr (sqlite_numeric column)
      else if contains typ ''JSON'' then Inr ''text''
      else Inr ''text'')"

definition sqlite_NormalizeType :: "string \<Rightarrow> (string \<times> string) result" where
  "sqlite_NormalizeType dbType = Inr (to_lower dbType, dbType)"

section \<open>Clauses that contain no sub-query\<close>

definition sqlite_compileAggregateSelect :: "sel_item \<Rightarrow> string result" where
  "sqlite_compileAggregateSelect item =
     (case sel_Args item of
        [] \<Rightarrow> Inl (mk_error ''sqlite.select'' ErrInvalidArgument)
      | AAggregateExpr func field alias # _ \<Rightarrow>
          (case AggregateSelectSQL func field sqlite_QuoteIdent of
             Inl _ \<Rightarrow> Inl (mk_error ''sqlite.select'' ErrInvalidArgument)
           | Inr sql \<Rightarrow> Inr sql)
      | _ \<Rightarrow> Inl (mk_error ''sqlite.select'' ErrInvalidArgument))"

fun sqlite_joinConditionParts :: "bool \<Rightarrow> join_cond list \<Rightarrow> string list \<times> goany list"
  and sqlite_compileJoinConditions :: "join_cond list \<Rightarrow> fragment" where
  "sqlite_joinConditionParts first [] = ([], [])"
| "sqlite_joinConditionParts first (JoinCondition bool left op right value column grp err # rest) =
     (let prefix = (if first then '''' else to_lower bool @ '' '');
          (parts, args) = sqlite_joinConditionParts False rest
      in if grp \<noteq> [] then
           (let (groupSQL, groupArgs) = sqlite_compileJoinConditions grp
            in ((prefix @ ''('' @ groupSQL @ '')'') # parts, groupArgs @ args))
         else if column then
           ((prefix @ sqlite_QuoteIdent left @ '' '' @ op @ '' '' @ sqlite_QuoteIdent right) # parts, args)
         else ((prefix @ sqlite_QuoteIdent left @ '' '' @ op @ '' ?'') # parts, value # args))"
| "sqlite_compileJoinConditions conditions =
     (let (parts, args) = sqlite_joinConditionParts True conditions in (join '' '' parts, args))"

definition sqlite_compileColumnCondition :: "condition \<Rightarrow> string result" where
  "sqlite_compileColumnCondition condition =
     (case cond_Value condition of
        AColumnCondition op right \<Rightarrow>
          (if right = [] then Inl (mk_field_error ''sqlite.where'' ErrInvalidArgument (cond_Field condition))
           else if \<not> IsSafeColumnOperator op
             then Inl (mk_field_error ''sqlite.where'' ErrInvalidArgument (cond_Field condition))
           else Inr (sqlite_QuoteIdent (cond_Field condition) @ '' '' @ NormalizeConditionOperator op
                     @ '' '' @ sqlite_QuoteIdent right))
      | _ \<Rightarrow> Inl (mk_field_error ''sqlite.where'' ErrInvalidArgument (cond_Field condition)))"

definition sqlite_compileInValuesCondition :: "condition \<Rightarrow> bool \<Rightarrow> fragment result" where
  "sqlite_compileInValuesCondition condition negated =
     (case cond_Value condition of
        AList values \<Rightarrow>
          (if values = [] then Inr (if negated then ''1 = 1'' else ''1 = 0'', [])
           else Inr (sqlite_QuoteIdent (cond_Field condition) @ (if negated then '' not in '' else '' in '')
                     @ ''('' @ join '', '' (replicate (length values) ''?'') @ '')'', values))
      | _ \<Rightarrow> Inl (mk_field_error ''sqlite.where'' ErrInvalidArgument (cond_Field condition)))"

definition sqlite_compileBetweenCondition :: "condition \<Rightarrow> fragment result" where
  "sqlite_compileBetweenCondition condition =
     (case cond_Value condition of
        AList values \<Rightarrow>
          (if length values \<noteq> 2
             then Inl (mk_field_error ''sqlite.where'' ErrInvalidArgument (cond_Field condition))
           else Inr (sqlite_QuoteIdent (cond_Field condition) @ '' between ? and ?'', values))
      | _ \<Rightarrow> Inl (mk_field_error ''sqlite.where'' ErrInvalidArgument (cond_Field condition)))"

definition sqliteJSONPath :: "string list \<Rightarrow> string" where
  "sqliteJSONPath parts = JSONPath parts"

definition sqlite_compileJSONCondition :: "condition \<Rightarrow> fragment result" where
  "sqlite_compileJSONCondition condition =
     (case cond_Value condition of
        AJSONCondition field parts jop value \<Rightarrow>
          (let expr = ''json_extract('' @ sqlite_QuoteIdent field @ '', ?)'';
               path = AString (sqliteJSONPath parts);
               op = to_lower jop
           in if op = ''='' then Inr (expr @ '' = ?'', [path, value])
              else if op = ''!='' then Inr (expr @ '' != ?'', [path, value])
              else if op = ''is null'' then Inr (expr @ '' is null'', [path])
              else if op = ''is not null'' then Inr (expr @ '' is not null'', [path])
              else if op = ''exists''
                then Inr (''json_type('' @ sqlite_QuoteIdent field @ '', ?) is not null'', [path])
              else if op = ''contains'' then Inl (mk_error ''sqlite.json'' ErrUnsupported)
              else if op = ''like'' then Inr (expr @ '' like ?'', [path, value])
              else Inl (mk_error ''sqlite.json'' ErrInvalidArgument))
      | _ \<Rightarrow> Inl (mk_error ''sqlite.json'' ErrInvalidArgument))"

definition sqlite_compileGroup :: "string list \<Rightarrow> string" where
  "sqlite_compileGroup fs = join '', '' (map sqlite_QuoteIdent fs)"

definition sqlite_orderItem :: "order_item \<Rightarrow> string" where
  "sqlite_orderItem item =
     (let expr = (if ord_Raw item then ord_Expr item else sqlite_QuoteIdent (ord_Expr item))
      in if ord_Desc item then expr @ '' desc''
         else if \<not> ord_Raw item then expr @ '' asc'' else expr)"

definition sqlite_compileOrder :: "order_item list \<Rightarrow> fragment" where
  "sqlite_compileOrder items =
     (join '', '' (map sqlite_orderItem items), concat (map ord_Args items))"

section \<open>Selects, sources, joins and conditions\<close>

definition sqlite_cond_prefix :: "bool \<Rightarrow> condition \<Rightarrow> string" where
  "sqlite_cond_prefix first condition =
     (if first then ''''
      else if to_lower (trim_space (cond_Bool condition)) = ''or'' then '' or '' else '' and '')"

text \<open>
  The end of \<open>compileSelect\<close>, from the limit on: its text, or the error of a negative limit or
  offset or of an unsupported lock option.
\<close>

definition sqlite_limit_offset_lock :: "select_ast \<Rightarrow> string result" where
  "sqlite_limit_offset_lock stmt =
     bind_res
       (case stmt_Limit stmt of
          None \<Rightarrow> Inr ''''
        | Some limit \<Rightarrow>
            (if limit < 0 then Inl (mk_field_error ''sqlite.select'' ErrInvalidArgument ''Limit'')
             else Inr ('' limit '' @ itoa limit)))
     (\<lambda>limitSQL. bind_res
       (case stmt_Offset stmt of
          None \<Rightarrow> Inr ''''
        | Some offset \<Rightarrow>
            (if offset < 0 then Inl (mk_field_error ''sqlite.select'' ErrInvalidArgument ''Offset'')
             else Inr ((if stmt_Limit stmt = None then '' limit -1'' else '''') @ '' offset '' @ itoa offset)))
     (\<lambda>offsetSQL.
       if lock_Mode (stmt_Lock stmt) \<noteq> LockNone \<and>
          (lock_NoWait (stmt_Lock stmt) \<or> lock_SkipLocked (stmt_Lock stmt))
       then Inl (mk_error ''sqlite.lock'' ErrUnsupported)
       else Inr (limitSQL @ offsetSQL)))"

function
  sqlite_compileSelect :: "select_ast \<Rightarrow> compiled_sql result" and
  sqlite_compileSelectItems :: "sel_item list \<Rightarrow> (string list \<times> goany list) result" and
  sqlite_compileSelectExpr :: "sel_item \<Rightarrow> fragment result" and
  sqlite_compileSelectSource :: "select_ast \<Rightarrow> fragment result" and
  sqlite_compileSource :: "source_ast \<Rightarrow> fragment result" and
  sqlite_compileJoins :: "join_item list \<Rightarrow> fragment result" and
  sqlite_compileJoinList :: "join_item list \<Rightarrow> (string list \<times> goany list) result" and
  sqlite_compileJoin :: "join_item \<Rightarrow> fragment result" and
  sqlite_compileJoinSource :: "join_item \<Rightarrow> fragment result" and
  sqlite_compileWhere :: "condition list \<Rightarrow> fragment result" and
  sqlite_compileConditions :: "bool \<Rightarrow> condition list \<Rightarrow> (string list \<times> goany list) result" and
  sqlite_compileCondition :: "string \<Rightarrow> condition \<Rightarrow> fragment option result" and
  sqlite_compileInCondition :: "condition \<Rightarrow> fragment result" and
  sqlite_compileExistsCondition :: "condition \<Rightarrow> fragment result" and
  sqlite_compileCountCondition :: "condition \<Rightarrow> fragment result" and
  sqlite_compileScalarSource :: "source_ast \<Rightarrow> string \<Rightarrow> fragment result"
where
  "sqlite_compileSelect stmt =
     bind_res
       (if stmt_Select stmt = [] then Inr (''*'', [])
        else bind_res (sqlite_compileSelectItems (stmt_Select stmt))
               (\<lambda>(parts, args). Inr (join '', '' parts, args)))
     (\<lambda>(selectSQL, selectArgs).
     bind_res (sqlite_compileSelectSource stmt) (\<lambda>(sourceSQL, sourceArgs).
     bind_res (sqlite_compileJoins (stmt_Joins stmt)) (\<lambda>(joins, joinArgs).
     bind_res (sqlite_compileWhere (stmt_Where stmt)) (\<lambda>(whereSQL, whereArgs).
     bind_res (sqlite_compileWhere (stmt_Having stmt)) (\<lambda>(having, havingArgs).
     bind_res (sqlite_limit_offset_lock stmt) (\<lambda>tail.
       let groupSQL = sqlite_compileGroup (stmt_Group stmt);
           (order, orderArgs) = sqlite_compileOrder (stmt_Order stmt)
       in Inr \<lparr>c_SQL = ''select '' @ selectSQL @ '' from '' @ sourceSQL @ joins
                 @ (if whereSQL \<noteq> [] then '' where '' @ whereSQL else '''')
                 @ (if groupSQL \<noteq> [] then '' group by '' @ groupSQL else '''')
                 @ (if having \<noteq> [] then '' having '' @ having else '''')
                 @ (if order \<noteq> [] then '' order by '' @ order else '''')
                 @ tail,
               c_Args = selectArgs @ sourceArgs @ joinArgs
                 @ (if whereSQL \<noteq> [] then whereArgs else [])
                 @ (if having \<noteq> [] then havingArgs else [])
                 @ (if order \<noteq> [] then orderArgs else [])\<rparr>))))))"
| "sqlite_compileSelectItems items =
     (case items of
        [] \<Rightarrow> Inr ([], [])
      | item # rest \<Rightarrow>
          bind_res (sqlite_compileSelectExpr item) (\<lambda>(expr, itemArgs).
            if sel_Expr item = ''__oro_fulltext_score__''
            then Inl (mk_error ''sqlite.fulltext'' ErrUnsupported)
            else bind_res (sqlite_compileSelectItems rest) (\<lambda>(parts, args).
                   Inr (expr # parts, itemArgs @ args))))"
| "sqlite_compileSelectExpr item =
     (case sel_Source item of
        Some source \<Rightarrow>
          bind_res (sqlite_compileScalarSource source ''sqlite.select'') (\<lambda>(expr, args).
            if sel_Alias item = [] then Inl (mk_error ''sqlite.select'' ErrInvalidArgument)
            else Inr (expr @ '' as '' @ sqlite_QuoteIdent (sel_Alias item), args))
      | None \<Rightarrow>
          if sel_Expr item = ''__oro_relation_exists__'' then
            (case sel_Args item of
               [ASource source] \<Rightarrow>
                 bind_res (sqlite_compileScalarSource source ''sqlite.select'') (\<lambda>(expr, args).
                   if sel_Alias item = [] then Inl (mk_error ''sqlite.select'' ErrInvalidArgument)
                   else Inr (''exists '' @ expr @ '' as '' @ sqlite_QuoteIdent (sel_Alias item), args))
             | _ \<Rightarrow> Inl (mk_error ''sqlite.select'' ErrInvalidArgument))
          else
            bind_res
              (if sel_Expr item = ''__oro_aggregate__''
               then bind_res (sqlite_compileAggregateSelect item) (\<lambda>sql. Inr (sql, []))
               else if \<not> sel_Raw item then Inr (sqlite_QuoteIdent (sel_Expr item), [])
               else Inr (sel_Expr item, sel_Args item))
            (\<lambda>(expr, args).
              Inr (if sel_Alias item \<noteq> [] then expr @ '' as '' @ sqlite_QuoteIdent (sel_Alias item)
                   else expr, args)))"
| "sqlite_compileSelectSource stmt =
     (let source = stmt_From stmt in
      if src_Table source \<noteq> [] \<or> src_Query source \<noteq> None \<or> src_Raw source \<noteq> None
      then sqlite_compileSource
             (SourceAST (src_Table source)
                (if src_Alias source = [] then stmt_Alias stmt else src_Alias source)
                (src_Query source) (src_Raw source))
      else sqlite_compileSource (SourceAST (stmt_Table stmt) (stmt_Alias stmt) None None))"
| "sqlite_compileSource source =
     (if src_Table source \<noteq> [] then
        Inr (sqlite_QuoteIdent (src_Table source)
             @ (if src_Alias source \<noteq> [] then '' as '' @ sqlite_QuoteIdent (src_Alias source) else ''''), [])
      else case src_Query source of
        Some query \<Rightarrow>
          (if src_Alias source = [] then Inl (mk_error ''sqlite.source'' ErrInvalidArgument)
           else bind_res (sqlite_compileSelect query) (\<lambda>compiled.
             Inr (''('' @ c_SQL compiled @ '') as '' @ sqlite_QuoteIdent (src_Alias source), c_Args compiled)))
      | None \<Rightarrow>
          (case src_Raw source of
             Some raw \<Rightarrow>
               (if src_Alias source = [] then Inl (mk_error ''sqlite.source'' ErrInvalidArgument)
                else Inr (''('' @ raw_SQL raw @ '') as '' @ sqlite_QuoteIdent (src_Alias source), raw_Args raw))
           | None \<Rightarrow> Inl (mk_error ''sqlite.source'' ErrInvalidArgument)))"
| "sqlite_compileJoins joins =
     (if joins = [] then Inr ('''', [])
      else bind_res (sqlite_compileJoinList joins) (\<lambda>(parts, args).
             Inr ('' '' @ join '' '' parts, args)))"
| "sqlite_compileJoinList joins =
     (case joins of
        [] \<Rightarrow> Inr ([], [])
      | j # rest \<Rightarrow>
          bind_res (sqlite_compileJoin j) (\<lambda>(joinSQL, conditionArgs).
          bind_res (sqlite_compileJoinList rest) (\<lambda>(parts, args).
            Inr (joinSQL # parts, conditionArgs @ args))))"
| "sqlite_compileJoin j =
     (case join_Raw j of
        Some raw \<Rightarrow> Inr (raw_SQL raw, raw_Args raw)
      | None \<Rightarrow>
          bind_res
            (case join_Type j of
               JoinInner \<Rightarrow> Inr ''join''
             | JoinLeft \<Rightarrow> Inr ''left join''
             | JoinRight \<Rightarrow> Inr ''right join''
             | JoinFull \<Rightarrow> Inr ''full join''
             | JoinCross \<Rightarrow> Inr ''cross join''
             | JoinTypeOther _ \<Rightarrow> Inl (mk_error ''sqlite.join'' ErrInvalidArgument))
          (\<lambda>joinType.
            if join_Type j = JoinCross then
              bind_res (sqlite_compileJoinSource j) (\<lambda>(source, sourceArgs).
                Inr (''cross join '' @ source, sourceArgs))
            else if join_Conditions j = [] then Inl (mk_error ''sqlite.join'' ErrInvalidArgument)
            else
              let (conditions, args) = sqlite_compileJoinConditions (join_Conditions j) in
              bind_res (sqlite_compileJoinSource j) (\<lambda>(source, sourceArgs).
                Inr (joinType @ '' '' @ source @ '' on '' @ conditions, sourceArgs @ args))))"
| "sqlite_compileJoinSource j =
     (let source = join_Source j;
          table = (if src_Table source = [] \<and> src_Query source = None \<and> src_Raw source = None
                   then join_Table j else src_Table source);
          alias = (if join_Alias j \<noteq> [] then join_Alias j else src_Alias source)
      in sqlite_compileSource (SourceAST table alias (src_Query source) (src_Raw source)))"
| "sqlite_compileWhere conditions =
     bind_res (sqlite_compileConditions True conditions) (\<lambda>(parts, args).
       Inr (join '''' parts, args))"
| "sqlite_compileConditions first conditions =
     (case conditions of
        [] \<Rightarrow> Inr ([], [])
      | condition # rest \<Rightarrow>
          bind_res (sqlite_compileCondition (sqlite_cond_prefix first condition) condition) (\<lambda>part.
          bind_res (sqlite_compileConditions False rest) (\<lambda>(parts, args).
            case part of
              None \<Rightarrow> Inr (parts, args)
            | Some (sql, conditionArgs) \<Rightarrow> Inr (sql # parts, conditionArgs @ args))))"
| "sqlite_compileCondition prefix condition =
     (let op = to_lower (trim_space (cond_Op condition)) in
      if op = ''invalid'' then
        (case cond_Value condition of
           AError err \<Rightarrow> Inl err
         | _ \<Rightarrow> Inl (mk_field_error ''sqlite.where'' ErrInvalidArgument (cond_Field condition)))
      else if op = ''group'' then
        bind_res (sqlite_compileWhere (cond_Conditions condition)) (\<lambda>(sql, groupArgs).
          Inr (if sql = [] then None else Some (prefix @ ''('' @ sql @ '')'', groupArgs)))
      else if op = ''not'' then
        bind_res (sqlite_compileWhere (cond_Conditions condition)) (\<lambda>(sql, groupArgs).
          Inr (if sql = [] then None else Some (prefix @ ''not ('' @ sql @ '')'', groupArgs)))
      else if op = ''raw'' then
        Inr (Some (prefix @ cond_Field condition,
                   case cond_Value condition of AList values \<Rightarrow> values | _ \<Rightarrow> []))
      else if op = ''json'' then
        bind_res (sqlite_compileJSONCondition condition) (\<lambda>(sql, args). Inr (Some (prefix @ sql, args)))
      else if op = ''fulltext'' then Inl (mk_error ''sqlite.fulltext'' ErrUnsupported)
      else if op = ''column'' then
        bind_res (sqlite_compileColumnCondition condition) (\<lambda>sql. Inr (Some (prefix @ sql, [])))
      else if op = ''in'' then
        bind_res (sqlite_compileInCondition condition) (\<lambda>(sql, args). Inr (Some (prefix @ sql, args)))
      else if op = ''in_values'' \<or> op = ''not_in_values'' then
        bind_res (sqlite_compileInValuesCondition condition (op = ''not_in_values''))
          (\<lambda>(sql, args). Inr (Some (prefix @ sql, args)))
      else if op = ''between'' then
        bind_res (sqlite_compileBetweenCondition condition) (\<lambda>(sql, args). Inr (Some (prefix @ sql, args)))
      else if op = ''exists'' then
        bind_res (sqlite_compileExistsCondition condition) (\<lambda>(sql, args). Inr (Some (prefix @ sql, args)))
      else if op = ''count'' then
        bind_res (sqlite_compileCountCondition condition) (\<lambda>(sql, args). Inr (Some (prefix @ sql, args)))
      else if op = ''is null'' \<or> op = ''is not null'' then
        Inr (Some (prefix @ sqlite_QuoteIdent (cond_Field condition) @ '' '' @ op, []))
      else if \<not> IsSafeConditionOperator (cond_Op condition) then
        Inl (mk_field_error ''sqlite.where'' ErrInvalidArgument (cond_Field condition))
      else
        let lhs = prefix @ sqlite_QuoteIdent (cond_Field condition) @ '' ''
                  @ NormalizeConditionOperator (cond_Op condition) in
        case cond_Value condition of
          ASourcePtr source \<Rightarrow>
            bind_res (sqlite_compileScalarSource source ''sqlite.where'') (\<lambda>(sql, sourceArgs).
              Inr (Some (lhs @ '' '' @ sql, sourceArgs)))
        | value \<Rightarrow>
            (if cond_Escape condition = [] then Inr (Some (lhs @ '' ?'', [value]))
             else if cond_Escape condition \<noteq> [CHR 0x5C]
               then Inl (mk_field_error ''sqlite.where'' ErrInvalidArgument (cond_Field condition))
             else Inr (Some (lhs @ '' ?'' @ '' escape '' @ [CHR 0x27, CHR 0x5C, CHR 0x27], [value]))))"
| "sqlite_compileInCondition condition =
     (case cond_Value condition of
        ASourcePtr source \<Rightarrow>
          bind_res (sqlite_compileScalarSource source ''sqlite.where'') (\<lambda>(sql, args).
            Inr (sqlite_QuoteIdent (cond_Field condition) @ '' in '' @ sql, args))
      | _ \<Rightarrow> Inl (mk_field_error ''sqlite.where'' ErrInvalidArgument (cond_Field condition)))"
| "sqlite_compileExistsCondition condition =
     (case cond_Value condition of
        ASourcePtr source \<Rightarrow>
          bind_res (sqlite_compileScalarSource source ''sqlite.where'') (\<lambda>(sql, args).
            Inr (''exists '' @ sql, args))
      | _ \<Rightarrow> Inl (mk_error ''sqlite.where'' ErrInvalidArgument))"
| "sqlite_compileCountCondition condition =
     (case cond_Value condition of
        ACountCondition (Some source) op value \<Rightarrow>
          bind_res (sqlite_compileScalarSource source ''sqlite.where'') (\<lambda>(sql, args).
            Inr (sql @ '' '' @ op @ '' ?'', args @ [AInt64 value]))
      | _ \<Rightarrow> Inl (mk_error ''sqlite.where'' ErrInvalidArgument))"
| "sqlite_compileScalarSource source op =
     (case src_Query source of
        Some query \<Rightarrow>
          bind_res (sqlite_compileSelect query) (\<lambda>compiled.
            Inr (''('' @ c_SQL compiled @ '')'', c_Args compiled))
      | None \<Rightarrow>
          (case src_Raw source of
             Some raw \<Rightarrow> Inr (''('' @ raw_SQL raw @ '')'', raw_Args raw)
           | None \<Rightarrow> Inl (mk_error op ErrInvalidArgument)))"
  by pat_completeness auto
termination
  by (relation "measure (case_sum
        (case_sum
          (case_sum (case_sum (\<lambda>st. 2 * size st + 1) (\<lambda>is. 2 * size_list sel_size is))
                    (case_sum (\<lambda>i. 2 * sel_size i) (\<lambda>st. 2 * size st)))
          (case_sum (case_sum (\<lambda>s. 2 * size s) (\<lambda>js. 2 * size_list join_size js + 1))
                    (case_sum (\<lambda>js. 2 * size_list join_size js) (\<lambda>j. 2 * join_size j + 1))))
        (case_sum
          (case_sum (case_sum (\<lambda>j. 2 * join_size j) (\<lambda>cs. 2 * size_list size cs + 1))
                    (case_sum (\<lambda>(b, cs). 2 * size_list size cs) (\<lambda>(p, c). 2 * size c + 1)))
          (case_sum (case_sum (\<lambda>c. 2 * size c) (\<lambda>c. 2 * size c))
                    (case_sum (\<lambda>c. 2 * size c) (\<lambda>(s, op). 2 * size s)))))")
     (auto simp: ast_size simp del: source_ast.size dest: ast_size_dest)

declare sqlite_compileSelect.simps [simp del] sqlite_compileSelectItems.simps [simp del]
  sqlite_compileSelectExpr.simps [simp del] sqlite_compileSelectSource.simps [simp del]
  sqlite_compileSource.simps [simp del] sqlite_compileJoins.simps [simp del]
  sqlite_compileJoinList.simps [simp del] sqlite_compileJoin.simps [simp del]
  sqlite_compileJoinSource.simps [simp del] sqlite_compileWhere.simps [simp del]
  sqlite_compileConditions.simps [simp del] sqlite_compileCondition.simps [simp del]
  sqlite_compileInCondition.simps [simp del] sqlite_compileExistsCondition.simps [simp del]
  sqlite_compileCountCondition.simps [simp del] sqlite_compileScalarSource.simps [simp del]

section \<open>Writes\<close>

text \<open>The inner loop of \<open>compileInsert\<close> over the columns of one row, and the loop over the rows.\<close>

fun sqlite_insertRow :: "string list \<Rightarrow> gomap \<Rightarrow> goany list result" where
  "sqlite_insertRow [] value = Inr []"
| "sqlite_insertRow (column # columns) value =
     (case map_of value column of
        None \<Rightarrow> Inl (mk_error ''sqlite.insert'' ErrInvalidArgument)
      | Some item \<Rightarrow> bind_res (sqlite_insertRow columns value) (\<lambda>items. Inr (item # items)))"

fun sqlite_insertRows :: "string list \<Rightarrow> gomap list \<Rightarrow> goany list result" where
  "sqlite_insertRows columnNames [] = Inr []"
| "sqlite_insertRows columnNames (value # values) =
     (if length value \<noteq> length columnNames
      then Inl (mk_error ''sqlite.insert'' ErrInvalidArgument)
      else bind_res (sqlite_insertRow columnNames value) (\<lambda>items.
           bind_res (sqlite_insertRows columnNames values) (\<lambda>args. Inr (items @ args))))"

text \<open>
  \<open>compileInsert\<close> for a statement without conflict columns, and \<open>compileUpsert\<close>, which calls
  it with a fresh statement that has none.
\<close>

definition sqlite_plainInsert :: "insert_ast \<Rightarrow> compiled_sql result" where
  "sqlite_plainInsert stmt =
     (case ins_Values stmt of
        [] \<Rightarrow> Inl (mk_error ''sqlite.insert'' ErrInvalidArgument)
      | row # _ \<Rightarrow>
          (let columnNames = sortedKeys row;
               columns = map sqlite_QuoteIdent columnNames;
               rowPlaceholder = ''('' @ trim_right (repeat_str ''?, '' (length columnNames)) '', '' @ '')''
           in bind_res (sqlite_insertRows columnNames (ins_Values stmt)) (\<lambda>args.
                Inr \<lparr>c_SQL = ''insert into '' @ sqlite_QuoteIdent (ins_Table stmt) @ '' ('' @ join '', '' columns
                         @ '') values '' @ join '', '' (replicate (length (ins_Values stmt)) rowPlaceholder)
                         @ (if ins_Returning stmt then '' returning *'' else ''''),
                     c_Args = args\<rparr>)))"

definition sqlite_compileSet :: "string \<Rightarrow> goany \<Rightarrow> fragment" where
  "sqlite_compileSet column value =
     (case value of
        AIncrementExpr v \<Rightarrow> (sqlite_QuoteIdent column @ '' = '' @ sqlite_QuoteIdent column @ '' + ?'', [v])
      | ADecrementExpr v \<Rightarrow> (sqlite_QuoteIdent column @ '' = '' @ sqlite_QuoteIdent column @ '' - ?'', [v])
      | ARawExpr raw \<Rightarrow> (sqlite_QuoteIdent column @ '' = '' @ raw_SQL raw, raw_Args raw)
      | v \<Rightarrow> (sqlite_QuoteIdent column @ '' = ?'', [v]))"

definition sqlite_conflictUpdateAllColumns :: "gomap \<Rightarrow> string list \<Rightarrow> string list \<Rightarrow> string list" where
  "sqlite_conflictUpdateAllColumns row conflictColumns exceptColumns =
     (if row = [] then []
      else filter (\<lambda>column. column \<notin> set conflictColumns \<union> set exceptColumns) (sortedKeys row))"

definition sqlite_conflictUpdateColumns :: "string list \<Rightarrow> gomap \<Rightarrow> string list" where
  "sqlite_conflictUpdateColumns columns row =
     (if columns = [] then [] else filter (\<lambda>column. map_of row column \<noteq> None) columns)"

definition sqlite_compileConflictUpdate :: "conflict_spec \<Rightarrow> gomap \<Rightarrow> fragment result" where
  "sqlite_compileConflictUpdate conflict row =
     (if conf_DoNothing conflict then Inr ('' do nothing'', [])
      else if conf_UpdateMap conflict \<noteq> [] then
        (let sets = map (\<lambda>column. sqlite_compileSet column (map_get (conf_UpdateMap conflict) column))
                      (sortedKeys (conf_UpdateMap conflict))
         in Inr ('' do update set '' @ join '', '' (map fst sets), concat (map snd sets)))
      else
        let fs = (if conf_UpdateAll conflict
                  then sqlite_conflictUpdateAllColumns row (conf_Columns conflict) (conf_UpdateExcept conflict)
                  else sqlite_conflictUpdateColumns (conf_Update conflict) row) in
        if fs = [] then
          (case conf_Columns conflict of
             [] \<Rightarrow> Inl (mk_error ''sqlite.upsert'' ErrInvalidArgument)
           | column # _ \<Rightarrow>
               Inr ('' do update set '' @ sqlite_QuoteIdent column @ '' = '' @ sqlite_QuoteIdent column, []))
        else
          Inr ('' do update set '' @ join '', '' (map (\<lambda>column.
                 sqlite_QuoteIdent column @ '' = excluded.'' @ sqlite_QuoteIdent column) (sort fs)), []))"

definition sqlite_compileUpsert :: "insert_ast \<Rightarrow> compiled_sql result" where
  "sqlite_compileUpsert stmt =
     bind_res (sqlite_plainInsert \<lparr>ins_Table = ins_Table stmt, ins_Values = ins_Values stmt,
                 ins_Conflict = no_conflict, ins_Returning = False\<rparr>) (\<lambda>compiled.
       (case ins_Values stmt of
          [] \<Rightarrow> Inl (GoPanic ''index out of range'')
        | row # _ \<Rightarrow>
            bind_res (sqlite_compileConflictUpdate (ins_Conflict stmt) row) (\<lambda>(updateSQL, updateArgs).
              Inr \<lparr>c_SQL = c_SQL compiled @ '' on conflict (''
                       @ join '', '' (map sqlite_QuoteIdent (conf_Columns (ins_Conflict stmt))) @ '')''
                       @ updateSQL @ (if ins_Returning stmt then '' returning *'' else ''''),
                   c_Args = c_Args compiled @ updateArgs\<rparr>)))"

definition sqlite_compileInsert :: "insert_ast \<Rightarrow> compiled_sql result" where
  "sqlite_compileInsert stmt =
     (if ins_Values stmt = [] then Inl (mk_error ''sqlite.insert'' ErrInvalidArgument)
      else if conf_Columns (ins_Conflict stmt) \<noteq> [] then sqlite_compileUpsert stmt
      else sqlite_plainInsert stmt)"

definition sqlite_compileUpdate :: "update_ast \<Rightarrow> compiled_sql result" where
  "sqlite_compileUpdate stmt =
     (if upd_Values stmt = [] then Inl (mk_error ''sqlite.update'' ErrInvalidArgument)
      else
        let columnNames = sortedKeys (upd_Values stmt);
            sets = map (\<lambda>column. sqlite_compileSet column (map_get (upd_Values stmt) column)) columnNames in
        bind_res (sqlite_compileWhere (upd_Where stmt)) (\<lambda>(whereSQL, whereArgs).
          Inr \<lparr>c_SQL = ''update '' @ sqlite_QuoteIdent (upd_Table stmt) @ '' set '' @ join '', '' (map fst sets)
                   @ (if whereSQL \<noteq> [] then '' where '' @ whereSQL else ''''),
               c_Args = concat (map snd sets) @ whereArgs\<rparr>))"

definition sqlite_compileDelete :: "delete_ast \<Rightarrow> compiled_sql result" where
  "sqlite_compileDelete stmt =
     bind_res (sqlite_compileWhere (del_Where stmt)) (\<lambda>(whereSQL, args).
       Inr \<lparr>c_SQL = ''delete from '' @ sqlite_QuoteIdent (del_Table stmt)
                @ (if whereSQL \<noteq> [] then '' where '' @ whereSQL else ''''),
            c_Args = args\<rparr>)"

definition sqlite_Compile :: "statement \<Rightarrow> compiled_sql result" where
  "sqlite_Compile stmt =
     (case stmt of
        StmtSelect s \<Rightarrow> sqlite_compileSelect s
      | StmtInsert s \<Rightarrow> sqlite_compileInsert s
      | StmtUpdate s \<Rightarrow> sqlite_compileUpdate s
      | StmtDelete s \<Rightarrow> sqlite_compileDelete s
      | StmtOther \<Rightarrow> Inl (mk_error ''sqlite.compile'' ErrUnsupported))"

section \<open>Schema statements\<close>

definition sqlite_isIntegerType :: "string \<Rightarrow> bool" where
  "sqlite_isIntegerType typ = contains typ ''int''"

definition sqlite_compileDefault :: "(goany \<Rightarrow> string) \<Rightarrow> default_spec \<Rightarrow> string" where
  "sqlite_compileDefault sprint defaultValue =
     (if def_Expr defaultValue \<noteq> [] then def_Expr defaultValue
      else DefaultValue sprint (def_Value defaultValue))"

definition sqlite_compileColumn :: "(goany \<Rightarrow> string) \<Rightarrow> column_spec \<Rightarrow> bool \<Rightarrow> string result" where
  "sqlite_compileColumn sprint column allowPrimary =
     (if col_ColumnName column = [] then Inl (mk_error ''sqlite.schema'' ErrInvalidArgument)
      else bind_res (sqlite_DataType column) (\<lambda>dataType.
        Inr (join '' '' ([sqlite_QuoteIdent (col_ColumnName column), dataType]
          @ (if allowPrimary \<and> col_Primary column then
               [if sqlite_isIntegerType (col_Type column) then ''primary key autoincrement''
                else ''primary key''] else [])
          @ (if \<not> col_Nullable column \<and> \<not> col_Primary column then [''not null''] else [])
          @ (case col_Default column of None \<Rightarrow> []
             | Some d \<Rightarrow> [''default '' @ sqlite_compileDefault sprint d])))))"

fun sqlite_compileColumns :: "(goany \<Rightarrow> string) \<Rightarrow> column_spec list \<Rightarrow> string list result" where
  "sqlite_compileColumns sprint [] = Inr []"
| "sqlite_compileColumns sprint (column # columns) =
     bind_res (sqlite_compileColumn sprint column True) (\<lambda>sql.
     bind_res (sqlite_compileColumns sprint columns) (\<lambda>sqls. Inr (sql # sqls)))"

definition sqlite_compileCreateTable :: "(goany \<Rightarrow> string) \<Rightarrow> table_spec \<Rightarrow> compiled_sql list result" where
  "sqlite_compileCreateTable sprint table =
     (if tbl_Name table = [] \<or> tbl_Columns table = []
      then Inl (mk_error ''sqlite.schema'' ErrInvalidArgument)
      else bind_res (sqlite_compileColumns sprint (tbl_Columns table)) (\<lambda>columns.
        Inr [\<lparr>c_SQL = ''create table if not exists '' @ sqlite_QuoteIdent (tbl_Name table) @ '' (''
                @ join '', '' columns @ '')'', c_Args = []\<rparr>]))"

definition sqlite_compileCreateIndex :: "string \<Rightarrow> index_spec \<Rightarrow> compiled_sql list result" where
  "sqlite_compileCreateIndex table index =
     (if table = [] \<or> idx_Name index = [] \<or> idx_Fields index = []
      then Inl (mk_error ''sqlite.schema'' ErrInvalidArgument)
      else if idx_FullText index then Inl (mk_error ''sqlite.schema'' ErrUnsupported)
      else Inr [\<lparr>c_SQL = ''create '' @ (if idx_Unique index then ''unique '' else '''')
                  @ ''index if not exists '' @ sqlite_QuoteIdent (idx_Name index) @ '' on ''
                  @ sqlite_QuoteIdent table @ '' ('' @ join '', '' (map sqlite_QuoteIdent (idx_Fields index)) @ '')'',
                c_Args = []\<rparr>])"

definition sqlite_CompileSchema :: "(goany \<Rightarrow> string) \<Rightarrow> schema_change \<Rightarrow> compiled_sql list result" where
  "sqlite_CompileSchema sprint change =
     (case chg_Kind change of
        SchemaCreateTable \<Rightarrow> sqlite_compileCreateTable sprint (chg_Table change)
      | SchemaAddColumn \<Rightarrow>
          bind_res (sqlite_compileColumn sprint (chg_Column change) False) (\<lambda>sql.
            Inr [\<lparr>c_SQL = ''alter table '' @ sqlite_QuoteIdent (tbl_Name (chg_Table change))
                    @ '' add column '' @ sql, c_Args = []\<rparr>])
      | SchemaCreateIndex \<Rightarrow> sqlite_compileCreateIndex (tbl_Name (chg_Table change)) (chg_Index change)
      | SchemaUnsafeChange \<Rightarrow> Inl (mk_error ''sqlite.schema'' ErrUnsafeSchemaChange)
      | SchemaRenameColumn \<Rightarrow>
          (if col_ColumnName (chg_Current change) = [] \<or> col_ColumnName (chg_Column change) = []
           then Inl (mk_error ''sqlite.schema'' ErrInvalidArgument)
           else Inr [\<lparr>c_SQL = ''alter table '' @ sqlite_QuoteIdent (tbl_Name (chg_Table change))
                       @ '' rename column '' @ sqlite_QuoteIdent (col_ColumnName (chg_Current change))
                       @ '' to '' @ sqlite_QuoteIdent (col_ColumnName (chg_Column change)), c_Args = []\<rparr>])
      | SchemaChangeKindOther _ \<Rightarrow> Inl (mk_error ''sqlite.schema'' ErrUnsupported))"

end
