(* ===== verification/Sql_Lexer.thy ===== *)
theory Sql_Lexer
  imports Query_Util
begin

text \<open>
  How a database reads the text of a statement, as far as question-mark placeholders are
  concerned: a scanner that knows whether it is in plain text, inside a quoted identifier or
  inside a string literal, and counts the question marks of plain text. It is the reference
  against which the SQLite and MySQL dialects are proved: a compiled statement is read to its
  end outside every quote and has as many placeholders as arguments.

  The scanner has two set-ups. SQLite quotes identifiers with double quotes and reads a
  backslash as an ordinary character. MySQL, in its default mode, quotes identifiers with
  backticks, takes both quote characters as string delimiters and reads a backslash in a string
  as an escape. Comments are not modelled: the dialects never write one, and a raw fragment is
  required to be self-contained in this scanner's sense.
\<close>

record lex_config =
  lx_ident :: char
  lx_dquote_strings :: bool
  lx_backslash :: bool

definition sqlite_lex :: lex_config where
  "sqlite_lex = \<lparr>lx_ident = CHR 0x22, lx_dquote_strings = False, lx_backslash = False\<rparr>"

definition mysql_lex :: lex_config where
  "mysql_lex = \<lparr>lx_ident = CHR 0x60, lx_dquote_strings = True, lx_backslash = True\<rparr>"

datatype lex_mode = Plain | InIdent | InString char | InEscape char

fun lex_next :: "lex_config \<Rightarrow> lex_mode \<Rightarrow> char \<Rightarrow> lex_mode" where
  "lex_next cfg Plain c =
     (if c = lx_ident cfg then InIdent
      else if c = CHR 0x27 \<or> lx_dquote_strings cfg \<and> c = CHR 0x22 then InString c else Plain)"
| "lex_next cfg InIdent c = (if c = lx_ident cfg then Plain else InIdent)"
| "lex_next cfg (InString q) c =
     (if c = q then Plain else if lx_backslash cfg \<and> c = CHR 0x5C then InEscape q else InString q)"
| "lex_next cfg (InEscape q) c = InString q"

fun lex_after :: "lex_config \<Rightarrow> lex_mode \<Rightarrow> string \<Rightarrow> lex_mode" where
  "lex_after cfg m [] = m"
| "lex_after cfg m (c # cs) = lex_after cfg (lex_next cfg m c) cs"

fun placeholders :: "lex_config \<Rightarrow> lex_mode \<Rightarrow> string \<Rightarrow> nat" where
  "placeholders cfg m [] = 0"
| "placeholders cfg m (c # cs) =
     (if m = Plain \<and> c = CHR ''?'' then 1 else 0) + placeholders cfg (lex_next cfg m c) cs"

text \<open>
  A text is balanced with \<open>n\<close> placeholders when the scanner, started in plain text, ends in
  plain text and has counted \<open>n\<close>. A compiled fragment is well formed when it is balanced with
  one placeholder for each argument.
\<close>

definition balanced :: "lex_config \<Rightarrow> string \<Rightarrow> nat \<Rightarrow> bool" where
  "balanced cfg s n \<longleftrightarrow> lex_after cfg Plain s = Plain \<and> placeholders cfg Plain s = n"

fun ok_fragment :: "lex_config \<Rightarrow> fragment \<Rightarrow> bool" where
  "ok_fragment cfg (sql, args) = balanced cfg sql (length args)"

lemma lex_after_append [lex_simps]:
  "lex_after cfg m (s @ t) = lex_after cfg (lex_after cfg m s) t"
  by (induction s arbitrary: m) auto

lemma placeholders_append [lex_simps]:
  "placeholders cfg m (s @ t) = placeholders cfg m s + placeholders cfg (lex_after cfg m s) t"
  by (induction s arbitrary: m) auto

lemma balanced_Nil [simp]: "balanced cfg [] n \<longleftrightarrow> n = 0"
  by (auto simp: balanced_def)

lemma balanced_append [intro]:
  assumes "balanced cfg s m" and "balanced cfg t n"
  shows "balanced cfg (s @ t) (m + n)"
  using assms by (simp add: balanced_def lex_simps)

lemma balanced_append_left:
  "balanced cfg s 0 \<Longrightarrow> balanced cfg (s @ t) n \<longleftrightarrow> balanced cfg t n"
  by (simp add: balanced_def lex_simps)


text \<open>Text without quotes and question marks is balanced and has no placeholder.\<close>

definition clean_char :: "char \<Rightarrow> bool" where
  "clean_char c \<longleftrightarrow> c \<notin> {CHR 0x22, CHR 0x27, CHR 0x60, CHR ''?''}"

definition clean :: "string \<Rightarrow> bool" where
  "clean s \<longleftrightarrow> (\<forall>c \<in> set s. clean_char c)"

definition known_config :: "lex_config \<Rightarrow> bool" where
  "known_config cfg \<longleftrightarrow> lx_ident cfg \<in> {CHR 0x22, CHR 0x60}"

lemma known_configs [simp]: "known_config sqlite_lex" "known_config mysql_lex"
  by (simp_all add: known_config_def sqlite_lex_def mysql_lex_def)

lemma clean_simps [simp]:
  "clean []"
  "clean (c # cs) \<longleftrightarrow> clean_char c \<and> clean cs"
  "clean (s @ t) \<longleftrightarrow> clean s \<and> clean t"
  by (auto simp: clean_def)

lemma clean_balanced:
  assumes "known_config cfg" and "clean s"
  shows "balanced cfg s 0"
  using assms(2)
proof (induction s)
  case Nil
  then show ?case by simp
next
  case (Cons c cs)
  then have "lex_next cfg Plain c = Plain" and "c \<noteq> CHR ''?''"
    using assms(1) by (auto simp: clean_char_def known_config_def)
  with Cons show ?case by (simp add: balanced_def)
qed

lemma clean_subset: "clean t \<Longrightarrow> set s \<subseteq> set t \<Longrightarrow> clean s"
  by (auto simp: clean_def)

lemma clean_join: "clean sep \<Longrightarrow> \<forall>p \<in> set ps. clean p \<Longrightarrow> clean (join sep ps)"
  using set_join [of sep ps] by (auto simp: clean_def)

lemma clean_digit: "is_digit_char c \<Longrightarrow> clean_char c"
  by (auto simp: is_digit_char_def clean_char_def)

lemma clean_itoa [simp]: "clean (itoa i)"
  using digits_itoa_nat clean_digit by (auto simp: itoa_def clean_def clean_char_def)

lemma clean_safe_operator:
  assumes "IsSafeConditionOperator op"
  shows "clean (NormalizeConditionOperator op)"
proof -
  have "\<forall>c \<in> operator_chars. clean_char c"
    by (simp add: operator_chars_def clean_char_def)
  with safe_operator_chars [OF assms] show ?thesis by (auto simp: clean_def)
qed

section \<open>Quoted identifiers\<close>

text \<open>
  A quoted part: the quote character doubled inside, one quote on each side. It is balanced
  whatever the identifier contains, which is why no name can end its own quotes.
\<close>

definition quote_part :: "char \<Rightarrow> string \<Rightarrow> string" where
  "quote_part q part = [q] @ replace_char q [q, q] part @ [q]"

definition quote_ident :: "char \<Rightarrow> string \<Rightarrow> string" where
  "quote_ident q name = join ''.'' (map (quote_part q) (split_on (CHR ''.'') name))"

lemma lex_in_ident:
  assumes "known_config cfg" and "q = lx_ident cfg"
  shows "lex_after cfg InIdent (replace_char q [q, q] s) = InIdent"
    and "placeholders cfg InIdent (replace_char q [q, q] s) = 0"
  using assms by (induction s) (auto simp: lex_simps known_config_def)

lemma balanced_quote_part:
  assumes "known_config cfg" and "q = lx_ident cfg"
  shows "balanced cfg (quote_part q s) 0"
  using lex_in_ident [OF assms] assms
  by (auto simp: balanced_def quote_part_def lex_simps known_config_def)

lemma balanced_join:
  assumes "balanced cfg sep 0" and "list_all2 (balanced cfg) ps ns"
  shows "balanced cfg (join sep ps) (sum_list ns)"
  using assms(2)
proof (induction ps ns rule: list_all2_induct)
  case Nil
  then show ?case by simp
next
  case (Cons p ps n ns)
  show ?case
  proof (cases "ps = []")
    case True
    with Cons show ?thesis by auto
  next
    case False
    from assms(1) Cons.IH have "balanced cfg (sep @ join sep ps) (0 + sum_list ns)" by blast
    with Cons.hyps(1) have "balanced cfg (p @ sep @ join sep ps) (n + (0 + sum_list ns))" by blast
    with False show ?thesis by (simp add: join_Cons)
  qed
qed

lemma balanced_join_0:
  assumes "balanced cfg sep 0" and "\<forall>p \<in> set ps. balanced cfg p 0"
  shows "balanced cfg (join sep ps) 0"
proof -
  have "list_all2 (balanced cfg) ps (replicate (length ps) 0)"
    using assms(2) by (auto simp: list_all2_conv_all_nth)
  from balanced_join [OF assms(1) this] show ?thesis by (simp add: sum_list_replicate)
qed

lemma balanced_quote_ident:
  assumes "known_config cfg" and "q = lx_ident cfg"
  shows "balanced cfg (quote_ident q name) 0"
proof -
  have "balanced cfg ''.'' 0"
    by (rule clean_balanced [OF assms(1)]) (simp add: clean_char_def)
  then show ?thesis
    unfolding quote_ident_def
    by (rule balanced_join_0) (auto simp: balanced_quote_part [OF assms])
qed

text \<open>
  Reading quoted names back: the parts between the dots, each with its quotes removed. Together
  with \<open>strings.Split\<close> this gives back the name, so two different names are never quoted to the
  same text.
\<close>

fun read_idents :: "nat \<Rightarrow> char \<Rightarrow> string \<Rightarrow> string list option" where
  "read_idents 0 q s = None"
| "read_idents (Suc fuel) q s =
     (case read_literal q s of
        None \<Rightarrow> None
      | Some (p, []) \<Rightarrow> Some [p]
      | Some (p, c # rest) \<Rightarrow>
          (if c = CHR ''.'' then map_option ((#) p) (read_idents fuel q rest) else None))"

definition unquote_ident :: "char \<Rightarrow> string \<Rightarrow> string option" where
  "unquote_ident q s = map_option (join ''.'') (read_idents (length s) q s)"

lemma read_literal_quote_part:
  "rest = [] \<or> hd rest \<noteq> q \<Longrightarrow> read_literal q (quote_part q s @ rest) = Some (s, rest)"
  using read_literal_body_replace [of rest q s] by (simp add: read_literal_def quote_part_def)

lemma read_idents_join:
  assumes "q \<noteq> CHR ''.''" and "ps \<noteq> []" and "length ps \<le> fuel"
  shows "read_idents fuel q (join ''.'' (map (quote_part q) ps)) = Some ps"
  using assms(2,3)
proof (induction ps arbitrary: fuel)
  case Nil
  then show ?case by simp
next
  case (Cons p ps)
  then obtain f where f: "fuel = Suc f" by (cases fuel) auto
  show ?case
  proof (cases ps)
    case Nil
    then show ?thesis using f read_literal_quote_part [of "[]" q p] by simp
  next
    case (Cons p' ps')
    then show ?thesis
      using f Cons.IH [of f] Cons.prems assms(1)
        read_literal_quote_part [of "CHR ''.'' # join ''.'' (map (quote_part q) ps)" q p]
      by (simp add: join_Cons)
  qed
qed

lemma length_join_parts:
  "length ps \<le> length (join ''.'' (map (quote_part q) ps))"
  by (induction ps) (auto simp: join_Cons quote_part_def)

lemma unquote_quote_ident:
  assumes "q \<noteq> CHR ''.''"
  shows "unquote_ident q (quote_ident q name) = Some name"
proof -
  let ?ps = "split_on (CHR ''.'') name"
  have "read_idents (length (quote_ident q name)) q (quote_ident q name) = Some ?ps"
    unfolding quote_ident_def
    using assms length_join_parts [of ?ps q] by (intro read_idents_join) auto
  then show ?thesis by (simp add: unquote_ident_def join_split_on)
qed

section \<open>Fragments\<close>

lemma ok_fragment_balanced:
  "ok_fragment cfg f \<longleftrightarrow> balanced cfg (fst f) (length (snd f))"
  by (cases f) simp

text \<open>Fragments in a row: the texts joined, the arguments concatenated.\<close>

lemma ok_fragments_join:
  assumes "balanced cfg sep 0" and "\<forall>f \<in> set fs. ok_fragment cfg f"
  shows "ok_fragment cfg (join sep (map fst fs), concat (map snd fs))"
proof -
  have "list_all2 (balanced cfg) (map fst fs) (map (length \<circ> snd) fs)"
    using assms(2) by (auto simp: list_all2_conv_all_nth ok_fragment_balanced)
  from balanced_join [OF assms(1) this] show ?thesis
    by (simp add: length_concat comp_def)
qed

lemma balanced_placeholder_list:
  assumes "known_config cfg" and "clean sep"
  shows "balanced cfg (join sep (replicate n ''?'')) n"
proof -
  have "list_all2 (balanced cfg) (replicate n ''?'') (replicate n 1)"
    using assms(1) by (auto simp: list_all2_conv_all_nth balanced_def known_config_def)
  from balanced_join [OF clean_balanced [OF assms] this] show ?thesis
    by (simp add: sum_list_replicate)
qed

end
