(* ===== verification/Raw_Fragments.thy ===== *)
theory Raw_Fragments
  imports Sql_Lexer
begin

text \<open>
  What a caller has to respect for the placeholder theorems: the SQL text it passes through
  unchanged. Raw fragments (\<open>Raw\<close>, \<open>WhereRaw\<close>, raw sources, joins, selects and orders) are
  balanced in the scanner's sense with one placeholder for each argument they carry, and the
  words the dialects copy without a white list (join and count operators, join connectives,
  aggregate function names) contain no quote and no question mark. Everything else, names and
  values included, is unrestricted, with one exception: where a backslash in a string literal is
  an escape (MySQL), no condition may ask for an ESCAPE clause, because the dialects write it as
  a one-character literal holding a backslash.
\<close>

definition wf_raw :: "lex_config \<Rightarrow> raw_sql \<Rightarrow> bool" where
  "wf_raw cfg raw \<longleftrightarrow> balanced cfg (raw_SQL raw) (length (raw_Args raw))"

definition wf_order :: "lex_config \<Rightarrow> order_item \<Rightarrow> bool" where
  "wf_order cfg item \<longleftrightarrow>
     (if ord_Raw item then balanced cfg (ord_Expr item) (length (ord_Args item)) else ord_Args item = [])"

fun wf_join_condition :: "join_cond \<Rightarrow> bool" where
  "wf_join_condition (JoinCondition bool left op right value column grp err) \<longleftrightarrow>
     clean (to_lower bool) \<and> clean op \<and> (\<forall>c \<in> set grp. wf_join_condition c)"

definition raw_values :: "condition \<Rightarrow> goany list" where
  "raw_values c = (case cond_Value c of AList values \<Rightarrow> values | _ \<Rightarrow> [])"

lemma size_nested [ast_size_dest]:
  "c \<in> set (cond_Conditions c') \<Longrightarrow> size c < size c'"
  "c \<in> set (stmt_Where st) \<Longrightarrow> size c < size st"
  "c \<in> set (stmt_Having st) \<Longrightarrow> size c < size st"
  "i \<in> set (stmt_Select st) \<Longrightarrow> sel_size i < size st"
  "j \<in> set (stmt_Joins st) \<Longrightarrow> join_size j < size st"
  using size_cond_Conditions [of c'] size_stmt [of st]
    size_list_estimation' [of c "cond_Conditions c'" "size c" size]
    size_list_estimation' [of c "stmt_Where st" "size c" size]
    size_list_estimation' [of c "stmt_Having st" "size c" size]
    size_list_estimation' [of i "stmt_Select st" "sel_size i" sel_size]
    size_list_estimation' [of j "stmt_Joins st" "join_size j" join_size]
  by simp_all

function
  wf_select :: "lex_config \<Rightarrow> select_ast \<Rightarrow> bool" and
  wf_item :: "lex_config \<Rightarrow> sel_item \<Rightarrow> bool" and
  wf_source :: "lex_config \<Rightarrow> source_ast \<Rightarrow> bool" and
  wf_join :: "lex_config \<Rightarrow> join_item \<Rightarrow> bool" and
  wf_condition :: "lex_config \<Rightarrow> condition \<Rightarrow> bool"
where
  "wf_select cfg stmt \<longleftrightarrow>
     wf_source cfg (stmt_From stmt) \<and>
     (\<forall>item \<in> set (stmt_Select stmt). wf_item cfg item) \<and>
     (\<forall>j \<in> set (stmt_Joins stmt). wf_join cfg j) \<and>
     (\<forall>c \<in> set (stmt_Where stmt). wf_condition cfg c) \<and>
     (\<forall>c \<in> set (stmt_Having stmt). wf_condition cfg c) \<and>
     (\<forall>item \<in> set (stmt_Order stmt). wf_order cfg item)"
| "wf_item cfg item \<longleftrightarrow>
     (case sel_Source item of
        Some source \<Rightarrow> wf_source cfg source
      | None \<Rightarrow>
          if sel_Expr item = ''__oro_relation_exists__'' then
            (case sel_Args item of [ASource source] \<Rightarrow> wf_source cfg source | _ \<Rightarrow> True)
          else if sel_Expr item = ''__oro_fulltext_score__'' then True
          else if sel_Expr item = ''__oro_aggregate__'' then
            (case sel_Args item of AAggregateExpr func field alias # _ \<Rightarrow> clean func | _ \<Rightarrow> True)
          else sel_Raw item \<longrightarrow> balanced cfg (sel_Expr item) (length (sel_Args item)))"
| "wf_source cfg source \<longleftrightarrow>
     (case src_Query source of
        Some query \<Rightarrow> wf_select cfg query
      | None \<Rightarrow> (case src_Raw source of Some raw \<Rightarrow> wf_raw cfg raw | None \<Rightarrow> True))"
| "wf_join cfg j \<longleftrightarrow>
     (case join_Raw j of
        Some raw \<Rightarrow> wf_raw cfg raw
      | None \<Rightarrow> wf_source cfg (join_Source j) \<and> (\<forall>c \<in> set (join_Conditions j). wf_join_condition c))"
| "wf_condition cfg c \<longleftrightarrow>
     (to_lower (trim_space (cond_Op c)) = ''raw'' \<longrightarrow>
        balanced cfg (cond_Field c) (length (raw_values c))) \<and>
     (lx_backslash cfg \<longrightarrow> cond_Escape c = []) \<and>
     (case cond_Value c of
        ASourcePtr source \<Rightarrow> wf_source cfg source
      | ACountCondition (Some source) op value \<Rightarrow> clean op \<and> wf_source cfg source
      | _ \<Rightarrow> True) \<and>
     (\<forall>c' \<in> set (cond_Conditions c). wf_condition cfg c')"
  by pat_completeness auto
termination
  by (relation "measure (case_sum
        (case_sum (\<lambda>(cfg, st). size st) (\<lambda>(cfg, i). sel_size i))
        (case_sum (\<lambda>(cfg, s). size s) (case_sum (\<lambda>(cfg, j). join_size j) (\<lambda>(cfg, c). size c))))")
     (auto simp: ast_size dest: ast_size_dest)

declare wf_select.simps [simp del] wf_item.simps [simp del] wf_source.simps [simp del]
  wf_join.simps [simp del] wf_condition.simps [simp del]

lemma wf_source_simps [simp]:
  "wf_source cfg (SourceAST t a (src_Query s) (src_Raw s)) = wf_source cfg s"
  "wf_source cfg (SourceAST t a None None)"
  by (simp_all add: wf_source.simps split: option.splits)

lemma wf_selectD:
  assumes "wf_select cfg stmt"
  shows "wf_source cfg (stmt_From stmt)"
    and "\<forall>i \<in> set (stmt_Select stmt). wf_item cfg i"
    and "\<forall>j \<in> set (stmt_Joins stmt). wf_join cfg j"
    and "\<forall>c \<in> set (stmt_Where stmt). wf_condition cfg c"
    and "\<forall>c \<in> set (stmt_Having stmt). wf_condition cfg c"
    and "\<forall>i \<in> set (stmt_Order stmt). wf_order cfg i"
  using assms by (subst (asm) wf_select.simps, blast)+

lemma wf_conditionD:
  assumes "wf_condition cfg c"
  shows "\<forall>c' \<in> set (cond_Conditions c). wf_condition cfg c'"
    and "cond_Value c = ASourcePtr s \<Longrightarrow> wf_source cfg s"
    and "cond_Value c = ACountCondition (Some s) op n \<Longrightarrow> clean op \<and> wf_source cfg s"
    and "to_lower (trim_space (cond_Op c)) = ''raw'' \<Longrightarrow>
      balanced cfg (cond_Field c) (length (raw_values c))"
    and "lx_backslash cfg \<Longrightarrow> cond_Escape c = []"
  using assms by (auto simp: wf_condition.simps [of cfg c])

section \<open>Lists of parts\<close>

text \<open>The parts a loop has collected, with their arguments: each part balanced, the counts adding up.\<close>

definition ok_parts :: "lex_config \<Rightarrow> string list \<times> goany list \<Rightarrow> bool" where
  "ok_parts cfg pa \<longleftrightarrow>
     (\<exists>ns. list_all2 (balanced cfg) (fst pa) ns \<and> sum_list ns = length (snd pa))"

lemma ok_parts_Nil [simp]: "ok_parts cfg ([], as) \<longleftrightarrow> as = []"
  by (auto simp: ok_parts_def)

lemma ok_parts_Cons:
  assumes "balanced cfg p (length a)" and "ok_parts cfg (ps, as)"
  shows "ok_parts cfg (p # ps, a @ as)"
proof -
  from assms(2) obtain ns where "list_all2 (balanced cfg) ps ns" and "sum_list ns = length as"
    by (auto simp: ok_parts_def)
  with assms(1) have "list_all2 (balanced cfg) (p # ps) (length a # ns)"
    and "sum_list (length a # ns) = length (a @ as)" by auto
  then show ?thesis unfolding ok_parts_def by (metis fst_conv snd_conv)
qed

lemma ok_parts_join:
  assumes "balanced cfg sep 0" and "ok_parts cfg (ps, as)"
  shows "balanced cfg (join sep ps) (length as)"
  using assms balanced_join [OF assms(1)] by (fastforce simp: ok_parts_def)

lemma ok_parts_map:
  assumes "\<forall>f \<in> set fs. ok_fragment cfg f"
  shows "ok_parts cfg (map fst fs, concat (map snd fs))"
  using assms by (induction fs) (auto simp: ok_fragment_balanced intro: ok_parts_Cons)

text \<open>A compiled statement, and a part a condition may contribute or skip.\<close>

definition ok_compiled :: "lex_config \<Rightarrow> compiled_sql \<Rightarrow> bool" where
  "ok_compiled cfg c \<longleftrightarrow> balanced cfg (c_SQL c) (length (c_Args c))"

definition ok_part :: "lex_config \<Rightarrow> fragment option \<Rightarrow> bool" where
  "ok_part cfg part \<longleftrightarrow> (case part of None \<Rightarrow> True | Some f \<Rightarrow> ok_fragment cfg f)"

lemma ok_part_simps [simp]:
  "ok_part cfg None"
  "ok_part cfg (Some f) \<longleftrightarrow> ok_fragment cfg f"
  by (simp_all add: ok_part_def)


section \<open>Statements\<close>

text \<open>The raw expressions among the values a write assigns.\<close>

definition wf_set :: "lex_config \<Rightarrow> goany \<Rightarrow> bool" where
  "wf_set cfg v \<longleftrightarrow> (case v of ARawExpr raw \<Rightarrow> wf_raw cfg raw | _ \<Rightarrow> True)"

definition wf_statement :: "lex_config \<Rightarrow> statement \<Rightarrow> bool" where
  "wf_statement cfg stmt \<longleftrightarrow>
     (case stmt of
        StmtSelect s \<Rightarrow> wf_select cfg s
      | StmtInsert s \<Rightarrow> (\<forall>kv \<in> set (conf_UpdateMap (ins_Conflict s)). wf_set cfg (snd kv))
      | StmtUpdate s \<Rightarrow> (\<forall>kv \<in> set (upd_Values s). wf_set cfg (snd kv)) \<and>
          (\<forall>c \<in> set (upd_Where s). wf_condition cfg c)
      | StmtDelete s \<Rightarrow> (\<forall>c \<in> set (del_Where s). wf_condition cfg c)
      | StmtOther \<Rightarrow> True)"

lemma wf_set_map_get:
  assumes "\<forall>kv \<in> set m. wf_set cfg (snd kv)"
  shows "wf_set cfg (map_get m k)"
proof (cases "map_of m k")
  case None
  then show ?thesis by (simp add: map_get_def wf_set_def)
next
  case (Some v)
  then have "(k, v) \<in> set m" by (rule map_of_SomeD)
  with assms Some show ?thesis by (auto simp: map_get_def)
qed

text \<open>The row of question marks of an insert, however many columns it has.\<close>

lemma balanced_row_placeholder:
  assumes "known_config cfg"
  shows "balanced cfg (''('' @ trim_right (repeat_str ''?, '' n) '', '' @ '')'') n"
proof -
  have "trim_right (repeat_str ''?, '' n) '', '' = (if n = 0 then [] else join '', '' (replicate n ''?''))"
    using trim_right_repeat_sep [of "''?''" "'', ''" n] by simp
  moreover have "balanced cfg (join '', '' (replicate n ''?'')) n"
    using assms by (rule balanced_placeholder_list) (simp add: clean_char_def)
  ultimately have "balanced cfg (trim_right (repeat_str ''?, '' n) '', '') n" by simp
  moreover have "balanced cfg ''('' 0" "balanced cfg '')'' 0"
    using assms by (auto intro!: clean_balanced simp: clean_char_def)
  ultimately have "balanced cfg (''('' @ trim_right (repeat_str ''?, '' n) '', '' @ '')'') (0 + (n + 0))"
    by (blast intro: balanced_append)
  then show ?thesis by simp
qed

lemma balanced_join_replicate:
  assumes "balanced cfg sep 0" and "balanced cfg p n"
  shows "balanced cfg (join sep (replicate m p)) (m * n)"
proof -
  have "list_all2 (balanced cfg) (replicate m p) (replicate m n)"
    using assms(2) by (simp add: list_all2_conv_all_nth)
  from balanced_join [OF assms(1) this] show ?thesis by (simp add: sum_list_replicate)
qed

section \<open>Example trees\<close>

text \<open>Small statement trees at which the theorems on dialects are applied.\<close>

definition no_lock :: lock_spec where
  "no_lock = \<lparr>lock_Mode = LockNone, lock_NoWait = False, lock_SkipLocked = False\<rparr>"

definition table_select :: "string \<Rightarrow> condition list \<Rightarrow> select_ast" where
  "table_select table conds =
     SelectAST table '''' (SourceAST '''' '''' None None) [] conds [] [] [] [] None None no_lock"

definition example_select :: select_ast where
  "example_select = table_select ''products''
     [Condition '''' ''na?me'' ''='' (AString ''x'') [] '''',
      Condition ''or'' '''' ''group'' ANil
        [Condition '''' ''price > ?'' ''raw'' (AList [AInt64 5]) [] ''''] '''',
      Condition ''and'' ''id'' ''in'' (ASourcePtr (SourceAST '''' ''''
        (Some (table_select ''tags'' [Condition '''' ''label'' ''like'' (AString ''a%'') [] ''''])) None))
        [] '''']"

end
