(* ===== verification/Sqlite_Correct.thy ===== *)
theory Sqlite_Correct
  imports Sqlite_Dialect Raw_Fragments
begin

text \<open>
  The SQLite dialect is correct with respect to the scanner of \<open>Sql_Lexer\<close>: whatever the names
  and values of a query, the compiled text ends outside every quote and has exactly one
  placeholder for each argument. The lemmas follow the functions of the dialect; the recursive
  ones are proved together by the induction rule of their definition.
\<close>

abbreviation sq_balanced :: "string \<Rightarrow> nat \<Rightarrow> bool" where
  "sq_balanced \<equiv> balanced sqlite_lex"

lemma sqlite_lex_sel [simp]:
  "lx_ident sqlite_lex = CHR 0x22" "lx_dquote_strings sqlite_lex = False" "lx_backslash sqlite_lex = False"
  by (simp_all add: sqlite_lex_def)

lemma sqlite_QuoteIdent_eq: "sqlite_QuoteIdent name = quote_ident (CHR 0x22) name"
  by (simp add: sqlite_QuoteIdent_def quote_ident_def quote_part_def [abs_def])

lemma sq_quote [simp]: "sq_balanced (sqlite_QuoteIdent name) 0"
  unfolding sqlite_QuoteIdent_eq by (rule balanced_quote_ident) simp_all

lemma sq_clean: "clean s \<Longrightarrow> sq_balanced s 0"
  by (rule clean_balanced) simp_all

text \<open>Scanning a text that is known to be balanced, in front of other text.\<close>

lemma sq_after: "sq_balanced s n \<Longrightarrow> lex_after sqlite_lex Plain s = Plain"
  and sq_count: "sq_balanced s n \<Longrightarrow> placeholders sqlite_lex Plain s = n"
  by (simp_all add: balanced_def)

lemmas sq_scan = balanced_def lex_simps sq_after [OF sq_quote] sq_count [OF sq_quote]
  sq_after [OF sq_clean] sq_count [OF sq_clean]

abbreviation sq_ok :: "fragment \<Rightarrow> bool" where
  "sq_ok \<equiv> ok_fragment sqlite_lex"

section \<open>Clauses without sub-queries\<close>

lemma sq_prefix [simp]: "sq_balanced (sqlite_cond_prefix first c) 0"
  by (simp add: sqlite_cond_prefix_def sq_scan)

lemma sq_aggregate:
  assumes "wf_item sqlite_lex item" "sel_Source item = None" "sel_Expr item = ''__oro_aggregate__''"
  shows "res_all (\<lambda>sql. sq_balanced sql 0) (sqlite_compileAggregateSelect item)"
  using assms
  by (auto simp: sqlite_compileAggregateSelect_def AggregateSelectSQL_def wf_item.simps sq_scan
      split: list.splits goany.splits)

lemma sq_joinConditions:
  "\<forall>c \<in> set cs. wf_join_condition c \<Longrightarrow> ok_parts sqlite_lex (sqlite_joinConditionParts first cs)"
  "\<forall>c \<in> set cs. wf_join_condition c \<Longrightarrow> sq_ok (sqlite_compileJoinConditions cs)"
proof (induction first cs and cs rule: sqlite_joinConditionParts_sqlite_compileJoinConditions.induct)
  case (1 first)
  then show ?case by simp
next
  case (2 first bool left op right v column grp err rest)
  obtain parts args where r: "sqlite_joinConditionParts False rest = (parts, args)" by fastforce
  obtain gsql gargs where g: "sqlite_compileJoinConditions grp = (gsql, gargs)" by fastforce
  have ok: "ok_parts sqlite_lex (parts, args)" using "2.IH"(1) "2.prems" r by simp
  have gok: "grp \<noteq> [] \<Longrightarrow> sq_balanced gsql (length gargs)" using "2.IH"(2) "2.prems" g r by simp
  have cl: "clean (to_lower bool)" "clean op" using "2.prems" by simp_all
  show ?case
    using ok gok cl r g ok_parts_Cons [OF _ ok, of _ gargs] ok_parts_Cons [OF _ ok, of _ "[]"]
      ok_parts_Cons [OF _ ok, of _ "[v]"]
    by (simp add: sq_scan split: if_splits)
next
  case (3 cs)
  then show ?case
    using ok_parts_join [OF sq_clean, of "'' ''"]
    by (auto simp: clean_char_def split: prod.splits)
qed

lemma sq_column: "res_all (\<lambda>sql. sq_balanced sql 0) (sqlite_compileColumnCondition c)"
  using clean_safe_operator [OF IsSafeColumnOperator_condition]
  by (auto simp: sqlite_compileColumnCondition_def sq_scan split: goany.splits)

lemma sq_in_values: "res_all sq_ok (sqlite_compileInValuesCondition c negated)"
  using balanced_placeholder_list [of sqlite_lex "'', ''"]
  by (auto simp: sqlite_compileInValuesCondition_def sq_scan clean_char_def split: goany.splits)

lemma sq_between: "res_all sq_ok (sqlite_compileBetweenCondition c)"
  by (auto simp: sqlite_compileBetweenCondition_def sq_scan split: goany.splits)

lemma sq_json: "res_all sq_ok (sqlite_compileJSONCondition c)"
  by (auto simp: sqlite_compileJSONCondition_def Let_def sq_scan split: goany.splits)

lemma sq_group: "sq_balanced (sqlite_compileGroup fs) 0"
  unfolding sqlite_compileGroup_def
  by (rule balanced_join_0) (auto simp: sq_clean clean_char_def)

lemma sq_order:
  assumes "\<forall>item \<in> set items. wf_order sqlite_lex item"
  shows "sq_ok (sqlite_compileOrder items)"
proof -
  have "\<forall>f \<in> set (map (\<lambda>i. (sqlite_orderItem i, ord_Args i)) items). sq_ok f"
    using assms by (auto simp: wf_order_def sqlite_orderItem_def Let_def sq_scan split: if_splits)
  from ok_parts_join [OF sq_clean ok_parts_map [OF this], of "'', ''"] show ?thesis
    by (simp add: sqlite_compileOrder_def comp_def clean_char_def)
qed

lemma sq_tail: "res_all (\<lambda>sql. sq_balanced sql 0) (sqlite_limit_offset_lock stmt)"
  by (auto simp: sqlite_limit_offset_lock_def sq_scan result_simps split: option.splits)

section \<open>The recursive functions, one step each\<close>

abbreviation sq_compiled :: "compiled_sql \<Rightarrow> bool" where
  "sq_compiled \<equiv> ok_compiled sqlite_lex"

lemmas sq_comma = sq_clean [of "'', ''"] and sq_blank = sq_clean [of "'' ''"]

lemma sq_select_step:
  assumes items: "stmt_Select stmt \<noteq> [] \<Longrightarrow>
      res_all (ok_parts sqlite_lex) (sqlite_compileSelectItems (stmt_Select stmt))"
    and src: "res_all sq_ok (sqlite_compileSelectSource stmt)"
    and joins: "res_all sq_ok (sqlite_compileJoins (stmt_Joins stmt))"
    and wher: "res_all sq_ok (sqlite_compileWhere (stmt_Where stmt))"
    and having: "res_all sq_ok (sqlite_compileWhere (stmt_Having stmt))"
    and order: "\<forall>item \<in> set (stmt_Order stmt). wf_order sqlite_lex item"
  shows "res_all sq_compiled (sqlite_compileSelect stmt)"
proof -
  have sel: "res_all sq_ok
       (if stmt_Select stmt = [] then Inr (''*'', [])
        else bind_res (sqlite_compileSelectItems (stmt_Select stmt))
               (\<lambda>(parts, args). Inr (join '', '' parts, args)))"
    by (auto simp: sq_scan clean_char_def intro!: res_all_bind_prodI [OF items]
        dest!: ok_parts_join [OF sq_comma, rotated])
  show ?thesis
    by (subst sqlite_compileSelect.simps,
        rule res_all_bind_prodI [OF sel], rule res_all_bind_prodI [OF src],
        rule res_all_bind_prodI [OF joins], rule res_all_bind_prodI [OF wher],
        rule res_all_bind_prodI [OF having], rule res_all_bindI [OF sq_tail])
       (use sq_order [OF order] sq_group [of "stmt_Group stmt"] in
         \<open>auto simp: ok_compiled_def sq_scan Let_def split: prod.splits\<close>)
qed

lemma sq_items_step:
  assumes "\<And>i is. items = i # is \<Longrightarrow> sel_Expr i \<noteq> ''__oro_fulltext_score__'' \<Longrightarrow>
      res_all sq_ok (sqlite_compileSelectExpr i)"
    and "\<And>i is. items = i # is \<Longrightarrow> sel_Expr i \<noteq> ''__oro_fulltext_score__'' \<Longrightarrow>
      res_all (ok_parts sqlite_lex) (sqlite_compileSelectItems is)"
  shows "res_all (ok_parts sqlite_lex) (sqlite_compileSelectItems items)"
proof (cases items)
  case Nil
  then show ?thesis by (simp add: sqlite_compileSelectItems.simps)
next
  case (Cons i "is")
  show ?thesis
  proof (cases "sel_Expr i = ''__oro_fulltext_score__''")
    case True
    then show ?thesis
      by (subst sqlite_compileSelectItems.simps) (auto simp: Cons result_simps intro: res_allI)
  next
    case False
    show ?thesis
      by (subst sqlite_compileSelectItems.simps)
         (auto simp: Cons False intro!: res_all_bind_prodI [OF assms(1) [OF Cons False]]
            res_all_bind_prodI [OF assms(2) [OF Cons False]] ok_parts_Cons)
  qed
qed

lemma sq_expr_step:
  assumes "wf_item sqlite_lex item" and "sel_Expr item \<noteq> ''__oro_fulltext_score__''"
    and "\<And>s. sel_Source item = Some s \<Longrightarrow> res_all sq_ok (sqlite_compileScalarSource s ''sqlite.select'')"
    and "\<And>s. sel_Source item = None \<Longrightarrow> sel_Expr item = ''__oro_relation_exists__'' \<Longrightarrow>
      sel_Args item = [ASource s] \<Longrightarrow> res_all sq_ok (sqlite_compileScalarSource s ''sqlite.select'')"
  shows "res_all sq_ok (sqlite_compileSelectExpr item)"
proof (cases "sel_Source item")
  case (Some s)
  show ?thesis
    by (subst sqlite_compileSelectExpr.simps)
       (auto simp: Some sq_scan intro!: res_all_bind_prodI [OF assms(3) [OF Some]])
next
  case None
  show ?thesis
  proof (cases "sel_Expr item = ''__oro_relation_exists__''")
    case True
    show ?thesis
    proof (cases "\<exists>s. sel_Args item = [ASource s]")
      case True
      then obtain s where s: "sel_Args item = [ASource s]" by blast
      show ?thesis
        by (subst sqlite_compileSelectExpr.simps)
           (auto simp: None \<open>sel_Expr item = _\<close> s sq_scan
             intro!: res_all_bind_prodI [OF assms(4) [OF None \<open>sel_Expr item = _\<close> s]])
    next
      case False
      then show ?thesis
        by (subst sqlite_compileSelectExpr.simps)
           (auto simp: None \<open>sel_Expr item = _\<close> split: list.splits goany.splits)
    qed
  next
    case False
    have "res_all sq_ok
              (if sel_Expr item = ''__oro_aggregate__''
               then bind_res (sqlite_compileAggregateSelect item) (\<lambda>sql. Inr (sql, []))
               else if \<not> sel_Raw item then Inr (sqlite_QuoteIdent (sel_Expr item), [])
               else Inr (sel_Expr item, sel_Args item))"
      using assms(1,2) None False
      by (auto simp: wf_item.simps intro!: res_all_bindI [OF sq_aggregate [OF assms(1) None]])
    then show ?thesis
      by (subst sqlite_compileSelectExpr.simps)
         (auto simp: None False sq_scan elim!: res_all_bind_prodI)
  qed
qed

lemma sq_source_step:
  assumes "wf_source sqlite_lex source"
    and "\<And>q. src_Table source = [] \<Longrightarrow> src_Query source = Some q \<Longrightarrow> src_Alias source \<noteq> [] \<Longrightarrow>
      res_all sq_compiled (sqlite_compileSelect q)"
  shows "res_all sq_ok (sqlite_compileSource source)"
proof (cases "src_Query source")
  case None
  then show ?thesis
    using assms(1)
    by (subst sqlite_compileSource.simps)
       (auto simp: wf_source.simps wf_raw_def sq_scan split: option.splits)
next
  case (Some q)
  show ?thesis
    by (subst sqlite_compileSource.simps)
       (auto simp: Some ok_compiled_def sq_scan intro!: res_all_bindI [OF assms(2) [OF _ Some]])
qed

lemma sq_scalar_step:
  assumes "wf_source sqlite_lex source"
    and "\<And>q. src_Query source = Some q \<Longrightarrow> res_all sq_compiled (sqlite_compileSelect q)"
  shows "res_all sq_ok (sqlite_compileScalarSource source op)"
proof (cases "src_Query source")
  case None
  then show ?thesis
    using assms(1)
    by (subst sqlite_compileScalarSource.simps)
       (auto simp: wf_source.simps wf_raw_def sq_scan split: option.splits)
next
  case (Some q)
  show ?thesis
    by (subst sqlite_compileScalarSource.simps)
       (auto simp: Some ok_compiled_def sq_scan intro!: res_all_bindI [OF assms(2) [OF Some]])
qed

lemma sq_joinlist_step:
  assumes "\<And>j js. joins = j # js \<Longrightarrow> res_all sq_ok (sqlite_compileJoin j)"
    and "\<And>j js. joins = j # js \<Longrightarrow> res_all (ok_parts sqlite_lex) (sqlite_compileJoinList js)"
  shows "res_all (ok_parts sqlite_lex) (sqlite_compileJoinList joins)"
proof (cases joins)
  case Nil
  then show ?thesis by (simp add: sqlite_compileJoinList.simps)
next
  case (Cons j js)
  show ?thesis
    by (subst sqlite_compileJoinList.simps)
       (auto simp: Cons intro!: res_all_bind_prodI [OF assms(1) [OF Cons]]
          res_all_bind_prodI [OF assms(2) [OF Cons]] ok_parts_Cons)
qed

lemma sq_join_step:
  assumes "wf_join sqlite_lex j"
    and "join_Raw j = None \<Longrightarrow> join_Type j = JoinCross \<or> join_Conditions j \<noteq> [] \<Longrightarrow>
      res_all sq_ok (sqlite_compileJoinSource j)"
  shows "res_all sq_ok (sqlite_compileJoin j)"
proof (cases "join_Raw j")
  case (Some raw)
  then show ?thesis
    using assms(1) by (auto simp: sqlite_compileJoin.simps wf_join.simps wf_raw_def)
next
  case None
  then have "sq_ok (sqlite_compileJoinConditions (join_Conditions j))"
    using assms(1) sq_joinConditions(2) by (simp add: wf_join.simps)
  then show ?thesis
    by (subst sqlite_compileJoin.simps)
       (auto simp: None sq_scan Let_def simp del: sqlite_compileJoinConditions.simps
          split: join_type.splits prod.splits intro!: res_all_bind_prodI [OF assms(2) [OF None]])
qed

lemma sq_conditions_step:
  assumes "\<And>c cs. conds = c # cs \<Longrightarrow>
      res_all (ok_part sqlite_lex) (sqlite_compileCondition (sqlite_cond_prefix first c) c)"
    and "\<And>c cs. conds = c # cs \<Longrightarrow> res_all (ok_parts sqlite_lex) (sqlite_compileConditions False cs)"
  shows "res_all (ok_parts sqlite_lex) (sqlite_compileConditions first conds)"
proof (cases conds)
  case Nil
  then show ?thesis by (simp add: sqlite_compileConditions.simps)
next
  case (Cons c cs)
  show ?thesis
    by (subst sqlite_compileConditions.simps)
       (auto simp: Cons split: option.splits intro!: res_all_bindI [OF assms(1) [OF Cons]]
          res_all_bind_prodI [OF assms(2) [OF Cons]] ok_parts_Cons)
qed

lemma sq_prefixed:
  assumes "sq_balanced prefix 0" and "res_all sq_ok r"
  shows "res_all (ok_part sqlite_lex) (bind_res r (\<lambda>(sql, args). Inr (Some (prefix @ sql, args))))"
  by (rule res_all_bind_prodI [OF assms(2)]) (use assms(1) in \<open>simp add: sq_scan\<close>)

lemma sq_condition_step:
  assumes wf: "wf_condition sqlite_lex c" and pre: "sq_balanced prefix 0"
    and grp: "to_lower (trim_space (cond_Op c)) \<in> {''group'', ''not''} \<Longrightarrow>
      res_all sq_ok (sqlite_compileWhere (cond_Conditions c))"
    and inn: "to_lower (trim_space (cond_Op c)) = ''in'' \<Longrightarrow> res_all sq_ok (sqlite_compileInCondition c)"
    and exi: "to_lower (trim_space (cond_Op c)) = ''exists'' \<Longrightarrow> res_all sq_ok (sqlite_compileExistsCondition c)"
    and cnt: "to_lower (trim_space (cond_Op c)) = ''count'' \<Longrightarrow> res_all sq_ok (sqlite_compileCountCondition c)"
    and sub: "\<And>s. to_lower (trim_space (cond_Op c)) \<notin> {''invalid'', ''group'', ''not'', ''raw'', ''json'',
        ''fulltext'', ''column'', ''in'', ''in_values'', ''not_in_values'', ''between'', ''exists'',
        ''count'', ''is null'', ''is not null''} \<Longrightarrow>
      IsSafeConditionOperator (cond_Op c) \<Longrightarrow> cond_Value c = ASourcePtr s \<Longrightarrow>
      res_all sq_ok (sqlite_compileScalarSource s ''sqlite.where'')"
  shows "res_all (ok_part sqlite_lex) (sqlite_compileCondition prefix c)"
proof -
  let ?op = "to_lower (trim_space (cond_Op c))"
  let ?lhs = "prefix @ sqlite_QuoteIdent (cond_Field c) @ '' '' @ NormalizeConditionOperator (cond_Op c)"
  note pre' = sq_after [OF pre] sq_count [OF pre]
  note raw = wf_conditionD(4) [OF wf]
  have group: "?op = ''group'' \<or> ?op = ''not'' \<Longrightarrow> clean word \<Longrightarrow>
     res_all (ok_part sqlite_lex) (bind_res (sqlite_compileWhere (cond_Conditions c)) (\<lambda>(sql, groupArgs).
       Inr (if sql = [] then None else Some (prefix @ word @ sql @ '')'', groupArgs))))" for word
    using grp by (auto intro!: res_all_bind_prodI simp: sq_scan pre')
  have column: "res_all (ok_part sqlite_lex)
     (bind_res (sqlite_compileColumnCondition c) (\<lambda>sql. Inr (Some (prefix @ sql, []))))"
    by (rule res_all_bindI [OF sq_column]) (simp add: sq_scan pre')
  have lhs: "IsSafeConditionOperator (cond_Op c) \<Longrightarrow> sq_balanced ?lhs 0"
    using clean_safe_operator by (simp add: sq_scan pre')
  have scalar: "res_all sq_ok (sqlite_compileScalarSource s ''sqlite.where'') \<Longrightarrow>
     IsSafeConditionOperator (cond_Op c) \<Longrightarrow>
     res_all (ok_part sqlite_lex) (bind_res (sqlite_compileScalarSource s ''sqlite.where'')
       (\<lambda>(sql, sourceArgs). Inr (Some (?lhs @ '' '' @ sql, sourceArgs))))" for s
    by (erule res_all_bind_prodI) (use lhs in \<open>simp add: sq_scan pre'\<close>)
  have bound: "IsSafeConditionOperator (cond_Op c) \<Longrightarrow>
     sq_ok (?lhs @ '' ?'', [v]) \<and> sq_ok (?lhs @ '' ?'' @ '' escape '' @ [CHR 0x27, CHR 0x5C, CHR 0x27], [v])" for v
    using clean_safe_operator by (simp add: sq_scan pre')
  show ?thesis
    apply (subst sqlite_compileCondition.simps)
    apply (unfold Let_def)
    apply (intro res_all_ifI)
    subgoal by (auto split: goany.splits)
    subgoal using group [of "''(''"] by (simp add: clean_char_def)
    subgoal using group [of "''not (''"] by (simp add: clean_char_def)
    subgoal using raw by (simp add: sq_scan pre' raw_values_def)
    subgoal by (intro sq_prefixed pre sq_json)
    subgoal by simp
    subgoal by (rule column)
    subgoal by (intro sq_prefixed pre inn)
    subgoal by (intro sq_prefixed pre sq_in_values)
    subgoal by (intro sq_prefixed pre sq_between)
    subgoal by (intro sq_prefixed pre exi)
    subgoal by (intro sq_prefixed pre cnt)
    subgoal by (auto simp: sq_scan pre')
    subgoal by simp
    subgoal using bound scalar sub by (auto simp del: append_assoc append.simps split: goany.splits)
    done
qed

lemmas sqlite_compile_induct =
  sqlite_compileSelect_sqlite_compileSelectItems_sqlite_compileSelectExpr_sqlite_compileSelectSource_sqlite_compileSource_sqlite_compileJoins_sqlite_compileJoinList_sqlite_compileJoin_sqlite_compileJoinSource_sqlite_compileWhere_sqlite_compileConditions_sqlite_compileCondition_sqlite_compileInCondition_sqlite_compileExistsCondition_sqlite_compileCountCondition_sqlite_compileScalarSource.induct

lemma sqlite_compile_ok:
  "wf_select sqlite_lex stmt \<longrightarrow> res_all sq_compiled (sqlite_compileSelect stmt)"
  "(\<forall>i \<in> set items. wf_item sqlite_lex i) \<longrightarrow> res_all (ok_parts sqlite_lex) (sqlite_compileSelectItems items)"
  "wf_item sqlite_lex item \<and> sel_Expr item \<noteq> ''__oro_fulltext_score__'' \<longrightarrow>
     res_all sq_ok (sqlite_compileSelectExpr item)"
  "wf_source sqlite_lex (stmt_From stmt') \<longrightarrow> res_all sq_ok (sqlite_compileSelectSource stmt')"
  "wf_source sqlite_lex source \<longrightarrow> res_all sq_ok (sqlite_compileSource source)"
  "(\<forall>j \<in> set joins. wf_join sqlite_lex j) \<longrightarrow> res_all sq_ok (sqlite_compileJoins joins)"
  "(\<forall>j \<in> set joins'. wf_join sqlite_lex j) \<longrightarrow> res_all (ok_parts sqlite_lex) (sqlite_compileJoinList joins')"
  "wf_join sqlite_lex j \<longrightarrow> res_all sq_ok (sqlite_compileJoin j)"
  "wf_source sqlite_lex (join_Source j') \<longrightarrow> res_all sq_ok (sqlite_compileJoinSource j')"
  "(\<forall>c \<in> set conds. wf_condition sqlite_lex c) \<longrightarrow> res_all sq_ok (sqlite_compileWhere conds)"
  "(\<forall>c \<in> set conds'. wf_condition sqlite_lex c) \<longrightarrow>
     res_all (ok_parts sqlite_lex) (sqlite_compileConditions first conds')"
  "wf_condition sqlite_lex c \<and> sq_balanced prefix 0 \<longrightarrow>
     res_all (ok_part sqlite_lex) (sqlite_compileCondition prefix c)"
  "wf_condition sqlite_lex c1 \<longrightarrow> res_all sq_ok (sqlite_compileInCondition c1)"
  "wf_condition sqlite_lex c2 \<longrightarrow> res_all sq_ok (sqlite_compileExistsCondition c2)"
  "wf_condition sqlite_lex c3 \<longrightarrow> res_all sq_ok (sqlite_compileCountCondition c3)"
  "wf_source sqlite_lex source' \<longrightarrow> res_all sq_ok (sqlite_compileScalarSource source' op)"
proof (induction stmt and items and item and stmt' and source and joins and joins' and j and j'
    and conds and first conds' and prefix c and c1 and c2 and c3 and source' op
    rule: sqlite_compile_induct)
  case (1 stmt)
  note IH = "1.IH"(1) "1.IH"(2) [OF refl] "1.IH"(3) [OF refl refl] "1.IH"(4) [OF refl refl refl]
    "1.IH"(5) [OF refl refl refl refl]
  show ?case
  proof
    assume "wf_select sqlite_lex stmt"
    note wf = wf_selectD [OF this]
    show "res_all sq_compiled (sqlite_compileSelect stmt)"
      by (rule sq_select_step [OF IH(1) [THEN mp, OF _ wf(2)] IH(2) [THEN mp, OF wf(1)]
            IH(3) [THEN mp, OF wf(3)] IH(4) [THEN mp, OF wf(4)] IH(5) [THEN mp, OF wf(5)] wf(6)])
  qed
next
  case (2 items)
  show ?case by (intro impI, rule sq_items_step) (use 2 in auto)
next
  case (3 item)
  show ?case by (intro impI, rule sq_expr_step) (use 3 in \<open>auto simp: wf_item.simps [of _ item]\<close>)
next
  case (4 stmt)
  then show ?case
    by (subst sqlite_compileSelectSource.simps) (auto simp: Let_def)
next
  case (5 source)
  show ?case
    by (intro impI, rule sq_source_step) (use 5 in \<open>auto simp: wf_source.simps [of _ source]\<close>)
next
  case (6 joins)
  then show ?case
    by (subst sqlite_compileJoins.simps)
       (auto simp: sq_scan clean_char_def intro!: res_all_bind_prodI
          dest!: ok_parts_join [OF sq_blank, rotated])
next
  case (7 joins)
  show ?case by (intro impI, rule sq_joinlist_step) (use 7 in auto)
next
  case (8 j)
  note IH = "8.IH"(1) "8.IH"(2) [OF _ _ _ refl prod.collapse]
  show ?case
    by (intro impI, rule sq_join_step) (use IH in \<open>auto simp: wf_join.simps [of _ j]\<close>)
next
  case (9 j)
  then show ?case
    by (subst sqlite_compileJoinSource.simps) (simp add: Let_def)
next
  case (10 conds)
  then show ?case
    by (subst sqlite_compileWhere.simps)
       (auto intro!: res_all_bind_prodI dest: ok_parts_join [of _ "[]", rotated])
next
  case (11 first conds)
  show ?case by (intro impI, rule sq_conditions_step) (use 11 in auto)
next
  case (12 prefix c)
  show ?case
  proof (intro impI, elim conjE)
    assume wf: "wf_condition sqlite_lex c" and pre: "sq_balanced prefix 0"
    note sub = wf_conditionD [OF wf]
    show "res_all (ok_part sqlite_lex) (sqlite_compileCondition prefix c)"
      by (rule sq_condition_step [OF wf pre]) (use "12.IH" wf sub in auto)
  qed
next
  case (13 c)
  then show ?case
    by (auto simp: sqlite_compileInCondition.simps wf_condition.simps [of _ c] sq_scan
        split: goany.splits intro!: res_all_bind_prodI)
next
  case (14 c)
  then show ?case
    by (auto simp: sqlite_compileExistsCondition.simps wf_condition.simps [of _ c] sq_scan
        split: goany.splits intro!: res_all_bind_prodI)
next
  case (15 c)
  then show ?case
    by (auto simp: sqlite_compileCountCondition.simps wf_condition.simps [of _ c] sq_scan
        split: goany.splits option.splits intro!: res_all_bind_prodI)
next
  case (16 source op)
  show ?case
    by (intro impI, rule sq_scalar_step) (use 16 in \<open>auto simp: wf_source.simps [of _ source]\<close>)
qed

section \<open>Writes\<close>

lemma sq_set: "wf_set sqlite_lex v \<Longrightarrow> sq_ok (sqlite_compileSet column v)"
  by (auto simp: sqlite_compileSet_def wf_set_def wf_raw_def sq_scan split: goany.splits)

lemma sq_sets:
  assumes "\<forall>kv \<in> set m. wf_set sqlite_lex (snd kv)"
  shows "sq_balanced (join '', '' (map (fst \<circ> (\<lambda>k. sqlite_compileSet k (map_get m k))) ks))
           (length (concat (map (snd \<circ> (\<lambda>k. sqlite_compileSet k (map_get m k))) ks)))"
proof -
  have "\<forall>f \<in> set (map (\<lambda>k. sqlite_compileSet k (map_get m k)) ks). sq_ok f"
    using wf_set_map_get [OF assms] by (auto intro: sq_set)
  from ok_parts_join [OF sq_comma ok_parts_map [OF this]] show ?thesis
    by (simp add: clean_char_def)
qed

lemma sqlite_insertRow_length:
  "res_all (\<lambda>items. length items = length cols) (sqlite_insertRow cols v)"
  by (induction cols) (auto split: option.splits intro!: res_all_bindI)

lemma sqlite_insertRows_length:
  "res_all (\<lambda>args. length args = length rows * length cols) (sqlite_insertRows cols rows)"
proof (induction rows)
  case Nil
  then show ?case by simp
next
  case (Cons row rows)
  show ?case
    by (auto intro!: res_all_bindI [OF sqlite_insertRow_length] res_all_bindI [OF Cons.IH])
qed

lemma sq_columns: "sq_balanced (join '', '' (map sqlite_QuoteIdent cols)) 0"
  by (rule balanced_join_0) (auto simp: sq_clean clean_char_def)

lemma sq_plainInsert: "res_all sq_compiled (sqlite_plainInsert stmt)"
proof (cases "ins_Values stmt")
  case Nil
  then show ?thesis by (simp add: sqlite_plainInsert_def)
next
  case (Cons row rows)
  let ?cols = "sortedKeys row"
  let ?rowp = "''('' @ trim_right (repeat_str ''?, '' (length ?cols)) '', '' @ '')''"
  have rows: "sq_balanced (join '', '' (replicate (length (ins_Values stmt)) ?rowp))
      (length (ins_Values stmt) * length ?cols)"
    by (intro balanced_join_replicate balanced_row_placeholder sq_clean) (simp_all add: clean_char_def)
  show ?thesis
    by (subst sqlite_plainInsert_def, subst Cons, unfold list.case Let_def,
        rule res_all_bindI [OF sqlite_insertRows_length])
       (use rows sq_columns [of ?cols] in \<open>auto simp: ok_compiled_def sq_scan\<close>)
qed

lemma sq_conflict:
  assumes "\<forall>kv \<in> set (conf_UpdateMap conflict). wf_set sqlite_lex (snd kv)"
  shows "res_all sq_ok (sqlite_compileConflictUpdate conflict row)"
proof -
  have excl: "sq_balanced (join '', '' (map (\<lambda>column.
      sqlite_QuoteIdent column @ '' = excluded.'' @ sqlite_QuoteIdent column) cols)) 0" for cols
    by (rule balanced_join_0) (auto simp: sq_clean clean_char_def sq_scan)
  show ?thesis
    unfolding sqlite_compileConflictUpdate_def Let_def
    using sq_sets [OF assms] excl
    by (auto simp: sq_scan split: list.splits)
qed

lemma sq_upsert:
  assumes "\<forall>kv \<in> set (conf_UpdateMap (ins_Conflict stmt)). wf_set sqlite_lex (snd kv)"
  shows "res_all sq_compiled (sqlite_compileUpsert stmt)"
  unfolding sqlite_compileUpsert_def
  by (rule res_all_bindI [OF sq_plainInsert])
     (use sq_columns in \<open>auto simp: ok_compiled_def sq_scan split: list.splits
        intro!: res_all_bind_prodI [OF sq_conflict [OF assms]]\<close>)

lemma sq_where:
  "\<forall>c \<in> set cs. wf_condition sqlite_lex c \<Longrightarrow> res_all sq_ok (sqlite_compileWhere cs)"
  using sqlite_compile_ok(10) by blast

lemma sq_update:
  assumes "\<forall>kv \<in> set (upd_Values stmt). wf_set sqlite_lex (snd kv)"
    and "\<forall>c \<in> set (upd_Where stmt). wf_condition sqlite_lex c"
  shows "res_all sq_compiled (sqlite_compileUpdate stmt)"
  unfolding sqlite_compileUpdate_def Let_def
  using sq_sets [OF assms(1)]
  by (auto simp: ok_compiled_def sq_scan intro!: res_all_bind_prodI [OF sq_where [OF assms(2)]])

lemma sq_delete:
  assumes "\<forall>c \<in> set (del_Where stmt). wf_condition sqlite_lex c"
  shows "res_all sq_compiled (sqlite_compileDelete stmt)"
  unfolding sqlite_compileDelete_def
  by (auto simp: ok_compiled_def sq_scan intro!: res_all_bind_prodI [OF sq_where [OF assms]])

text \<open>
  C1. Every statement the SQLite dialect compiles (selects with any nesting of sub-queries,
  inserts, upserts, updates and deletes) is read to its end outside every quote and contains
  exactly as many placeholders as the argument list has entries, provided the raw SQL the
  caller passes through is itself balanced.
\<close>

theorem sqlite_Compile_placeholders:
  assumes "wf_statement sqlite_lex stmt" and "sqlite_Compile stmt = Inr c"
  shows "balanced sqlite_lex (c_SQL c) (length (c_Args c))"
proof -
  have "res_all sq_compiled (sqlite_Compile stmt)"
    using assms(1) sqlite_compile_ok(1) sq_plainInsert sq_upsert sq_update sq_delete
    by (cases stmt) (auto simp: wf_statement_def sqlite_Compile_def sqlite_compileInsert_def)
  with assms(2) show ?thesis by (simp add: ok_compiled_def)
qed

theorem sqlite_Compile_placeholders_witness:
  "\<exists>c. sqlite_Compile (StmtSelect example_select) = Inr c \<and>
     c_Args c = [AString ''x'', AInt64 5, AString ''a%''] \<and> balanced sqlite_lex (c_SQL c) (length (c_Args c))"
proof -
  let ?c = "\<lparr>c_SQL = ''select * from '' @ sqlite_QuoteIdent ''products'' @ '' where ''
      @ sqlite_QuoteIdent ''na?me'' @ '' = ? or (price > ?) and '' @ sqlite_QuoteIdent ''id''
      @ '' in (select * from '' @ sqlite_QuoteIdent ''tags'' @ '' where ''
      @ sqlite_QuoteIdent ''label'' @ '' like ?)'',
    c_Args = [AString ''x'', AInt64 5, AString ''a%'']\<rparr>"
  have wf: "wf_statement sqlite_lex (StmtSelect example_select)" by code_simp
  have c: "sqlite_Compile (StmtSelect example_select) = Inr ?c" by code_simp
  show ?thesis
    by (rule exI [of _ ?c], intro conjI, rule c, simp, rule sqlite_Compile_placeholders [OF wf c])
qed

text \<open>
  Quoting an identifier loses nothing. Reading the quoted text back with SQLite's rules
  gives the name again, dots and quotes included, so different names stay different.
\<close>

theorem sqlite_QuoteIdent_roundtrip:
  "unquote_ident (CHR 0x22) (sqlite_QuoteIdent name) = Some name"
  by (simp add: sqlite_QuoteIdent_eq unquote_quote_ident)

end
