(* ===== verification/Mysql_Dialect.thy ===== *)
theory Mysql_Dialect
  imports Query_Util
begin

text \<open>
  The MySQL dialect, driver/mysql/dialect.go: one definition per function of the file. It has
  the shape of the SQLite dialect and differs where MySQL does: backtick quotes, its own types,
  row locks, full-text search, JSON arguments marshalled to text, and upserts written with
  \<open>on duplicate key update\<close>. \<open>marshal\<close> stands for \<open>json.Marshal\<close> followed by the conversion to
  a string; nothing is assumed about it.
\<close>

type_synonym marshal_fun = "goany \<Rightarrow> string result"

definition mysql_Name :: string where
  "mysql_Name = ''mysql''"

definition mysql_Capabilities :: capabilities where
  "mysql_Capabilities =
     \<lparr>cap_Returning = False, cap_Upsert = True, cap_Savepoint = True,
        cap_LockForUpdate = True, cap_LockForShare = True, cap_LockNoWait = True,
        cap_LockSkipLocked = True, cap_FullJoin = False, cap_JSON = True, cap_FullText = True,
        cap_CheckConstraint = False\<rparr>"

definition mysql_QuoteIdent :: "string \<Rightarrow> string" where
  "mysql_QuoteIdent name =
     join ''.'' (map (\<lambda>part. [CHR 0x60] @ replace_char (CHR 0x60) [CHR 0x60, CHR 0x60] part @ [CHR 0x60])
                     (split_on (CHR ''.'') name))"

definition mysql_Placeholder :: "int \<Rightarrow> string" where
  "mysql_Placeholder index = ''?''"

definition mysql_varchar :: "column_spec \<Rightarrow> string" where
  "mysql_varchar column =
     (if 0 < col_Size column then ''varchar('' @ itoa (col_Size column) @ '')'' else ''varchar(255)'')"

definition mysql_decimal :: "column_spec \<Rightarrow> string" where
  "mysql_decimal column =
     (if col_Precision column \<le> 0 then ''decimal''
      else ''decimal('' @ itoa (col_Precision column) @ '','' @ itoa (col_Scale column) @ '')'')"

definition mysql_DataType :: "column_spec \<Rightarrow> string result" where
  "mysql_DataType column =
     (let typ = col_Type column in
      if typ = ''string'' then Inr (mysql_varchar column)
      else if typ = ''text'' then Inr ''text''
      else if typ = ''bool'' then Inr ''boolean''
      else if typ \<in> {''int'', ''int32''} then Inr ''int''
      else if typ \<in> {''uint'', ''uint32''} then Inr ''int unsigned''
      else if typ = ''uint64'' then Inr ''bigint unsigned''
      else if typ = ''int64'' then Inr ''bigint''
      else if typ = ''decimal'' then Inr (mysql_decimal column)
      else if typ = ''float'' then Inr ''float''
      else if typ = ''double'' then Inr ''double''
      else if typ = ''binary'' then Inr ''blob''
      else if typ \<in> {''json'', ''string_array'', ''int_array''} then Inr ''json''
      else if typ = ''uuid'' then Inr ''char(36)''
      else if typ = ''time.Time'' then Inr ''datetime''
      else if typ = ''date'' then Inr ''date''
      else if typ = ''time'' then Inr ''time''
      else if typ \<in> {''enum'', ''email'', ''url'', ''ip'', ''mac'', ''phone'', ''slug'', ''color''}
        then Inr (mysql_varchar column)
      else if typ = ''point'' then Inr ''point''
      else if contains typ ''time.Time'' then Inr ''datetime''
      else if contains typ ''Decimal'' then Inr (mysql_decimal column)
      else if contains typ ''JSON'' then Inr ''json''
      else Inr ''text'')"

definition mysql_NormalizeType :: "string \<Rightarrow> (string \<times> string) result" where
  "mysql_NormalizeType dbType = Inr (to_lower dbType, dbType)"

section \<open>Clauses that contain no sub-query\<close>

definition mysql_compileAggregateSelect :: "sel_item \<Rightarrow> string result" where
  "mysql_compileAggregateSelect item =
     (case sel_Args item of
        [] \<Rightarrow> Inl (mk_error ''mysql.select'' ErrInvalidArgument)
      | AAggregateExpr func field alias # _ \<Rightarrow>
          (case AggregateSelectSQL func field mysql_QuoteIdent of
             Inl _ \<Rightarrow> Inl (mk_error ''mysql.select'' ErrInvalidArgument)
           | Inr sql \<Rightarrow> Inr sql)
      | _ \<Rightarrow> Inl (mk_error ''mysql.select'' ErrInvalidArgument))"

fun mysql_joinConditionParts :: "bool \<Rightarrow> join_cond list \<Rightarrow> string list \<times> goany list"
  and mysql_compileJoinConditions :: "join_cond list \<Rightarrow> fragment" where
  "mysql_joinConditionParts first [] = ([], [])"
| "mysql_joinConditionParts first (JoinCondition bool left op right value column grp err # rest) =
     (let prefix = (if first then '''' else to_lower bool @ '' '');
          (parts, args) = mysql_joinConditionParts False rest
      in if grp \<noteq> [] then
           (let (groupSQL, groupArgs) = mysql_compileJoinConditions grp
            in ((prefix @ ''('' @ groupSQL @ '')'') # parts, groupArgs @ args))
         else if column then
           ((prefix @ mysql_QuoteIdent left @ '' '' @ op @ '' '' @ mysql_QuoteIdent right) # parts, args)
         else ((prefix @ mysql_QuoteIdent left @ '' '' @ op @ '' ?'') # parts, value # args))"
| "mysql_compileJoinConditions conditions =
     (let (parts, args) = mysql_joinConditionParts True conditions in (join '' '' parts, args))"

definition mysql_compileColumnCondition :: "condition \<Rightarrow> string result" where
  "mysql_compileColumnCondition condition =
     (case cond_Value condition of
        AColumnCondition op right \<Rightarrow>
          (if right = [] then Inl (mk_field_error ''mysql.where'' ErrInvalidArgument (cond_Field condition))
           else if \<not> IsSafeColumnOperator op
             then Inl (mk_field_error ''mysql.where'' ErrInvalidArgument (cond_Field condition))
           else Inr (mysql_QuoteIdent (cond_Field condition) @ '' '' @ NormalizeConditionOperator op
                     @ '' '' @ mysql_QuoteIdent right))
      | _ \<Rightarrow> Inl (mk_field_error ''mysql.where'' ErrInvalidArgument (cond_Field condition)))"

definition mysql_compileInValuesCondition :: "condition \<Rightarrow> bool \<Rightarrow> fragment result" where
  "mysql_compileInValuesCondition condition negated =
     (case cond_Value condition of
        AList values \<Rightarrow>
          (if values = [] then Inr (if negated then ''1 = 1'' else ''1 = 0'', [])
           else Inr (mysql_QuoteIdent (cond_Field condition) @ (if negated then '' not in '' else '' in '')
                     @ ''('' @ join '', '' (replicate (length values) ''?'') @ '')'', values))
      | _ \<Rightarrow> Inl (mk_field_error ''mysql.where'' ErrInvalidArgument (cond_Field condition)))"

definition mysql_compileBetweenCondition :: "condition \<Rightarrow> fragment result" where
  "mysql_compileBetweenCondition condition =
     (case cond_Value condition of
        AList values \<Rightarrow>
          (if length values \<noteq> 2
             then Inl (mk_field_error ''mysql.where'' ErrInvalidArgument (cond_Field condition))
           else Inr (mysql_QuoteIdent (cond_Field condition) @ '' between ? and ?'', values))
      | _ \<Rightarrow> Inl (mk_field_error ''mysql.where'' ErrInvalidArgument (cond_Field condition)))"

definition mysqlJSONPath :: "string list \<Rightarrow> string" where
  "mysqlJSONPath parts = JSONPath parts"

definition mysql_compileFullTextCondition :: "condition \<Rightarrow> fragment result" where
  "mysql_compileFullTextCondition condition =
     (case cond_Value condition of
        AFullTextExpr fs query alias isScore \<Rightarrow>
          (if fs = [] then Inl (mk_error ''mysql.fulltext'' ErrInvalidArgument)
           else Inr (''match('' @ join '', '' (map mysql_QuoteIdent fs) @ '') against (?)'', [AString query]))
      | _ \<Rightarrow> Inl (mk_error ''mysql.fulltext'' ErrInvalidArgument))"

text \<open>\<open>item.Args[0]\<close> is read without a length check: an empty list is a run-time panic.\<close>

definition mysql_compileFullTextScore :: "sel_item \<Rightarrow> fragment result" where
  "mysql_compileFullTextScore item =
     (case sel_Args item of
        [] \<Rightarrow> Inl (GoPanic ''index out of range'')
      | AFullTextExpr fs query alias isScore # _ \<Rightarrow>
          (if fs = [] then Inl (mk_error ''mysql.fulltext'' ErrInvalidArgument)
           else Inr (''match('' @ join '', '' (map mysql_QuoteIdent fs) @ '') against (?)'', [AString query]))
      | _ \<Rightarrow> Inl (mk_error ''mysql.fulltext'' ErrInvalidArgument))"

definition mysql_jsonConditionArgument :: "marshal_fun \<Rightarrow> goany \<Rightarrow> string result" where
  "mysql_jsonConditionArgument marshal value =
     (case marshal value of
        Inl cause \<Rightarrow> Inl (OroError ''mysql.json'' ErrInvalidArgument '''' '''' (Some cause))
      | Inr bytesValue \<Rightarrow> Inr bytesValue)"

definition mysql_compileJSONCondition :: "marshal_fun \<Rightarrow> condition \<Rightarrow> fragment result" where
  "mysql_compileJSONCondition marshal condition =
     (case cond_Value condition of
        AJSONCondition field parts jop value \<Rightarrow>
          (let expr = ''json_extract('' @ mysql_QuoteIdent field @ '', ?)'';
               path = AString (mysqlJSONPath parts);
               op = to_lower jop
           in if op = ''='' then
                bind_res (mysql_jsonConditionArgument marshal value) (\<lambda>v.
                  Inr (expr @ '' = cast(? as json)'', [path, AString v]))
              else if op = ''!='' then
                bind_res (mysql_jsonConditionArgument marshal value) (\<lambda>v.
                  Inr (expr @ '' != cast(? as json)'', [path, AString v]))
              else if op = ''is null'' then Inr (expr @ '' is null'', [path])
              else if op = ''is not null'' then Inr (expr @ '' is not null'', [path])
              else if op = ''exists''
                then Inr (''json_contains_path('' @ mysql_QuoteIdent field @ '', '' @ [CHR 0x27] @ ''one''
                          @ [CHR 0x27] @ '', ?) = 1'', [path])
              else if op = ''contains'' then
                bind_res (mysql_jsonConditionArgument marshal value) (\<lambda>v.
                  Inr (''json_contains('' @ expr @ '', cast(? as json)) = 1'', [path, AString v]))
              else if op = ''like'' then Inr (''json_unquote('' @ expr @ '') like ?'', [path, value])
              else Inl (mk_error ''mysql.json'' ErrInvalidArgument))
      | _ \<Rightarrow> Inl (mk_error ''mysql.json'' ErrInvalidArgument))"

definition mysql_compileLockOptions :: "string \<Rightarrow> lock_spec \<Rightarrow> string" where
  "mysql_compileLockOptions sql lock =
     sql @ (if lock_NoWait lock then '' nowait'' else '''')
         @ (if lock_SkipLocked lock then '' skip locked'' else '''')"

definition mysql_compileLock :: "lock_spec \<Rightarrow> string result" where
  "mysql_compileLock lock =
     (case lock_Mode lock of
        LockNone \<Rightarrow> Inr ''''
      | LockUpdate \<Rightarrow> Inr (mysql_compileLockOptions '' for update'' lock)
      | LockShare \<Rightarrow> Inr (mysql_compileLockOptions '' for share'' lock)
      | LockModeOther _ \<Rightarrow> Inl (mk_error ''mysql.lock'' ErrInvalidArgument))"

definition mysql_compileGroup :: "string list \<Rightarrow> string" where
  "mysql_compileGroup fs = join '', '' (map mysql_QuoteIdent fs)"

definition mysql_orderItem :: "order_item \<Rightarrow> string" where
  "mysql_orderItem item =
     (let expr = (if ord_Raw item then ord_Expr item else mysql_QuoteIdent (ord_Expr item))
      in if ord_Desc item then expr @ '' desc''
         else if \<not> ord_Raw item then expr @ '' asc'' else expr)"

definition mysql_compileOrder :: "order_item list \<Rightarrow> fragment" where
  "mysql_compileOrder items =
     (join '', '' (map mysql_orderItem items), concat (map ord_Args items))"

section \<open>Selects, sources, joins and conditions\<close>

definition mysql_cond_prefix :: "bool \<Rightarrow> condition \<Rightarrow> string" where
  "mysql_cond_prefix first condition =
     (if first then ''''
      else if to_lower (trim_space (cond_Bool condition)) = ''or'' then '' or '' else '' and '')"

text \<open>
  The end of \<open>compileSelect\<close>, from the limit on: its text, or the error of a negative limit or
  offset or of an unknown lock mode.
\<close>

definition mysql_limit_offset_lock :: "select_ast \<Rightarrow> string result" where
  "mysql_limit_offset_lock stmt =
     bind_res
       (case stmt_Limit stmt of
          None \<Rightarrow> Inr ''''
        | Some limit \<Rightarrow>
            (if limit < 0 then Inl (mk_field_error ''mysql.select'' ErrInvalidArgument ''Limit'')
             else Inr ('' limit '' @ itoa limit)))
     (\<lambda>limitSQL. bind_res
       (case stmt_Offset stmt of
          None \<Rightarrow> Inr ''''
        | Some offset \<Rightarrow>
            (if offset < 0 then Inl (mk_field_error ''mysql.select'' ErrInvalidArgument ''Offset'')
             else Inr ((if stmt_Limit stmt = None then '' limit 18446744073709551615'' else '''') @ '' offset '' @ itoa offset)))
     (\<lambda>offsetSQL. bind_res (mysql_compileLock (stmt_Lock stmt))
     (\<lambda>lockSQL. Inr (limitSQL @ offsetSQL @ lockSQL))))"

function
  mysql_compileSelect :: "marshal_fun \<Rightarrow> select_ast \<Rightarrow> compiled_sql result" and
  mysql_compileSelectItems :: "marshal_fun \<Rightarrow> sel_item list \<Rightarrow> (string list \<times> goany list) result" and
  mysql_compileSelectExpr :: "marshal_fun \<Rightarrow> sel_item \<Rightarrow> fragment result" and
  mysql_compileSelectSource :: "marshal_fun \<Rightarrow> select_ast \<Rightarrow> fragment result" and
  mysql_compileSource :: "marshal_fun \<Rightarrow> source_ast \<Rightarrow> fragment result" and
  mysql_compileJoins :: "marshal_fun \<Rightarrow> join_item list \<Rightarrow> fragment result" and
  mysql_compileJoinList :: "marshal_fun \<Rightarrow> join_item list \<Rightarrow> (string list \<times> goany list) result" and
  mysql_compileJoin :: "marshal_fun \<Rightarrow> join_item \<Rightarrow> fragment result" and
  mysql_compileJoinSource :: "marshal_fun \<Rightarrow> join_item \<Rightarrow> fragment result" and
  mysql_compileWhere :: "marshal_fun \<Rightarrow> condition list \<Rightarrow> fragment result" and
  mysql_compileConditions :: "marshal_fun \<Rightarrow> bool \<Rightarrow> condition list \<Rightarrow> (string list \<times> goany list) result" and
  mysql_compileCondition :: "marshal_fun \<Rightarrow> string \<Rightarrow> condition \<Rightarrow> fragment option result" and
  mysql_compileInCondition :: "marshal_fun \<Rightarrow> condition \<Rightarrow> fragment result" and
  mysql_compileExistsCondition :: "marshal_fun \<Rightarrow> condition \<Rightarrow> fragment result" and
  mysql_compileCountCondition :: "marshal_fun \<Rightarrow> condition \<Rightarrow> fragment result" and
  mysql_compileScalarSource :: "marshal_fun \<Rightarrow> source_ast \<Rightarrow> string \<Rightarrow> fragment result"
where
  "mysql_compileSelect marshal stmt =
     bind_res
       (if stmt_Select stmt = [] then Inr (''*'', [])
        else bind_res (mysql_compileSelectItems marshal (stmt_Select stmt))
               (\<lambda>(parts, args). Inr (join '', '' parts, args)))
     (\<lambda>(selectSQL, selectArgs).
     bind_res (mysql_compileSelectSource marshal stmt) (\<lambda>(sourceSQL, sourceArgs).
     bind_res (mysql_compileJoins marshal (stmt_Joins stmt)) (\<lambda>(joins, joinArgs).
     bind_res (mysql_compileWhere marshal (stmt_Where stmt)) (\<lambda>(whereSQL, whereArgs).
     bind_res (mysql_compileWhere marshal (stmt_Having stmt)) (\<lambda>(having, havingArgs).
     bind_res (mysql_limit_offset_lock stmt) (\<lambda>tail.
       let groupSQL = mysql_compileGroup (stmt_Group stmt);
           (order, orderArgs) = mysql_compileOrder (stmt_Order stmt)
       in Inr \<lparr>c_SQL = ''select '' @ selectSQL @ '' from '' @ sourceSQL @ joins
                 @ (if whereSQL \<noteq> [] then '' where '' @ whereSQL else '''')
                 @ (if groupSQL \<noteq> [] then '' group by '' @ groupSQL else '''')
                 @ (if having \<noteq> [] then '' having '' @ having else '''')
                 @ (if order \<noteq> [] then '' order by '' @ order else '''')
                 @ tail,
               c_Args = selectArgs @ sourceArgs @ joinArgs
                 @ (if whereSQL \<noteq> [] then whereArgs else [])
                 @ (if having \<noteq> [] then havingArgs else [])
                 @ (if order \<noteq> [] then orderArgs else [])\<rparr>))))))"
| "mysql_compileSelectItems marshal items =
     (case items of
        [] \<Rightarrow> Inr ([], [])
      | item # rest \<Rightarrow>
          bind_res (mysql_compileSelectExpr marshal item) (\<lambda>(expr, itemArgs).
            bind_res (mysql_compileSelectItems marshal rest) (\<lambda>(parts, args).
              Inr (expr # parts, itemArgs @ args))))"
| "mysql_compileSelectExpr marshal item =
     (case sel_Source item of
        Some source \<Rightarrow>
          bind_res (mysql_compileScalarSource marshal source ''mysql.select'') (\<lambda>(expr, args).
            if sel_Alias item = [] then Inl (mk_error ''mysql.select'' ErrInvalidArgument)
            else Inr (expr @ '' as '' @ mysql_QuoteIdent (sel_Alias item), args))
      | None \<Rightarrow>
          if sel_Expr item = ''__oro_relation_exists__'' then
            (case sel_Args item of
               [ASource source] \<Rightarrow>
                 bind_res (mysql_compileScalarSource marshal source ''mysql.select'') (\<lambda>(expr, args).
                   if sel_Alias item = [] then Inl (mk_error ''mysql.select'' ErrInvalidArgument)
                   else Inr (''exists '' @ expr @ '' as '' @ mysql_QuoteIdent (sel_Alias item), args))
             | _ \<Rightarrow> Inl (mk_error ''mysql.select'' ErrInvalidArgument))
          else
            bind_res
              (if sel_Expr item = ''__oro_fulltext_score__'' then mysql_compileFullTextScore item
               else if sel_Expr item = ''__oro_aggregate__''
               then bind_res (mysql_compileAggregateSelect item) (\<lambda>sql. Inr (sql, []))
               else if \<not> sel_Raw item then Inr (mysql_QuoteIdent (sel_Expr item), [])
               else Inr (sel_Expr item, sel_Args item))
            (\<lambda>(expr, args).
              Inr (if sel_Alias item \<noteq> [] then expr @ '' as '' @ mysql_QuoteIdent (sel_Alias item)
                   else expr, args)))"
| "mysql_compileSelectSource marshal stmt =
     (let source = stmt_From stmt in
      if src_Table source \<noteq> [] \<or> src_Query source \<noteq> None \<or> src_Raw source \<noteq> None
      then mysql_compileSource marshal
             (SourceAST (src_Table source)
                (if src_Alias source = [] then stmt_Alias stmt else src_Alias source)
                (src_Query source) (src_Raw source))
      else mysql_compileSource marshal (SourceAST (stmt_Table stmt) (stmt_Alias stmt) None None))"
| "mysql_compileSource marshal source =
     (if src_Table source \<noteq> [] then
        Inr (mysql_QuoteIdent (src_Table source)
             @ (if src_Alias source \<noteq> [] then '' as '' @ mysql_QuoteIdent (src_Alias source) else ''''), [])
      else case src_Query source of
        Some query \<Rightarrow>
          (if src_Alias source = [] then Inl (mk_error ''mysql.source'' ErrInvalidArgument)
           else bind_res (mysql_compileSelect marshal query) (\<lambda>compiled.
             Inr (''('' @ c_SQL compiled @ '') as '' @ mysql_QuoteIdent (src_Alias source), c_Args compiled)))
      | None \<Rightarrow>
          (case src_Raw source of
             Some raw \<Rightarrow>
               (if src_Alias source = [] then Inl (mk_error ''mysql.source'' ErrInvalidArgument)
                else Inr (''('' @ raw_SQL raw @ '') as '' @ mysql_QuoteIdent (src_Alias source), raw_Args raw))
           | None \<Rightarrow> Inl (mk_error ''mysql.source'' ErrInvalidArgument)))"
| "mysql_compileJoins marshal joins =
     (if joins = [] then Inr ('''', [])
      else bind_res (mysql_compileJoinList marshal joins) (\<lambda>(parts, args).
             Inr ('' '' @ join '' '' parts, args)))"
| "mysql_compileJoinList marshal joins =
     (case joins of
        [] \<Rightarrow> Inr ([], [])
      | j # rest \<Rightarrow>
          bind_res (mysql_compileJoin marshal j) (\<lambda>(joinSQL, conditionArgs).
          bind_res (mysql_compileJoinList marshal rest) (\<lambda>(parts, args).
            Inr (joinSQL # parts, conditionArgs @ args))))"
| "mysql_compileJoin marshal j =
     (case join_Raw j of
        Some raw \<Rightarrow> Inr (raw_SQL raw, raw_Args raw)
      | None \<Rightarrow>
          bind_res
            (case join_Type j of
               JoinInner \<Rightarrow> Inr ''join''
             | JoinLeft \<Rightarrow> Inr ''left join''
             | JoinRight \<Rightarrow> Inr ''right join''
             | JoinFull \<Rightarrow> Inr ''full join''
             | JoinCross \<Rightarrow> Inr ''cross join''
             | JoinTypeOther _ \<Rightarrow> Inl (mk_error ''mysql.join'' ErrInvalidArgument))
          (\<lambda>joinType.
            if join_Type j = JoinCross then
              bind_res (mysql_compileJoinSource marshal j) (\<lambda>(source, sourceArgs).
                Inr (''cross join '' @ source, sourceArgs))
            else if join_Conditions j = [] then Inl (mk_error ''mysql.join'' ErrInvalidArgument)
            else
              let (conditions, args) = mysql_compileJoinConditions (join_Conditions j) in
              bind_res (mysql_compileJoinSource marshal j) (\<lambda>(source, sourceArgs).
                Inr (joinType @ '' '' @ source @ '' on '' @ conditions, sourceArgs @ args))))"
| "mysql_compileJoinSource marshal j =
     (let source = join_Source j;
          table = (if src_Table source = [] \<and> src_Query source = None \<and> src_Raw source = None
                   then join_Table j else src_Table source);
          alias = (if join_Alias j \<noteq> [] then join_Alias j else src_Alias source)
      in mysql_compileSource marshal (SourceAST table alias (src_Query source) (src_Raw source)))"
| "mysql_compileWhere marshal conditions =
     bind_res (mysql_compileConditions marshal True conditions) (\<lambda>(parts, args).
       Inr (join '''' parts, args))"
| "mysql_compileConditions marshal first conditions =
     (case conditions of
        [] \<Rightarrow> Inr ([], [])
      | condition # rest \<Rightarrow>
          bind_res (mysql_compileCondition marshal (mysql_cond_prefix first condition) condition) (\<lambda>part.
          bind_res (mysql_compileConditions marshal False rest) (\<lambda>(parts, args).
            case part of
              None \<Rightarrow> Inr (parts, args)
            | Some (sql, conditionArgs) \<Rightarrow> Inr (sql # parts, conditionArgs @ args))))"
| "mysql_compileCondition marshal prefix condition =
     (let op = to_lower (trim_space (cond_Op condition)) in
      if op = ''invalid'' then
        (case cond_Value condition of
           AError err \<Rightarrow> Inl err
         | _ \<Rightarrow> Inl (mk_field_error ''mysql.where'' ErrInvalidArgument (cond_Field condition)))
      else if op = ''group'' then
        bind_res (mysql_compileWhere marshal (cond_Conditions condition)) (\<lambda>(sql, groupArgs).
          Inr (if sql = [] then None else Some (prefix @ ''('' @ sql @ '')'', groupArgs)))
      else if op = ''not'' then
        bind_res (mysql_compileWhere marshal (cond_Conditions condition)) (\<lambda>(sql, groupArgs).
          Inr (if sql = [] then None else Some (prefix @ ''not ('' @ sql @ '')'', groupArgs)))
      else if op = ''raw'' then
        Inr (Some (prefix @ cond_Field condition,
                   case cond_Value condition of AList values \<Rightarrow> values | _ \<Rightarrow> []))
      else if op = ''json'' then
        bind_res (mysql_compileJSONCondition marshal condition) (\<lambda>(sql, args). Inr (Some (prefix @ sql, args)))
      else if op = ''fulltext'' then
        bind_res (mysql_compileFullTextCondition condition) (\<lambda>(sql, args). Inr (Some (prefix @ sql, args)))
      else if op = ''column'' then
        bind_res (mysql_compileColumnCondition condition) (\<lambda>sql. Inr (Some (prefix @ sql, [])))
      else if op = ''in'' then
        bind_res (mysql_compileInCondition marshal condition) (\<lambda>(sql, args). Inr (Some (prefix @ sql, args)))
      else if op = ''in_values'' \<or> op = ''not_in_values'' then
        bind_res (mysql_compileInValuesCondition condition (op = ''not_in_values''))
          (\<lambda>(sql, args). Inr (Some (prefix @ sql, args)))
      else if op = ''between'' then
        bind_res (mysql_compileBetweenCondition condition) (\<lambda>(sql, args). Inr (Some (prefix @ sql, args)))
      else if op = ''exists'' then
        bind_res (mysql_compileExistsCondition marshal condition) (\<lambda>(sql, args). Inr (Some (prefix @ sql, args)))
      else if op = ''count'' then
        bind_res (mysql_compileCountCondition marshal condition) (\<lambda>(sql, args). Inr (Some (prefix @ sql, args)))
      else if op = ''is null'' \<or> op = ''is not null'' then
        Inr (Some (prefix @ mysql_QuoteIdent (cond_Field condition) @ '' '' @ op, []))
      else if \<not> IsSafeConditionOperator (cond_Op condition) then
        Inl (mk_field_error ''mysql.where'' ErrInvalidArgument (cond_Field condition))
      else
        let lhs = prefix @ mysql_QuoteIdent (cond_Field condition) @ '' ''
                  @ NormalizeConditionOperator (cond_Op condition) in
        case cond_Value condition of
          ASourcePtr source \<Rightarrow>
            bind_res (mysql_compileScalarSource marshal source ''mysql.where'') (\<lambda>(sql, sourceArgs).
              Inr (Some (lhs @ '' '' @ sql, sourceArgs)))
        | value \<Rightarrow>
            (if cond_Escape condition = [] then Inr (Some (lhs @ '' ?'', [value]))
             else if cond_Escape condition \<noteq> [CHR 0x5C]
               then Inl (mk_field_error ''mysql.where'' ErrInvalidArgument (cond_Field condition))
             else Inr (Some (lhs @ '' ?'' @ '' escape '' @ [CHR 0x27, CHR 0x5C, CHR 0x27], [value]))))"
| "mysql_compileInCondition marshal condition =
     (case cond_Value condition of
        ASourcePtr source \<Rightarrow>
          bind_res (mysql_compileScalarSource marshal source ''mysql.where'') (\<lambda>(sql, args).
            Inr (mysql_QuoteIdent (cond_Field condition) @ '' in '' @ sql, args))
      | _ \<Rightarrow> Inl (mk_field_error ''mysql.where'' ErrInvalidArgument (cond_Field condition)))"
| "mysql_compileExistsCondition marshal condition =
     (case cond_Value condition of
        ASourcePtr source \<Rightarrow>
          bind_res (mysql_compileScalarSource marshal source ''mysql.where'') (\<lambda>(sql, args).
            Inr (''exists '' @ sql, args))
      | _ \<Rightarrow> Inl (mk_error ''mysql.where'' ErrInvalidArgument))"
| "mysql_compileCountCondition marshal condition =
     (case cond_Value condition of
        ACountCondition (Some source) op value \<Rightarrow>
          bind_res (mysql_compileScalarSource marshal source ''mysql.where'') (\<lambda>(sql, args).
            Inr (sql @ '' '' @ op @ '' ?'', args @ [AInt64 value]))
      | _ \<Rightarrow> Inl (mk_error ''mysql.where'' ErrInvalidArgument))"
| "mysql_compileScalarSource marshal source op =
     (case src_Query source of
        Some query \<Rightarrow>
          bind_res (mysql_compileSelect marshal query) (\<lambda>compiled.
            Inr (''('' @ c_SQL compiled @ '')'', c_Args compiled))
      | None \<Rightarrow>
          (case src_Raw source of
             Some raw \<Rightarrow> Inr (''('' @ raw_SQL raw @ '')'', raw_Args raw)
           | None \<Rightarrow> Inl (mk_error op ErrInvalidArgument)))"
  by pat_completeness auto
termination
  by (relation "measure (case_sum
        (case_sum
          (case_sum (case_sum (\<lambda>(m, st). 2 * size st + 1) (\<lambda>(m, is). 2 * size_list sel_size is))
                    (case_sum (\<lambda>(m, i). 2 * sel_size i) (\<lambda>(m, st). 2 * size st)))
          (case_sum (case_sum (\<lambda>(m, s). 2 * size s) (\<lambda>(m, js). 2 * size_list join_size js + 1))
                    (case_sum (\<lambda>(m, js). 2 * size_list join_size js) (\<lambda>(m, j). 2 * join_size j + 1))))
        (case_sum
          (case_sum (case_sum (\<lambda>(m, j). 2 * join_size j) (\<lambda>(m, cs). 2 * size_list size cs + 1))
                    (case_sum (\<lambda>(m, b, cs). 2 * size_list size cs) (\<lambda>(m, p, c). 2 * size c + 1)))
          (case_sum (case_sum (\<lambda>(m, c). 2 * size c) (\<lambda>(m, c). 2 * size c))
                    (case_sum (\<lambda>(m, c). 2 * size c) (\<lambda>(m, s, op). 2 * size s)))))")
     (auto simp: ast_size simp del: source_ast.size dest: ast_size_dest)

declare mysql_compileSelect.simps [simp del] mysql_compileSelectItems.simps [simp del]
  mysql_compileSelectExpr.simps [simp del] mysql_compileSelectSource.simps [simp del]
  mysql_compileSource.simps [simp del] mysql_compileJoins.simps [simp del]
  mysql_compileJoinList.simps [simp del] mysql_compileJoin.simps [simp del]
  mysql_compileJoinSource.simps [simp del] mysql_compileWhere.simps [simp del]
  mysql_compileConditions.simps [simp del] mysql_compileCondition.simps [simp del]
  mysql_compileInCondition.simps [simp del] mysql_compileExistsCondition.simps [simp del]
  mysql_compileCountCondition.simps [simp del] mysql_compileScalarSource.simps [simp del]

section \<open>Writes\<close>

text \<open>The inner loop of \<open>compileInsert\<close> over the columns of one row, and the loop over the rows.\<close>

fun mysql_insertRow :: "string list \<Rightarrow> gomap \<Rightarrow> goany list result" where
  "mysql_insertRow [] value = Inr []"
| "mysql_insertRow (column # columns) value =
     (case map_of value column of
        None \<Rightarrow> Inl (mk_error ''mysql.insert'' ErrInvalidArgument)
      | Some item \<Rightarrow> bind_res (mysql_insertRow columns value) (\<lambda>items. Inr (item # items)))"

fun mysql_insertRows :: "string list \<Rightarrow> gomap list \<Rightarrow> goany list result" where
  "mysql_insertRows columnNames [] = Inr []"
| "mysql_insertRows columnNames (value # values) =
     (if length value \<noteq> length columnNames
      then Inl (mk_error ''mysql.insert'' ErrInvalidArgument)
      else bind_res (mysql_insertRow columnNames value) (\<lambda>items.
           bind_res (mysql_insertRows columnNames values) (\<lambda>args. Inr (items @ args))))"

text \<open>
  \<open>compileInsert\<close> for a statement without conflict columns, and \<open>compileUpsert\<close>, which calls
  it with a fresh statement that has none.
\<close>

definition mysql_plainInsert :: "insert_ast \<Rightarrow> compiled_sql result" where
  "mysql_plainInsert stmt =
     (case ins_Values stmt of
        [] \<Rightarrow> Inl (mk_error ''mysql.insert'' ErrInvalidArgument)
      | row # _ \<Rightarrow>
          (let columnNames = sortedKeys row;
               columns = map mysql_QuoteIdent columnNames;
               rowPlaceholder = ''('' @ trim_right (repeat_str ''?, '' (length columnNames)) '', '' @ '')''
           in bind_res (mysql_insertRows columnNames (ins_Values stmt)) (\<lambda>args.
                Inr \<lparr>c_SQL = ''insert into '' @ mysql_QuoteIdent (ins_Table stmt) @ '' ('' @ join '', '' columns
                         @ '') values '' @ join '', '' (replicate (length (ins_Values stmt)) rowPlaceholder)
                         @ (if ins_Returning stmt then '' returning *'' else ''''),
                     c_Args = args\<rparr>)))"

definition mysql_compileSet :: "string \<Rightarrow> goany \<Rightarrow> fragment" where
  "mysql_compileSet column value =
     (case value of
        AIncrementExpr v \<Rightarrow> (mysql_QuoteIdent column @ '' = '' @ mysql_QuoteIdent column @ '' + ?'', [v])
      | ADecrementExpr v \<Rightarrow> (mysql_QuoteIdent column @ '' = '' @ mysql_QuoteIdent column @ '' - ?'', [v])
      | ARawExpr raw \<Rightarrow> (mysql_QuoteIdent column @ '' = '' @ raw_SQL raw, raw_Args raw)
      | v \<Rightarrow> (mysql_QuoteIdent column @ '' = ?'', [v]))"

definition mysql_conflictUpdateAllColumns :: "gomap \<Rightarrow> string list \<Rightarrow> string list \<Rightarrow> string list" where
  "mysql_conflictUpdateAllColumns row conflictColumns exceptColumns =
     (if row = [] then []
      else filter (\<lambda>column. column \<notin> set conflictColumns \<union> set exceptColumns) (sortedKeys row))"

definition mysql_conflictUpdateColumns :: "string list \<Rightarrow> gomap \<Rightarrow> string list" where
  "mysql_conflictUpdateColumns columns row =
     (if columns = [] then [] else filter (\<lambda>column. map_of row column \<noteq> None) columns)"

definition mysql_compileConflictUpdate :: "conflict_spec \<Rightarrow> gomap \<Rightarrow> fragment result" where
  "mysql_compileConflictUpdate conflict row =
     (if conf_DoNothing conflict then
        (case conf_Columns conflict of
           [] \<Rightarrow> Inl (mk_error ''mysql.upsert'' ErrInvalidArgument)
         | column # _ \<Rightarrow>
             Inr ('' on duplicate key update '' @ mysql_QuoteIdent column @ '' = '' @ mysql_QuoteIdent column, []))
      else if conf_UpdateMap conflict \<noteq> [] then
        (let sets = map (\<lambda>column. mysql_compileSet column (map_get (conf_UpdateMap conflict) column))
                      (sortedKeys (conf_UpdateMap conflict))
         in Inr ('' on duplicate key update '' @ join '', '' (map fst sets), concat (map snd sets)))
      else
        let fs = (if conf_UpdateAll conflict
                  then mysql_conflictUpdateAllColumns row (conf_Columns conflict) (conf_UpdateExcept conflict)
                  else mysql_conflictUpdateColumns (conf_Update conflict) row) in
        if fs = [] then
          (case conf_Columns conflict of
             [] \<Rightarrow> Inl (mk_error ''mysql.upsert'' ErrInvalidArgument)
           | column # _ \<Rightarrow>
               Inr ('' on duplicate key update '' @ mysql_QuoteIdent column @ '' = '' @ mysql_QuoteIdent column, []))
        else
          Inr ('' on duplicate key update '' @ join '', '' (map (\<lambda>column.
                 mysql_QuoteIdent column @ '' = VALUES('' @ mysql_QuoteIdent column @ '')'') (sort fs)), []))"

definition mysql_compileUpsert :: "insert_ast \<Rightarrow> compiled_sql result" where
  "mysql_compileUpsert stmt =
     bind_res (mysql_plainInsert \<lparr>ins_Table = ins_Table stmt, ins_Values = ins_Values stmt,
                 ins_Conflict = no_conflict, ins_Returning = False\<rparr>) (\<lambda>compiled.
       (case ins_Values stmt of
          [] \<Rightarrow> Inl (GoPanic ''index out of range'')
        | row # _ \<Rightarrow>
            bind_res (mysql_compileConflictUpdate (ins_Conflict stmt) row) (\<lambda>(updateSQL, updateArgs).
              Inr \<lparr>c_SQL = c_SQL compiled @ updateSQL, c_Args = c_Args compiled @ updateArgs\<rparr>)))"

definition mysql_compileInsert :: "insert_ast \<Rightarrow> compiled_sql result" where
  "mysql_compileInsert stmt =
     (if ins_Values stmt = [] then Inl (mk_error ''mysql.insert'' ErrInvalidArgument)
      else if conf_Columns (ins_Conflict stmt) \<noteq> [] then mysql_compileUpsert stmt
      else mysql_plainInsert stmt)"

definition mysql_compileUpdate :: "marshal_fun \<Rightarrow> update_ast \<Rightarrow> compiled_sql result" where
  "mysql_compileUpdate marshal stmt =
     (if upd_Values stmt = [] then Inl (mk_error ''mysql.update'' ErrInvalidArgument)
      else
        let columnNames = sortedKeys (upd_Values stmt);
            sets = map (\<lambda>column. mysql_compileSet column (map_get (upd_Values stmt) column)) columnNames in
        bind_res (mysql_compileWhere marshal (upd_Where stmt)) (\<lambda>(whereSQL, whereArgs).
          Inr \<lparr>c_SQL = ''update '' @ mysql_QuoteIdent (upd_Table stmt) @ '' set '' @ join '', '' (map fst sets)
                   @ (if whereSQL \<noteq> [] then '' where '' @ whereSQL else ''''),
               c_Args = concat (map snd sets) @ whereArgs\<rparr>))"

definition mysql_compileDelete :: "marshal_fun \<Rightarrow> delete_ast \<Rightarrow> compiled_sql result" where
  "mysql_compileDelete marshal stmt =
     bind_res (mysql_compileWhere marshal (del_Where stmt)) (\<lambda>(whereSQL, args).
       Inr \<lparr>c_SQL = ''delete from '' @ mysql_QuoteIdent (del_Table stmt)
                @ (if whereSQL \<noteq> [] then '' where '' @ whereSQL else ''''),
            c_Args = args\<rparr>)"

definition mysql_Compile :: "marshal_fun \<Rightarrow> statement \<Rightarrow> compiled_sql result" where
  "mysql_Compile marshal stmt =
     (case stmt of
        StmtSelect s \<Rightarrow> mysql_compileSelect marshal s
      | StmtInsert s \<Rightarrow> mysql_compileInsert s
      | StmtUpdate s \<Rightarrow> mysql_compileUpdate marshal s
      | StmtDelete s \<Rightarrow> mysql_compileDelete marshal s
      | StmtOther \<Rightarrow> Inl (mk_error ''mysql.compile'' ErrUnsupported))"

section \<open>Schema statements\<close>

definition mysql_isIntegerType :: "string \<Rightarrow> bool" where
  "mysql_isIntegerType typ = contains typ ''int''"

definition mysql_compileDefault :: "(goany \<Rightarrow> string) \<Rightarrow> default_spec \<Rightarrow> string" where
  "mysql_compileDefault sprint defaultValue =
     (if def_Expr defaultValue \<noteq> [] then def_Expr defaultValue
      else DefaultValue sprint (def_Value defaultValue))"

definition mysql_schemaString :: "string \<Rightarrow> string" where
  "mysql_schemaString value = [CHR 0x27] @ replace_char (CHR 0x27) [CHR 0x27, CHR 0x27] value @ [CHR 0x27]"

definition mysql_compileColumn :: "(goany \<Rightarrow> string) \<Rightarrow> column_spec \<Rightarrow> bool \<Rightarrow> string result" where
  "mysql_compileColumn sprint column allowPrimary =
     bind_res (mysql_DataType column) (\<lambda>dataType.
       Inr (join '' '' ([mysql_QuoteIdent (col_ColumnName column), dataType]
          @ (if allowPrimary \<and> col_Primary column then
               [if mysql_isIntegerType (col_Type column) then ''primary key auto_increment''
                else ''primary key''] else [])
          @ (if \<not> col_Nullable column \<and> \<not> col_Primary column then [''not null''] else [])
          @ (case col_Default column of None \<Rightarrow> []
             | Some d \<Rightarrow> [''default '' @ mysql_compileDefault sprint d])
          @ (if col_Comment column \<noteq> [] then [''comment '' @ mysql_schemaString (col_Comment column)] else []))))"

fun mysql_compileColumns :: "(goany \<Rightarrow> string) \<Rightarrow> column_spec list \<Rightarrow> string list result" where
  "mysql_compileColumns sprint [] = Inr []"
| "mysql_compileColumns sprint (column # columns) =
     bind_res (mysql_compileColumn sprint column True) (\<lambda>sql.
     bind_res (mysql_compileColumns sprint columns) (\<lambda>sqls. Inr (sql # sqls)))"

definition mysql_compileCreateTable :: "(goany \<Rightarrow> string) \<Rightarrow> table_spec \<Rightarrow> compiled_sql list result" where
  "mysql_compileCreateTable sprint table =
     (if tbl_Name table = [] \<or> tbl_Columns table = []
      then Inl (mk_error ''mysql.schema'' ErrInvalidArgument)
      else bind_res (mysql_compileColumns sprint (tbl_Columns table)) (\<lambda>columns.
        Inr [\<lparr>c_SQL = ''create table if not exists '' @ mysql_QuoteIdent (tbl_Name table) @ '' (''
                @ join '', '' columns @ '')'', c_Args = []\<rparr>]))"

definition mysql_compileCreateIndex :: "string \<Rightarrow> index_spec \<Rightarrow> compiled_sql list result" where
  "mysql_compileCreateIndex table index =
     (let columns = join '', '' (map mysql_QuoteIdent (idx_Fields index)) in
      if idx_FullText index
      then Inr [\<lparr>c_SQL = ''create fulltext index '' @ mysql_QuoteIdent (idx_Name index) @ '' on ''
                  @ mysql_QuoteIdent table @ '' ('' @ columns @ '')'', c_Args = []\<rparr>]
      else Inr [\<lparr>c_SQL = ''create '' @ (if idx_Unique index then ''unique '' else '''')
                  @ ''index '' @ mysql_QuoteIdent (idx_Name index) @ '' on ''
                  @ mysql_QuoteIdent table @ '' ('' @ columns @ '')'', c_Args = []\<rparr>])"

definition mysql_CompileSchema :: "(goany \<Rightarrow> string) \<Rightarrow> schema_change \<Rightarrow> compiled_sql list result" where
  "mysql_CompileSchema sprint change =
     (case chg_Kind change of
        SchemaCreateTable \<Rightarrow> mysql_compileCreateTable sprint (chg_Table change)
      | SchemaAddColumn \<Rightarrow>
          bind_res (mysql_compileColumn sprint (chg_Column change) False) (\<lambda>sql.
            Inr [\<lparr>c_SQL = ''alter table '' @ mysql_QuoteIdent (tbl_Name (chg_Table change))
                    @ '' add column '' @ sql, c_Args = []\<rparr>])
      | SchemaCreateIndex \<Rightarrow> mysql_compileCreateIndex (tbl_Name (chg_Table change)) (chg_Index change)
      | SchemaUnsafeChange \<Rightarrow> Inl (mk_error ''mysql.schema'' ErrUnsafeSchemaChange)
      | SchemaRenameColumn \<Rightarrow>
          (if col_ColumnName (chg_Current change) = [] \<or> col_ColumnName (chg_Column change) = []
           then Inl (mk_error ''mysql.schema'' ErrInvalidArgument)
           else Inr [\<lparr>c_SQL = ''alter table '' @ mysql_QuoteIdent (tbl_Name (chg_Table change))
                       @ '' rename column '' @ mysql_QuoteIdent (col_ColumnName (chg_Current change))
                       @ '' to '' @ mysql_QuoteIdent (col_ColumnName (chg_Column change)), c_Args = []\<rparr>])
      | SchemaChangeKindOther _ \<Rightarrow> Inl (mk_error ''mysql.schema'' ErrUnsupported))"

end
