(* ===== verification/Mysql_Correct.thy ===== *)
theory Mysql_Correct
  imports Mysql_Dialect Raw_Fragments
begin

text \<open>
  The MySQL dialect is correct with respect to the scanner set up for MySQL, under the same
  conditions on raw SQL as SQLite and, in addition, for statements without an ESCAPE clause:
  that clause is written as a literal holding a single backslash, which MySQL in its default
  mode reads as an escaped quote.
\<close>

abbreviation my_balanced :: "string \<Rightarrow> nat \<Rightarrow> bool" where
  "my_balanced \<equiv> balanced mysql_lex"

lemma mysql_lex_sel [simp]:
  "lx_ident mysql_lex = CHR 0x60" "lx_dquote_strings mysql_lex = True" "lx_backslash mysql_lex = True"
  by (simp_all add: mysql_lex_def)

lemma mysql_QuoteIdent_eq: "mysql_QuoteIdent name = quote_ident (CHR 0x60) name"
  by (simp add: mysql_QuoteIdent_def quote_ident_def quote_part_def [abs_def])

lemma my_quote [simp]: "my_balanced (mysql_QuoteIdent name) 0"
  unfolding mysql_QuoteIdent_eq by (rule balanced_quote_ident) simp_all

lemma my_clean: "clean s \<Longrightarrow> my_balanced s 0"
  by (rule clean_balanced) simp_all

text \<open>Scanning a text that is known to be balanced, in front of other text.\<close>

lemma my_after: "my_balanced s n \<Longrightarrow> lex_after mysql_lex Plain s = Plain"
  and my_count: "my_balanced s n \<Longrightarrow> placeholders mysql_lex Plain s = n"
  by (simp_all add: balanced_def)

lemmas my_scan = balanced_def lex_simps my_after [OF my_quote] my_count [OF my_quote]
  my_after [OF my_clean] my_count [OF my_clean]

abbreviation my_ok :: "fragment \<Rightarrow> bool" where
  "my_ok \<equiv> ok_fragment mysql_lex"

section \<open>Clauses without sub-queries\<close>

lemma my_prefix [simp]: "my_balanced (mysql_cond_prefix first c) 0"
  by (simp add: mysql_cond_prefix_def my_scan)

lemma my_aggregate:
  assumes "wf_item mysql_lex item" "sel_Source item = None" "sel_Expr item = ''__oro_aggregate__''"
  shows "res_all (\<lambda>sql. my_balanced sql 0) (mysql_compileAggregateSelect item)"
  using assms
  by (auto simp: mysql_compileAggregateSelect_def AggregateSelectSQL_def wf_item.simps my_scan
      split: list.splits goany.splits)

lemma my_joinConditions:
  "\<forall>c \<in> set cs. wf_join_condition c \<Longrightarrow> ok_parts mysql_lex (mysql_joinConditionParts first cs)"
  "\<forall>c \<in> set cs. wf_join_condition c \<Longrightarrow> my_ok (mysql_compileJoinConditions cs)"
proof (induction first cs and cs rule: mysql_joinConditionParts_mysql_compileJoinConditions.induct)
  case (1 first)
  then show ?case by simp
next
  case (2 first bool left op right v column grp err rest)
  obtain parts args where r: "mysql_joinConditionParts False rest = (parts, args)" by fastforce
  obtain gsql gargs where g: "mysql_compileJoinConditions grp = (gsql, gargs)" by fastforce
  have ok: "ok_parts mysql_lex (parts, args)" using "2.IH"(1) "2.prems" r by simp
  have gok: "grp \<noteq> [] \<Longrightarrow> my_balanced gsql (length gargs)" using "2.IH"(2) "2.prems" g r by simp
  have cl: "clean (to_lower bool)" "clean op" using "2.prems" by simp_all
  show ?case
    using ok gok cl r g ok_parts_Cons [OF _ ok, of _ gargs] ok_parts_Cons [OF _ ok, of _ "[]"]
      ok_parts_Cons [OF _ ok, of _ "[v]"]
    by (simp add: my_scan split: if_splits)
next
  case (3 cs)
  then show ?case
    using ok_parts_join [OF my_clean, of "'' ''"]
    by (auto simp: clean_char_def split: prod.splits)
qed

lemma my_column: "res_all (\<lambda>sql. my_balanced sql 0) (mysql_compileColumnCondition c)"
  using clean_safe_operator [OF IsSafeColumnOperator_condition]
  by (auto simp: mysql_compileColumnCondition_def my_scan split: goany.splits)

lemma my_in_values: "res_all my_ok (mysql_compileInValuesCondition c negated)"
  using balanced_placeholder_list [of mysql_lex "'', ''"]
  by (auto simp: mysql_compileInValuesCondition_def my_scan clean_char_def split: goany.splits)

lemma my_between: "res_all my_ok (mysql_compileBetweenCondition c)"
  by (auto simp: mysql_compileBetweenCondition_def my_scan split: goany.splits)

lemma my_json: "res_all my_ok (mysql_compileJSONCondition m c)"
  by (auto simp: mysql_compileJSONCondition_def Let_def my_scan split: goany.splits
      intro!: res_all_bindI [OF res_allI])

lemma my_match: "my_ok (''match('' @ join '', '' (map mysql_QuoteIdent fs) @ '') against (?)'', [v])"
  using balanced_join_0 [of mysql_lex "'', ''" "map mysql_QuoteIdent fs"]
  by (simp add: my_scan clean_char_def)

lemma my_fulltext: "res_all my_ok (mysql_compileFullTextCondition c)"
  using my_match by (auto simp: mysql_compileFullTextCondition_def split: goany.splits)

lemma my_score: "res_all my_ok (mysql_compileFullTextScore item)"
  using my_match by (auto simp: mysql_compileFullTextScore_def split: list.splits goany.splits)

lemma my_group: "my_balanced (mysql_compileGroup fs) 0"
  unfolding mysql_compileGroup_def
  by (rule balanced_join_0) (auto simp: my_clean clean_char_def)

lemma my_order:
  assumes "\<forall>item \<in> set items. wf_order mysql_lex item"
  shows "my_ok (mysql_compileOrder items)"
proof -
  have "\<forall>f \<in> set (map (\<lambda>i. (mysql_orderItem i, ord_Args i)) items). my_ok f"
    using assms by (auto simp: wf_order_def mysql_orderItem_def Let_def my_scan split: if_splits)
  from ok_parts_join [OF my_clean ok_parts_map [OF this], of "'', ''"] show ?thesis
    by (simp add: mysql_compileOrder_def comp_def clean_char_def)
qed

lemma my_tail: "res_all (\<lambda>sql. my_balanced sql 0) (mysql_limit_offset_lock stmt)"
  by (auto simp: mysql_limit_offset_lock_def mysql_compileLock_def mysql_compileLockOptions_def my_scan
      result_simps split: option.splits lock_mode.splits)

section \<open>The recursive functions, one step each\<close>

abbreviation my_compiled :: "compiled_sql \<Rightarrow> bool" where
  "my_compiled \<equiv> ok_compiled mysql_lex"

lemmas my_comma = my_clean [of "'', ''"] and my_blank = my_clean [of "'' ''"]

lemma my_select_step:
  assumes items: "stmt_Select stmt \<noteq> [] \<Longrightarrow>
      res_all (ok_parts mysql_lex) (mysql_compileSelectItems m (stmt_Select stmt))"
    and src: "res_all my_ok (mysql_compileSelectSource m stmt)"
    and joins: "res_all my_ok (mysql_compileJoins m (stmt_Joins stmt))"
    and wher: "res_all my_ok (mysql_compileWhere m (stmt_Where stmt))"
    and having: "res_all my_ok (mysql_compileWhere m (stmt_Having stmt))"
    and order: "\<forall>item \<in> set (stmt_Order stmt). wf_order mysql_lex item"
  shows "res_all my_compiled (mysql_compileSelect m stmt)"
proof -
  have sel: "res_all my_ok
       (if stmt_Select stmt = [] then Inr (''*'', [])
        else bind_res (mysql_compileSelectItems m (stmt_Select stmt))
               (\<lambda>(parts, args). Inr (join '', '' parts, args)))"
    by (auto simp: my_scan clean_char_def intro!: res_all_bind_prodI [OF items]
        dest!: ok_parts_join [OF my_comma, rotated])
  show ?thesis
    by (subst mysql_compileSelect.simps,
        rule res_all_bind_prodI [OF sel], rule res_all_bind_prodI [OF src],
        rule res_all_bind_prodI [OF joins], rule res_all_bind_prodI [OF wher],
        rule res_all_bind_prodI [OF having], rule res_all_bindI [OF my_tail])
       (use my_order [OF order] my_group [of "stmt_Group stmt"] in
         \<open>auto simp: ok_compiled_def my_scan Let_def split: prod.splits\<close>)
qed

lemma my_items_step:
  assumes "\<And>i is. items = i # is \<Longrightarrow> res_all my_ok (mysql_compileSelectExpr m i)"
    and "\<And>i is. items = i # is \<Longrightarrow> res_all (ok_parts mysql_lex) (mysql_compileSelectItems m is)"
  shows "res_all (ok_parts mysql_lex) (mysql_compileSelectItems m items)"
proof (cases items)
  case Nil
  then show ?thesis by (simp add: mysql_compileSelectItems.simps)
next
  case (Cons i "is")
  show ?thesis
    by (subst mysql_compileSelectItems.simps)
       (auto simp: Cons intro!: res_all_bind_prodI [OF assms(1) [OF Cons]]
          res_all_bind_prodI [OF assms(2) [OF Cons]] ok_parts_Cons)
qed

lemma my_expr_step:
  assumes "wf_item mysql_lex item"
    and "\<And>s. sel_Source item = Some s \<Longrightarrow> res_all my_ok (mysql_compileScalarSource m s ''mysql.select'')"
    and "\<And>s. sel_Source item = None \<Longrightarrow> sel_Expr item = ''__oro_relation_exists__'' \<Longrightarrow>
      sel_Args item = [ASource s] \<Longrightarrow> res_all my_ok (mysql_compileScalarSource m s ''mysql.select'')"
  shows "res_all my_ok (mysql_compileSelectExpr m item)"
proof (cases "sel_Source item")
  case (Some s)
  show ?thesis
    by (subst mysql_compileSelectExpr.simps)
       (auto simp: Some my_scan intro!: res_all_bind_prodI [OF assms(2) [OF Some]])
next
  case None
  show ?thesis
  proof (cases "sel_Expr item = ''__oro_relation_exists__''")
    case True
    show ?thesis
    proof (cases "\<exists>s. sel_Args item = [ASource s]")
      case True
      then obtain s where s: "sel_Args item = [ASource s]" by blast
      show ?thesis
        by (subst mysql_compileSelectExpr.simps)
           (auto simp: None \<open>sel_Expr item = _\<close> s my_scan
             intro!: res_all_bind_prodI [OF assms(3) [OF None \<open>sel_Expr item = _\<close> s]])
    next
      case False
      then show ?thesis
        by (subst mysql_compileSelectExpr.simps)
           (auto simp: None \<open>sel_Expr item = _\<close> split: list.splits goany.splits)
    qed
  next
    case False
    have "res_all my_ok
              (if sel_Expr item = ''__oro_fulltext_score__'' then mysql_compileFullTextScore item
               else if sel_Expr item = ''__oro_aggregate__''
               then bind_res (mysql_compileAggregateSelect item) (\<lambda>sql. Inr (sql, []))
               else if \<not> sel_Raw item then Inr (mysql_QuoteIdent (sel_Expr item), [])
               else Inr (sel_Expr item, sel_Args item))"
      using assms(1) None False my_score
      by (auto simp: wf_item.simps intro!: res_all_bindI [OF my_aggregate [OF assms(1) None]])
    then show ?thesis
      by (subst mysql_compileSelectExpr.simps)
         (auto simp: None False my_scan elim!: res_all_bind_prodI)
  qed
qed

lemma my_source_step:
  assumes "wf_source mysql_lex source"
    and "\<And>q. src_Table source = [] \<Longrightarrow> src_Query source = Some q \<Longrightarrow> src_Alias source \<noteq> [] \<Longrightarrow>
      res_all my_compiled (mysql_compileSelect m q)"
  shows "res_all my_ok (mysql_compileSource m source)"
proof (cases "src_Query source")
  case None
  then show ?thesis
    using assms(1)
    by (subst mysql_compileSource.simps)
       (auto simp: wf_source.simps wf_raw_def my_scan split: option.splits)
next
  case (Some q)
  show ?thesis
    by (subst mysql_compileSource.simps)
       (auto simp: Some ok_compiled_def my_scan intro!: res_all_bindI [OF assms(2) [OF _ Some]])
qed

lemma my_scalar_step:
  assumes "wf_source mysql_lex source"
    and "\<And>q. src_Query source = Some q \<Longrightarrow> res_all my_compiled (mysql_compileSelect m q)"
  shows "res_all my_ok (mysql_compileScalarSource m source op)"
proof (cases "src_Query source")
  case None
  then show ?thesis
    using assms(1)
    by (subst mysql_compileScalarSource.simps)
       (auto simp: wf_source.simps wf_raw_def my_scan split: option.splits)
next
  case (Some q)
  show ?thesis
    by (subst mysql_compileScalarSource.simps)
       (auto simp: Some ok_compiled_def my_scan intro!: res_all_bindI [OF assms(2) [OF Some]])
qed

lemma my_joinlist_step:
  assumes "\<And>j js. joins = j # js \<Longrightarrow> res_all my_ok (mysql_compileJoin m j)"
    and "\<And>j js. joins = j # js \<Longrightarrow> res_all (ok_parts mysql_lex) (mysql_compileJoinList m js)"
  shows "res_all (ok_parts mysql_lex) (mysql_compileJoinList m joins)"
proof (cases joins)
  case Nil
  then show ?thesis by (simp add: mysql_compileJoinList.simps)
next
  case (Cons j js)
  show ?thesis
    by (subst mysql_compileJoinList.simps)
       (auto simp: Cons intro!: res_all_bind_prodI [OF assms(1) [OF Cons]]
          res_all_bind_prodI [OF assms(2) [OF Cons]] ok_parts_Cons)
qed

lemma my_join_step:
  assumes "wf_join mysql_lex j"
    and "join_Raw j = None \<Longrightarrow> join_Type j = JoinCross \<or> join_Conditions j \<noteq> [] \<Longrightarrow>
      res_all my_ok (mysql_compileJoinSource m j)"
  shows "res_all my_ok (mysql_compileJoin m j)"
proof (cases "join_Raw j")
  case (Some raw)
  then show ?thesis
    using assms(1) by (auto simp: mysql_compileJoin.simps wf_join.simps wf_raw_def)
next
  case None
  then have "my_ok (mysql_compileJoinConditions (join_Conditions j))"
    using assms(1) my_joinConditions(2) by (simp add: wf_join.simps)
  then show ?thesis
    by (subst mysql_compileJoin.simps)
       (auto simp: None my_scan Let_def simp del: mysql_compileJoinConditions.simps
          split: join_type.splits prod.splits intro!: res_all_bind_prodI [OF assms(2) [OF None]])
qed

lemma my_conditions_step:
  assumes "\<And>c cs. conds = c # cs \<Longrightarrow>
      res_all (ok_part mysql_lex) (mysql_compileCondition m (mysql_cond_prefix first c) c)"
    and "\<And>c cs. conds = c # cs \<Longrightarrow> res_all (ok_parts mysql_lex) (mysql_compileConditions m False cs)"
  shows "res_all (ok_parts mysql_lex) (mysql_compileConditions m first conds)"
proof (cases conds)
  case Nil
  then show ?thesis by (simp add: mysql_compileConditions.simps)
next
  case (Cons c cs)
  show ?thesis
    by (subst mysql_compileConditions.simps)
       (auto simp: Cons split: option.splits intro!: res_all_bindI [OF assms(1) [OF Cons]]
          res_all_bind_prodI [OF assms(2) [OF Cons]] ok_parts_Cons)
qed

lemma my_prefixed:
  assumes "my_balanced prefix 0" and "res_all my_ok r"
  shows "res_all (ok_part mysql_lex) (bind_res r (\<lambda>(sql, args). Inr (Some (prefix @ sql, args))))"
  by (rule res_all_bind_prodI [OF assms(2)]) (use assms(1) in \<open>simp add: my_scan\<close>)

lemma my_condition_step:
  assumes wf: "wf_condition mysql_lex c" and pre: "my_balanced prefix 0"
    and grp: "to_lower (trim_space (cond_Op c)) \<in> {''group'', ''not''} \<Longrightarrow>
      res_all my_ok (mysql_compileWhere m (cond_Conditions c))"
    and inn: "to_lower (trim_space (cond_Op c)) = ''in'' \<Longrightarrow> res_all my_ok (mysql_compileInCondition m c)"
    and exi: "to_lower (trim_space (cond_Op c)) = ''exists'' \<Longrightarrow> res_all my_ok (mysql_compileExistsCondition m c)"
    and cnt: "to_lower (trim_space (cond_Op c)) = ''count'' \<Longrightarrow> res_all my_ok (mysql_compileCountCondition m c)"
    and sub: "\<And>s. to_lower (trim_space (cond_Op c)) \<notin> {''invalid'', ''group'', ''not'', ''raw'', ''json'',
        ''fulltext'', ''column'', ''in'', ''in_values'', ''not_in_values'', ''between'', ''exists'',
        ''count'', ''is null'', ''is not null''} \<Longrightarrow>
      IsSafeConditionOperator (cond_Op c) \<Longrightarrow> cond_Value c = ASourcePtr s \<Longrightarrow>
      res_all my_ok (mysql_compileScalarSource m s ''mysql.where'')"
  shows "res_all (ok_part mysql_lex) (mysql_compileCondition m prefix c)"
proof -
  let ?op = "to_lower (trim_space (cond_Op c))"
  let ?lhs = "prefix @ mysql_QuoteIdent (cond_Field c) @ '' '' @ NormalizeConditionOperator (cond_Op c)"
  note pre' = my_after [OF pre] my_count [OF pre]
  note raw = wf_conditionD(4) [OF wf]
  have group: "?op = ''group'' \<or> ?op = ''not'' \<Longrightarrow> clean word \<Longrightarrow>
     res_all (ok_part mysql_lex) (bind_res (mysql_compileWhere m (cond_Conditions c)) (\<lambda>(sql, groupArgs).
       Inr (if sql = [] then None else Some (prefix @ word @ sql @ '')'', groupArgs))))" for word
    using grp by (auto intro!: res_all_bind_prodI simp: my_scan pre')
  have column: "res_all (ok_part mysql_lex)
     (bind_res (mysql_compileColumnCondition c) (\<lambda>sql. Inr (Some (prefix @ sql, []))))"
    by (rule res_all_bindI [OF my_column]) (simp add: my_scan pre')
  have lhs: "IsSafeConditionOperator (cond_Op c) \<Longrightarrow> my_balanced ?lhs 0"
    using clean_safe_operator by (simp add: my_scan pre')
  have scalar: "res_all my_ok (mysql_compileScalarSource m s ''mysql.where'') \<Longrightarrow>
     IsSafeConditionOperator (cond_Op c) \<Longrightarrow>
     res_all (ok_part mysql_lex) (bind_res (mysql_compileScalarSource m s ''mysql.where'')
       (\<lambda>(sql, sourceArgs). Inr (Some (?lhs @ '' '' @ sql, sourceArgs))))" for s
    by (erule res_all_bind_prodI) (use lhs in \<open>simp add: my_scan pre'\<close>)
  have bound: "IsSafeConditionOperator (cond_Op c) \<Longrightarrow>
     my_ok (?lhs @ '' ?'', [v])" for v
    using clean_safe_operator by (simp add: my_scan pre')
  show ?thesis
    apply (subst mysql_compileCondition.simps)
    apply (unfold Let_def)
    apply (intro res_all_ifI)
    subgoal by (auto split: goany.splits)
    subgoal using group [of "''(''"] by (simp add: clean_char_def)
    subgoal using group [of "''not (''"] by (simp add: clean_char_def)
    subgoal using raw by (simp add: my_scan pre' raw_values_def)
    subgoal by (intro my_prefixed pre my_json)
    subgoal by (intro my_prefixed pre my_fulltext)
    subgoal by (rule column)
    subgoal by (intro my_prefixed pre inn)
    subgoal by (intro my_prefixed pre my_in_values)
    subgoal by (intro my_prefixed pre my_between)
    subgoal by (intro my_prefixed pre exi)
    subgoal by (intro my_prefixed pre cnt)
    subgoal by (auto simp: my_scan pre')
    subgoal by simp
    subgoal using bound scalar sub wf_conditionD(5) [OF wf] by (auto simp del: append_assoc append.simps split: goany.splits)
    done
qed

lemmas mysql_compile_induct =
  mysql_compileSelect_mysql_compileSelectItems_mysql_compileSelectExpr_mysql_compileSelectSource_mysql_compileSource_mysql_compileJoins_mysql_compileJoinList_mysql_compileJoin_mysql_compileJoinSource_mysql_compileWhere_mysql_compileConditions_mysql_compileCondition_mysql_compileInCondition_mysql_compileExistsCondition_mysql_compileCountCondition_mysql_compileScalarSource.induct

lemma mysql_compile_ok:
  "wf_select mysql_lex stmt \<longrightarrow> res_all my_compiled (mysql_compileSelect m stmt)"
  "(\<forall>i \<in> set items. wf_item mysql_lex i) \<longrightarrow> res_all (ok_parts mysql_lex) (mysql_compileSelectItems m items)"
  "wf_item mysql_lex item \<longrightarrow>
     res_all my_ok (mysql_compileSelectExpr m item)"
  "wf_source mysql_lex (stmt_From stmt') \<longrightarrow> res_all my_ok (mysql_compileSelectSource m stmt')"
  "wf_source mysql_lex source \<longrightarrow> res_all my_ok (mysql_compileSource m source)"
  "(\<forall>j \<in> set joins. wf_join mysql_lex j) \<longrightarrow> res_all my_ok (mysql_compileJoins m joins)"
  "(\<forall>j \<in> set joins'. wf_join mysql_lex j) \<longrightarrow> res_all (ok_parts mysql_lex) (mysql_compileJoinList m joins')"
  "wf_join mysql_lex j \<longrightarrow> res_all my_ok (mysql_compileJoin m j)"
  "wf_source mysql_lex (join_Source j') \<longrightarrow> res_all my_ok (mysql_compileJoinSource m j')"
  "(\<forall>c \<in> set conds. wf_condition mysql_lex c) \<longrightarrow> res_all my_ok (mysql_compileWhere m conds)"
  "(\<forall>c \<in> set conds'. wf_condition mysql_lex c) \<longrightarrow>
     res_all (ok_parts mysql_lex) (mysql_compileConditions m first conds')"
  "wf_condition mysql_lex c \<and> my_balanced prefix 0 \<longrightarrow>
     res_all (ok_part mysql_lex) (mysql_compileCondition m prefix c)"
  "wf_condition mysql_lex c1 \<longrightarrow> res_all my_ok (mysql_compileInCondition m c1)"
  "wf_condition mysql_lex c2 \<longrightarrow> res_all my_ok (mysql_compileExistsCondition m c2)"
  "wf_condition mysql_lex c3 \<longrightarrow> res_all my_ok (mysql_compileCountCondition m c3)"
  "wf_source mysql_lex source' \<longrightarrow> res_all my_ok (mysql_compileScalarSource m source' op)"
proof (induction m stmt and m items and m item and m stmt' and m source and m joins and m joins'
    and m j and m j' and m conds and m first conds' and m prefix c and m c1 and m c2 and m c3
    and m source' op
    rule: mysql_compile_induct)
  case (1 m stmt)
  note IH = "1.IH"(1) "1.IH"(2) [OF refl] "1.IH"(3) [OF refl refl] "1.IH"(4) [OF refl refl refl]
    "1.IH"(5) [OF refl refl refl refl]
  show ?case
  proof
    assume "wf_select mysql_lex stmt"
    note wf = wf_selectD [OF this]
    show "res_all my_compiled (mysql_compileSelect m stmt)"
      by (rule my_select_step [OF IH(1) [THEN mp, OF _ wf(2)] IH(2) [THEN mp, OF wf(1)]
            IH(3) [THEN mp, OF wf(3)] IH(4) [THEN mp, OF wf(4)] IH(5) [THEN mp, OF wf(5)] wf(6)])
  qed
next
  case (2 m items)
  show ?case by (intro impI, rule my_items_step) (use 2 in auto)
next
  case (3 m item)
  show ?case by (intro impI, rule my_expr_step) (use 3 in \<open>auto simp: wf_item.simps [of _ item]\<close>)
next
  case (4 m stmt)
  then show ?case
    by (subst mysql_compileSelectSource.simps) (auto simp: Let_def)
next
  case (5 m source)
  show ?case
    by (intro impI, rule my_source_step) (use 5 in \<open>auto simp: wf_source.simps [of _ source]\<close>)
next
  case (6 m joins)
  then show ?case
    by (subst mysql_compileJoins.simps)
       (auto simp: my_scan clean_char_def intro!: res_all_bind_prodI
          dest!: ok_parts_join [OF my_blank, rotated])
next
  case (7 m joins)
  show ?case by (intro impI, rule my_joinlist_step) (use 7 in auto)
next
  case (8 m j)
  note IH = "8.IH"(1) "8.IH"(2) [OF _ _ _ refl prod.collapse]
  show ?case
    by (intro impI, rule my_join_step) (use IH in \<open>auto simp: wf_join.simps [of _ j]\<close>)
next
  case (9 m j)
  then show ?case
    by (subst mysql_compileJoinSource.simps) (simp add: Let_def)
next
  case (10 m conds)
  then show ?case
    by (subst mysql_compileWhere.simps)
       (auto intro!: res_all_bind_prodI dest: ok_parts_join [of _ "[]", rotated])
next
  case (11 m first conds)
  show ?case by (intro impI, rule my_conditions_step) (use 11 in auto)
next
  case (12 m prefix c)
  show ?case
  proof (intro impI, elim conjE)
    assume wf: "wf_condition mysql_lex c" and pre: "my_balanced prefix 0"
    note sub = wf_conditionD [OF wf]
    show "res_all (ok_part mysql_lex) (mysql_compileCondition m prefix c)"
      by (rule my_condition_step [OF wf pre]) (use "12.IH" wf sub in auto)
  qed
next
  case (13 m c)
  then show ?case
    by (auto simp: mysql_compileInCondition.simps wf_condition.simps [of _ c] my_scan
        split: goany.splits intro!: res_all_bind_prodI)
next
  case (14 m c)
  then show ?case
    by (auto simp: mysql_compileExistsCondition.simps wf_condition.simps [of _ c] my_scan
        split: goany.splits intro!: res_all_bind_prodI)
next
  case (15 m c)
  then show ?case
    by (auto simp: mysql_compileCountCondition.simps wf_condition.simps [of _ c] my_scan
        split: goany.splits option.splits intro!: res_all_bind_prodI)
next
  case (16 m source op)
  show ?case
    by (intro impI, rule my_scalar_step) (use 16 in \<open>auto simp: wf_source.simps [of _ source]\<close>)
qed

section \<open>Writes\<close>

lemma my_set: "wf_set mysql_lex v \<Longrightarrow> my_ok (mysql_compileSet column v)"
  by (auto simp: mysql_compileSet_def wf_set_def wf_raw_def my_scan split: goany.splits)

lemma my_sets:
  assumes "\<forall>kv \<in> set m. wf_set mysql_lex (snd kv)"
  shows "my_balanced (join '', '' (map (fst \<circ> (\<lambda>k. mysql_compileSet k (map_get m k))) ks))
           (length (concat (map (snd \<circ> (\<lambda>k. mysql_compileSet k (map_get m k))) ks)))"
proof -
  have "\<forall>f \<in> set (map (\<lambda>k. mysql_compileSet k (map_get m k)) ks). my_ok f"
    using wf_set_map_get [OF assms] by (auto intro: my_set)
  from ok_parts_join [OF my_comma ok_parts_map [OF this]] show ?thesis
    by (simp add: clean_char_def)
qed

lemma mysql_insertRow_length:
  "res_all (\<lambda>items. length items = length cols) (mysql_insertRow cols v)"
  by (induction cols) (auto split: option.splits intro!: res_all_bindI)

lemma mysql_insertRows_length:
  "res_all (\<lambda>args. length args = length rows * length cols) (mysql_insertRows cols rows)"
proof (induction rows)
  case Nil
  then show ?case by simp
next
  case (Cons row rows)
  show ?case
    by (auto intro!: res_all_bindI [OF mysql_insertRow_length] res_all_bindI [OF Cons.IH])
qed

lemma my_columns: "my_balanced (join '', '' (map mysql_QuoteIdent cols)) 0"
  by (rule balanced_join_0) (auto simp: my_clean clean_char_def)

lemma my_plainInsert: "res_all my_compiled (mysql_plainInsert stmt)"
proof (cases "ins_Values stmt")
  case Nil
  then show ?thesis by (simp add: mysql_plainInsert_def)
next
  case (Cons row rows)
  let ?cols = "sortedKeys row"
  let ?rowp = "''('' @ trim_right (repeat_str ''?, '' (length ?cols)) '', '' @ '')''"
  have rows: "my_balanced (join '', '' (replicate (length (ins_Values stmt)) ?rowp))
      (length (ins_Values stmt) * length ?cols)"
    by (intro balanced_join_replicate balanced_row_placeholder my_clean) (simp_all add: clean_char_def)
  show ?thesis
    by (subst mysql_plainInsert_def, subst Cons, unfold list.case Let_def,
        rule res_all_bindI [OF mysql_insertRows_length])
       (use rows my_columns [of ?cols] in \<open>auto simp: ok_compiled_def my_scan\<close>)
qed

lemma my_conflict:
  assumes "\<forall>kv \<in> set (conf_UpdateMap conflict). wf_set mysql_lex (snd kv)"
  shows "res_all my_ok (mysql_compileConflictUpdate conflict row)"
proof -
  have excl: "my_balanced (join '', '' (map (\<lambda>column.
      mysql_QuoteIdent column @ '' = VALUES('' @ mysql_QuoteIdent column @ '')'') cols)) 0" for cols
    by (rule balanced_join_0) (auto simp: my_clean clean_char_def my_scan)
  show ?thesis
    unfolding mysql_compileConflictUpdate_def Let_def
    using my_sets [OF assms] excl
    by (auto simp: my_scan split: list.splits)
qed

lemma my_upsert:
  assumes "\<forall>kv \<in> set (conf_UpdateMap (ins_Conflict stmt)). wf_set mysql_lex (snd kv)"
  shows "res_all my_compiled (mysql_compileUpsert stmt)"
  unfolding mysql_compileUpsert_def
  by (rule res_all_bindI [OF my_plainInsert])
     (use my_columns in \<open>auto simp: ok_compiled_def my_scan split: list.splits
        intro!: res_all_bind_prodI [OF my_conflict [OF assms]]\<close>)

lemma my_where:
  "\<forall>c \<in> set cs. wf_condition mysql_lex c \<Longrightarrow> res_all my_ok (mysql_compileWhere m cs)"
  using mysql_compile_ok(10) by blast

lemma my_update:
  assumes "\<forall>kv \<in> set (upd_Values stmt). wf_set mysql_lex (snd kv)"
    and "\<forall>c \<in> set (upd_Where stmt). wf_condition mysql_lex c"
  shows "res_all my_compiled (mysql_compileUpdate m stmt)"
  unfolding mysql_compileUpdate_def Let_def
  using my_sets [OF assms(1)]
  by (auto simp: ok_compiled_def my_scan intro!: res_all_bind_prodI [OF my_where [OF assms(2)]])

lemma my_delete:
  assumes "\<forall>c \<in> set (del_Where stmt). wf_condition mysql_lex c"
  shows "res_all my_compiled (mysql_compileDelete m stmt)"
  unfolding mysql_compileDelete_def
  by (auto simp: ok_compiled_def my_scan intro!: res_all_bind_prodI [OF my_where [OF assms]])

text \<open>
  C2. Every statement the MySQL dialect compiles is read to its end outside every quote and
  contains exactly as many placeholders as the argument list has entries, provided the raw SQL
  passed through is balanced and no condition carries an ESCAPE clause.
\<close>

theorem mysql_Compile_placeholders:
  assumes "wf_statement mysql_lex stmt" and "mysql_Compile m stmt = Inr c"
  shows "balanced mysql_lex (c_SQL c) (length (c_Args c))"
proof -
  have "res_all my_compiled (mysql_Compile m stmt)"
    using assms(1) mysql_compile_ok(1) my_plainInsert my_upsert my_update my_delete
    by (cases stmt) (auto simp: wf_statement_def mysql_Compile_def mysql_compileInsert_def)
  with assms(2) show ?thesis by (simp add: ok_compiled_def)
qed

theorem mysql_Compile_placeholders_witness:
  "\<exists>c. mysql_Compile (\<lambda>_. Inr ''{}'') (StmtSelect example_select) = Inr c \<and>
     c_Args c = [AString ''x'', AInt64 5, AString ''a%''] \<and> balanced mysql_lex (c_SQL c) (length (c_Args c))"
proof -
  let ?c = "\<lparr>c_SQL = ''select * from '' @ mysql_QuoteIdent ''products'' @ '' where ''
      @ mysql_QuoteIdent ''na?me'' @ '' = ? or (price > ?) and '' @ mysql_QuoteIdent ''id''
      @ '' in (select * from '' @ mysql_QuoteIdent ''tags'' @ '' where ''
      @ mysql_QuoteIdent ''label'' @ '' like ?)'',
    c_Args = [AString ''x'', AInt64 5, AString ''a%'']\<rparr>"
  have wf: "wf_statement mysql_lex (StmtSelect example_select)" by code_simp
  have c: "mysql_Compile (\<lambda>_. Inr ''{}'') (StmtSelect example_select) = Inr ?c" by code_simp
  show ?thesis
    by (rule exI [of _ ?c], intro conjI, rule c, simp, rule mysql_Compile_placeholders [OF wf c])
qed

text \<open>
  the condition on ESCAPE cannot be dropped. The condition that \<open>Contains\<close>, \<open>StartsWith\<close>
  and \<open>EndsWith\<close> build compiles to text whose last literal MySQL, in its default mode, never
  finds the end of.
\<close>

theorem mysql_escape_unterminated:
  "\<exists>sql. mysql_compileWhere m [Condition '''' field ''like'' (AString v) [] [CHR 0x5C]] =
       Inr (sql, [AString v]) \<and> lex_after mysql_lex Plain sql = InString (CHR 0x27)"
proof -
  let ?c = "Condition '''' field ''like'' (AString v) [] [CHR 0x5C]"
  have ops: "to_lower (trim_space ''like'') = ''like''" "IsSafeConditionOperator ''like''"
    "NormalizeConditionOperator ''like'' = ''like''"
    by code_simp+
  show ?thesis
    by (simp add: mysql_compileWhere.simps mysql_compileConditions.simps mysql_compileCondition.simps
        mysql_cond_prefix_def ops my_scan)
qed

end
