(* ===== verification/Pgsql_Dialect.thy ===== *)
theory Pgsql_Dialect
  imports Mysql_Dialect
begin

text \<open>
  The PostgreSQL dialect, driver/pgsql/dialect.go: one definition per function of the file. Its
  placeholders carry numbers, so the functions that write them take the next number and return
  the one after theirs. A sub-query is compiled from number 1 and its text is renumbered
  afterwards by \<open>rebasePlaceholders\<close>, which also turns the question marks of raw SQL into
  numbers. \<open>marshal\<close> stands for \<open>json.Marshal\<close>, as in the MySQL dialect. Placeholder indices
  are natural numbers: they start at 1 and only grow by the lengths of slices.
\<close>

type_synonym pg_fragment = "string \<times> goany list \<times> nat"

definition pgsql_Name :: string where
  "pgsql_Name = ''pgsql''"

definition pgsql_Capabilities :: capabilities where
  "pgsql_Capabilities =
     \<lparr>cap_Returning = True, cap_Upsert = True, cap_Savepoint = True,
        cap_LockForUpdate = True, cap_LockForShare = True, cap_LockNoWait = True,
        cap_LockSkipLocked = True, cap_FullJoin = True, cap_JSON = True, cap_FullText = True,
        cap_CheckConstraint = True\<rparr>"

definition pgsql_QuoteIdent :: "string \<Rightarrow> string" where
  "pgsql_QuoteIdent name =
     join ''.'' (map (\<lambda>part. [CHR 0x22] @ replace_char (CHR 0x22) [CHR 0x22, CHR 0x22] part @ [CHR 0x22])
                     (split_on (CHR ''.'') name))"

definition pgsql_Placeholder :: "nat \<Rightarrow> string" where
  "pgsql_Placeholder index = ''$'' @ itoa_nat index"

definition pgsql_varchar_or_text :: "column_spec \<Rightarrow> string" where
  "pgsql_varchar_or_text column =
     (if 0 < col_Size column then ''varchar('' @ itoa (col_Size column) @ '')'' else ''text'')"

definition pgsql_numeric :: "column_spec \<Rightarrow> string" where
  "pgsql_numeric column =
     (if col_Precision column \<le> 0 then ''numeric''
      else ''numeric('' @ itoa (col_Precision column) @ '','' @ itoa (col_Scale column) @ '')'')"

definition pgsql_DataType :: "column_spec \<Rightarrow> string result" where
  "pgsql_DataType column =
     (let typ = col_Type column in
      if typ = ''string'' then Inr (pgsql_varchar_or_text column)
      else if typ = ''text'' then Inr ''text''
      else if typ = ''bool'' then Inr ''boolean''
      else if typ \<in> {''int'', ''int32'', ''uint'', ''uint32''} then Inr ''integer''
      else if typ \<in> {''uint64'', ''int64''} then Inr ''bigint''
      else if typ = ''decimal'' then Inr (pgsql_numeric column)
      else if typ = ''float'' then Inr ''real''
      else if typ = ''double'' then Inr ''double precision''
      else if typ = ''binary'' then Inr ''bytea''
      else if typ \<in> {''json'', ''string_array'', ''int_array''} then Inr ''jsonb''
      else if typ = ''uuid'' then Inr ''uuid''
      else if typ = ''time.Time'' then Inr ''timestamp''
      else if typ = ''date'' then Inr ''date''
      else if typ = ''time'' then Inr ''time''
      else if typ \<in> {''enum'', ''email'', ''url'', ''ip'', ''mac'', ''phone'', ''slug'', ''color''}
        then Inr (pgsql_varchar_or_text column)
      else if typ = ''point'' then Inr ''point''
      else if contains typ ''time.Time'' then Inr ''timestamp''
      else if contains typ ''Decimal'' then Inr (pgsql_numeric column)
      else if contains typ ''JSON'' then Inr ''jsonb''
      else Inr ''text'')"

definition pgsql_NormalizeType :: "string \<Rightarrow> (string \<times> string) result" where
  "pgsql_NormalizeType dbType = Inr (to_lower dbType, dbType)"

section \<open>Renumbering\<close>

text \<open>
  The two branches of \<open>rebasePlaceholders\<close>. With a question mark anywhere in the text, every
  question mark outside single quotes becomes the next number. Otherwise every match of the
  regular expression for a dollar sign and digits is replaced: the number is read with
  \<open>strconv.Atoi\<close>, which fails beyond the 64-bit range and then leaves the match alone, and the
  sum wraps around like any Go \<open>int\<close>.
\<close>

definition digit_val :: "char \<Rightarrow> nat" where
  "digit_val c = of_char c - 48"

definition digits_value :: "string \<Rightarrow> nat" where
  "digits_value ds = foldl (\<lambda>n c. 10 * n + digit_val c) 0 ds"

fun rebaseQuestions :: "bool \<Rightarrow> nat \<Rightarrow> string \<Rightarrow> string" where
  "rebaseQuestions inSingleQuote next [] = []"
| "rebaseQuestions inSingleQuote next (c # cs) =
     (if c = CHR 0x27 then c # rebaseQuestions (\<not> inSingleQuote) next cs
      else if c = CHR ''?'' \<and> \<not> inSingleQuote
        then ''$'' @ itoa_nat next @ rebaseQuestions inSingleQuote (next + 1) cs
      else c # rebaseQuestions inSingleQuote next cs)"

definition renumberMatch :: "nat \<Rightarrow> string \<Rightarrow> string" where
  "renumberMatch offset ds =
     (let value = int (digits_value ds) in
      if 2 ^ 63 \<le> value then CHR ''$'' # ds
      else CHR ''$'' # itoa (wrap64 (value + int offset)))"

function renumberDollars :: "nat \<Rightarrow> string \<Rightarrow> string" where
  "renumberDollars offset [] = []"
| "renumberDollars offset (c # cs) =
     (if c = CHR ''$'' \<and> cs \<noteq> [] \<and> is_digit_char (hd cs)
      then renumberMatch offset (takeWhile is_digit_char cs)
           @ renumberDollars offset (dropWhile is_digit_char cs)
      else c # renumberDollars offset cs)"
  by pat_completeness auto
termination
  by (relation "measure (\<lambda>(offset, s). length s)") (auto simp: less_Suc_eq_le length_dropWhile_le)

definition rebasePlaceholders :: "string \<Rightarrow> nat \<Rightarrow> string" where
  "rebasePlaceholders sql offset =
     (if CHR ''?'' \<in> set sql then rebaseQuestions False (offset + 1) sql
      else renumberDollars offset sql)"

section \<open>Clauses that contain no sub-query\<close>

definition pgsql_compileAggregateSelect :: "sel_item \<Rightarrow> string result" where
  "pgsql_compileAggregateSelect item =
     (case sel_Args item of
        [] \<Rightarrow> Inl (mk_error ''pgsql.select'' ErrInvalidArgument)
      | AAggregateExpr func field alias # _ \<Rightarrow>
          (case AggregateSelectSQL func field pgsql_QuoteIdent of
             Inl _ \<Rightarrow> Inl (mk_error ''pgsql.select'' ErrInvalidArgument)
           | Inr sql \<Rightarrow> Inr sql)
      | _ \<Rightarrow> Inl (mk_error ''pgsql.select'' ErrInvalidArgument))"

fun pgsql_joinConditionParts :: "bool \<Rightarrow> join_cond list \<Rightarrow> nat \<Rightarrow> string list \<times> goany list \<times> nat"
  and pgsql_compileJoinConditions :: "join_cond list \<Rightarrow> nat \<Rightarrow> pg_fragment" where
  "pgsql_joinConditionParts first [] start = ([], [], start)"
| "pgsql_joinConditionParts first (JoinCondition bool left op right value column grp err # rest) start =
     (let prefix = (if first then '''' else to_lower bool @ '' '')
      in if grp \<noteq> [] then
           (let (groupSQL, groupArgs, nextIndex) = pgsql_compileJoinConditions grp start;
                (parts, args, end) = pgsql_joinConditionParts False rest nextIndex
            in ((prefix @ ''('' @ groupSQL @ '')'') # parts, groupArgs @ args, end))
         else if column then
           (let (parts, args, end) = pgsql_joinConditionParts False rest start
            in ((prefix @ pgsql_QuoteIdent left @ '' '' @ op @ '' '' @ pgsql_QuoteIdent right) # parts, args, end))
         else
           (let (parts, args, end) = pgsql_joinConditionParts False rest (start + 1)
            in ((prefix @ pgsql_QuoteIdent left @ '' '' @ op @ '' '' @ pgsql_Placeholder start) # parts,
                value # args, end)))"
| "pgsql_compileJoinConditions conditions start =
     (let (parts, args, end) = pgsql_joinConditionParts True conditions start
      in (join '' '' parts, args, end))"

definition pgsql_compileColumnCondition :: "condition \<Rightarrow> string result" where
  "pgsql_compileColumnCondition condition =
     (case cond_Value condition of
        AColumnCondition op right \<Rightarrow>
          (if right = [] then Inl (mk_field_error ''pgsql.where'' ErrInvalidArgument (cond_Field condition))
           else if \<not> IsSafeColumnOperator op
             then Inl (mk_field_error ''pgsql.where'' ErrInvalidArgument (cond_Field condition))
           else Inr (pgsql_QuoteIdent (cond_Field condition) @ '' '' @ NormalizeConditionOperator op
                     @ '' '' @ pgsql_QuoteIdent right))
      | _ \<Rightarrow> Inl (mk_field_error ''pgsql.where'' ErrInvalidArgument (cond_Field condition)))"

definition pgsql_compileInValuesCondition :: "condition \<Rightarrow> nat \<Rightarrow> bool \<Rightarrow> pg_fragment result" where
  "pgsql_compileInValuesCondition condition start negated =
     (case cond_Value condition of
        AList values \<Rightarrow>
          (if values = [] then Inr (if negated then ''1 = 1'' else ''1 = 0'', [], start)
           else
             let placeholders = map (\<lambda>index. pgsql_Placeholder (start + index)) [0..<length values]
             in Inr (pgsql_QuoteIdent (cond_Field condition) @ (if negated then '' not in '' else '' in '')
                     @ ''('' @ join '', '' placeholders @ '')'', values, start + length values))
      | _ \<Rightarrow> Inl (mk_field_error ''pgsql.where'' ErrInvalidArgument (cond_Field condition)))"

definition pgsql_compileBetweenCondition :: "condition \<Rightarrow> nat \<Rightarrow> pg_fragment result" where
  "pgsql_compileBetweenCondition condition start =
     (case cond_Value condition of
        AList values \<Rightarrow>
          (if length values \<noteq> 2
             then Inl (mk_field_error ''pgsql.where'' ErrInvalidArgument (cond_Field condition))
           else Inr (pgsql_QuoteIdent (cond_Field condition) @ '' between '' @ pgsql_Placeholder start
                     @ '' and '' @ pgsql_Placeholder (start + 1), values, start + 2))
      | _ \<Rightarrow> Inl (mk_field_error ''pgsql.where'' ErrInvalidArgument (cond_Field condition)))"

definition pgsql_fullTextVector :: "string list \<Rightarrow> string" where
  "pgsql_fullTextVector fs =
     ''to_tsvector('' @ join ('' || '' @ [CHR 0x27, CHR '' '', CHR 0x27] @ '' || '')
        (map (\<lambda>field. ''coalesce('' @ pgsql_QuoteIdent field @ ''::text, '' @ [CHR 0x27, CHR 0x27] @ '')'') fs)
     @ '')''"

definition pgsql_compileFullTextCondition :: "condition \<Rightarrow> nat \<Rightarrow> pg_fragment result" where
  "pgsql_compileFullTextCondition condition start =
     (case cond_Value condition of
        AFullTextExpr fs query alias isScore \<Rightarrow>
          (if fs = [] then Inl (mk_error ''pgsql.fulltext'' ErrInvalidArgument)
           else Inr (pgsql_fullTextVector fs @ '' @@ plainto_tsquery('' @ pgsql_Placeholder start @ '')'',
                     [AString query], start + 1))
      | _ \<Rightarrow> Inl (mk_error ''pgsql.fulltext'' ErrInvalidArgument))"

text \<open>\<open>item.Args[0]\<close> is read without a length check: an empty list is a run-time panic.\<close>

definition pgsql_compileFullTextScore :: "sel_item \<Rightarrow> nat \<Rightarrow> pg_fragment result" where
  "pgsql_compileFullTextScore item start =
     (case sel_Args item of
        [] \<Rightarrow> Inl (GoPanic ''index out of range'')
      | AFullTextExpr fs query alias isScore # _ \<Rightarrow>
          (if fs = [] then Inl (mk_error ''pgsql.fulltext'' ErrInvalidArgument)
           else Inr (''ts_rank('' @ pgsql_fullTextVector fs @ '', plainto_tsquery(''
                     @ pgsql_Placeholder start @ ''))'', [AString query], start + 1))
      | _ \<Rightarrow> Inl (mk_error ''pgsql.fulltext'' ErrInvalidArgument))"

definition pgsql_jsonConditionArgument :: "marshal_fun \<Rightarrow> goany \<Rightarrow> string result" where
  "pgsql_jsonConditionArgument marshal value =
     (case marshal value of
        Inl cause \<Rightarrow> Inl (OroError ''pgsql.json'' ErrInvalidArgument '''' '''' (Some cause))
      | Inr bytesValue \<Rightarrow> Inr bytesValue)"

definition pgsqlJSONPath :: "string list \<Rightarrow> string" where
  "pgsqlJSONPath parts = (if parts = [] then ''{}'' else ''{'' @ join '','' parts @ ''}'')"

definition pgsql_compileJSONCondition :: "marshal_fun \<Rightarrow> condition \<Rightarrow> nat \<Rightarrow> pg_fragment result" where
  "pgsql_compileJSONCondition marshal condition start =
     (case cond_Value condition of
        AJSONCondition field parts jop value \<Rightarrow>
          (let expr = pgsql_QuoteIdent field @ '' #> '' @ pgsql_Placeholder start;
               path = AString (pgsqlJSONPath parts);
               op = to_lower jop
           in if op = ''='' then
                bind_res (pgsql_jsonConditionArgument marshal value) (\<lambda>v.
                  Inr (expr @ '' = '' @ pgsql_Placeholder (start + 1) @ ''::jsonb'', [path, AString v], start + 2))
              else if op = ''!='' then
                bind_res (pgsql_jsonConditionArgument marshal value) (\<lambda>v.
                  Inr (expr @ '' != '' @ pgsql_Placeholder (start + 1) @ ''::jsonb'', [path, AString v], start + 2))
              else if op = ''is null'' then Inr (expr @ '' is null'', [path], start + 1)
              else if op = ''is not null'' then Inr (expr @ '' is not null'', [path], start + 1)
              else if op = ''exists'' then Inr (expr @ '' is not null'', [path], start + 1)
              else if op = ''contains'' then
                bind_res (pgsql_jsonConditionArgument marshal value) (\<lambda>v.
                  Inr (expr @ '' @> '' @ pgsql_Placeholder (start + 1) @ ''::jsonb'', [path, AString v], start + 2))
              else if op = ''like'' then
                Inr (pgsql_QuoteIdent field @ '' #>> '' @ pgsql_Placeholder start @ '' like ''
                     @ pgsql_Placeholder (start + 1), [path, value], start + 2)
              else Inl (mk_error ''pgsql.json'' ErrInvalidArgument))
      | _ \<Rightarrow> Inl (mk_error ''pgsql.json'' ErrInvalidArgument))"

definition pgsql_compileLockOptions :: "string \<Rightarrow> lock_spec \<Rightarrow> string" where
  "pgsql_compileLockOptions sql lock =
     sql @ (if lock_NoWait lock then '' nowait'' else '''')
         @ (if lock_SkipLocked lock then '' skip locked'' else '''')"

definition pgsql_compileLock :: "lock_spec \<Rightarrow> string result" where
  "pgsql_compileLock lock =
     (case lock_Mode lock of
        LockNone \<Rightarrow> Inr ''''
      | LockUpdate \<Rightarrow> Inr (pgsql_compileLockOptions '' for update'' lock)
      | LockShare \<Rightarrow> Inr (pgsql_compileLockOptions '' for share'' lock)
      | LockModeOther _ \<Rightarrow> Inl (mk_error ''pgsql.lock'' ErrInvalidArgument))"

definition pgsql_compileGroup :: "string list \<Rightarrow> string" where
  "pgsql_compileGroup fs = join '', '' (map pgsql_QuoteIdent fs)"

definition pgsql_orderItem :: "order_item \<Rightarrow> string" where
  "pgsql_orderItem item =
     (let expr = (if ord_Raw item then ord_Expr item else pgsql_QuoteIdent (ord_Expr item))
      in if ord_Desc item then expr @ '' desc''
         else if \<not> ord_Raw item then expr @ '' asc'' else expr)"

definition pgsql_compileOrder :: "order_item list \<Rightarrow> fragment" where
  "pgsql_compileOrder items =
     (join '', '' (map pgsql_orderItem items), concat (map ord_Args items))"

definition pgsql_cond_prefix :: "bool \<Rightarrow> condition \<Rightarrow> string" where
  "pgsql_cond_prefix first condition =
     (if first then ''''
      else if to_lower (trim_space (cond_Bool condition)) = ''or'' then '' or '' else '' and '')"

text \<open>The end of \<open>compileSelect\<close>, from the limit on.\<close>

definition pgsql_limit_offset_lock :: "select_ast \<Rightarrow> string result" where
  "pgsql_limit_offset_lock stmt =
     bind_res
       (case stmt_Limit stmt of
          None \<Rightarrow> Inr ''''
        | Some limit \<Rightarrow>
            (if limit < 0 then Inl (mk_field_error ''pgsql.select'' ErrInvalidArgument ''Limit'')
             else Inr ('' limit '' @ itoa limit)))
     (\<lambda>limitSQL. bind_res
       (case stmt_Offset stmt of
          None \<Rightarrow> Inr ''''
        | Some offset \<Rightarrow>
            (if offset < 0 then Inl (mk_field_error ''pgsql.select'' ErrInvalidArgument ''Offset'')
             else Inr ('' offset '' @ itoa offset)))
     (\<lambda>offsetSQL. bind_res (pgsql_compileLock (stmt_Lock stmt))
     (\<lambda>lockSQL. Inr (limitSQL @ offsetSQL @ lockSQL))))"

section \<open>Selects, sources, joins and conditions\<close>

function
  pgsql_compileSelect :: "marshal_fun \<Rightarrow> select_ast \<Rightarrow> compiled_sql result" and
  pgsql_compileSelectItems :: "marshal_fun \<Rightarrow> sel_item list \<Rightarrow> nat \<Rightarrow> (string list \<times> goany list \<times> nat) result" and
  pgsql_compileSelectExpr :: "marshal_fun \<Rightarrow> sel_item \<Rightarrow> nat \<Rightarrow> pg_fragment result" and
  pgsql_compileSelectSource :: "marshal_fun \<Rightarrow> select_ast \<Rightarrow> nat \<Rightarrow> pg_fragment result" and
  pgsql_compileSource :: "marshal_fun \<Rightarrow> source_ast \<Rightarrow> nat \<Rightarrow> pg_fragment result" and
  pgsql_compileJoins :: "marshal_fun \<Rightarrow> join_item list \<Rightarrow> nat \<Rightarrow> pg_fragment result" and
  pgsql_compileJoinList :: "marshal_fun \<Rightarrow> join_item list \<Rightarrow> nat \<Rightarrow> (string list \<times> goany list \<times> nat) result" and
  pgsql_compileJoin :: "marshal_fun \<Rightarrow> join_item \<Rightarrow> nat \<Rightarrow> pg_fragment result" and
  pgsql_compileJoinSource :: "marshal_fun \<Rightarrow> join_item \<Rightarrow> nat \<Rightarrow> pg_fragment result" and
  pgsql_compileWhere :: "marshal_fun \<Rightarrow> condition list \<Rightarrow> nat \<Rightarrow> fragment result" and
  pgsql_compileConditions :: "marshal_fun \<Rightarrow> bool \<Rightarrow> condition list \<Rightarrow> nat \<Rightarrow> (string list \<times> goany list) result" and
  pgsql_compileCondition :: "marshal_fun \<Rightarrow> string \<Rightarrow> condition \<Rightarrow> nat \<Rightarrow> pg_fragment option result" and
  pgsql_compileInCondition :: "marshal_fun \<Rightarrow> condition \<Rightarrow> nat \<Rightarrow> pg_fragment result" and
  pgsql_compileExistsCondition :: "marshal_fun \<Rightarrow> condition \<Rightarrow> nat \<Rightarrow> pg_fragment result" and
  pgsql_compileCountCondition :: "marshal_fun \<Rightarrow> condition \<Rightarrow> nat \<Rightarrow> pg_fragment result" and
  pgsql_compileScalarSource :: "marshal_fun \<Rightarrow> source_ast \<Rightarrow> nat \<Rightarrow> string \<Rightarrow> pg_fragment result"
where
  "pgsql_compileSelect marshal stmt =
     bind_res
       (if stmt_Select stmt = [] then Inr (''*'', [], 1)
        else bind_res (pgsql_compileSelectItems marshal (stmt_Select stmt) 1)
               (\<lambda>(parts, args, nextIndex). Inr (join '', '' parts, args, nextIndex)))
     (\<lambda>(selectSQL, selectArgs, selectPlaceholderIndex).
     bind_res (pgsql_compileSelectSource marshal stmt selectPlaceholderIndex)
     (\<lambda>(sourceSQL, sourceArgs, sourceIndex).
     bind_res (pgsql_compileJoins marshal (stmt_Joins stmt) sourceIndex) (\<lambda>(joins, joinArgs, placeholderIndex).
     bind_res (pgsql_compileWhere marshal (stmt_Where stmt) placeholderIndex) (\<lambda>(whereSQL, whereArgs).
       let args = selectArgs @ sourceArgs @ joinArgs @ (if whereSQL \<noteq> [] then whereArgs else []);
           groupSQL = pgsql_compileGroup (stmt_Group stmt)
       in
     bind_res (pgsql_compileWhere marshal (stmt_Having stmt) (length args + 1)) (\<lambda>(having, havingArgs).
     bind_res (pgsql_limit_offset_lock stmt) (\<lambda>tail.
       let (order, orderArgs) = pgsql_compileOrder (stmt_Order stmt)
       in Inr \<lparr>c_SQL = ''select '' @ selectSQL @ '' from '' @ sourceSQL @ joins
                 @ (if whereSQL \<noteq> [] then '' where '' @ whereSQL else '''')
                 @ (if groupSQL \<noteq> [] then '' group by '' @ groupSQL else '''')
                 @ (if having \<noteq> [] then '' having '' @ having else '''')
                 @ (if order \<noteq> [] then '' order by '' @ order else '''')
                 @ tail,
               c_Args = args
                 @ (if having \<noteq> [] then havingArgs else [])
                 @ (if order \<noteq> [] then orderArgs else [])\<rparr>))))))"
| "pgsql_compileSelectItems marshal items start =
     (case items of
        [] \<Rightarrow> Inr ([], [], start)
      | item # rest \<Rightarrow>
          bind_res (pgsql_compileSelectExpr marshal item start) (\<lambda>(expr, itemArgs, nextIndex).
          bind_res (pgsql_compileSelectItems marshal rest nextIndex) (\<lambda>(parts, args, end).
            Inr (expr # parts, itemArgs @ args, end))))"
| "pgsql_compileSelectExpr marshal item start =
     (case sel_Source item of
        Some source \<Rightarrow>
          bind_res (pgsql_compileScalarSource marshal source start ''pgsql.select'') (\<lambda>(expr, args, nextIndex).
            if sel_Alias item = [] then Inl (mk_error ''pgsql.select'' ErrInvalidArgument)
            else Inr (expr @ '' as '' @ pgsql_QuoteIdent (sel_Alias item), args, nextIndex))
      | None \<Rightarrow>
          if sel_Expr item = ''__oro_relation_exists__'' then
            (case sel_Args item of
               [ASource source] \<Rightarrow>
                 bind_res (pgsql_compileScalarSource marshal source start ''pgsql.select'') (\<lambda>(expr, args, nextIndex).
                   if sel_Alias item = [] then Inl (mk_error ''pgsql.select'' ErrInvalidArgument)
                   else Inr (''exists '' @ expr @ '' as '' @ pgsql_QuoteIdent (sel_Alias item), args, nextIndex))
             | _ \<Rightarrow> Inl (mk_error ''pgsql.select'' ErrInvalidArgument))
          else
            bind_res
              (if sel_Expr item = ''__oro_fulltext_score__'' then pgsql_compileFullTextScore item start
               else if sel_Expr item = ''__oro_aggregate__''
               then bind_res (pgsql_compileAggregateSelect item) (\<lambda>sql. Inr (sql, [], start))
               else if \<not> sel_Raw item then Inr (pgsql_QuoteIdent (sel_Expr item), [], start)
               else Inr (rebasePlaceholders (sel_Expr item) (start - 1), sel_Args item,
                         start + length (sel_Args item)))
            (\<lambda>(expr, args, placeholderIndex).
              Inr (if sel_Alias item \<noteq> [] then expr @ '' as '' @ pgsql_QuoteIdent (sel_Alias item)
                   else expr, args, placeholderIndex)))"
| "pgsql_compileSelectSource marshal stmt start =
     (let source = stmt_From stmt in
      if src_Table source \<noteq> [] \<or> src_Query source \<noteq> None \<or> src_Raw source \<noteq> None
      then pgsql_compileSource marshal
             (SourceAST (src_Table source)
                (if src_Alias source = [] then stmt_Alias stmt else src_Alias source)
                (src_Query source) (src_Raw source)) start
      else pgsql_compileSource marshal (SourceAST (stmt_Table stmt) (stmt_Alias stmt) None None) start)"
| "pgsql_compileSource marshal source start =
     (if src_Table source \<noteq> [] then
        Inr (pgsql_QuoteIdent (src_Table source)
             @ (if src_Alias source \<noteq> [] then '' as '' @ pgsql_QuoteIdent (src_Alias source) else ''''),
             [], start)
      else case src_Query source of
        Some query \<Rightarrow>
          (if src_Alias source = [] then Inl (mk_error ''pgsql.source'' ErrInvalidArgument)
           else bind_res (pgsql_compileSelect marshal query) (\<lambda>compiled.
             Inr (''('' @ rebasePlaceholders (c_SQL compiled) (start - 1) @ '') as ''
                  @ pgsql_QuoteIdent (src_Alias source),
                  c_Args compiled, start + length (c_Args compiled))))
      | None \<Rightarrow>
          (case src_Raw source of
             Some raw \<Rightarrow>
               (if src_Alias source = [] then Inl (mk_error ''pgsql.source'' ErrInvalidArgument)
                else Inr (''('' @ rebasePlaceholders (raw_SQL raw) (start - 1) @ '') as ''
                          @ pgsql_QuoteIdent (src_Alias source),
                          raw_Args raw, start + length (raw_Args raw)))
           | None \<Rightarrow> Inl (mk_error ''pgsql.source'' ErrInvalidArgument)))"
| "pgsql_compileJoins marshal joins start =
     (if joins = [] then Inr ('''', [], start)
      else bind_res (pgsql_compileJoinList marshal joins start) (\<lambda>(parts, args, end).
             Inr ('' '' @ join '' '' parts, args, end)))"
| "pgsql_compileJoinList marshal joins start =
     (case joins of
        [] \<Rightarrow> Inr ([], [], start)
      | j # rest \<Rightarrow>
          bind_res (pgsql_compileJoin marshal j start) (\<lambda>(joinSQL, conditionArgs, nextIndex).
          bind_res (pgsql_compileJoinList marshal rest nextIndex) (\<lambda>(parts, args, end).
            Inr (joinSQL # parts, conditionArgs @ args, end))))"
| "pgsql_compileJoin marshal j start =
     (case join_Raw j of
        Some raw \<Rightarrow> Inr (rebasePlaceholders (raw_SQL raw) (start - 1), raw_Args raw,
                          start + length (raw_Args raw))
      | None \<Rightarrow>
          bind_res
            (case join_Type j of
               JoinInner \<Rightarrow> Inr ''join''
             | JoinLeft \<Rightarrow> Inr ''left join''
             | JoinRight \<Rightarrow> Inr ''right join''
             | JoinFull \<Rightarrow> Inr ''full join''
             | JoinCross \<Rightarrow> Inr ''cross join''
             | JoinTypeOther _ \<Rightarrow> Inl (mk_error ''pgsql.join'' ErrInvalidArgument))
          (\<lambda>joinType.
            if join_Type j = JoinCross then
              bind_res (pgsql_compileJoinSource marshal j start) (\<lambda>(source, sourceArgs, nextIndex).
                Inr (''cross join '' @ source, sourceArgs, nextIndex))
            else if join_Conditions j = [] then Inl (mk_error ''pgsql.join'' ErrInvalidArgument)
            else
              bind_res (pgsql_compileJoinSource marshal j start) (\<lambda>(source, sourceArgs, nextIndex).
                let (conditions, args, end) = pgsql_compileJoinConditions (join_Conditions j) nextIndex
                in Inr (joinType @ '' '' @ source @ '' on '' @ conditions, sourceArgs @ args, end))))"
| "pgsql_compileJoinSource marshal j start =
     (let source = join_Source j;
          table = (if src_Table source = [] \<and> src_Query source = None \<and> src_Raw source = None
                   then join_Table j else src_Table source);
          alias = (if join_Alias j \<noteq> [] then join_Alias j else src_Alias source)
      in pgsql_compileSource marshal (SourceAST table alias (src_Query source) (src_Raw source)) start)"
| "pgsql_compileWhere marshal conditions start =
     bind_res (pgsql_compileConditions marshal True conditions start) (\<lambda>(parts, args).
       Inr (join '''' parts, args))"
| "pgsql_compileConditions marshal first conditions start =
     (case conditions of
        [] \<Rightarrow> Inr ([], [])
      | condition # rest \<Rightarrow>
          bind_res (pgsql_compileCondition marshal (pgsql_cond_prefix first condition) condition start) (\<lambda>part.
            case part of
              None \<Rightarrow> pgsql_compileConditions marshal False rest start
            | Some (sql, conditionArgs, nextIndex) \<Rightarrow>
                bind_res (pgsql_compileConditions marshal False rest nextIndex) (\<lambda>(parts, args).
                  Inr (sql # parts, conditionArgs @ args))))"
| "pgsql_compileCondition marshal prefix condition start =
     (let op = to_lower (trim_space (cond_Op condition)) in
      if op = ''invalid'' then
        (case cond_Value condition of
           AError err \<Rightarrow> Inl err
         | _ \<Rightarrow> Inl (mk_field_error ''pgsql.where'' ErrInvalidArgument (cond_Field condition)))
      else if op = ''group'' then
        bind_res (pgsql_compileWhere marshal (cond_Conditions condition) start) (\<lambda>(sql, groupArgs).
          Inr (if sql = [] then None
               else Some (prefix @ ''('' @ sql @ '')'', groupArgs, start + length groupArgs)))
      else if op = ''not'' then
        bind_res (pgsql_compileWhere marshal (cond_Conditions condition) start) (\<lambda>(sql, groupArgs).
          Inr (if sql = [] then None
               else Some (prefix @ ''not ('' @ sql @ '')'', groupArgs, start + length groupArgs)))
      else if op = ''raw'' then
        (let sql = prefix @ rebasePlaceholders (cond_Field condition) (start - 1) in
         Inr (Some (case cond_Value condition of
                      AList values \<Rightarrow> (sql, values, start + length values)
                    | _ \<Rightarrow> (sql, [], start))))
      else if op = ''json'' then
        bind_res (pgsql_compileJSONCondition marshal condition start)
          (\<lambda>(sql, args, nextIndex). Inr (Some (prefix @ sql, args, nextIndex)))
      else if op = ''fulltext'' then
        bind_res (pgsql_compileFullTextCondition condition start)
          (\<lambda>(sql, args, nextIndex). Inr (Some (prefix @ sql, args, nextIndex)))
      else if op = ''column'' then
        bind_res (pgsql_compileColumnCondition condition) (\<lambda>sql. Inr (Some (prefix @ sql, [], start)))
      else if op = ''in'' then
        bind_res (pgsql_compileInCondition marshal condition start)
          (\<lambda>(sql, args, nextIndex). Inr (Some (prefix @ sql, args, nextIndex)))
      else if op = ''in_values'' \<or> op = ''not_in_values'' then
        bind_res (pgsql_compileInValuesCondition condition start (op = ''not_in_values''))
          (\<lambda>(sql, args, nextIndex). Inr (Some (prefix @ sql, args, nextIndex)))
      else if op = ''between'' then
        bind_res (pgsql_compileBetweenCondition condition start)
          (\<lambda>(sql, args, nextIndex). Inr (Some (prefix @ sql, args, nextIndex)))
      else if op = ''exists'' then
        bind_res (pgsql_compileExistsCondition marshal condition start)
          (\<lambda>(sql, args, nextIndex). Inr (Some (prefix @ sql, args, nextIndex)))
      else if op = ''count'' then
        bind_res (pgsql_compileCountCondition marshal condition start)
          (\<lambda>(sql, args, nextIndex). Inr (Some (prefix @ sql, args, nextIndex)))
      else if op = ''is null'' \<or> op = ''is not null'' then
        Inr (Some (prefix @ pgsql_QuoteIdent (cond_Field condition) @ '' '' @ op, [], start))
      else if \<not> IsSafeConditionOperator (cond_Op condition) then
        Inl (mk_field_error ''pgsql.where'' ErrInvalidArgument (cond_Field condition))
      else
        let lhs = prefix @ pgsql_QuoteIdent (cond_Field condition) @ '' ''
                  @ NormalizeConditionOperator (cond_Op condition) @ '' '' in
        case cond_Value condition of
          ASourcePtr source \<Rightarrow>
            bind_res (pgsql_compileScalarSource marshal source start ''pgsql.where'') (\<lambda>(sql, sourceArgs, nextIndex).
              Inr (Some (lhs @ sql, sourceArgs, nextIndex)))
        | value \<Rightarrow>
            (if cond_Escape condition = [] then Inr (Some (lhs @ pgsql_Placeholder start, [value], start + 1))
             else if cond_Escape condition \<noteq> [CHR 0x5C]
               then Inl (mk_field_error ''pgsql.where'' ErrInvalidArgument (cond_Field condition))
             else Inr (Some (lhs @ pgsql_Placeholder start @ '' escape '' @ [CHR 0x27, CHR 0x5C, CHR 0x27],
                             [value], start + 1))))"
| "pgsql_compileInCondition marshal condition start =
     (case cond_Value condition of
        ASourcePtr source \<Rightarrow>
          bind_res (pgsql_compileScalarSource marshal source start ''pgsql.where'') (\<lambda>(sql, args, nextIndex).
            Inr (pgsql_QuoteIdent (cond_Field condition) @ '' in '' @ sql, args, nextIndex))
      | _ \<Rightarrow> Inl (mk_field_error ''pgsql.where'' ErrInvalidArgument (cond_Field condition)))"
| "pgsql_compileExistsCondition marshal condition start =
     (case cond_Value condition of
        ASourcePtr source \<Rightarrow>
          bind_res (pgsql_compileScalarSource marshal source start ''pgsql.where'') (\<lambda>(sql, args, nextIndex).
            Inr (''exists '' @ sql, args, nextIndex))
      | _ \<Rightarrow> Inl (mk_error ''pgsql.where'' ErrInvalidArgument))"
| "pgsql_compileCountCondition marshal condition start =
     (case cond_Value condition of
        ACountCondition (Some source) op value \<Rightarrow>
          bind_res (pgsql_compileScalarSource marshal source start ''pgsql.where'') (\<lambda>(sql, args, nextIndex).
            Inr (sql @ '' '' @ op @ '' '' @ pgsql_Placeholder nextIndex, args @ [AInt64 value], nextIndex + 1))
      | _ \<Rightarrow> Inl (mk_error ''pgsql.where'' ErrInvalidArgument))"
| "pgsql_compileScalarSource marshal source start op =
     (case src_Query source of
        Some query \<Rightarrow>
          bind_res (pgsql_compileSelect marshal query) (\<lambda>compiled.
            Inr (''('' @ rebasePlaceholders (c_SQL compiled) (start - 1) @ '')'', c_Args compiled,
                 start + length (c_Args compiled)))
      | None \<Rightarrow>
          (case src_Raw source of
             Some raw \<Rightarrow> Inr (''('' @ rebasePlaceholders (raw_SQL raw) (start - 1) @ '')'', raw_Args raw,
                               start + length (raw_Args raw))
           | None \<Rightarrow> Inl (mk_error op ErrInvalidArgument)))"
  by pat_completeness auto
termination
  by (relation "measure (case_sum
        (case_sum
          (case_sum (case_sum (\<lambda>(m, st). 2 * size st + 1) (\<lambda>(m, is, k). 2 * size_list sel_size is))
                    (case_sum (\<lambda>(m, i, k). 2 * sel_size i) (\<lambda>(m, st, k). 2 * size st)))
          (case_sum (case_sum (\<lambda>(m, s, k). 2 * size s) (\<lambda>(m, js, k). 2 * size_list join_size js + 1))
                    (case_sum (\<lambda>(m, js, k). 2 * size_list join_size js) (\<lambda>(m, j, k). 2 * join_size j + 1))))
        (case_sum
          (case_sum (case_sum (\<lambda>(m, j, k). 2 * join_size j) (\<lambda>(m, cs, k). 2 * size_list size cs + 1))
                    (case_sum (\<lambda>(m, b, cs, k). 2 * size_list size cs) (\<lambda>(m, p, c, k). 2 * size c + 1)))
          (case_sum (case_sum (\<lambda>(m, c, k). 2 * size c) (\<lambda>(m, c, k). 2 * size c))
                    (case_sum (\<lambda>(m, c, k). 2 * size c) (\<lambda>(m, s, k, op). 2 * size s)))))")
     (auto simp: ast_size simp del: source_ast.size dest: ast_size_dest)

declare pgsql_compileSelect.simps [simp del] pgsql_compileSelectItems.simps [simp del]
  pgsql_compileSelectExpr.simps [simp del] pgsql_compileSelectSource.simps [simp del]
  pgsql_compileSource.simps [simp del] pgsql_compileJoins.simps [simp del]
  pgsql_compileJoinList.simps [simp del] pgsql_compileJoin.simps [simp del]
  pgsql_compileJoinSource.simps [simp del] pgsql_compileWhere.simps [simp del]
  pgsql_compileConditions.simps [simp del] pgsql_compileCondition.simps [simp del]
  pgsql_compileInCondition.simps [simp del] pgsql_compileExistsCondition.simps [simp del]
  pgsql_compileCountCondition.simps [simp del] pgsql_compileScalarSource.simps [simp del]

section \<open>Writes\<close>

text \<open>
  The inner loop of \<open>compileInsert\<close> over the columns of one row, which collects the values, the
  placeholders and the next index, and the loop over the rows.
\<close>

fun pgsql_insertRow :: "string list \<Rightarrow> gomap \<Rightarrow> nat \<Rightarrow> (goany list \<times> string list \<times> nat) result" where
  "pgsql_insertRow [] value placeholderIndex = Inr ([], [], placeholderIndex)"
| "pgsql_insertRow (column # columns) value placeholderIndex =
     (case map_of value column of
        None \<Rightarrow> Inl (mk_error ''pgsql.insert'' ErrInvalidArgument)
      | Some item \<Rightarrow>
          bind_res (pgsql_insertRow columns value (placeholderIndex + 1)) (\<lambda>(items, placeholders, end).
            Inr (item # items, pgsql_Placeholder placeholderIndex # placeholders, end)))"

fun pgsql_insertRows :: "string list \<Rightarrow> gomap list \<Rightarrow> nat \<Rightarrow> (goany list \<times> string list) result" where
  "pgsql_insertRows columnNames [] placeholderIndex = Inr ([], [])"
| "pgsql_insertRows columnNames (value # values) placeholderIndex =
     (if length value \<noteq> length columnNames
      then Inl (mk_error ''pgsql.insert'' ErrInvalidArgument)
      else bind_res (pgsql_insertRow columnNames value placeholderIndex) (\<lambda>(items, placeholders, nextIndex).
           bind_res (pgsql_insertRows columnNames values nextIndex) (\<lambda>(args, rows).
             Inr (items @ args, (''('' @ join '', '' placeholders @ '')'') # rows))))"

definition pgsql_plainInsert :: "insert_ast \<Rightarrow> compiled_sql result" where
  "pgsql_plainInsert stmt =
     (case ins_Values stmt of
        [] \<Rightarrow> Inl (mk_error ''pgsql.insert'' ErrInvalidArgument)
      | row # _ \<Rightarrow>
          (let columnNames = sortedKeys row;
               columns = map pgsql_QuoteIdent columnNames
           in bind_res (pgsql_insertRows columnNames (ins_Values stmt) 1) (\<lambda>(args, rows).
                Inr \<lparr>c_SQL = ''insert into '' @ pgsql_QuoteIdent (ins_Table stmt) @ '' ('' @ join '', '' columns
                         @ '') values '' @ join '', '' rows
                         @ (if ins_Returning stmt then '' returning *'' else ''''),
                     c_Args = args\<rparr>)))"

definition pgsql_compileSet :: "string \<Rightarrow> goany \<Rightarrow> nat \<Rightarrow> pg_fragment" where
  "pgsql_compileSet column value placeholderIndex =
     (case value of
        AIncrementExpr v \<Rightarrow> (pgsql_QuoteIdent column @ '' = '' @ pgsql_QuoteIdent column @ '' + ''
          @ pgsql_Placeholder placeholderIndex, [v], placeholderIndex + 1)
      | ADecrementExpr v \<Rightarrow> (pgsql_QuoteIdent column @ '' = '' @ pgsql_QuoteIdent column @ '' - ''
          @ pgsql_Placeholder placeholderIndex, [v], placeholderIndex + 1)
      | ARawExpr raw \<Rightarrow> (pgsql_QuoteIdent column @ '' = '' @ raw_SQL raw, raw_Args raw,
          placeholderIndex + length (raw_Args raw))
      | v \<Rightarrow> (pgsql_QuoteIdent column @ '' = '' @ pgsql_Placeholder placeholderIndex, [v],
          placeholderIndex + 1))"

text \<open>The loop over the columns of an assignment list, shared by updates and upserts.\<close>

fun pgsql_compileSets :: "gomap \<Rightarrow> string list \<Rightarrow> nat \<Rightarrow> string list \<times> goany list \<times> nat" where
  "pgsql_compileSets values [] placeholderIndex = ([], [], placeholderIndex)"
| "pgsql_compileSets values (column # columns) placeholderIndex =
     (let (setSQL, setArgs, nextIndex) = pgsql_compileSet column (map_get values column) placeholderIndex;
          (sets, args, end) = pgsql_compileSets values columns nextIndex
      in (setSQL # sets, setArgs @ args, end))"

definition pgsql_conflictUpdateAllColumns :: "gomap \<Rightarrow> string list \<Rightarrow> string list \<Rightarrow> string list" where
  "pgsql_conflictUpdateAllColumns row conflictColumns exceptColumns =
     (if row = [] then []
      else filter (\<lambda>column. column \<notin> set conflictColumns \<union> set exceptColumns) (sortedKeys row))"

definition pgsql_conflictUpdateColumns :: "string list \<Rightarrow> gomap \<Rightarrow> string list" where
  "pgsql_conflictUpdateColumns columns row =
     (if columns = [] then [] else filter (\<lambda>column. map_of row column \<noteq> None) columns)"

definition pgsql_compileConflictUpdate :: "conflict_spec \<Rightarrow> gomap \<Rightarrow> nat \<Rightarrow> fragment result" where
  "pgsql_compileConflictUpdate conflict row start =
     (if conf_DoNothing conflict then Inr ('' do nothing'', [])
      else if conf_UpdateMap conflict \<noteq> [] then
        (let (sets, args, _) = pgsql_compileSets (conf_UpdateMap conflict)
                                 (sortedKeys (conf_UpdateMap conflict)) start
         in Inr ('' do update set '' @ join '', '' sets, args))
      else
        let fs = (if conf_UpdateAll conflict
                  then pgsql_conflictUpdateAllColumns row (conf_Columns conflict) (conf_UpdateExcept conflict)
                  else pgsql_conflictUpdateColumns (conf_Update conflict) row) in
        if fs = [] then
          (case conf_Columns conflict of
             [] \<Rightarrow> Inl (mk_error ''pgsql.upsert'' ErrInvalidArgument)
           | column # _ \<Rightarrow>
               Inr ('' do update set '' @ pgsql_QuoteIdent column @ '' = '' @ pgsql_QuoteIdent column, []))
        else
          Inr ('' do update set '' @ join '', '' (map (\<lambda>column.
                 pgsql_QuoteIdent column @ '' = excluded.'' @ pgsql_QuoteIdent column) (sort fs)), []))"

definition pgsql_compileUpsert :: "insert_ast \<Rightarrow> compiled_sql result" where
  "pgsql_compileUpsert stmt =
     bind_res (pgsql_plainInsert \<lparr>ins_Table = ins_Table stmt, ins_Values = ins_Values stmt,
                 ins_Conflict = no_conflict, ins_Returning = False\<rparr>) (\<lambda>compiled.
       (case ins_Values stmt of
          [] \<Rightarrow> Inl (GoPanic ''index out of range'')
        | row # _ \<Rightarrow>
            bind_res (pgsql_compileConflictUpdate (ins_Conflict stmt) row (length (c_Args compiled) + 1))
            (\<lambda>(updateSQL, updateArgs).
              Inr \<lparr>c_SQL = c_SQL compiled @ '' on conflict (''
                       @ join '', '' (map pgsql_QuoteIdent (conf_Columns (ins_Conflict stmt))) @ '')''
                       @ updateSQL @ (if ins_Returning stmt then '' returning *'' else ''''),
                   c_Args = c_Args compiled @ updateArgs\<rparr>)))"

definition pgsql_compileInsert :: "insert_ast \<Rightarrow> compiled_sql result" where
  "pgsql_compileInsert stmt =
     (if ins_Values stmt = [] then Inl (mk_error ''pgsql.insert'' ErrInvalidArgument)
      else if conf_Columns (ins_Conflict stmt) \<noteq> [] then pgsql_compileUpsert stmt
      else pgsql_plainInsert stmt)"

definition pgsql_compileUpdate :: "marshal_fun \<Rightarrow> update_ast \<Rightarrow> compiled_sql result" where
  "pgsql_compileUpdate marshal stmt =
     (if upd_Values stmt = [] then Inl (mk_error ''pgsql.update'' ErrInvalidArgument)
      else
        let (sets, args, placeholderIndex) =
              pgsql_compileSets (upd_Values stmt) (sortedKeys (upd_Values stmt)) 1 in
        bind_res (pgsql_compileWhere marshal (upd_Where stmt) placeholderIndex) (\<lambda>(whereSQL, whereArgs).
          Inr \<lparr>c_SQL = ''update '' @ pgsql_QuoteIdent (upd_Table stmt) @ '' set '' @ join '', '' sets
                   @ (if whereSQL \<noteq> [] then '' where '' @ whereSQL else ''''),
               c_Args = args @ whereArgs\<rparr>))"

definition pgsql_compileDelete :: "marshal_fun \<Rightarrow> delete_ast \<Rightarrow> compiled_sql result" where
  "pgsql_compileDelete marshal stmt =
     bind_res (pgsql_compileWhere marshal (del_Where stmt) 1) (\<lambda>(whereSQL, args).
       Inr \<lparr>c_SQL = ''delete from '' @ pgsql_QuoteIdent (del_Table stmt)
                @ (if whereSQL \<noteq> [] then '' where '' @ whereSQL else ''''),
            c_Args = args\<rparr>)"

definition pgsql_Compile :: "marshal_fun \<Rightarrow> statement \<Rightarrow> compiled_sql result" where
  "pgsql_Compile marshal stmt =
     (case stmt of
        StmtSelect s \<Rightarrow> pgsql_compileSelect marshal s
      | StmtInsert s \<Rightarrow> pgsql_compileInsert s
      | StmtUpdate s \<Rightarrow> pgsql_compileUpdate marshal s
      | StmtDelete s \<Rightarrow> pgsql_compileDelete marshal s
      | StmtOther \<Rightarrow> Inl (mk_error ''pgsql.compile'' ErrUnsupported))"

section \<open>Schema statements\<close>

definition pgsql_isIntegerType :: "string \<Rightarrow> bool" where
  "pgsql_isIntegerType typ = contains typ ''int''"

definition pgsql_compileDefault :: "(goany \<Rightarrow> string) \<Rightarrow> default_spec \<Rightarrow> string" where
  "pgsql_compileDefault sprint defaultValue =
     (if def_Expr defaultValue \<noteq> [] then def_Expr defaultValue
      else DefaultValue sprint (def_Value defaultValue))"

definition pgsql_schemaString :: "string \<Rightarrow> string" where
  "pgsql_schemaString value =
     [CHR 0x27] @ replace_char (CHR 0x27) [CHR 0x27, CHR 0x27] value @ [CHR 0x27]"

definition pgsql_compileColumn :: "(goany \<Rightarrow> string) \<Rightarrow> column_spec \<Rightarrow> bool \<Rightarrow> string result" where
  "pgsql_compileColumn sprint column allowPrimary =
     bind_res (pgsql_DataType column) (\<lambda>dataType.
       Inr (join '' '' ([pgsql_QuoteIdent (col_ColumnName column), dataType]
         @ (if allowPrimary \<and> col_Primary column then
              [if pgsql_isIntegerType (col_Type column)
               then ''primary key generated by default as identity'' else ''primary key''] else [])
         @ (if \<not> col_Nullable column \<and> \<not> col_Primary column then [''not null''] else [])
         @ (case col_Default column of None \<Rightarrow> []
            | Some d \<Rightarrow> [''default '' @ pgsql_compileDefault sprint d]))))"

definition pgsql_compileColumnComment :: "string \<Rightarrow> column_spec \<Rightarrow> compiled_sql list" where
  "pgsql_compileColumnComment table column =
     (if col_Comment column = [] then []
      else [\<lparr>c_SQL = ''comment on column '' @ pgsql_QuoteIdent (table @ ''.'' @ col_ColumnName column)
               @ '' is '' @ pgsql_schemaString (col_Comment column), c_Args = []\<rparr>])"

fun pgsql_compileColumns :: "(goany \<Rightarrow> string) \<Rightarrow> column_spec list \<Rightarrow> string list result" where
  "pgsql_compileColumns sprint [] = Inr []"
| "pgsql_compileColumns sprint (column # columns) =
     bind_res (pgsql_compileColumn sprint column True) (\<lambda>sql.
     bind_res (pgsql_compileColumns sprint columns) (\<lambda>sqls. Inr (sql # sqls)))"

definition pgsql_compileCreateTable :: "(goany \<Rightarrow> string) \<Rightarrow> table_spec \<Rightarrow> compiled_sql list result" where
  "pgsql_compileCreateTable sprint table =
     (if tbl_Name table = [] \<or> tbl_Columns table = []
      then Inl (mk_error ''pgsql.schema'' ErrInvalidArgument)
      else bind_res (pgsql_compileColumns sprint (tbl_Columns table)) (\<lambda>columns.
        Inr (\<lparr>c_SQL = ''create table if not exists '' @ pgsql_QuoteIdent (tbl_Name table) @ '' (''
                @ join '', '' columns @ '')'', c_Args = []\<rparr>
             # concat (map (pgsql_compileColumnComment (tbl_Name table)) (tbl_Columns table)))))"

definition pgsql_compileCreateIndex :: "string \<Rightarrow> index_spec \<Rightarrow> compiled_sql list result" where
  "pgsql_compileCreateIndex table index =
     (if idx_FullText index then
        (let parts = map (\<lambda>field. ''coalesce('' @ pgsql_QuoteIdent field @ '', '' @ [CHR 0x27, CHR 0x27] @ '')'')
                       (idx_Fields index);
             expr = ''to_tsvector('' @ [CHR 0x27] @ ''simple'' @ [CHR 0x27] @ '', ''
                    @ join ('' || '' @ [CHR 0x27, CHR '' '', CHR 0x27] @ '' || '') parts @ '')''
         in Inr [\<lparr>c_SQL = ''create index if not exists '' @ pgsql_QuoteIdent (idx_Name index) @ '' on ''
                   @ pgsql_QuoteIdent table @ '' using gin ('' @ expr @ '')'', c_Args = []\<rparr>])
      else Inr [\<lparr>c_SQL = ''create '' @ (if idx_Unique index then ''unique '' else '''')
                  @ ''index if not exists '' @ pgsql_QuoteIdent (idx_Name index) @ '' on ''
                  @ pgsql_QuoteIdent table @ '' ('' @ join '', '' (map pgsql_QuoteIdent (idx_Fields index)) @ '')'',
                c_Args = []\<rparr>])"

definition pgsql_CompileSchema :: "(goany \<Rightarrow> string) \<Rightarrow> schema_change \<Rightarrow> compiled_sql list result" where
  "pgsql_CompileSchema sprint change =
     (case chg_Kind change of
        SchemaCreateTable \<Rightarrow> pgsql_compileCreateTable sprint (chg_Table change)
      | SchemaAddColumn \<Rightarrow>
          bind_res (pgsql_compileColumn sprint (chg_Column change) False) (\<lambda>sql.
            Inr (\<lparr>c_SQL = ''alter table '' @ pgsql_QuoteIdent (tbl_Name (chg_Table change))
                    @ '' add column '' @ sql, c_Args = []\<rparr>
                 # pgsql_compileColumnComment (tbl_Name (chg_Table change)) (chg_Column change)))
      | SchemaCreateIndex \<Rightarrow> pgsql_compileCreateIndex (tbl_Name (chg_Table change)) (chg_Index change)
      | SchemaRenameColumn \<Rightarrow>
          (if col_ColumnName (chg_Current change) = [] \<or> col_ColumnName (chg_Column change) = []
           then Inl (mk_error ''pgsql.schema'' ErrInvalidArgument)
           else Inr [\<lparr>c_SQL = ''alter table '' @ pgsql_QuoteIdent (tbl_Name (chg_Table change))
                       @ '' rename column '' @ pgsql_QuoteIdent (col_ColumnName (chg_Current change))
                       @ '' to '' @ pgsql_QuoteIdent (col_ColumnName (chg_Column change)), c_Args = []\<rparr>])
      | SchemaUnsafeChange \<Rightarrow> Inl (mk_error ''pgsql.schema'' ErrUnsafeSchemaChange)
      | SchemaChangeKindOther _ \<Rightarrow> Inl (mk_error ''pgsql.schema'' ErrUnsupported))"

end
