(* ===== verification/Pg_Scanner.thy ===== *)
theory Pg_Scanner
  imports Pgsql_Dialect Raw_Fragments
begin

text \<open>
  How PostgreSQL reads numbered placeholders: a scanner over plain text, quoted identifiers and
  string literals that lists the numbers of the placeholders in plain text, and the conditions
  under which renumbering a text shifts exactly those numbers. A text is \<^emph>\<open>regular\<close> when it has
  no question mark, no dollar sign inside quotes, a digit after every dollar sign, and ends
  outside quotes; \<open>rebasePlaceholders\<close> looks at neither quotes nor the difference between the
  two styles of placeholder, so these are the texts it is right on.
\<close>

datatype pg_mode = PgPlain | PgDollar | PgNumber nat | PgIdent | PgString

fun pg_plain_next :: "char \<Rightarrow> pg_mode" where
  "pg_plain_next c =
     (if c = CHR 0x22 then PgIdent else if c = CHR 0x27 then PgString
      else if c = CHR ''$'' then PgDollar else PgPlain)"

fun pg_next :: "pg_mode \<Rightarrow> char \<Rightarrow> pg_mode" where
  "pg_next PgPlain c = pg_plain_next c"
| "pg_next PgDollar c = (if is_digit_char c then PgNumber (digit_val c) else pg_plain_next c)"
| "pg_next (PgNumber n) c = (if is_digit_char c then PgNumber (10 * n + digit_val c) else pg_plain_next c)"
| "pg_next PgIdent c = (if c = CHR 0x22 then PgPlain else PgIdent)"
| "pg_next PgString c = (if c = CHR 0x27 then PgPlain else PgString)"

fun pg_emit :: "pg_mode \<Rightarrow> nat list" where
  "pg_emit (PgNumber n) = [n]"
| "pg_emit m = []"

fun pg_numbers :: "pg_mode \<Rightarrow> string \<Rightarrow> nat list" where
  "pg_numbers m [] = pg_emit m"
| "pg_numbers m (c # cs) = (if is_digit_char c then [] else pg_emit m) @ pg_numbers (pg_next m c) cs"

fun pg_regular :: "pg_mode \<Rightarrow> string \<Rightarrow> bool" where
  "pg_regular m [] \<longleftrightarrow> m \<notin> {PgDollar, PgIdent, PgString}"
| "pg_regular m (c # cs) \<longleftrightarrow>
     c \<noteq> CHR ''?'' \<and> (m \<in> {PgIdent, PgString} \<longrightarrow> c \<noteq> CHR ''$'') \<and>
     (m = PgDollar \<longrightarrow> is_digit_char c) \<and> pg_regular (pg_next m c) cs"

definition no_digit :: "string \<Rightarrow> bool" where
  "no_digit s \<longleftrightarrow> (case s of [] \<Rightarrow> True | c # _ \<Rightarrow> \<not> is_digit_char c)"

text \<open>A regular text with the given placeholder numbers.\<close>

definition pg_text :: "string \<Rightarrow> nat list \<Rightarrow> bool" where
  "pg_text s ns \<longleftrightarrow> pg_regular PgPlain s \<and> pg_numbers PgPlain s = ns"

lemma no_digit_simps [simp]:
  "no_digit []" "no_digit (c # cs) \<longleftrightarrow> \<not> is_digit_char c"
  "no_digit (s @ t) \<longleftrightarrow> (if s = [] then no_digit t else no_digit s)"
  by (auto simp: no_digit_def split: list.splits)

lemma digit_char_iff: "is_digit_char c \<Longrightarrow> c \<notin> {CHR 0x22, CHR 0x27, CHR ''$'', CHR ''?''}"
  by (auto simp: is_digit_char_def)

lemma not_digit_simps [simp]:
  "\<not> is_digit_char (CHR ''$'')" "\<not> is_digit_char (CHR 0x27)" "\<not> is_digit_char (CHR 0x22)"
  "\<not> is_digit_char (CHR ''?'')" "\<not> is_digit_char (CHR '' '')" "\<not> is_digit_char (CHR '','')"
  "\<not> is_digit_char (CHR '')'')" "\<not> is_digit_char (CHR '':'')" "\<not> is_digit_char (CHR ''('')"
  "\<not> is_digit_char (CHR ''.'')"
  by (simp_all add: is_digit_char_def)

section \<open>Text in a row\<close>

lemma pg_append:
  assumes "pg_regular m s" and "no_digit t"
  shows "pg_numbers m (s @ t) = pg_numbers m s @ pg_numbers PgPlain t"
    and "pg_regular m (s @ t) \<longleftrightarrow> pg_regular PgPlain t"
proof -
  have "pg_numbers m (s @ t) = pg_numbers m s @ pg_numbers PgPlain t \<and>
      (pg_regular m (s @ t) \<longleftrightarrow> pg_regular PgPlain t)"
    using assms
  proof (induction s arbitrary: m)
    case Nil
    then show ?case by (cases m; cases t) auto
  next
    case (Cons c s)
    then show ?case by auto
  qed
  then show "pg_numbers m (s @ t) = pg_numbers m s @ pg_numbers PgPlain t"
    and "pg_regular m (s @ t) \<longleftrightarrow> pg_regular PgPlain t" by auto
qed

lemma pg_text_append: "pg_text s ms \<Longrightarrow> pg_text t ns \<Longrightarrow> no_digit t \<Longrightarrow> pg_text (s @ t) (ms @ ns)"
  by (simp add: pg_text_def pg_append)

text \<open>Text the scanner passes over in plain mode: no quote, question mark or dollar sign.\<close>

definition pg_clean :: "string \<Rightarrow> bool" where
  "pg_clean s \<longleftrightarrow> (\<forall>c \<in> set s. c \<notin> {CHR 0x22, CHR 0x27, CHR ''?'', CHR ''$''})"

lemma pg_clean_simps [simp]:
  "pg_clean []"
  "pg_clean (c # cs) \<longleftrightarrow> c \<notin> {CHR 0x22, CHR 0x27, CHR ''?'', CHR ''$''} \<and> pg_clean cs"
  "pg_clean (s @ t) \<longleftrightarrow> pg_clean s \<and> pg_clean t"
  by (auto simp: pg_clean_def)

lemma pg_text_clean_left: "pg_clean s \<Longrightarrow> pg_text (s @ t) ns \<longleftrightarrow> pg_text t ns"
  by (induction s) (auto simp: pg_text_def)

lemma pg_text_char_left:
  "c \<notin> {CHR 0x22, CHR 0x27, CHR ''?'', CHR ''$''} \<Longrightarrow> pg_text (c # t) ns \<longleftrightarrow> pg_text t ns"
  using pg_text_clean_left [of "[c]"] by simp

lemma pg_text_Nil [simp]: "pg_text [] ns \<longleftrightarrow> ns = []"
  by (auto simp: pg_text_def)

lemma pg_text_clean: "pg_clean s \<Longrightarrow> pg_text s ns \<longleftrightarrow> ns = []"
  using pg_text_clean_left [of s "[]"] by simp

lemma pg_text_clean_right:
  "pg_text s ns \<Longrightarrow> pg_clean t \<Longrightarrow> no_digit t \<Longrightarrow> pg_text (s @ t) ns"
  using pg_text_append [of s ns t "[]"] by (simp add: pg_text_clean)

section \<open>Quoted identifiers and literals\<close>

definition pg_name :: "string \<Rightarrow> bool" where
  "pg_name s \<longleftrightarrow> CHR ''?'' \<notin> set s \<and> CHR ''$'' \<notin> set s"

lemma pg_in_ident:
  assumes "pg_name s"
  shows "pg_numbers PgIdent (replace_char (CHR 0x22) [CHR 0x22, CHR 0x22] s @ CHR 0x22 # t) = pg_numbers PgPlain t"
    and "pg_regular PgIdent (replace_char (CHR 0x22) [CHR 0x22, CHR 0x22] s @ CHR 0x22 # t) = pg_regular PgPlain t"
  using assms by (induction s) (auto simp: pg_name_def)

lemma pg_text_quote_part:
  "pg_name s \<Longrightarrow> pg_text (quote_part (CHR 0x22) s @ t) ns \<longleftrightarrow> pg_text t ns"
  by (simp add: pg_text_def quote_part_def pg_in_ident)

lemma pg_text_quote_parts:
  assumes "\<forall>p \<in> set ps. pg_name p"
  shows "pg_text (join ''.'' (map (quote_part (CHR 0x22)) ps) @ t) ns \<longleftrightarrow> pg_text t ns"
  using assms
proof (induction ps)
  case Nil
  then show ?case by simp
next
  case (Cons p ps)
  then show ?case
    using pg_text_clean_left [of "''.''"] by (auto simp: join_Cons pg_text_quote_part)
qed

lemma pgsql_QuoteIdent_eq: "pgsql_QuoteIdent name = quote_ident (CHR 0x22) name"
  by (simp add: pgsql_QuoteIdent_def quote_ident_def quote_part_def [abs_def])

lemma pg_text_ident:
  assumes "pg_name name"
  shows "pg_text (pgsql_QuoteIdent name @ t) ns \<longleftrightarrow> pg_text t ns"
  unfolding pgsql_QuoteIdent_eq quote_ident_def
  by (rule pg_text_quote_parts) (use assms split_on_subset in \<open>fastforce simp: pg_name_def\<close>)

lemma pg_text_ident_Nil: "pg_name name \<Longrightarrow> pg_text (pgsql_QuoteIdent name) ns \<longleftrightarrow> ns = []"
  using pg_text_ident [of name "[]" ns] by simp

lemma pg_text_string:
  "CHR 0x27 \<notin> set s \<Longrightarrow> pg_name s \<Longrightarrow> pg_text (CHR 0x27 # s @ CHR 0x27 # t) ns \<longleftrightarrow> pg_text t ns"
proof -
  assume s: "CHR 0x27 \<notin> set s" "pg_name s"
  have "pg_numbers PgString (s @ CHR 0x27 # t) = pg_numbers PgPlain t \<and>
      pg_regular PgString (s @ CHR 0x27 # t) = pg_regular PgPlain t"
    using s by (induction s) (auto simp: pg_name_def)
  then show ?thesis by (simp add: pg_text_def)
qed

section \<open>Placeholders\<close>

lemma pg_number_digits:
  assumes "\<forall>c \<in> set ds. is_digit_char c" and "no_digit t"
  shows "pg_numbers (PgNumber n) (ds @ t) = foldl (\<lambda>n c. 10 * n + digit_val c) n ds # pg_numbers PgPlain t"
    and "pg_regular (PgNumber n) (ds @ t) \<longleftrightarrow> pg_regular PgPlain t"
proof -
  have "pg_numbers (PgNumber n) (ds @ t) = foldl (\<lambda>n c. 10 * n + digit_val c) n ds # pg_numbers PgPlain t \<and>
     (pg_regular (PgNumber n) (ds @ t) \<longleftrightarrow> pg_regular PgPlain t)"
    using assms
  proof (induction ds arbitrary: n)
    case Nil
    then show ?case by (cases t) auto
  next
    case (Cons d ds)
    then show ?case using digit_char_iff [of d] by auto
  qed
  then show "pg_numbers (PgNumber n) (ds @ t) = foldl (\<lambda>n c. 10 * n + digit_val c) n ds # pg_numbers PgPlain t"
    and "pg_regular (PgNumber n) (ds @ t) \<longleftrightarrow> pg_regular PgPlain t" by auto
qed

lemma pg_dollar_digits:
  assumes "\<forall>c \<in> set ds. is_digit_char c" and "ds \<noteq> []" and "no_digit t"
  shows "pg_numbers PgPlain (CHR ''$'' # ds @ t) = digits_value ds # pg_numbers PgPlain t"
    and "pg_regular PgPlain (CHR ''$'' # ds @ t) \<longleftrightarrow> pg_regular PgPlain t"
proof -
  obtain d ds' where ds: "ds = d # ds'" using assms(2) by (cases ds) auto
  with assms show "pg_numbers PgPlain (CHR ''$'' # ds @ t) = digits_value ds # pg_numbers PgPlain t"
    and "pg_regular PgPlain (CHR ''$'' # ds @ t) \<longleftrightarrow> pg_regular PgPlain t"
    using digit_char_iff [of d] by (simp_all add: pg_number_digits digits_value_def)
qed

lemma digit_val_digit_char [simp]:
  assumes "d < 10"
  shows "digit_val (digit_char d) = d"
proof -
  have "of_char (digit_char d) = (48 + d) mod (256 :: nat)" by (simp add: digit_char_def)
  with assms show ?thesis by (simp add: digit_val_def)
qed

lemma digits_value_itoa_nat [simp]: "digits_value (itoa_nat n) = n"
proof (induction n rule: itoa_nat.induct)
  case (1 n)
  then show ?case
    by (subst itoa_nat.simps) (auto simp: digits_value_def)
qed

lemma pg_text_placeholder:
  "no_digit t \<Longrightarrow> pg_text (pgsql_Placeholder n @ t) ns \<longleftrightarrow> (\<exists>ms. ns = n # ms \<and> pg_text t ms)"
  using pg_dollar_digits [of "itoa_nat n" t] digits_itoa_nat [of n]
  by (auto simp: pg_text_def pgsql_Placeholder_def)

lemma pg_text_placeholder_Nil: "pg_text (pgsql_Placeholder n) ns \<longleftrightarrow> ns = [n]"
  using pg_text_placeholder [of "[]" n ns] by auto

lemma no_digit_placeholder [simp]: "no_digit (pgsql_Placeholder n)"
  by (simp add: pgsql_Placeholder_def)

lemma no_digit_ident [simp]: "no_digit (pgsql_QuoteIdent n)"
  by (cases "split_on (CHR ''.'') n") (auto simp: pgsql_QuoteIdent_def join_Cons)

section \<open>Renumbering\<close>

lemma renumberMatch_eq:
  assumes "digits_value ds + offset < 2 ^ 63"
  shows "renumberMatch offset ds = CHR ''$'' # itoa_nat (digits_value ds + offset)"
proof -
  have "int (digits_value ds) + int offset < 2 ^ 63"
    using assms by (metis of_nat_add of_nat_less_numeral_power_cancel_iff)
  with assms show ?thesis
    by (simp add: renumberMatch_def wrap64_id itoa_def nat_add_distrib)
qed

lemma no_digit_dropWhile: "no_digit (dropWhile is_digit_char cs)"
  by (induction cs) auto

lemma no_digit_renumber: "no_digit cs \<Longrightarrow> no_digit (renumberDollars offset cs)"
  by (cases cs) (auto simp: renumberMatch_def Let_def)

lemma renumberDollars_shift:
  assumes "m \<in> {PgPlain, PgIdent, PgString}" and "pg_regular m s"
    and "\<forall>n \<in> set (pg_numbers m s). n + offset < 2 ^ 63"
  shows "pg_regular m (renumberDollars offset s) \<and>
    pg_numbers m (renumberDollars offset s) = map (\<lambda>n. n + offset) (pg_numbers m s)"
  using assms
proof (induction offset s arbitrary: m rule: renumberDollars.induct)
  case (1 offset)
  then show ?case by auto
next
  case (2 offset c cs)
  show ?case
  proof (cases "c = CHR ''$'' \<and> cs \<noteq> [] \<and> is_digit_char (hd cs)")
    case True
    let ?ds = "takeWhile is_digit_char cs" and ?r = "dropWhile is_digit_char cs"
    have m: "m = PgPlain" using 2(3,4) True by auto
    have ds: "\<forall>c \<in> set ?ds. is_digit_char c" "?ds \<noteq> []"
      using True set_takeWhileD by (fastforce, cases cs, auto)
    have s: "c # cs = CHR ''$'' # ?ds @ ?r" using True by simp
    note scan = pg_dollar_digits [OF ds no_digit_dropWhile [of cs], folded s]
    have r: "pg_regular PgPlain ?r" "\<forall>n \<in> set (pg_numbers PgPlain ?r). n + offset < 2 ^ 63"
      "digits_value ?ds + offset < 2 ^ 63"
      using 2(4,5) unfolding m scan by simp_all
    have IH: "pg_regular PgPlain (renumberDollars offset ?r) \<and>
        pg_numbers PgPlain (renumberDollars offset ?r) = map (\<lambda>n. n + offset) (pg_numbers PgPlain ?r)"
      using 2(1) [OF True _ r(1,2)] by simp
    show ?thesis
      using True m IH scan pg_dollar_digits [OF digits_itoa_nat itoa_nat_not_Nil
          no_digit_renumber [OF no_digit_dropWhile]]
      by (simp add: renumberMatch_eq [OF r(3)])
  next
    case False
    let ?m = "pg_next m c"
    have m: "?m \<in> {PgPlain, PgIdent, PgString}"
    proof (cases "c = CHR ''$''")
      case True
      with False 2(3,4) show ?thesis by (cases cs) auto
    next
      case False
      with 2(3) show ?thesis by (auto split: if_splits)
    qed
    have "pg_regular ?m cs" "\<forall>n \<in> set (pg_numbers ?m cs). n + offset < 2 ^ 63"
      using 2(4,5) by auto
    from 2(2) [OF False m this] show ?thesis using False 2(3,4) by auto
  qed
qed

text \<open>
  Raw SQL in the question-mark style: no dollar sign, question marks in plain text only and not
  before a digit, no single quote inside a quoted identifier.
\<close>

fun question_style :: "pg_mode \<Rightarrow> string \<Rightarrow> bool" where
  "question_style m [] \<longleftrightarrow> m = PgPlain"
| "question_style m (c # cs) \<longleftrightarrow>
     c \<noteq> CHR ''$'' \<and> (c = CHR ''?'' \<longrightarrow> m = PgPlain \<and> no_digit cs) \<and>
     (m = PgIdent \<longrightarrow> c \<noteq> CHR 0x27) \<and> question_style (pg_next m c) cs"

lemma no_digit_questions: "no_digit cs \<Longrightarrow> no_digit (rebaseQuestions q n cs)"
  by (cases cs) auto

lemma rebaseQuestions_numbers:
  assumes "m \<in> {PgPlain, PgIdent, PgString}" and "question_style m s"
  shows "pg_regular m (rebaseQuestions (m = PgString) n s) \<and>
    pg_numbers m (rebaseQuestions (m = PgString) n s) = [n ..< n + count_list s (CHR ''?'')]"
  using assms
proof (induction s arbitrary: m n)
  case Nil
  then show ?case by auto
next
  case (Cons c s)
  show ?case
  proof (cases "c = CHR ''?''")
    case True
    with Cons.prems have m: "m = PgPlain" and s: "question_style PgPlain s" "no_digit s" by auto
    have "rebaseQuestions False n (c # s) = CHR ''$'' # itoa_nat n @ rebaseQuestions False (Suc n) s"
      using True by simp
    moreover have "pg_regular PgPlain (rebaseQuestions False (Suc n) s) \<and>
        pg_numbers PgPlain (rebaseQuestions False (Suc n) s) = [Suc n ..< Suc n + count_list s (CHR ''?'')]"
      using Cons.IH [of PgPlain "Suc n"] s(1) by simp
    ultimately show ?thesis
      using m True pg_dollar_digits [OF digits_itoa_nat itoa_nat_not_Nil no_digit_questions [OF s(2)]]
      by (simp add: upt_conv_Cons)
  next
    case False
    have next_mode: "pg_next m c \<in> {PgPlain, PgIdent, PgString}"
      using Cons.prems by (auto split: if_splits)
    have "rebaseQuestions (m = PgString) n (c # s) = c # rebaseQuestions (pg_next m c = PgString) n s"
      using Cons.prems False by (auto split: if_splits)
    with Cons.IH [OF next_mode] Cons.prems False show ?thesis by auto
  qed
qed

text \<open>
  Raw SQL that is right for \<open>n\<close> arguments: question-mark style with \<open>n\<close> question marks, or
  regular with the numbers 1 to \<open>n\<close> in order.
\<close>

definition pg_raw :: "string \<Rightarrow> nat \<Rightarrow> bool" where
  "pg_raw sql n \<longleftrightarrow>
     (if CHR ''?'' \<in> set sql then question_style PgPlain sql \<and> count_list sql (CHR ''?'') = n
      else pg_text sql [1 ..< Suc n])"

lemma pg_rebase_raw:
  assumes "pg_raw sql n" and "1 \<le> start" and "start + n \<le> 2 ^ 63"
  shows "pg_text (rebasePlaceholders sql (start - 1)) [start ..< start + n]"
proof (cases "CHR ''?'' \<in> set sql")
  case True
  with assms rebaseQuestions_numbers [of PgPlain sql start] show ?thesis
    by (simp add: pg_raw_def rebasePlaceholders_def pg_text_def)
next
  case False
  with assms(1) have sql: "pg_regular PgPlain sql" "pg_numbers PgPlain sql = [1 ..< Suc n]"
    by (simp_all add: pg_raw_def pg_text_def)
  have "\<forall>k \<in> set (pg_numbers PgPlain sql). k + (start - 1) < 2 ^ 63"
    using sql(2) assms(2,3) by auto
  from renumberDollars_shift [OF _ sql(1) this]
  have "pg_text (renumberDollars (start - 1) sql) (map (\<lambda>k. k + (start - 1)) [1 ..< Suc n])"
    by (simp add: pg_text_def sql(2))
  moreover have "map (\<lambda>k. k + (start - 1)) [1 ..< Suc n] = [start ..< start + n]"
    using assms(2) by (intro nth_equalityI) (auto simp del: upt_Suc)
  ultimately show ?thesis using False by (simp add: rebasePlaceholders_def)
qed

lemma pg_no_question: "pg_regular m s \<Longrightarrow> CHR ''?'' \<notin> set s"
  by (induction s arbitrary: m) auto

lemma pg_text_raw: "pg_text sql [1 ..< Suc n] \<Longrightarrow> pg_raw sql n"
  using pg_no_question [of PgPlain sql] by (auto simp: pg_raw_def pg_text_def)

end
