(* ===== verification/Pg_Fragments.thy ===== *)
theory Pg_Fragments
  imports Pg_Scanner
begin

text \<open>
  Fragments with numbered placeholders, and what a caller has to respect for the numbering
  theorem of the PostgreSQL dialect: names without question marks and dollar signs (the
  renumbering of a sub-query does not skip quoted identifiers), raw SQL that is right for its
  arguments, and no arguments in the two places where the dialect passes raw SQL on without
  renumbering it, raw orders and raw assignments.
\<close>

section \<open>Numbered fragments\<close>

text \<open>
  A fragment that starts at number \<open>a\<close>: its placeholders are numbered consecutively from \<open>a\<close>,
  one for each argument, and the index it hands on is the next number. The texts are only
  claimed for indices in the range of a Go \<open>int\<close>.
\<close>

fun pg_ok :: "nat \<Rightarrow> pg_fragment \<Rightarrow> bool" where
  "pg_ok a (sql, args, b) \<longleftrightarrow> b = a + length args \<and>
     (b \<le> 2 ^ 63 \<longrightarrow> pg_text sql [a ..< b])"

declare pg_ok.simps [simp del]

lemma pg_ok_Nil [pg_scan_simps]: "pg_ok a ([], [], b) \<longleftrightarrow> b = a"
  by (auto simp: pg_ok.simps)

lemma pg_ok_char [pg_scan_simps]:
  "c \<notin> {CHR 0x22, CHR 0x27, CHR ''?'', CHR ''$''} \<Longrightarrow> pg_ok a (c # t, y, b) \<longleftrightarrow> pg_ok a (t, y, b)"
  by (simp add: pg_ok.simps pg_text_char_left)

lemma pg_ok_clean_left [pg_scan_simps]:
  "pg_clean s \<Longrightarrow> pg_ok a (s @ t, y, b) \<longleftrightarrow> pg_ok a (t, y, b)"
  by (simp add: pg_ok.simps pg_text_clean_left)

lemma pg_ok_clean [pg_scan_simps]: "pg_clean s \<Longrightarrow> pg_ok a (s, [], b) \<longleftrightarrow> b = a"
  by (auto simp: pg_ok.simps pg_text_clean)

lemma pg_ok_ident [pg_scan_simps]:
  "pg_name n \<Longrightarrow> pg_ok a (pgsql_QuoteIdent n @ t, y, b) \<longleftrightarrow> pg_ok a (t, y, b)"
  by (simp add: pg_ok.simps pg_text_ident)

lemma pg_ok_ident_Nil [pg_scan_simps]:
  "pg_name n \<Longrightarrow> pg_ok a (pgsql_QuoteIdent n, [], b) \<longleftrightarrow> b = a"
  by (auto simp: pg_ok.simps pg_text_ident_Nil)

lemma pg_ok_string [pg_scan_simps]:
  "pg_ok a (CHR 0x27 # CHR 0x27 # t, y, b) \<longleftrightarrow> pg_ok a (t, y, b)"
  "c \<notin> {CHR 0x27, CHR ''?'', CHR ''$''} \<Longrightarrow>
     pg_ok a (CHR 0x27 # c # CHR 0x27 # t, y, b) \<longleftrightarrow> pg_ok a (t, y, b)"
  using pg_text_string [of "[]" t] pg_text_string [of "[c]" t]
  by (auto simp: pg_ok.simps pg_name_def)

lemma pg_ok_placeholder [pg_scan_simps]:
  "no_digit t \<Longrightarrow> pg_ok a (pgsql_Placeholder a @ t, v # y, b) \<longleftrightarrow> pg_ok (Suc a) (t, y, b)"
  by (auto simp: pg_ok.simps pg_text_placeholder upt_conv_Cons simp del: upt_Suc)

lemma pg_ok_placeholder_Nil [pg_scan_simps]:
  "pg_ok a (pgsql_Placeholder a, [v], b) \<longleftrightarrow> b = Suc a"
  by (auto simp: pg_ok.simps pg_text_placeholder_Nil)

lemma pg_ok_append:
  assumes "pg_ok a (s, x, b)" and "no_digit t"
  shows "pg_ok a (s @ t, x @ y, c) \<longleftrightarrow> pg_ok b (t, y, c)"
proof -
  have b: "b = a + length x" and s: "b \<le> 2 ^ 63 \<Longrightarrow> pg_text s [a ..< b]"
    using assms(1) by (auto simp: pg_ok.simps)
  have "pg_text (s @ t) [a ..< c] \<longleftrightarrow> pg_text t [b ..< c]"
    if "c = a + length (x @ y)" "c \<le> 2 ^ 63"
  proof -
    have "[a ..< c] = [a ..< b] @ [b ..< c]"
      using that(1) b upt_add_eq_append [of a b "length y"] by (simp add: add.assoc)
    with s that b assms(2) show ?thesis by (auto simp: pg_text_def pg_append)
  qed
  with b show ?thesis by (auto simp: pg_ok.simps add.assoc)
qed

lemma pg_ok_append_text:
  "pg_ok a (s, x, b) \<Longrightarrow> no_digit t \<Longrightarrow> pg_ok a (s @ t, x, c) \<longleftrightarrow> pg_ok b (t, [], c)"
  using pg_ok_append [of a s x b t "[]" c] by simp

lemma pg_ok_rebase:
  assumes "pg_raw sql (length args)" and "1 \<le> a"
  shows "pg_ok a (rebasePlaceholders sql (a - 1), args, a + length args)"
  using pg_rebase_raw [OF assms] by (simp add: pg_ok.simps)

lemma pg_ok_rebase_ok:
  assumes "pg_ok 1 (sql, args, Suc (length args))" and "1 \<le> a"
  shows "pg_ok a (rebasePlaceholders sql (a - 1), args, a + length args)"
proof -
  have "pg_raw sql (length args)" if "a + length args \<le> 2 ^ 63"
    using assms that by (intro pg_text_raw) (simp add: pg_ok.simps)
  with pg_rebase_raw [OF _ assms(2)] show ?thesis by (auto simp: pg_ok.simps)
qed

lemma pg_ok_text: "pg_text sql [] \<Longrightarrow> pg_ok a (sql, [], a)"
  by (simp add: pg_ok.simps)

section \<open>Lists of parts\<close>

definition pg_texts :: "string list \<Rightarrow> nat list \<Rightarrow> bool" where
  "pg_texts ps ns \<longleftrightarrow> (\<exists>nss. list_all2 pg_text ps nss \<and> concat nss = ns)"

fun pg_parts :: "nat \<Rightarrow> string list \<times> goany list \<times> nat \<Rightarrow> bool" where
  "pg_parts a (parts, args, b) \<longleftrightarrow> b = a + length args \<and> (b \<le> 2 ^ 63 \<longrightarrow> pg_texts parts [a ..< b])"

declare pg_parts.simps [simp del]

lemma pg_texts_Nil [simp]: "pg_texts [] ns \<longleftrightarrow> ns = []"
  by (auto simp: pg_texts_def)

lemma pg_texts_Cons: "pg_text p ms \<Longrightarrow> pg_texts ps ns \<Longrightarrow> pg_texts (p # ps) (ms @ ns)"
  unfolding pg_texts_def by (metis concat.simps(2) list_all2_Cons)

lemma no_digit_join:
  assumes "no_digit sep" and "sep = [] \<longrightarrow> (\<forall>p \<in> set ps. no_digit p)"
  shows "no_digit (sep @ join sep ps)"
  using assms(2) by (cases "sep = []", induction ps) (auto simp: join_Cons assms(1))

lemma pg_texts_join:
  assumes "pg_texts ps ns" and "pg_clean sep" and "no_digit sep"
    and "sep = [] \<longrightarrow> (\<forall>p \<in> set (tl ps). no_digit p)"
  shows "pg_text (join sep ps) ns"
proof -
  from assms(1) obtain nss where "list_all2 pg_text ps nss" and ns: "concat nss = ns"
    by (auto simp: pg_texts_def)
  from this(1) assms(4) have "pg_text (join sep ps) (concat nss)"
  proof (induction ps nss rule: list_all2_induct)
    case Nil
    then show ?case by simp
  next
    case (Cons p ps m ms)
    have "sep = [] \<longrightarrow> (\<forall>p \<in> set (tl ps). no_digit p)"
      using Cons.prems by (cases ps) auto
    then have "no_digit (sep @ join sep ps)" "pg_text (join sep ps) (concat ms)"
      using no_digit_join [OF assms(3), of ps] Cons by auto
    then have "pg_text (p @ sep @ join sep ps) (m @ concat ms)"
      using Cons.hyps(1) assms(2) by (intro pg_text_append) (simp_all add: pg_text_clean_left)
    with Cons.hyps show ?case by (auto simp: join_Cons)
  qed
  with ns show ?thesis by simp
qed

lemma pg_parts_Nil [simp]: "pg_parts a ([], [], b) \<longleftrightarrow> b = a"
  by (auto simp: pg_parts.simps)

lemma pg_parts_Cons:
  assumes "pg_ok a (p, x, b)" and "pg_parts b (ps, y, c)"
  shows "pg_parts a (p # ps, x @ y, c)"
proof -
  have b: "b = a + length x" and c: "c = b + length y"
    using assms by (auto simp: pg_ok.simps pg_parts.simps)
  have "pg_texts (p # ps) ([a ..< b] @ [b ..< c])" if "c \<le> 2 ^ 63"
    using assms that b c by (intro pg_texts_Cons) (auto simp: pg_ok.simps pg_parts.simps)
  with b c upt_add_eq_append [of a b "length y"] show ?thesis by (simp add: pg_parts.simps)
qed

lemma pg_parts_join:
  assumes "pg_parts a (ps, x, b)" and "pg_clean sep" and "sep \<noteq> []" and "no_digit sep"
  shows "pg_ok a (join sep ps, x, b)"
  using assms pg_texts_join [of ps "[a ..< b]" sep] by (auto simp: pg_ok.simps pg_parts.simps)

text \<open>
  The parts of a where clause are joined with nothing between them; all but the first start
  with a connective.
\<close>

fun pg_conds :: "bool \<Rightarrow> nat \<Rightarrow> string list \<times> goany list \<Rightarrow> bool" where
  "pg_conds first a (parts, args) \<longleftrightarrow> pg_parts a (parts, args, a + length args) \<and>
     (\<forall>p \<in> set (if first then tl parts else parts). no_digit p)"

declare pg_conds.simps [simp del]

fun pg_frag :: "nat \<Rightarrow> fragment \<Rightarrow> bool" where
  "pg_frag a (sql, args) \<longleftrightarrow> pg_ok a (sql, args, a + length args)"

lemma pg_conds_Nil [simp]: "pg_conds first a ([], [])"
  by (simp add: pg_conds.simps)

lemma pg_conds_first: "pg_conds False a pa \<Longrightarrow> pg_conds first a pa"
  by (cases pa; cases "fst pa") (auto simp: pg_conds.simps)

lemma pg_conds_Cons:
  assumes "pg_ok a (p, x, b)" and "pg_conds False b (ps, y)" and "\<not> first \<Longrightarrow> no_digit p"
  shows "pg_conds first a (p # ps, x @ y)"
proof -
  have "b = a + length x" using assms(1) by (simp add: pg_ok.simps)
  moreover have "pg_parts a (p # ps, x @ y, b + length y)"
    using assms(1,2) by (intro pg_parts_Cons) (auto simp: pg_conds.simps)
  ultimately show ?thesis using assms(2,3) by (auto simp: pg_conds.simps add.assoc)
qed

lemma pg_conds_join: "pg_conds True a (ps, x) \<Longrightarrow> pg_frag a (join [] ps, x)"
  using pg_texts_join [of ps "[a ..< a + length x]" "[]"]
  by (auto simp: pg_conds.simps pg_ok.simps pg_parts.simps)

text \<open>What one condition contributes, if anything.\<close>

fun pg_part :: "string \<Rightarrow> nat \<Rightarrow> pg_fragment option \<Rightarrow> bool" where
  "pg_part prefix a None = True"
| "pg_part prefix a (Some (sql, args, b)) \<longleftrightarrow>
     pg_ok a (sql, args, b) \<and> (prefix \<noteq> [] \<longrightarrow> no_digit sql)"

definition pg_compiled :: "compiled_sql \<Rightarrow> bool" where
  "pg_compiled c \<longleftrightarrow> pg_ok 1 (c_SQL c, c_Args c, Suc (length (c_Args c)))"

section \<open>Well-formed statements\<close>

definition pg_wf_order :: "order_item \<Rightarrow> bool" where
  "pg_wf_order item \<longleftrightarrow> ord_Args item = [] \<and>
     (if ord_Raw item then pg_text (ord_Expr item) [] else pg_name (ord_Expr item))"

fun pg_wf_join_condition :: "join_cond \<Rightarrow> bool" where
  "pg_wf_join_condition (JoinCondition bool left op right value column grp err) \<longleftrightarrow>
     pg_clean (to_lower bool) \<and> pg_clean op \<and> pg_name left \<and> pg_name right \<and>
     (\<forall>c \<in> set grp. pg_wf_join_condition c)"

definition pg_wf_set :: "goany \<Rightarrow> bool" where
  "pg_wf_set v \<longleftrightarrow> (case v of ARawExpr raw \<Rightarrow> raw_Args raw = [] \<and> pg_text (raw_SQL raw) [] | _ \<Rightarrow> True)"

function
  pg_wf_select :: "select_ast \<Rightarrow> bool" and
  pg_wf_item :: "sel_item \<Rightarrow> bool" and
  pg_wf_source :: "source_ast \<Rightarrow> bool" and
  pg_wf_join :: "join_item \<Rightarrow> bool" and
  pg_wf_condition :: "condition \<Rightarrow> bool"
where
  "pg_wf_select stmt \<longleftrightarrow>
     pg_name (stmt_Table stmt) \<and> pg_name (stmt_Alias stmt) \<and>
     pg_wf_source (stmt_From stmt) \<and>
     (\<forall>item \<in> set (stmt_Select stmt). pg_wf_item item) \<and>
     (\<forall>j \<in> set (stmt_Joins stmt). pg_wf_join j) \<and>
     (\<forall>c \<in> set (stmt_Where stmt). pg_wf_condition c) \<and>
     (\<forall>c \<in> set (stmt_Having stmt). pg_wf_condition c) \<and>
     (\<forall>f \<in> set (stmt_Group stmt). pg_name f) \<and>
     (\<forall>item \<in> set (stmt_Order stmt). pg_wf_order item)"
| "pg_wf_item item \<longleftrightarrow> pg_name (sel_Alias item) \<and>
     (case sel_Source item of
        Some source \<Rightarrow> pg_wf_source source
      | None \<Rightarrow>
          if sel_Expr item = ''__oro_relation_exists__'' then
            (case sel_Args item of [ASource source] \<Rightarrow> pg_wf_source source | _ \<Rightarrow> True)
          else if sel_Expr item = ''__oro_fulltext_score__'' then
            (case sel_Args item of AFullTextExpr fs query alias isScore # _ \<Rightarrow> (\<forall>f \<in> set fs. pg_name f) | _ \<Rightarrow> True)
          else if sel_Expr item = ''__oro_aggregate__'' then
            (case sel_Args item of AAggregateExpr func field alias # _ \<Rightarrow> pg_clean func \<and> pg_name field | _ \<Rightarrow> True)
          else if sel_Raw item then pg_raw (sel_Expr item) (length (sel_Args item))
          else pg_name (sel_Expr item))"
| "pg_wf_source source \<longleftrightarrow> pg_name (src_Table source) \<and> pg_name (src_Alias source) \<and>
     (case src_Query source of
        Some query \<Rightarrow> pg_wf_select query
      | None \<Rightarrow> (case src_Raw source of Some raw \<Rightarrow> pg_raw (raw_SQL raw) (length (raw_Args raw)) | None \<Rightarrow> True))"
| "pg_wf_join j \<longleftrightarrow>
     (case join_Raw j of
        Some raw \<Rightarrow> pg_raw (raw_SQL raw) (length (raw_Args raw))
      | None \<Rightarrow> pg_name (join_Table j) \<and> pg_name (join_Alias j) \<and> pg_wf_source (join_Source j) \<and>
          (\<forall>c \<in> set (join_Conditions j). pg_wf_join_condition c))"
| "pg_wf_condition c \<longleftrightarrow>
     (if to_lower (trim_space (cond_Op c)) = ''raw'' then pg_raw (cond_Field c) (length (raw_values c))
      else pg_name (cond_Field c)) \<and>
     (case cond_Value c of
        AColumnCondition op right \<Rightarrow> pg_name right
      | AJSONCondition field parts jop value \<Rightarrow> pg_name field
      | AFullTextExpr fs query alias isScore \<Rightarrow> (\<forall>f \<in> set fs. pg_name f)
      | ASourcePtr source \<Rightarrow> pg_wf_source source
      | ACountCondition (Some source) op value \<Rightarrow> pg_clean op \<and> pg_wf_source source
      | _ \<Rightarrow> True) \<and>
     (\<forall>c' \<in> set (cond_Conditions c). pg_wf_condition c')"
  by pat_completeness auto
termination
  by (relation "measure (case_sum
        (case_sum (\<lambda>st. size st) (\<lambda>i. sel_size i))
        (case_sum (\<lambda>s. size s) (case_sum (\<lambda>j. join_size j) (\<lambda>c. size c))))")
     (auto simp: ast_size dest: ast_size_dest)

declare pg_wf_select.simps [simp del] pg_wf_item.simps [simp del] pg_wf_source.simps [simp del]
  pg_wf_join.simps [simp del] pg_wf_condition.simps [simp del]

lemma pg_wf_selectD:
  assumes "pg_wf_select stmt"
  shows "pg_wf_source (stmt_From stmt)"
    and "\<forall>i \<in> set (stmt_Select stmt). pg_wf_item i"
    and "\<forall>j \<in> set (stmt_Joins stmt). pg_wf_join j"
    and "\<forall>c \<in> set (stmt_Where stmt). pg_wf_condition c"
    and "\<forall>c \<in> set (stmt_Having stmt). pg_wf_condition c"
    and "\<forall>i \<in> set (stmt_Order stmt). pg_wf_order i"
    and "\<forall>f \<in> set (stmt_Group stmt). pg_name f"
    and "pg_name (stmt_Table stmt)" and "pg_name (stmt_Alias stmt)"
  using assms by (subst (asm) pg_wf_select.simps, blast)+

definition pg_wf_statement :: "statement \<Rightarrow> bool" where
  "pg_wf_statement stmt \<longleftrightarrow>
     (case stmt of
        StmtSelect s \<Rightarrow> pg_wf_select s
      | StmtInsert s \<Rightarrow> pg_name (ins_Table s) \<and>
          (\<forall>row \<in> set (ins_Values s). \<forall>kv \<in> set row. pg_name (fst kv)) \<and>
          (\<forall>c \<in> set (conf_Columns (ins_Conflict s)). pg_name c) \<and>
          (\<forall>c \<in> set (conf_Update (ins_Conflict s)). pg_name c) \<and>
          (\<forall>kv \<in> set (conf_UpdateMap (ins_Conflict s)). pg_name (fst kv) \<and> pg_wf_set (snd kv))
      | StmtUpdate s \<Rightarrow> pg_name (upd_Table s) \<and>
          (\<forall>kv \<in> set (upd_Values s). pg_name (fst kv) \<and> pg_wf_set (snd kv)) \<and>
          (\<forall>c \<in> set (upd_Where s). pg_wf_condition c)
      | StmtDelete s \<Rightarrow> pg_name (del_Table s) \<and> (\<forall>c \<in> set (del_Where s). pg_wf_condition c)
      | StmtOther \<Rightarrow> True)"

lemma pg_wf_set_map_get:
  assumes "\<forall>kv \<in> set m. pg_wf_set (snd kv)"
  shows "pg_wf_set (map_get m k)"
  using assms map_of_SomeD [of m k] by (force simp: map_get_def pg_wf_set_def split: option.splits)

end
