(* ===== verification/Pgsql_Correct.thy ===== *)
theory Pgsql_Correct
  imports Pg_Fragments
begin

text \<open>
  The PostgreSQL dialect is correct with respect to the scanner of \<open>Pg_Scanner\<close>: the
  placeholders of a compiled statement, read from left to right, are numbered 1, 2, 3 and so on
  up to the number of arguments, however deeply sub-queries are nested. The lemmas follow the
  functions of the dialect; the recursive ones are proved together by the induction rule of
  their definition.
\<close>

lemma pg_clean_operator:
  assumes "IsSafeConditionOperator op"
  shows "pg_clean (NormalizeConditionOperator op)"
proof -
  have "\<forall>c \<in> operator_chars. c \<notin> {CHR 0x22, CHR 0x27, CHR ''?'', CHR ''$''}"
    by (simp add: operator_chars_def)
  with safe_operator_chars [OF assms] show ?thesis by (auto simp: pg_clean_def)
qed

lemma pg_clean_itoa [simp]: "pg_clean (itoa i)"
  using digits_itoa_nat digit_char_iff by (fastforce simp: itoa_def pg_clean_def)

lemma pg_ok_parts_text:
  assumes "\<forall>p \<in> set ps. pg_text p []" and "pg_clean sep" and "no_digit sep" and "sep \<noteq> []"
  shows "pg_text (join sep ps) []"
proof -
  have "pg_texts ps []" using assms(1) by (induction ps) (use pg_texts_Cons in force)+
  then show ?thesis using assms(2-) by (intro pg_texts_join) auto
qed

lemma pg_idents: "\<forall>n \<in> set ns. pg_name n \<Longrightarrow> pg_text (join '', '' (map pgsql_QuoteIdent ns)) []"
  by (rule pg_ok_parts_text) (auto simp: pg_text_ident_Nil)

section \<open>Clauses without sub-queries\<close>

lemma pg_prefix [simp]:
  "pg_clean (pgsql_cond_prefix first c)" "no_digit (pgsql_cond_prefix first c)"
  "pgsql_cond_prefix first c = [] \<longleftrightarrow> first"
  by (simp_all add: pgsql_cond_prefix_def)

lemma pg_aggregate:
  assumes "pg_wf_item item" "sel_Source item = None" "sel_Expr item = ''__oro_aggregate__''"
  shows "res_all (\<lambda>sql. pg_ok a (sql, [], a)) (pgsql_compileAggregateSelect item)"
  using assms
  by (auto simp: pgsql_compileAggregateSelect_def AggregateSelectSQL_def pg_wf_item.simps pg_scan_simps
      split: list.splits goany.splits)

lemma pg_joinConditions:
  "\<forall>c \<in> set cs. pg_wf_join_condition c \<Longrightarrow> pg_parts a (pgsql_joinConditionParts first cs a)"
  "\<forall>c \<in> set cs. pg_wf_join_condition c \<Longrightarrow> pg_ok a (pgsql_compileJoinConditions cs a)"
proof (induction first cs a and cs a rule: pgsql_joinConditionParts_pgsql_compileJoinConditions.induct)
  case (1 first a)
  then show ?case by simp
next
  case (2 first bool left op right v column grp err rest a)
  have wf: "\<forall>c \<in> set rest. pg_wf_join_condition c" "\<forall>c \<in> set grp. pg_wf_join_condition c"
    "pg_clean (to_lower bool)" "pg_clean op" "pg_name left" "pg_name right"
    using "2.prems" by simp_all
  show ?case
  proof (cases "grp = []")
    case False
    obtain gs ga gn where g: "pgsql_compileJoinConditions grp a = (gs, ga, gn)" by (metis prod_cases3)
    obtain ps pa pn where r: "pgsql_joinConditionParts False rest gn = (ps, pa, pn)" by (metis prod_cases3)
    have "pg_ok a (gs, ga, gn)" using "2.IH"(1) [OF refl False wf(2)] g by simp
    moreover have "pg_parts gn (ps, pa, pn)" using "2.IH"(2) [OF refl False refl g [symmetric] refl wf(1)] r by simp
    ultimately show ?thesis
      using False g r wf by (auto intro!: pg_parts_Cons simp: pg_scan_simps pg_ok_append_text)
  next
    case True
    obtain ps pa pn where r: "pgsql_joinConditionParts False rest a = (ps, pa, pn)" by (metis prod_cases3)
    obtain qs qa qn where q: "pgsql_joinConditionParts False rest (a + 1) = (qs, qa, qn)" by (metis prod_cases3)
    have "column \<Longrightarrow> pg_parts a (ps, pa, pn)" using "2.IH"(3) [OF refl _ _ wf(1)] True r by simp
    moreover have "\<not> column \<Longrightarrow> pg_parts (a + 1) (qs, qa, qn)"
      using "2.IH"(4) [OF refl _ _ wf(1)] True q by simp
    ultimately show ?thesis
      using True r q wf pg_parts_Cons [of a _ "[]" a ps pa pn] pg_parts_Cons [of a _ "[v]" "Suc a" qs qa qn]
      by (auto simp: pg_scan_simps)
  qed
next
  case (3 cs a)
  then show ?case
    using pg_parts_join [of a _ _ _ "'' ''"] by (auto split: prod.splits)
qed

lemma pg_column:
  assumes "pg_wf_condition c" and "to_lower (trim_space (cond_Op c)) = ''column''"
  shows "res_all (\<lambda>sql. pg_ok a (sql, [], a)) (pgsql_compileColumnCondition c)"
  using assms pg_clean_operator [OF IsSafeColumnOperator_condition]
  by (auto simp: pgsql_compileColumnCondition_def pg_wf_condition.simps [of c] pg_scan_simps
      split: goany.splits)

lemma pg_placeholders:
  "pg_parts a (map (\<lambda>i. pgsql_Placeholder (a + i)) [0 ..< length vs], vs, a + length vs)"
proof (induction vs arbitrary: a)
  case Nil
  then show ?case by simp
next
  case (Cons v vs)
  have "[0 ..< length (v # vs)] = 0 # map Suc [0 ..< length vs]"
    by (simp add: upt_conv_Cons map_Suc_upt del: upt_Suc)
  then show ?case
    using pg_parts_Cons [of a "pgsql_Placeholder a" "[v]" "Suc a"] Cons.IH [of "Suc a"]
    by (simp add: pg_scan_simps comp_def del: upt_Suc)
qed

lemma pg_in_values:
  assumes "pg_name (cond_Field c)"
  shows "res_all (pg_ok a) (pgsql_compileInValuesCondition c a negated)"
proof (cases "\<exists>vs. cond_Value c = AList vs")
  case True
  then obtain vs where vs: "cond_Value c = AList vs" by blast
  have "pg_ok a (join '', '' (map (\<lambda>i. pgsql_Placeholder (a + i)) [0 ..< length vs]), vs, a + length vs)"
    by (rule pg_parts_join [OF pg_placeholders]) simp_all
  then show ?thesis
    using assms by (auto simp: pgsql_compileInValuesCondition_def vs Let_def pg_scan_simps pg_ok_append_text)
next
  case False
  then show ?thesis by (auto simp: pgsql_compileInValuesCondition_def split: goany.splits)
qed

lemma pg_between:
  assumes "pg_name (cond_Field c)"
  shows "res_all (pg_ok a) (pgsql_compileBetweenCondition c a)"
  using assms
  by (auto simp: pgsql_compileBetweenCondition_def pg_scan_simps length_Suc_conv numeral_2_eq_2
      split: goany.splits)

lemma pg_vector: "\<forall>f \<in> set fs. pg_name f \<Longrightarrow> pg_ok a (pgsql_fullTextVector fs, [], a)"
proof -
  assume fs: "\<forall>f \<in> set fs. pg_name f"
  let ?part = "\<lambda>field. ''coalesce('' @ pgsql_QuoteIdent field @ ''::text, '' @ [CHR 0x27, CHR 0x27] @ '')''"
  let ?sep = "'' || '' @ [CHR 0x27, CHR '' '', CHR 0x27] @ '' || ''"
  have part: "pg_ok a (?part f @ t, x, b) \<longleftrightarrow> pg_ok a (t, x, b)" if "pg_name f" for f t x b
    using that by (simp add: pg_scan_simps)
  have "pg_ok a (join ?sep (map ?part fs) @ '')'', [], a)"
    using fs
  proof (induction fs)
    case Nil
    then show ?case by (simp add: pg_scan_simps)
  next
    case (Cons f fs)
    then show ?case using part [of f] by (cases fs) (simp_all add: join_Cons pg_scan_simps)
  qed
  then show ?thesis by (simp add: pgsql_fullTextVector_def pg_scan_simps)
qed

lemma pg_fulltext:
  assumes "pg_wf_condition c"
  shows "res_all (pg_ok a) (pgsql_compileFullTextCondition c a)"
  using assms
  by (auto simp: pgsql_compileFullTextCondition_def pg_wf_condition.simps [of c]
      pg_ok_append [OF pg_vector, of _ _ _ "[_]", simplified] pg_scan_simps split: goany.splits)

lemma pg_score:
  assumes "pg_wf_item item" "sel_Source item = None" "sel_Expr item = ''__oro_fulltext_score__''"
  shows "res_all (pg_ok a) (pgsql_compileFullTextScore item a)"
  using assms
  by (auto simp: pgsql_compileFullTextScore_def pg_wf_item.simps
      pg_ok_append [OF pg_vector, of _ _ _ "[_]", simplified] pg_scan_simps split: list.splits goany.splits)

lemma pg_json:
  assumes "pg_wf_condition c"
  shows "res_all (pg_ok a) (pgsql_compileJSONCondition m c a)"
proof (cases "\<exists>field parts jop v. cond_Value c = AJSONCondition field parts jop v")
  case True
  then obtain field parts jop v where v: "cond_Value c = AJSONCondition field parts jop v" by blast
  with assms have "pg_name field" by (simp add: pg_wf_condition.simps [of c])
  then show ?thesis
    by (auto simp: pgsql_compileJSONCondition_def v Let_def pg_scan_simps
        intro!: res_all_bindI [OF res_allI])
next
  case False
  then show ?thesis by (auto simp: pgsql_compileJSONCondition_def split: goany.splits)
qed

lemma pg_order:
  assumes "\<forall>item \<in> set items. pg_wf_order item"
  shows "pg_text (fst (pgsql_compileOrder items)) []" and "snd (pgsql_compileOrder items) = []"
proof -
  have "pg_text (pgsql_orderItem i) []" if "i \<in> set items" for i
    using assms that pg_text_ident [of "ord_Expr i"]
    by (auto simp: pgsql_orderItem_def pg_wf_order_def Let_def pg_text_clean intro: pg_text_clean_right)
  then show "pg_text (fst (pgsql_compileOrder items)) []"
    unfolding pgsql_compileOrder_def by (simp, intro pg_ok_parts_text) auto
  show "snd (pgsql_compileOrder items) = []"
    using assms by (auto simp: pgsql_compileOrder_def pg_wf_order_def)
qed

lemma pg_tail: "res_all (\<lambda>sql. pg_clean sql \<and> no_digit sql) (pgsql_limit_offset_lock stmt)"
  by (auto simp: pgsql_limit_offset_lock_def pgsql_compileLock_def pgsql_compileLockOptions_def
      result_simps split: option.splits lock_mode.splits)

section \<open>The recursive functions, one step each\<close>

definition pg_keyword :: "string \<Rightarrow> bool" where
  "pg_keyword kw \<longleftrightarrow> pg_clean kw \<and> no_digit kw \<and> kw \<noteq> []"

lemma pg_keywords:
  "pg_keyword '' where ''" "pg_keyword '' group by ''" "pg_keyword '' having ''" "pg_keyword '' order by ''"
  by (simp_all add: pg_keyword_def)

lemma pg_clause:
  assumes "pg_frag a (sql, args)" and "pg_keyword kw"
  shows "pg_ok a (if sql \<noteq> [] then kw @ sql else [], if sql \<noteq> [] then args else [],
      a + length (if sql \<noteq> [] then args else []))"
    and "no_digit (if sql \<noteq> [] then kw @ sql else [])"
  using assms by (simp_all add: pg_scan_simps pg_keyword_def)

lemma pg_clause_text:
  assumes "pg_text sql []" and "pg_keyword kw"
  shows "pg_ok a (if sql \<noteq> [] then kw @ sql else [], [], a)"
    and "no_digit (if sql \<noteq> [] then kw @ sql else [])"
  using assms by (simp_all add: pg_scan_simps pg_ok_text pg_keyword_def)

lemma pg_select_text:
  assumes "pg_ok 1 (sel, sa, i1)" and "pg_ok i1 (src, ra, i2)" and "pg_ok i2 (joins, ja, i3)"
    and "pg_ok i3 (wh, wa, i4)" and "pg_ok i4 (grp, [], i4)" and "pg_ok i4 (hv, ha, i5)"
    and "pg_ok i5 (ord, [], i5)" and "pg_clean tail"
    and "no_digit joins" "no_digit wh" "no_digit grp" "no_digit hv" "no_digit ord" "no_digit tail"
  shows "pg_ok 1 (''select '' @ sel @ '' from '' @ src @ joins @ wh @ grp @ hv @ ord @ tail,
      sa @ ra @ ja @ wa @ ha, i5)"
proof -
  have 1: "pg_ok i5 (ord @ tail, [], i5)"
    using pg_ok_append_text [OF assms(7,14)] assms(8) by (simp add: pg_scan_simps)
  have 2: "pg_ok i4 (hv @ ord @ tail, ha, i5)"
    using pg_ok_append_text [OF assms(6), of "ord @ tail"] 1 assms by simp
  have 3: "pg_ok i4 (grp @ hv @ ord @ tail, [] @ ha, i5)"
    using pg_ok_append [OF assms(5), of "hv @ ord @ tail"] 2 assms by simp
  have 4: "pg_ok i3 (wh @ grp @ hv @ ord @ tail, wa @ ha, i5)"
    using pg_ok_append [OF assms(4), of "grp @ hv @ ord @ tail"] 3 assms by simp
  have 5: "pg_ok i2 (joins @ wh @ grp @ hv @ ord @ tail, ja @ wa @ ha, i5)"
    using pg_ok_append [OF assms(3), of "wh @ grp @ hv @ ord @ tail"] 4 assms by simp
  have 6: "pg_ok i1 (src @ joins @ wh @ grp @ hv @ ord @ tail, ra @ ja @ wa @ ha, i5)"
    using pg_ok_append [OF assms(2), of "joins @ wh @ grp @ hv @ ord @ tail"] 5 assms by simp
  show ?thesis
    using pg_ok_append [OF assms(1), of "'' from '' @ src @ joins @ wh @ grp @ hv @ ord @ tail"
        "ra @ ja @ wa @ ha" i5] 6 by (simp add: pg_scan_simps)
qed

abbreviation pg_joins_ok :: "nat \<Rightarrow> pg_fragment \<Rightarrow> bool" where
  "pg_joins_ok a f \<equiv> pg_ok a f \<and> no_digit (fst f)"

lemma pg_ok_next: "pg_ok a (s, x, b) \<Longrightarrow> b = a + length x"
  by (simp add: pg_ok.simps)

lemma pg_compiledI: "pg_ok 1 (sql, args, b) \<Longrightarrow> pg_compiled \<lparr>c_SQL = sql, c_Args = args\<rparr>"
  using pg_ok_next [of 1 sql args b] by (auto simp: pg_compiled_def)

lemma pg_select_step:
  assumes items: "stmt_Select stmt \<noteq> [] \<Longrightarrow>
      res_all (pg_parts 1) (pgsql_compileSelectItems m (stmt_Select stmt) 1)"
    and src: "\<And>a. 1 \<le> a \<Longrightarrow> res_all (pg_ok a) (pgsql_compileSelectSource m stmt a)"
    and joins: "\<And>a. 1 \<le> a \<Longrightarrow> res_all (pg_joins_ok a) (pgsql_compileJoins m (stmt_Joins stmt) a)"
    and wher: "\<And>a. 1 \<le> a \<Longrightarrow> res_all (pg_frag a) (pgsql_compileWhere m (stmt_Where stmt) a)"
    and having: "\<And>a. 1 \<le> a \<Longrightarrow> res_all (pg_frag a) (pgsql_compileWhere m (stmt_Having stmt) a)"
    and order: "\<forall>item \<in> set (stmt_Order stmt). pg_wf_order item"
    and grp: "\<forall>f \<in> set (stmt_Group stmt). pg_name f"
  shows "res_all pg_compiled (pgsql_compileSelect m stmt)"
proof -
  have sel: "res_all (pg_ok 1)
       (if stmt_Select stmt = [] then Inr (''*'', [], 1)
        else bind_res (pgsql_compileSelectItems m (stmt_Select stmt) 1)
               (\<lambda>(parts, args, nextIndex). Inr (join '', '' parts, args, nextIndex)))"
    using items by (auto simp: pg_scan_simps intro!: res_all_bind_tripleI pg_parts_join)
  obtain ord where ord: "pgsql_compileOrder (stmt_Order stmt) = (ord, [])" "pg_text ord []"
    using pg_order [OF order] by (metis prod.collapse)
  have g: "pg_text (pgsql_compileGroup (stmt_Group stmt)) []"
    unfolding pgsql_compileGroup_def by (rule pg_idents [OF grp])
  show ?thesis
    apply (subst pgsql_compileSelect.simps)
    apply (rule res_all_bind_tripleI [OF sel])
    apply (rule res_all_bind_tripleI [OF src])
    subgoal by (simp add: pg_ok.simps)
    apply (rule res_all_bind_tripleI [OF joins])
    subgoal by (simp add: pg_ok.simps)
    apply (rule res_all_bind_prodI [OF wher])
    subgoal by (simp add: pg_ok.simps)
    apply (unfold Let_def)
    apply (rule res_all_bind_prodI [OF having])
    subgoal by simp
    apply (rule res_all_bindI [OF pg_tail])
    subgoal premises p for sql sa i1 src ra i2 joins ja i3 wh wa hv ha tail
    proof -
      let ?wa = "if wh \<noteq> [] then wa else []"
      have next_index: "i3 + length ?wa = length (sa @ ra @ ja @ ?wa) + 1"
        using p(1-3) by (auto dest!: pg_ok_next)
      have h: "pg_frag (i3 + length ?wa) (hv, ha)" using p(5) by (simp only: next_index)
      note w = pg_clause [OF p(4) pg_keywords(1)] pg_clause [OF h pg_keywords(3)]
        pg_clause_text [OF g pg_keywords(2)] pg_clause_text [OF ord(2) pg_keywords(4)]
      show ?thesis
        using pg_compiledI [OF pg_select_text [OF p(1,2) conjunct1 [OF p(3)] w(1) w(5) w(3) w(7)
            conjunct1 [OF p(6)] _ w(2) w(6) w(4) w(8) conjunct2 [OF p(6)]]] p(3)
        by (simp only: ord prod.case res_all_simps if_cancel append_Nil2 append_assoc fst_conv)
    qed
    done
qed

lemma pg_items_step:
  assumes "\<And>i is. items = i # is \<Longrightarrow> res_all (pg_ok a) (pgsql_compileSelectExpr m i a)"
    and "\<And>i is b. items = i # is \<Longrightarrow> a \<le> b \<Longrightarrow> res_all (pg_parts b) (pgsql_compileSelectItems m is b)"
  shows "res_all (pg_parts a) (pgsql_compileSelectItems m items a)"
proof (cases items)
  case Nil
  then show ?thesis by (simp add: pgsql_compileSelectItems.simps)
next
  case (Cons i "is")
  show ?thesis
    by (subst pgsql_compileSelectItems.simps, subst Cons, unfold list.case,
        rule res_all_bind_tripleI [OF assms(1) [OF Cons]],
        rule res_all_bind_tripleI [OF assms(2) [OF Cons]])
       (auto intro: pg_parts_Cons dest: pg_ok_next)
qed

lemma pg_joinlist_step:
  assumes "\<And>j js. joins = j # js \<Longrightarrow> res_all (pg_ok a) (pgsql_compileJoin m j a)"
    and "\<And>j js b. joins = j # js \<Longrightarrow> a \<le> b \<Longrightarrow> res_all (pg_parts b) (pgsql_compileJoinList m js b)"
  shows "res_all (pg_parts a) (pgsql_compileJoinList m joins a)"
proof (cases joins)
  case Nil
  then show ?thesis by (simp add: pgsql_compileJoinList.simps)
next
  case (Cons j js)
  show ?thesis
    by (subst pgsql_compileJoinList.simps, subst Cons, unfold list.case,
        rule res_all_bind_tripleI [OF assms(1) [OF Cons]],
        rule res_all_bind_tripleI [OF assms(2) [OF Cons]])
       (auto intro: pg_parts_Cons dest: pg_ok_next)
qed

lemma pg_expr_step:
  assumes wf: "pg_wf_item item" and a: "1 \<le> a"
    and src: "\<And>s. sel_Source item = Some s \<Longrightarrow> res_all (pg_ok a) (pgsql_compileScalarSource m s a ''pgsql.select'')"
    and exi: "\<And>s. sel_Source item = None \<Longrightarrow> sel_Expr item = ''__oro_relation_exists__'' \<Longrightarrow>
      sel_Args item = [ASource s] \<Longrightarrow> res_all (pg_ok a) (pgsql_compileScalarSource m s a ''pgsql.select'')"
  shows "res_all (pg_ok a) (pgsql_compileSelectExpr m item a)"
proof (cases "sel_Source item")
  case (Some s)
  show ?thesis
    by (subst pgsql_compileSelectExpr.simps)
       (use wf in \<open>auto simp: Some pg_wf_item.simps pg_scan_simps pg_ok_append_text
         intro!: res_all_bind_tripleI [OF src [OF Some]]\<close>)
next
  case None
  have name: "pg_name (sel_Alias item)" using wf by (simp add: pg_wf_item.simps)
  show ?thesis
  proof (cases "sel_Expr item = ''__oro_relation_exists__''")
    case rel: True
    show ?thesis
    proof (cases "\<exists>s. sel_Args item = [ASource s]")
      case True
      then obtain s where s: "sel_Args item = [ASource s]" by blast
      show ?thesis
        by (subst pgsql_compileSelectExpr.simps)
           (auto simp: None rel s pg_scan_simps name pg_ok_append_text
             intro!: res_all_bind_tripleI [OF exi [OF None rel s]])
    next
      case False
      then show ?thesis
        by (subst pgsql_compileSelectExpr.simps) (auto simp: None rel split: list.splits goany.splits)
    qed
  next
    case rel: False
    have "res_all (pg_ok a)
              (if sel_Expr item = ''__oro_fulltext_score__'' then pgsql_compileFullTextScore item a
               else if sel_Expr item = ''__oro_aggregate__''
               then bind_res (pgsql_compileAggregateSelect item) (\<lambda>sql. Inr (sql, [], a))
               else if \<not> sel_Raw item then Inr (pgsql_QuoteIdent (sel_Expr item), [], a)
               else Inr (rebasePlaceholders (sel_Expr item) (a - 1), sel_Args item,
                         a + length (sel_Args item)))"
      using wf None rel a
      by (auto simp: pg_wf_item.simps pg_scan_simps intro!: pg_score [OF wf None] pg_ok_rebase [simplified One_nat_def]
          res_all_bindI [OF pg_aggregate [OF wf None]])
    then show ?thesis
      by (subst pgsql_compileSelectExpr.simps)
         (use None rel name in \<open>auto simp: pg_scan_simps pg_ok_append_text elim!: res_all_bind_tripleI\<close>)
  qed
qed

text \<open>Renumbered text followed by more text.\<close>

lemma pg_rebased_raw:
  "pg_raw sql (length args) \<Longrightarrow> 1 \<le> a \<Longrightarrow> no_digit t \<Longrightarrow>
     pg_ok a (rebasePlaceholders sql (a - Suc 0) @ t, args, c) \<longleftrightarrow> pg_ok (a + length args) (t, [], c)"
  using pg_ok_append_text [OF pg_ok_rebase] by simp

lemma pg_rebased_compiled:
  "pg_compiled q \<Longrightarrow> 1 \<le> a \<Longrightarrow> no_digit t \<Longrightarrow>
     pg_ok a (rebasePlaceholders (c_SQL q) (a - Suc 0) @ t, c_Args q, c) \<longleftrightarrow>
     pg_ok (a + length (c_Args q)) (t, [], c)"
  using pg_ok_append_text [OF pg_ok_rebase_ok] by (simp add: pg_compiled_def)

lemma pg_source_step:
  assumes wf: "pg_wf_source source" and a: "1 \<le> a"
    and q: "\<And>q. src_Table source = [] \<Longrightarrow> src_Query source = Some q \<Longrightarrow> src_Alias source \<noteq> [] \<Longrightarrow>
      res_all pg_compiled (pgsql_compileSelect m q)"
  shows "res_all (pg_ok a) (pgsql_compileSource m source a)"
proof (cases "src_Query source")
  case None
  then show ?thesis
    using wf a
    by (subst pgsql_compileSource.simps)
       (auto simp: pg_wf_source.simps pg_scan_simps pg_rebased_raw split: option.splits)
next
  case (Some q)
  show ?thesis
    using wf a
    by (subst pgsql_compileSource.simps)
       (auto simp: Some pg_wf_source.simps [of source] pg_scan_simps pg_rebased_compiled
         intro!: res_all_bindI [OF assms(3) [OF _ Some]])
qed

lemma pg_scalar_step:
  assumes wf: "pg_wf_source source" and a: "1 \<le> a"
    and q: "\<And>q. src_Query source = Some q \<Longrightarrow> res_all pg_compiled (pgsql_compileSelect m q)"
  shows "res_all (pg_ok a) (pgsql_compileScalarSource m source a op)"
proof (cases "src_Query source")
  case None
  then show ?thesis
    using wf a
    by (subst pgsql_compileScalarSource.simps)
       (auto simp: pg_wf_source.simps pg_scan_simps pg_rebased_raw split: option.splits)
next
  case (Some q)
  show ?thesis
    using a
    by (subst pgsql_compileScalarSource.simps)
       (auto simp: Some pg_scan_simps pg_rebased_compiled intro!: res_all_bindI [OF assms(3) [OF Some]])
qed

lemma pg_join_step:
  assumes wf: "pg_wf_join j" and a: "1 \<le> a"
    and src: "join_Raw j = None \<Longrightarrow> join_Type j = JoinCross \<or> join_Conditions j \<noteq> [] \<Longrightarrow>
      res_all (pg_ok a) (pgsql_compileJoinSource m j a)"
  shows "res_all (pg_ok a) (pgsql_compileJoin m j a)"
proof (cases "join_Raw j")
  case (Some raw)
  then show ?thesis
    using wf pg_ok_rebase [OF _ a] by (auto simp: pgsql_compileJoin.simps pg_wf_join.simps)
next
  case None
  have conds: "pg_ok b (pgsql_compileJoinConditions (join_Conditions j) b)" for b
    using wf None pg_joinConditions(2) by (simp add: pg_wf_join.simps)
  have on: "res_all (pg_ok a)
      (bind_res (pgsql_compileJoinSource m j a) (\<lambda>(source, sourceArgs, nextIndex).
         let (conditions, args, end) = pgsql_compileJoinConditions (join_Conditions j) nextIndex
         in Inr (kw @ '' '' @ source @ '' on '' @ conditions, sourceArgs @ args, end)))"
    if kw: "pg_clean kw" and conditions: "join_Conditions j \<noteq> []" for kw
  proof (rule res_all_bind_tripleI [OF src [OF None disjI2 [OF conditions]]])
    fix s x b assume s: "pg_ok a (s, x, b)"
    show "res_all (pg_ok a) (let (conditions, args, end) = pgsql_compileJoinConditions (join_Conditions j) b
         in Inr (kw @ '' '' @ s @ '' on '' @ conditions, x @ args, end))"
      using conds [of b] kw
      by (auto simp: pg_scan_simps pg_ok_append [OF s] simp del: pgsql_compileJoinConditions.simps
          split: prod.splits)
  qed
  have cross: "res_all (pg_ok a)
      (bind_res (pgsql_compileJoinSource m j a) (\<lambda>(source, sourceArgs, nextIndex).
         Inr (''cross join '' @ source, sourceArgs, nextIndex)))" if "join_Type j = JoinCross"
    by (rule res_all_bind_tripleI [OF src [OF None disjI1 [OF that]]]) (simp add: pg_scan_simps)
  show ?thesis
    by (subst pgsql_compileJoin.simps)
       (use cross on [of "''join''"] on [of "''left join''"] on [of "''right join''"] on [of "''full join''"]
        in \<open>auto simp: None simp del: pgsql_compileJoinConditions.simps split: join_type.splits\<close>)
qed

lemma pg_conditions_step:
  assumes a: "1 \<le> a"
    and head: "\<And>c cs. conds = c # cs \<Longrightarrow>
      res_all (pg_part (pgsql_cond_prefix first c) a) (pgsql_compileCondition m (pgsql_cond_prefix first c) c a)"
    and rest: "\<And>c cs b. conds = c # cs \<Longrightarrow> a \<le> b \<Longrightarrow>
      res_all (pg_conds False b) (pgsql_compileConditions m False cs b)"
  shows "res_all (pg_conds first a) (pgsql_compileConditions m first conds a)"
proof (cases conds)
  case Nil
  then show ?thesis by (simp add: pgsql_compileConditions.simps)
next
  case (Cons c cs)
  show ?thesis
  proof (subst pgsql_compileConditions.simps, subst Cons, unfold list.case,
      rule res_all_bindI [OF head [OF Cons]])
    fix part assume part: "pg_part (pgsql_cond_prefix first c) a part"
    show "res_all (pg_conds first a) (case part of None \<Rightarrow> pgsql_compileConditions m False cs a
        | Some (sql, conditionArgs, nextIndex) \<Rightarrow>
            bind_res (pgsql_compileConditions m False cs nextIndex) (\<lambda>(parts, args).
              Inr (sql # parts, conditionArgs @ args)))"
    proof (cases part)
      case None
      then show ?thesis using rest [OF Cons, of a] by (auto elim!: res_all_mono intro: pg_conds_first)
    next
      case (Some f)
      obtain sql args b where f: "f = (sql, args, b)" by (metis prod_cases3)
      have ok: "pg_ok a (sql, args, b)" "\<not> first \<Longrightarrow> no_digit sql"
        using part by (simp_all add: Some f)
      show ?thesis
        unfolding Some f option.case prod.case
        by (rule res_all_bind_prodI [OF rest [OF Cons]])
           (use ok pg_ok_next [OF ok(1)] in \<open>auto intro: pg_conds_Cons\<close>)
    qed
  qed
qed

lemma pg_prefixed:
  assumes "pg_clean prefix" and "no_digit prefix" and "res_all (pg_ok a) r"
  shows "res_all (pg_part prefix a)
    (bind_res r (\<lambda>(sql, args, nextIndex). Inr (Some (prefix @ sql, args, nextIndex))))"
  by (rule res_all_bind_tripleI [OF assms(3)]) (use assms(1,2) in \<open>simp add: pg_scan_simps\<close>)

lemma pg_condition_step:
  assumes wf: "pg_wf_condition c" and pre: "pg_clean prefix" "no_digit prefix" and a: "1 \<le> a"
    and grp: "to_lower (trim_space (cond_Op c)) \<in> {''group'', ''not''} \<Longrightarrow>
      res_all (pg_frag a) (pgsql_compileWhere m (cond_Conditions c) a)"
    and inn: "to_lower (trim_space (cond_Op c)) = ''in'' \<Longrightarrow> res_all (pg_ok a) (pgsql_compileInCondition m c a)"
    and exi: "to_lower (trim_space (cond_Op c)) = ''exists'' \<Longrightarrow> res_all (pg_ok a) (pgsql_compileExistsCondition m c a)"
    and cnt: "to_lower (trim_space (cond_Op c)) = ''count'' \<Longrightarrow> res_all (pg_ok a) (pgsql_compileCountCondition m c a)"
    and sub: "\<And>s. to_lower (trim_space (cond_Op c)) \<notin> {''invalid'', ''group'', ''not'', ''raw'', ''json'',
        ''fulltext'', ''column'', ''in'', ''in_values'', ''not_in_values'', ''between'', ''exists'',
        ''count'', ''is null'', ''is not null''} \<Longrightarrow>
      IsSafeConditionOperator (cond_Op c) \<Longrightarrow> cond_Value c = ASourcePtr s \<Longrightarrow>
      res_all (pg_ok a) (pgsql_compileScalarSource m s a ''pgsql.where'')"
  shows "res_all (pg_part prefix a) (pgsql_compileCondition m prefix c a)"
proof -
  let ?op = "to_lower (trim_space (cond_Op c))"
  let ?lhs = "prefix @ pgsql_QuoteIdent (cond_Field c) @ '' '' @ NormalizeConditionOperator (cond_Op c) @ '' ''"
  have name: "?op \<noteq> ''raw'' \<Longrightarrow> pg_name (cond_Field c)"
    and raw: "?op = ''raw'' \<Longrightarrow> pg_raw (cond_Field c) (length (raw_values c))"
    using wf by (simp_all add: pg_wf_condition.simps [of c])
  have group: "?op = ''group'' \<or> ?op = ''not'' \<Longrightarrow> pg_clean word \<Longrightarrow> no_digit word \<Longrightarrow> word \<noteq> [] \<Longrightarrow>
     res_all (pg_part prefix a) (bind_res (pgsql_compileWhere m (cond_Conditions c) a) (\<lambda>(sql, groupArgs).
       Inr (if sql = [] then None else Some (prefix @ word @ sql @ '')'', groupArgs, a + length groupArgs))))" for word
    using grp pre by (auto intro!: res_all_bind_prodI simp: pg_scan_simps pg_ok_append_text)
  have column: "?op = ''column'' \<Longrightarrow> res_all (pg_part prefix a)
     (bind_res (pgsql_compileColumnCondition c) (\<lambda>sql. Inr (Some (prefix @ sql, [], a))))"
    by (rule res_all_bindI [OF pg_column [OF wf]]) (use pre in \<open>simp_all add: pg_scan_simps\<close>)
  have raw_part: "?op = ''raw'' \<Longrightarrow> pg_part prefix a (Some (case cond_Value c of
        AList values \<Rightarrow> (prefix @ rebasePlaceholders (cond_Field c) (a - 1), values, a + length values)
      | _ \<Rightarrow> (prefix @ rebasePlaceholders (cond_Field c) (a - 1), [], a)))"
    using pg_ok_rebase [OF raw [unfolded raw_values_def] a] pre
    by (auto simp: pg_scan_simps split: goany.splits)
  have lhs: "pg_clean (NormalizeConditionOperator (cond_Op c))" if "IsSafeConditionOperator (cond_Op c)"
    using that by (rule pg_clean_operator)
  have scalar: "res_all (pg_ok a) (pgsql_compileScalarSource m s a ''pgsql.where'') \<Longrightarrow>
     IsSafeConditionOperator (cond_Op c) \<Longrightarrow> ?op \<noteq> ''raw'' \<Longrightarrow>
     res_all (pg_part prefix a) (bind_res (pgsql_compileScalarSource m s a ''pgsql.where'')
       (\<lambda>(sql, sourceArgs, nextIndex). Inr (Some (?lhs @ sql, sourceArgs, nextIndex))))" for s
    by (erule res_all_bind_tripleI) (use lhs name pre in \<open>simp add: pg_scan_simps\<close>)
  have bound: "IsSafeConditionOperator (cond_Op c) \<Longrightarrow> ?op \<noteq> ''raw'' \<Longrightarrow>
     pg_part prefix a (Some (?lhs @ pgsql_Placeholder a, [v], a + 1)) \<and>
     pg_part prefix a (Some (?lhs @ pgsql_Placeholder a @ '' escape '' @ [CHR 0x27, CHR 0x5C, CHR 0x27], [v], a + 1))" for v
    using lhs name pre by (simp add: pg_scan_simps)
  show ?thesis
    apply (subst pgsql_compileCondition.simps)
    apply (unfold Let_def)
    apply (intro res_all_ifI)
    subgoal by (auto split: goany.splits)
    subgoal using group [of "''(''"] by simp
    subgoal using group [of "''not (''"] by (simp add: is_digit_char_def)
    subgoal using raw_part by simp
    subgoal by (intro pg_prefixed pre pg_json wf)
    subgoal by (intro pg_prefixed pre pg_fulltext wf)
    subgoal by (rule column)
    subgoal by (intro pg_prefixed pre inn)
    subgoal by (intro pg_prefixed pre pg_in_values name) auto
    subgoal by (intro pg_prefixed pre pg_between name) auto
    subgoal by (intro pg_prefixed pre exi)
    subgoal by (intro pg_prefixed pre cnt)
    subgoal using pre name by (auto simp: pg_scan_simps)
    subgoal by simp
    subgoal using bound scalar sub by (auto simp del: append_assoc append.simps split: goany.splits)
    done
qed

lemmas pgsql_compile_induct =
  pgsql_compileSelect_pgsql_compileSelectItems_pgsql_compileSelectExpr_pgsql_compileSelectSource_pgsql_compileSource_pgsql_compileJoins_pgsql_compileJoinList_pgsql_compileJoin_pgsql_compileJoinSource_pgsql_compileWhere_pgsql_compileConditions_pgsql_compileCondition_pgsql_compileInCondition_pgsql_compileExistsCondition_pgsql_compileCountCondition_pgsql_compileScalarSource.induct

lemma pg_name_if [simp]: "pg_name [] " "pg_name (if b then x else y) \<longleftrightarrow> (if b then pg_name x else pg_name y)"
  by (simp_all add: pg_name_def)

lemma pg_wf_source_fields:
  "pg_wf_source s \<Longrightarrow> pg_name (src_Table s) \<and> pg_name (src_Alias s)"
  "pg_wf_source s \<Longrightarrow> pg_name t \<Longrightarrow> pg_name al \<Longrightarrow> pg_wf_source (SourceAST t al (src_Query s) (src_Raw s))"
  "pg_name t \<Longrightarrow> pg_name al \<Longrightarrow> pg_wf_source (SourceAST t al None None)"
  by (auto simp: pg_wf_source.simps split: option.splits)

lemma pgsql_compile_ok:
  "pg_wf_select stmt \<longrightarrow> res_all pg_compiled (pgsql_compileSelect m1 stmt)"
  "1 \<le> a2 \<and> (\<forall>i \<in> set items. pg_wf_item i) \<longrightarrow> res_all (pg_parts a2) (pgsql_compileSelectItems m2 items a2)"
  "1 \<le> a3 \<and> pg_wf_item item \<longrightarrow> res_all (pg_ok a3) (pgsql_compileSelectExpr m3 item a3)"
  "1 \<le> a4 \<and> pg_wf_source (stmt_From stmt') \<and> pg_name (stmt_Table stmt') \<and> pg_name (stmt_Alias stmt') \<longrightarrow>
     res_all (pg_ok a4) (pgsql_compileSelectSource m4 stmt' a4)"
  "1 \<le> a5 \<and> pg_wf_source source \<longrightarrow> res_all (pg_ok a5) (pgsql_compileSource m5 source a5)"
  "1 \<le> a6 \<and> (\<forall>j \<in> set joins. pg_wf_join j) \<longrightarrow> res_all (pg_joins_ok a6) (pgsql_compileJoins m6 joins a6)"
  "1 \<le> a7 \<and> (\<forall>j \<in> set joins'. pg_wf_join j) \<longrightarrow> res_all (pg_parts a7) (pgsql_compileJoinList m7 joins' a7)"
  "1 \<le> a8 \<and> pg_wf_join j \<longrightarrow> res_all (pg_ok a8) (pgsql_compileJoin m8 j a8)"
  "1 \<le> a9 \<and> pg_wf_source (join_Source j') \<and> pg_name (join_Table j') \<and> pg_name (join_Alias j') \<longrightarrow>
     res_all (pg_ok a9) (pgsql_compileJoinSource m9 j' a9)"
  "1 \<le> a10 \<and> (\<forall>c \<in> set conds. pg_wf_condition c) \<longrightarrow> res_all (pg_frag a10) (pgsql_compileWhere m10 conds a10)"
  "1 \<le> a11 \<and> (\<forall>c \<in> set conds'. pg_wf_condition c) \<longrightarrow>
     res_all (pg_conds first a11) (pgsql_compileConditions m11 first conds' a11)"
  "1 \<le> a12 \<and> pg_wf_condition c \<and> pg_clean prefix \<and> no_digit prefix \<longrightarrow>
     res_all (pg_part prefix a12) (pgsql_compileCondition m12 prefix c a12)"
  "1 \<le> a13 \<and> pg_wf_condition c1 \<and> to_lower (trim_space (cond_Op c1)) \<noteq> ''raw'' \<longrightarrow>
     res_all (pg_ok a13) (pgsql_compileInCondition m13 c1 a13)"
  "1 \<le> a14 \<and> pg_wf_condition c2 \<longrightarrow> res_all (pg_ok a14) (pgsql_compileExistsCondition m14 c2 a14)"
  "1 \<le> a15 \<and> pg_wf_condition c3 \<longrightarrow> res_all (pg_ok a15) (pgsql_compileCountCondition m15 c3 a15)"
  "1 \<le> a16 \<and> pg_wf_source source' \<longrightarrow> res_all (pg_ok a16) (pgsql_compileScalarSource m16 source' a16 op)"
proof (induction m1 stmt and m2 items a2 and m3 item a3 and m4 stmt' a4 and m5 source a5 and m6 joins a6
    and m7 joins' a7 and m8 j a8 and m9 j' a9 and m10 conds a10 and m11 first conds' a11
    and m12 prefix c a12 and m13 c1 a13 and m14 c2 a14 and m15 c3 a15 and m16 source' a16 op
    rule: pgsql_compile_induct)
  case (1 m stmt)
  show ?case
  proof
    assume "pg_wf_select stmt"
    note wf = pg_wf_selectD [OF this]
    have "res_all (pg_frag (length (xs @ ys @ zs @ (if wh \<noteq> [] then wa else [])) + 1))
        (pgsql_compileWhere m (stmt_Having stmt) (length (xs @ ys @ zs @ (if wh \<noteq> [] then wa else [])) + 1))"
      for xs ys zs :: "goany list" and wh :: string and wa
      by (rule "1.IH"(5) [OF refl refl refl refl refl refl refl refl refl, THEN mp]) (use wf in auto)
    note hv = this [of "replicate k ANil" "[]" "[]" "[]" "[]" for k]
    have having: "1 \<le> a \<Longrightarrow> res_all (pg_frag a) (pgsql_compileWhere m (stmt_Having stmt) a)" for a
      using hv [of "a - 1"] by simp
    show "res_all pg_compiled (pgsql_compileSelect m stmt)"
      by (rule pg_select_step [OF _ _ _ _ _ wf(6,7)]) (use 1 wf having in auto)
  qed
next
  case (2 m items a)
  show ?case by (intro impI, rule pg_items_step) (use 2 in \<open>auto simp del: prod.collapse\<close>)
next
  case (3 m item a)
  show ?case by (intro impI, rule pg_expr_step) (use 3 in \<open>auto simp: pg_wf_item.simps [of item]\<close>)
next
  case (4 m stmt a)
  then show ?case
    by (subst pgsql_compileSelectSource.simps)
       (auto simp: Let_def pg_wf_source_fields dest: pg_wf_source_fields(1))
next
  case (5 m source a)
  show ?case
    by (intro impI, rule pg_source_step) (use 5 in \<open>auto simp: pg_wf_source.simps [of source]\<close>)
next
  case (6 m joins a)
  then show ?case
    by (subst pgsql_compileJoins.simps)
       (auto simp: pg_scan_simps intro!: res_all_bind_tripleI pg_parts_join)
next
  case (7 m joins a)
  show ?case by (intro impI, rule pg_joinlist_step) (use 7 in auto)
next
  case (8 m j a)
  show ?case
    by (intro impI, rule pg_join_step) (use 8 in \<open>auto simp: pg_wf_join.simps [of j]\<close>)
next
  case (9 m j a)
  then show ?case
    by (subst pgsql_compileJoinSource.simps)
       (auto simp: Let_def pg_wf_source_fields dest: pg_wf_source_fields(1))
next
  case (10 m conds a)
  then show ?case
    by (subst pgsql_compileWhere.simps) (auto intro!: res_all_bind_prodI dest: pg_conds_join)
next
  case (11 m first conds a)
  show ?case by (intro impI, rule pg_conditions_step) (use 11 in auto)
next
  case (12 m prefix c a)
  show ?case
    by (intro impI, elim conjE, rule pg_condition_step)
       (use "12.IH" in \<open>auto simp: pg_wf_condition.simps [of c]\<close>)
next
  case (13 m c a)
  then show ?case
    by (auto simp: pgsql_compileInCondition.simps pg_wf_condition.simps [of c] pg_scan_simps
        split: goany.splits intro!: res_all_bind_tripleI)
next
  case (14 m c a)
  then show ?case
    by (auto simp: pgsql_compileExistsCondition.simps pg_wf_condition.simps [of c] pg_scan_simps
        split: goany.splits intro!: res_all_bind_tripleI)
next
  case (15 m c a)
  then show ?case
    by (auto simp: pgsql_compileCountCondition.simps pg_wf_condition.simps [of c] pg_scan_simps pg_ok_append
        split: goany.splits option.splits intro!: res_all_bind_tripleI)
next
  case (16 m source a op)
  show ?case
    by (intro impI, rule pg_scalar_step) (use 16 in \<open>auto simp: pg_wf_source.simps [of source]\<close>)
qed

section \<open>Writes\<close>

lemma pg_set:
  assumes "pg_wf_set v" and "pg_name column"
  shows "pg_ok a (pgsql_compileSet column v a)"
  using assms by (auto simp: pgsql_compileSet_def pg_wf_set_def pg_scan_simps pg_ok_text split: goany.splits)

lemma pg_sets:
  assumes "\<forall>k \<in> set ks. pg_name k" and "\<forall>kv \<in> set m. pg_wf_set (snd kv)"
  shows "pg_parts a (pgsql_compileSets m ks a)"
  using assms(1)
proof (induction ks arbitrary: a)
  case Nil
  then show ?case by simp
next
  case (Cons k ks)
  obtain s x b where sx: "pgsql_compileSet k (map_get m k) a = (s, x, b)" by (metis prod_cases3)
  obtain ps y c where ps: "pgsql_compileSets m ks b = (ps, y, c)" by (metis prod_cases3)
  have "pg_ok a (s, x, b)" using pg_set [OF pg_wf_set_map_get [OF assms(2)]] Cons.prems sx by (metis list.set_intros(1))
  moreover have "pg_parts b (ps, y, c)" using Cons ps by (metis list.set_intros(2))
  ultimately show ?case by (simp add: sx ps pg_parts_Cons)
qed

lemma pg_sets_join:
  assumes "\<forall>kv \<in> set m. pg_name (fst kv) \<and> pg_wf_set (snd kv)"
    and "pgsql_compileSets m (sortedKeys m) a = (sets, args, b)"
  shows "pg_ok a (join '', '' sets, args, b)"
proof -
  have "pg_parts a (sets, args, b)"
    using pg_sets [of "sortedKeys m" m a] assms by (simp add: image_iff)
  then show ?thesis by (rule pg_parts_join) simp_all
qed

lemma pg_insertRow:
  "res_all (\<lambda>(items, ps, b). pg_parts a (ps, items, b)) (pgsql_insertRow cols v a)"
proof (induction cols arbitrary: a)
  case Nil
  then show ?case by simp
next
  case (Cons c cols)
  show ?case
  proof (cases "map_of v c")
    case None
    then show ?thesis by simp
  next
    case (Some item)
    then show ?thesis
      using pg_parts_Cons [of a "pgsql_Placeholder a" "[item]" "Suc a"]
      by (auto simp: pg_scan_simps intro!: res_all_bind_tripleI [OF Cons.IH [of "Suc a"]])
  qed
qed

lemma pg_insertRows:
  "res_all (\<lambda>(args, rows). pg_parts a (rows, args, a + length args)) (pgsql_insertRows cols vs a)"
proof (induction vs arbitrary: a)
  case Nil
  then show ?case by simp
next
  case (Cons v vs)
  show ?case
  proof (cases "length v = length cols")
    case True
    show ?thesis
      unfolding pgsql_insertRows.simps
      apply (simp only: True if_False not_True_eq_False refl)
      apply (rule res_all_bind_tripleI [OF pg_insertRow])
      apply (rule res_all_bind_prodI [OF Cons.IH])
      subgoal premises p for items ps b args rows
      proof -
        have "pg_ok a (join '', '' ps, items, b)"
          by (rule pg_parts_join) (use p in auto)
        then have "pg_ok a (''('' @ join '', '' ps @ '')'', items, b)" and "b = a + length items"
          by (simp_all add: pg_scan_simps pg_ok_append_text pg_ok_next)
        with p(2) show ?thesis using pg_parts_Cons [of a _ items b rows args] by (simp add: add.assoc)
      qed
      done
  qed simp
qed

lemma pg_row_names:
  "\<forall>kv \<in> set row. pg_name (fst kv) \<Longrightarrow> pg_text (join '', '' (map pgsql_QuoteIdent (sortedKeys row))) []"
  by (rule pg_idents) auto

lemma pg_plainInsert:
  assumes "pg_name (ins_Table stmt)" and "\<forall>row \<in> set (ins_Values stmt). \<forall>kv \<in> set row. pg_name (fst kv)"
  shows "res_all pg_compiled (pgsql_plainInsert stmt)"
proof (cases "ins_Values stmt")
  case Nil
  then show ?thesis by (simp add: pgsql_plainInsert_def)
next
  case (Cons row rows)
  let ?cols = "join '', '' (map pgsql_QuoteIdent (sortedKeys row))"
  have cols: "pg_ok 1 (?cols, [], 1)"
    using assms(2) Cons by (auto intro!: pg_ok_text pg_row_names)
  show ?thesis
  proof (subst pgsql_plainInsert_def, subst Cons, unfold list.case Let_def,
      rule res_all_bind_prodI [OF pg_insertRows [of 1]])
    fix args texts assume "case (args, texts) of (args, rows) \<Rightarrow> pg_parts 1 (rows, args, 1 + length args)"
    then have "pg_ok 1 (join '', '' texts, args, 1 + length args)"
      by (intro pg_parts_join) simp_all
    then have "pg_ok 1 (''insert into '' @ pgsql_QuoteIdent (ins_Table stmt) @ '' ('' @ ?cols @ '') values ''
        @ join '', '' texts @ (if ins_Returning stmt then '' returning *'' else ''''), args, 1 + length args)"
      using assms(1) pg_ok_append [OF cols, of _ args "1 + length args"]
      by (simp add: pg_scan_simps pg_ok_append_text)
    then show "res_all pg_compiled (Inr \<lparr>c_SQL = ''insert into '' @ pgsql_QuoteIdent (ins_Table stmt) @ '' (''
        @ ?cols @ '') values '' @ join '', '' texts @ (if ins_Returning stmt then '' returning *'' else ''''),
        c_Args = args\<rparr>)"
      by (simp only: res_all_simps pg_compiledI)
  qed
qed

lemma pg_conflict:
  assumes "\<forall>kv \<in> set (conf_UpdateMap conflict). pg_name (fst kv) \<and> pg_wf_set (snd kv)"
    and "\<forall>c \<in> set (conf_Columns conflict). pg_name c" and "\<forall>c \<in> set (conf_Update conflict). pg_name c"
    and "\<forall>kv \<in> set row. pg_name (fst kv)"
  shows "res_all (\<lambda>(sql, args). pg_frag a (sql, args) \<and> no_digit sql) (pgsql_compileConflictUpdate conflict row a)"
proof -
  have excl: "pg_text (join '', '' (map (\<lambda>column.
      pgsql_QuoteIdent column @ '' = excluded.'' @ pgsql_QuoteIdent column) cols)) []"
    if "\<forall>c \<in> set cols. pg_name c" for cols
  proof (rule pg_ok_parts_text)
    have eq: "pg_clean '' = excluded.''" by simp
    show "\<forall>p \<in> set (map (\<lambda>column. pgsql_QuoteIdent column @ '' = excluded.'' @ pgsql_QuoteIdent column) cols).
        pg_text p []"
      using that by (auto simp: pg_text_ident pg_text_clean_left [OF eq, simplified] pg_text_ident_Nil)
  qed simp_all
  have all: "\<forall>c \<in> set (pgsql_conflictUpdateAllColumns row xs ys). pg_name c"
    "\<forall>c \<in> set (pgsql_conflictUpdateColumns (conf_Update conflict) row). pg_name c" for xs ys
    using assms(3,4) by (auto simp: pgsql_conflictUpdateAllColumns_def pgsql_conflictUpdateColumns_def)
  obtain sets args b where sets: "pgsql_compileSets (conf_UpdateMap conflict) (sortedKeys (conf_UpdateMap conflict)) a
      = (sets, args, b)" by (metis prod_cases3)
  note ok = pg_sets_join [OF assms(1) sets]
  show ?thesis
    unfolding pgsql_compileConflictUpdate_def Let_def sets prod.case
    using ok pg_ok_next [OF ok] assms(2) excl all
    by (auto simp: pg_scan_simps pg_ok_text split: list.splits)
qed

lemma pg_upsert:
  assumes "pg_wf_statement (StmtInsert stmt)"
  shows "res_all pg_compiled (pgsql_compileUpsert stmt)"
proof -
  have plain: "res_all pg_compiled (pgsql_plainInsert \<lparr>ins_Table = ins_Table stmt, ins_Values = ins_Values stmt,
      ins_Conflict = no_conflict, ins_Returning = False\<rparr>)"
    using assms by (intro pg_plainInsert) (simp_all add: pg_wf_statement_def)
  have cols: "pg_text (join '', '' (map pgsql_QuoteIdent (conf_Columns (ins_Conflict stmt)))) []"
    using assms by (intro pg_idents) (simp add: pg_wf_statement_def)
  show ?thesis
  proof (cases "ins_Values stmt")
    case Nil
    then show ?thesis by (simp add: pgsql_compileUpsert_def pgsql_plainInsert_def)
  next
    case (Cons row rows)
    have wf: "\<forall>kv \<in> set (conf_UpdateMap (ins_Conflict stmt)). pg_name (fst kv) \<and> pg_wf_set (snd kv)"
      "\<forall>c \<in> set (conf_Columns (ins_Conflict stmt)). pg_name c"
      "\<forall>c \<in> set (conf_Update (ins_Conflict stmt)). pg_name c" "\<forall>kv \<in> set row. pg_name (fst kv)"
      using assms Cons by (auto simp: pg_wf_statement_def)
    show ?thesis
      unfolding pgsql_compileUpsert_def
    proof (rule res_all_bindI [OF plain], unfold Cons list.case,
        rule res_all_bind_prodI [OF pg_conflict [OF wf]], unfold res_all_simps, rule pg_compiledI)
      fix q sql args
      assume q: "pg_compiled q"
        and u: "case (sql, args) of (sql, args) \<Rightarrow> pg_frag (length (c_Args q) + 1) (sql, args) \<and> no_digit sql"
      have q': "pg_ok 1 (c_SQL q, c_Args q, length (c_Args q) + 1)" using q by (simp add: pg_compiled_def)
      have u': "pg_ok (length (c_Args q) + 1) (sql, args, length (c_Args q) + 1 + length args)" "no_digit sql"
        using u by simp_all
      show "pg_ok 1 (c_SQL q @ '' on conflict (''
          @ join '', '' (map pgsql_QuoteIdent (conf_Columns (ins_Conflict stmt))) @ '')''
          @ sql @ (if ins_Returning stmt then '' returning *'' else ''''), c_Args q @ args,
          length (c_Args q) + 1 + length args)"
        using pg_ok_append [OF pg_ok_text [OF cols], of "'')'' @ sql @ (if ins_Returning stmt then '' returning *'' else '''')" _ args]
          u' pg_ok_append [OF q', of "'' on conflict ('' @ join '', '' (map pgsql_QuoteIdent (conf_Columns (ins_Conflict stmt)))
            @ '')'' @ sql @ (if ins_Returning stmt then '' returning *'' else '''')" args]
        by (simp add: pg_scan_simps pg_ok_append_text)
    qed
  qed
qed

lemma pg_where:
  "1 \<le> a \<Longrightarrow> \<forall>c \<in> set cs. pg_wf_condition c \<Longrightarrow> res_all (pg_frag a) (pgsql_compileWhere m cs a)"
  using pgsql_compile_ok(10) by blast

lemma pg_update:
  assumes "pg_wf_statement (StmtUpdate stmt)"
  shows "res_all pg_compiled (pgsql_compileUpdate m stmt)"
proof -
  obtain sets args b where sets: "pgsql_compileSets (upd_Values stmt) (sortedKeys (upd_Values stmt)) 1 = (sets, args, b)"
    by (metis prod_cases3)
  have ok: "pg_ok 1 (join '', '' sets, args, b)"
    using assms by (intro pg_sets_join [OF _ sets]) (simp add: pg_wf_statement_def)
  have b: "1 \<le> b" using pg_ok_next [OF ok] by simp
  have wf: "\<forall>c \<in> set (upd_Where stmt). pg_wf_condition c" "pg_name (upd_Table stmt)"
    using assms by (simp_all add: pg_wf_statement_def)
  have full: "pg_ok 1 (''update '' @ pgsql_QuoteIdent (upd_Table stmt) @ '' set '' @ join '', '' sets
      @ (if wh \<noteq> [] then '' where '' @ wh else ''''), args @ wa, b + length wa)" if "pg_frag b (wh, wa)" for wh wa
    using pg_ok_append [OF ok, of "if wh \<noteq> [] then '' where '' @ wh else ''''" wa "b + length wa"] that wf(2)
    by (cases "wh = []") (simp_all add: pg_scan_simps)
  show ?thesis
    unfolding pgsql_compileUpdate_def sets Let_def prod.case
    by (intro res_all_ifI, simp, rule res_all_bind_prodI [OF pg_where [OF b wf(1)]])
       (simp only: res_all_simps pg_compiledI [OF full])
qed

lemma pg_delete:
  assumes "pg_wf_statement (StmtDelete stmt)"
  shows "res_all pg_compiled (pgsql_compileDelete m stmt)"
proof -
  have wf: "\<forall>c \<in> set (del_Where stmt). pg_wf_condition c" "pg_name (del_Table stmt)"
    using assms by (simp_all add: pg_wf_statement_def)
  have full: "pg_ok 1 (''delete from '' @ pgsql_QuoteIdent (del_Table stmt)
      @ (if wh \<noteq> [] then '' where '' @ wh else ''''), wa, 1 + length wa)" if "pg_frag 1 (wh, wa)" for wh wa
    using that wf(2) by (auto simp: pg_scan_simps)
  show ?thesis
    unfolding pgsql_compileDelete_def
    by (rule res_all_bind_prodI [OF pg_where [OF order_refl wf(1)]])
       (simp only: res_all_simps pg_compiledI [OF full])
qed

section \<open>Properties\<close>


definition pg_example_select :: select_ast where
  "pg_example_select = table_select ''products''
     [Condition '''' ''name'' ''='' (AString ''x'') [] '''',
      Condition ''and'' ''id'' ''in'' (ASourcePtr (SourceAST '''' ''''
        (Some (table_select ''tags'' [Condition '''' ''label like ?'' ''raw'' (AList [AString ''a%'']) [] '''',
                                      Condition ''or'' ''n'' ''='' (AInt64 2) [] ''''])) None)) [] '''']"


definition pg_question_name :: select_ast where
  "pg_question_name = table_select ''a''
     [Condition '''' ''x'' ''='' (AString ''u'') [] '''',
      Condition ''and'' ''y'' ''in'' (ASourcePtr (SourceAST '''' ''''
        (Some (table_select ''b?'' [Condition '''' ''z'' ''='' (AString ''v'') [] ''''])) None)) [] '''']"

text \<open>
  the condition on names cannot be dropped. A question mark in a table name of a sub-query
  makes the renumbering skip the sub-query's own placeholder and turn the question mark of the
  name into a number instead, so that two different arguments are both referred to as the first.
\<close>

theorem pgsql_question_mark_in_name:
  "\<exists>sql. pgsql_Compile (\<lambda>_. Inr ''{}'') (StmtSelect pg_question_name) =
       Inr \<lparr>c_SQL = sql, c_Args = [AString ''u'', AString ''v'']\<rparr> \<and>
     pg_numbers PgPlain sql = [1, 1]"
proof -
  let ?sql = "''select * from '' @ pgsql_QuoteIdent ''a'' @ '' where ''
      @ pgsql_QuoteIdent ''x'' @ '' = $1 and '' @ pgsql_QuoteIdent ''y''
      @ '' in (select * from '' @ pgsql_QuoteIdent ''b$2'' @ '' where '' @ pgsql_QuoteIdent ''z'' @ '' = $1)''"
  have c: "pgsql_Compile (\<lambda>_. Inr ''{}'') (StmtSelect pg_question_name) =
      Inr \<lparr>c_SQL = ?sql, c_Args = [AString ''u'', AString ''v'']\<rparr>" by code_simp
  have "pg_numbers PgPlain ?sql = [1, 1]" by code_simp
  with c show ?thesis by blast
qed

text \<open>
  a raw assignment is passed on as it is, whatever its arguments: a question mark in it is
  sent to PostgreSQL as a question mark and never becomes a numbered placeholder.
\<close>

theorem pgsql_raw_set_not_renumbered:
  "pgsql_compileUpdate m \<lparr>upd_Table = t, upd_Values = [(col, ARawExpr (RawSpec sql args))], upd_Where = []\<rparr> =
     Inr \<lparr>c_SQL = ''update '' @ pgsql_QuoteIdent t @ '' set '' @ pgsql_QuoteIdent col @ '' = '' @ sql,
          c_Args = args\<rparr>"
  by (simp add: pgsql_compileUpdate_def pgsql_compileSet_def sortedKeys_def keys_of_def map_get_def
      pgsql_compileWhere.simps pgsql_compileConditions.simps)

end
