(* ===== verification/Where_Builder.thy ===== *)
theory Where_Builder
  imports Query_Util
begin

text \<open>
  Conditions as a program builds them: where.go (condition constructors and \<open>WhereBuilder\<close>),
  the field, JSON and full-text expressions of expression.go, and the join builder of join.go.
  A sub-query argument (\<open>QuerySource\<close>) is given by what its \<open>sourceAST()\<close> returns. A callback
  \<open>func(w *WhereBuilder)\<close> is a function from builders to builders, nil is \<open>None\<close>.
\<close>

section \<open>Conditions (where.go)\<close>

text \<open>A composite literal \<open>Condition{Field: f, Op: op, Value: v}\<close>.\<close>

definition mk_cond :: "string \<Rightarrow> string \<Rightarrow> goany \<Rightarrow> condition" where
  "mk_cond field op value = Condition [] field op value [] []"

definition withBool :: "string \<Rightarrow> condition \<Rightarrow> condition" where
  "withBool boolOp c =
     (if cond_Bool c = []
      then Condition boolOp (cond_Field c) (cond_Op c) (cond_Value c) (cond_Conditions c) (cond_Escape c)
      else c)"

definition conditionsWithBool :: "string \<Rightarrow> condition list \<Rightarrow> condition list" where
  "conditionsWithBool boolOp conditions = map (withBool (if boolOp = [] then ''and'' else boolOp)) conditions"

definition And_cond :: "condition list \<Rightarrow> condition" where
  "And_cond conditions = Condition [] [] ''group'' ANil (conditionsWithBool ''and'' conditions) []"

definition Or_cond :: "condition list \<Rightarrow> condition" where
  "Or_cond conditions = Condition [] [] ''group'' ANil (conditionsWithBool ''or'' conditions) []"

definition Not_cond :: "condition \<Rightarrow> condition" where
  "Not_cond condition = Condition [] [] ''not'' ANil [condition] []"

definition RawCondition :: "string \<Rightarrow> goany list \<Rightarrow> condition" where
  "RawCondition sql args = mk_cond sql ''raw'' (AList args)"

definition conditionRaw :: "raw_sql \<Rightarrow> condition" where
  "conditionRaw raw = RawCondition (raw_SQL raw) (raw_Args raw)"

definition invalidCondition :: "string \<Rightarrow> goany \<Rightarrow> condition" where
  "invalidCondition op field =
     mk_cond [] ''invalid''
       (AError (mk_field_error op ErrInvalidArgument (case field of AString name \<Rightarrow> name | _ \<Rightarrow> [])))"

text \<open>The loop over further conditions: every argument must be a condition.\<close>

fun further_conditions :: "goany list \<Rightarrow> condition list result" where
  "further_conditions [] = Inr []"
| "further_conditions (arg # args) =
     (case arg of
        ACondition c \<Rightarrow> bind_res (further_conditions args) (\<lambda>cs. Inr (c # cs))
      | _ \<Rightarrow> Inl (mk_error ''where'' ErrInvalidArgument))"

definition field_conditions :: "string \<Rightarrow> goany list \<Rightarrow> condition option result" where
  "field_conditions fieldName args =
     (case args of
        [v] \<Rightarrow> Inr (Some (mk_cond fieldName ''='' v))
      | [op, v] \<Rightarrow>
          (case op of
             AString opText \<Rightarrow>
               (if IsSafeConditionOperator opText then Inr (Some (mk_cond fieldName opText v))
                else Inl (mk_field_error ''where'' ErrInvalidArgument fieldName))
           | _ \<Rightarrow> Inl (mk_field_error ''where'' ErrInvalidArgument fieldName))
      | _ \<Rightarrow> Inr None)"

definition buildConditions :: "goany \<Rightarrow> goany list \<Rightarrow> condition list result" where
  "buildConditions field args =
     (case field of
        ACondition c \<Rightarrow> bind_res (further_conditions args) (\<lambda>cs. Inr (c # cs))
      | AString fieldName \<Rightarrow>
          (if fieldName = [] then Inl (mk_error ''where'' ErrInvalidArgument)
           else bind_res (field_conditions fieldName args) (\<lambda>r.
             case r of Some c \<Rightarrow> Inr [c] | None \<Rightarrow> Inl (mk_field_error ''where'' ErrInvalidArgument fieldName)))
      | _ \<Rightarrow> Inl (mk_error ''where'' ErrInvalidArgument))"

definition buildCondition :: "goany \<Rightarrow> goany list \<Rightarrow> condition" where
  "buildCondition field args =
     (case buildConditions field args of
        Inl _ \<Rightarrow> invalidCondition ''where'' field
      | Inr [c] \<Rightarrow> c
      | Inr cs \<Rightarrow> And_cond cs)"

text \<open>\<open>None\<close> is the result \<open>ok == false\<close> without an error.\<close>

definition buildSingleCondition :: "goany \<Rightarrow> goany list \<Rightarrow> condition option result" where
  "buildSingleCondition field args =
     (case field of
        ACondition c \<Rightarrow> Inr (if args = [] then Some c else None)
      | AString fieldName \<Rightarrow>
          (if fieldName = [] then Inl (mk_error ''where'' ErrInvalidArgument) else field_conditions fieldName args)
      | _ \<Rightarrow> Inl (mk_error ''where'' ErrInvalidArgument))"

definition buildConditionFromRawOrCondition :: "goany \<Rightarrow> goany list \<Rightarrow> condition option" where
  "buildConditionFromRawOrCondition field args =
     (case field of
        ARawExpr raw \<Rightarrow> (if args = [] then Some (conditionRaw raw) else None)
      | ACondition c \<Rightarrow> (if args = [] then Some c else None)
      | _ \<Rightarrow> None)"

text \<open>The conditions \<open>appendWhereCondition\<close> appends, and the function itself.\<close>

definition whereConditions :: "string \<Rightarrow> goany \<Rightarrow> goany list \<Rightarrow> condition list result" where
  "whereConditions boolOp field args =
     (case buildConditionFromRawOrCondition field args of
        Some c \<Rightarrow> Inr [withBool boolOp c]
      | None \<Rightarrow>
          (case buildSingleCondition field args of
             Inl err \<Rightarrow> Inl err
           | Inr (Some c) \<Rightarrow> Inr [withBool boolOp c]
           | Inr None \<Rightarrow> bind_res (buildConditions field args) (\<lambda>built. Inr (conditionsWithBool boolOp built))))"

definition appendWhereCondition :: "condition list \<Rightarrow> string \<Rightarrow> goany \<Rightarrow> goany list \<Rightarrow> condition list result" where
  "appendWhereCondition conditions boolOp field args =
     bind_res (whereConditions boolOp field args) (\<lambda>new. Inr (conditions @ new))"

definition buildColumnCondition :: "string \<Rightarrow> string list \<Rightarrow> condition" where
  "buildColumnCondition left args =
     (case args of
        [] \<Rightarrow> mk_cond left ''column'' (AColumnCondition ''='' [])
      | [right] \<Rightarrow> mk_cond left ''column'' (AColumnCondition ''='' right)
      | op # right # _ \<Rightarrow>
          (if IsSafeColumnOperator op then mk_cond left ''column'' (AColumnCondition op right)
           else invalidCondition ''where'' (AString left)))"

definition buildInCondition :: "string \<Rightarrow> source_ast \<Rightarrow> condition" where
  "buildInCondition field source = mk_cond field ''in'' (ASourcePtr source)"

definition buildExistsCondition :: "source_ast \<Rightarrow> condition" where
  "buildExistsCondition source = mk_cond [] ''exists'' (ASourcePtr source)"

definition isNullCondition :: "string \<Rightarrow> condition" where
  "isNullCondition field = mk_cond field ''is null'' ANil"

definition isNotNullCondition :: "string \<Rightarrow> condition" where
  "isNotNullCondition field = mk_cond field ''is not null'' ANil"

section \<open>The group builder (where.go)\<close>

record where_builder =
  wb_conditions :: "condition list"
  wb_err :: "go_error option"

definition empty_builder :: where_builder where
  "empty_builder = \<lparr>wb_conditions = [], wb_err = None\<rparr>"

definition builder_where :: "string \<Rightarrow> goany \<Rightarrow> goany list \<Rightarrow> where_builder \<Rightarrow> where_builder" where
  "builder_where boolOp field args builder =
     (case appendWhereCondition (wb_conditions builder) boolOp field args of
        Inl err \<Rightarrow> builder\<lparr>wb_err := Some err\<rparr>
      | Inr conditions \<Rightarrow> builder\<lparr>wb_conditions := conditions\<rparr>)"

definition builder_Where :: "goany \<Rightarrow> goany list \<Rightarrow> where_builder \<Rightarrow> where_builder" where
  "builder_Where field args builder = builder_where ''and'' field args builder"

definition builder_OrWhere :: "goany \<Rightarrow> goany list \<Rightarrow> where_builder \<Rightarrow> where_builder" where
  "builder_OrWhere field args builder = builder_where ''or'' field args builder"

definition builder_add :: "string \<Rightarrow> condition \<Rightarrow> where_builder \<Rightarrow> where_builder" where
  "builder_add boolOp c builder = builder\<lparr>wb_conditions := wb_conditions builder @ [withBool boolOp c]\<rparr>"

definition builder_WhereColumn :: "string \<Rightarrow> string list \<Rightarrow> where_builder \<Rightarrow> where_builder" where
  "builder_WhereColumn left args = builder_add ''and'' (buildColumnCondition left args)"

definition builder_OrWhereColumn :: "string \<Rightarrow> string list \<Rightarrow> where_builder \<Rightarrow> where_builder" where
  "builder_OrWhereColumn left args = builder_add ''or'' (buildColumnCondition left args)"

definition builder_WhereExists :: "source_ast \<Rightarrow> where_builder \<Rightarrow> where_builder" where
  "builder_WhereExists source = builder_add ''and'' (buildExistsCondition source)"

definition builder_OrWhereExists :: "source_ast \<Rightarrow> where_builder \<Rightarrow> where_builder" where
  "builder_OrWhereExists source = builder_add ''or'' (buildExistsCondition source)"

definition builder_WhereIn :: "string \<Rightarrow> source_ast \<Rightarrow> where_builder \<Rightarrow> where_builder" where
  "builder_WhereIn field source = builder_add ''and'' (buildInCondition field source)"

definition builder_OrWhereIn :: "string \<Rightarrow> source_ast \<Rightarrow> where_builder \<Rightarrow> where_builder" where
  "builder_OrWhereIn field source = builder_add ''or'' (buildInCondition field source)"

definition builder_WhereRaw :: "string \<Rightarrow> goany list \<Rightarrow> where_builder \<Rightarrow> where_builder" where
  "builder_WhereRaw sql args = builder_add ''and'' (RawCondition sql args)"

definition builder_OrWhereRaw :: "string \<Rightarrow> goany list \<Rightarrow> where_builder \<Rightarrow> where_builder" where
  "builder_OrWhereRaw sql args = builder_add ''or'' (RawCondition sql args)"

type_synonym where_callback = "(where_builder \<Rightarrow> where_builder) option"

definition builder_whereGroup :: "string \<Rightarrow> where_callback \<Rightarrow> where_builder \<Rightarrow> where_builder" where
  "builder_whereGroup boolOp fn builder =
     (case fn of
        None \<Rightarrow> builder
      | Some f \<Rightarrow>
          (let grp = f empty_builder in
           case wb_err grp of
             Some err \<Rightarrow> builder\<lparr>wb_err := Some err\<rparr>
           | None \<Rightarrow>
               if wb_conditions grp = [] then builder
               else builder\<lparr>wb_conditions := wb_conditions builder
                             @ [Condition boolOp [] ''group'' ANil (wb_conditions grp) []]\<rparr>))"

definition builder_WhereGroup :: "where_callback \<Rightarrow> where_builder \<Rightarrow> where_builder" where
  "builder_WhereGroup fn = builder_whereGroup ''and'' fn"

definition builder_OrWhereGroup :: "where_callback \<Rightarrow> where_builder \<Rightarrow> where_builder" where
  "builder_OrWhereGroup fn = builder_whereGroup ''or'' fn"

definition builder_WhereWhen :: "bool \<Rightarrow> where_callback \<Rightarrow> where_builder \<Rightarrow> where_builder" where
  "builder_WhereWhen condition fn builder = (if \<not> condition then builder else builder_WhereGroup fn builder)"

definition buildWhereGroup :: "string \<Rightarrow> where_callback \<Rightarrow> condition" where
  "buildWhereGroup op fn =
     (let builder = (case fn of None \<Rightarrow> empty_builder | Some f \<Rightarrow> f empty_builder) in
      case wb_err builder of
        Some err \<Rightarrow> mk_cond [] ''invalid'' (AError err)
      | None \<Rightarrow>
          if wb_conditions builder = [] then mk_cond [] ''empty_group'' ANil
          else Condition op [] ''group'' ANil (wb_conditions builder) [])"

section \<open>Field expressions (expression.go)\<close>

record field_expr =
  fe_Name :: string
  fe_Alias :: string

definition Field_expr :: "string \<Rightarrow> field_expr" where
  "Field_expr name = \<lparr>fe_Name = name, fe_Alias = []\<rparr>"

definition As_expr :: "string \<Rightarrow> string \<Rightarrow> field_expr" where
  "As_expr field al = \<lparr>fe_Name = field, fe_Alias = al\<rparr>"

definition field_Eq :: "field_expr \<Rightarrow> goany \<Rightarrow> condition" where
  "field_Eq field value = mk_cond (fe_Name field) ''='' value"

definition field_NotEq :: "field_expr \<Rightarrow> goany \<Rightarrow> condition" where
  "field_NotEq field value = mk_cond (fe_Name field) ''!='' value"

definition field_Gt :: "field_expr \<Rightarrow> goany \<Rightarrow> condition" where
  "field_Gt field value = mk_cond (fe_Name field) ''>'' value"

definition field_Gte :: "field_expr \<Rightarrow> goany \<Rightarrow> condition" where
  "field_Gte field value = mk_cond (fe_Name field) ''>='' value"

definition field_Lt :: "field_expr \<Rightarrow> goany \<Rightarrow> condition" where
  "field_Lt field value = mk_cond (fe_Name field) ''<'' value"

definition field_Lte :: "field_expr \<Rightarrow> goany \<Rightarrow> condition" where
  "field_Lte field value = mk_cond (fe_Name field) ''<='' value"

definition field_Like :: "field_expr \<Rightarrow> goany \<Rightarrow> condition" where
  "field_Like field value = mk_cond (fe_Name field) ''like'' value"

definition field_NotLike :: "field_expr \<Rightarrow> goany \<Rightarrow> condition" where
  "field_NotLike field value = mk_cond (fe_Name field) ''not like'' value"

definition like_escaped :: "field_expr \<Rightarrow> string \<Rightarrow> condition" where
  "like_escaped field pattern = Condition [] (fe_Name field) ''like'' (AString pattern) [] [CHR 0x5C]"

definition field_Contains :: "field_expr \<Rightarrow> string \<Rightarrow> condition" where
  "field_Contains field value = like_escaped field (''%'' @ EscapeLike value @ ''%'')"

definition field_StartsWith :: "field_expr \<Rightarrow> string \<Rightarrow> condition" where
  "field_StartsWith field value = like_escaped field (EscapeLike value @ ''%'')"

definition field_EndsWith :: "field_expr \<Rightarrow> string \<Rightarrow> condition" where
  "field_EndsWith field value = like_escaped field (''%'' @ EscapeLike value)"

definition field_In :: "field_expr \<Rightarrow> goany list \<Rightarrow> condition" where
  "field_In field values = mk_cond (fe_Name field) ''in_values'' (AList values)"

definition field_NotIn :: "field_expr \<Rightarrow> goany list \<Rightarrow> condition" where
  "field_NotIn field values = mk_cond (fe_Name field) ''not_in_values'' (AList values)"

definition field_Between :: "field_expr \<Rightarrow> goany \<Rightarrow> goany \<Rightarrow> condition" where
  "field_Between field start end = mk_cond (fe_Name field) ''between'' (AList [start, end])"

definition field_NotBetween :: "field_expr \<Rightarrow> goany \<Rightarrow> goany \<Rightarrow> condition" where
  "field_NotBetween field start end = Not_cond (field_Between field start end)"

definition field_IsNull :: "field_expr \<Rightarrow> condition" where
  "field_IsNull field = isNullCondition (fe_Name field)"

definition field_IsNotNull :: "field_expr \<Rightarrow> condition" where
  "field_IsNotNull field = isNotNullCondition (fe_Name field)"

definition field_EqCol :: "field_expr \<Rightarrow> string \<Rightarrow> condition" where
  "field_EqCol field right = buildColumnCondition (fe_Name field) [''='', right]"

definition field_NotEqCol :: "field_expr \<Rightarrow> string \<Rightarrow> condition" where
  "field_NotEqCol field right = buildColumnCondition (fe_Name field) [''!='', right]"

definition field_GtCol :: "field_expr \<Rightarrow> string \<Rightarrow> condition" where
  "field_GtCol field right = buildColumnCondition (fe_Name field) [''>'', right]"

definition field_GteCol :: "field_expr \<Rightarrow> string \<Rightarrow> condition" where
  "field_GteCol field right = buildColumnCondition (fe_Name field) [''>='', right]"

definition field_LtCol :: "field_expr \<Rightarrow> string \<Rightarrow> condition" where
  "field_LtCol field right = buildColumnCondition (fe_Name field) [''<'', right]"

definition field_LteCol :: "field_expr \<Rightarrow> string \<Rightarrow> condition" where
  "field_LteCol field right = buildColumnCondition (fe_Name field) [''<='', right]"

record json_path =
  jp_Field :: string
  jp_Parts :: "string list"

definition JSON_Path :: "string \<Rightarrow> string list \<Rightarrow> json_path" where
  "JSON_Path field parts = \<lparr>jp_Field = field, jp_Parts = parts\<rparr>"

definition jsonCondition :: "json_path \<Rightarrow> string \<Rightarrow> goany \<Rightarrow> condition" where
  "jsonCondition path op value =
     mk_cond (jp_Field path) ''json'' (AJSONCondition (jp_Field path) (jp_Parts path) op value)"

definition path_Eq :: "json_path \<Rightarrow> goany \<Rightarrow> condition" where
  "path_Eq path value = jsonCondition path ''='' value"

definition path_NotEq :: "json_path \<Rightarrow> goany \<Rightarrow> condition" where
  "path_NotEq path value = jsonCondition path ''!='' value"

definition path_IsNull :: "json_path \<Rightarrow> condition" where
  "path_IsNull path = jsonCondition path ''is null'' ANil"

definition path_IsNotNull :: "json_path \<Rightarrow> condition" where
  "path_IsNotNull path = jsonCondition path ''is not null'' ANil"

definition path_Exists :: "json_path \<Rightarrow> condition" where
  "path_Exists path = jsonCondition path ''exists'' ANil"

definition path_Contains :: "json_path \<Rightarrow> goany \<Rightarrow> condition" where
  "path_Contains path value = jsonCondition path ''contains'' value"

definition path_Like :: "json_path \<Rightarrow> goany \<Rightarrow> condition" where
  "path_Like path value = jsonCondition path ''like'' value"

definition FullText_Match :: "string list \<Rightarrow> string \<Rightarrow> condition" where
  "FullText_Match fs query = mk_cond [] ''fulltext'' (AFullTextExpr fs query [] False)"

definition FullText_Score :: "string list \<Rightarrow> string \<Rightarrow> string \<Rightarrow> goany" where
  "FullText_Score fs al query = AFullTextExpr fs query al True"

text \<open>
  \<open>selectExprs\<close>. \<open>relation_alias\<close> tells a \<open>RelationAggregateExpr\<close>, a struct with a callback, from
  the other values of type \<open>AOther\<close> and gives its alias. A \<open>QuerySource\<close> is \<open>ASource\<close>.
\<close>

fun selectExprs :: "(string \<Rightarrow> string option) \<Rightarrow> goany list \<Rightarrow> sel_item list result" where
  "selectExprs relation_alias [] = Inr []"
| "selectExprs relation_alias (item # items) =
     bind_res
       (case item of
          AString s \<Rightarrow> Inr (SelectExpr s [] False [] None)
        | AFieldExpr name al \<Rightarrow> Inr (SelectExpr name al False [] None)
        | ARawExpr raw \<Rightarrow> Inr (SelectExpr (raw_SQL raw) [] True (raw_Args raw) None)
        | AAggregateExpr func field al \<Rightarrow> Inr (SelectExpr ''__oro_aggregate__'' al False [item] None)
        | AFullTextExpr fs query al score \<Rightarrow> Inr (SelectExpr ''__oro_fulltext_score__'' al True [item] None)
        | ASource source \<Rightarrow> Inr (SelectExpr [] (src_Alias source) False [] (Some source))
        | AOther s \<Rightarrow>
            (case relation_alias s of
               Some al \<Rightarrow> Inr (SelectExpr ''__oro_relation_aggregate__'' al True [item] None)
             | None \<Rightarrow> Inl (mk_error ''select'' ErrInvalidArgument))
        | _ \<Rightarrow> Inl (mk_error ''select'' ErrInvalidArgument))
     (\<lambda>expr. bind_res (selectExprs relation_alias items) (\<lambda>exprs. Inr (expr # exprs)))"

definition orderExprs :: "bool \<Rightarrow> string list \<Rightarrow> order_item list" where
  "orderExprs desc fs = map (\<lambda>field. OrderExpr field desc False []) fs"

section \<open>Joins (join.go)\<close>

definition buildJoinColumnCondition :: "string \<Rightarrow> string \<Rightarrow> string list \<Rightarrow> join_cond" where
  "buildJoinColumnCondition boolOp left args =
     (case args of
        [] \<Rightarrow> JoinCondition boolOp left ''='' [] ANil True [] None
      | [right] \<Rightarrow> JoinCondition boolOp left ''='' right ANil True [] None
      | op # right # _ \<Rightarrow>
          (if IsSafeColumnOperator op then JoinCondition boolOp left op right ANil True [] None
           else JoinCondition boolOp left ''='' [] ANil True []
                  (Some (mk_field_error ''join'' ErrInvalidArgument left))))"

definition buildJoinValueCondition :: "string \<Rightarrow> string \<Rightarrow> goany list \<Rightarrow> join_cond" where
  "buildJoinValueCondition boolOp field args =
     (case args of
        [] \<Rightarrow> JoinCondition boolOp field ''='' [] ANil False [] None
      | [value] \<Rightarrow> JoinCondition boolOp field ''='' [] value False [] None
      | opArg # value # _ \<Rightarrow>
          (let op = (case opArg of AString s \<Rightarrow> s | _ \<Rightarrow> []) in
           if IsSafeConditionOperator op then JoinCondition boolOp field op [] value False [] None
           else JoinCondition boolOp field ''='' [] ANil False []
                  (Some (mk_field_error ''join'' ErrInvalidArgument field))))"

definition join_add :: "join_cond \<Rightarrow> join_item \<Rightarrow> join_item" where
  "join_add c j =
     JoinAST (join_Type j) (join_Table j) (join_Alias j) (join_Source j) (join_Raw j) (join_Err j) (join_Conditions j @ [c])"

definition join_As :: "string \<Rightarrow> join_item \<Rightarrow> join_item" where
  "join_As al j =
     JoinAST (join_Type j) (join_Table j) al (join_Source j) (join_Raw j) (join_Err j) (join_Conditions j)"

definition join_OnColumn :: "string \<Rightarrow> string list \<Rightarrow> join_item \<Rightarrow> join_item" where
  "join_OnColumn left args = join_add (buildJoinColumnCondition ''and'' left args)"

definition join_OrOnColumn :: "string \<Rightarrow> string list \<Rightarrow> join_item \<Rightarrow> join_item" where
  "join_OrOnColumn left args = join_add (buildJoinColumnCondition ''or'' left args)"

definition join_Where :: "string \<Rightarrow> goany list \<Rightarrow> join_item \<Rightarrow> join_item" where
  "join_Where field args = join_add (buildJoinValueCondition ''and'' field args)"

definition join_OrWhere :: "string \<Rightarrow> goany list \<Rightarrow> join_item \<Rightarrow> join_item" where
  "join_OrWhere field args = join_add (buildJoinValueCondition ''or'' field args)"

definition zero_join :: "join_type \<Rightarrow> join_item" where
  "zero_join joinType = JoinAST joinType [] [] (SourceAST [] [] None None) None None []"

definition join_WhereGroup :: "(join_item \<Rightarrow> join_item) option \<Rightarrow> join_item \<Rightarrow> join_item" where
  "join_WhereGroup fn j =
     (case fn of
        None \<Rightarrow> j
      | Some f \<Rightarrow>
          (let grp = f (zero_join (JoinTypeOther 0)) in
           if join_Conditions grp = [] then j
           else join_add (JoinCondition ''and'' [] [] [] ANil False (join_Conditions grp) None) j))"

text \<open>The source of a join: a table name, a value with \<open>sourceAST()\<close>, or neither.\<close>

definition buildJoin :: "join_type \<Rightarrow> goany \<Rightarrow> (join_item \<Rightarrow> join_item) option \<Rightarrow> join_item" where
  "buildJoin joinType source fn =
     (let j = (case source of
                 AString table \<Rightarrow> JoinAST joinType table [] (SourceAST [] [] None None) None None []
               | ASource s \<Rightarrow> JoinAST joinType [] [] s None None []
               | _ \<Rightarrow> JoinAST joinType [] [] (SourceAST [] [] None None) None
                        (Some (mk_error ''join'' ErrInvalidArgument)) [])
      in case fn of None \<Rightarrow> j | Some f \<Rightarrow> f j)"

end
