(* ===== verification/Fifo_Cache.thy ===== *)
theory Fifo_Cache
  imports Oro_Prelude "HOL-Library.AList" "HOL-Library.Multiset"
begin

text \<open>
  The bounded first-in first-out cache of internal/fifocache, which holds compiled SQL and scan
  plans. The map is an association list with distinct keys, the slice \<open>order\<close> a list with the
  oldest key first, and a nil cache is \<open>None\<close>. The eviction callback is the list of values it is
  called with. Every operation takes the lock for its whole body, so an operation is one step.

  The cache refines a queue of key-value pairs; what a client may rely on is the locale
  \<open>bounded_store\<close>.
\<close>

record ('k, 'v) fifo_cache =
  fc_maxSize :: int
  fc_items :: "('k \<times> 'v) list"
  fc_order :: "'k list"
  fc_onEvict :: bool

definition fifo_New :: "int \<Rightarrow> bool \<Rightarrow> ('k, 'v) fifo_cache option" where
  "fifo_New maxSize onEvict =
     (if maxSize \<le> 0 then None
      else Some \<lparr>fc_maxSize = maxSize, fc_items = [], fc_order = [], fc_onEvict = onEvict\<rparr>)"

definition fifo_Get :: "('k, 'v) fifo_cache option \<Rightarrow> 'k \<Rightarrow> 'v option" where
  "fifo_Get cache key = (case cache of None \<Rightarrow> None | Some c \<Rightarrow> map_of (fc_items c) key)"

definition fifo_setLocked :: "('k, 'v) fifo_cache \<Rightarrow> 'k \<Rightarrow> 'v \<Rightarrow> ('k, 'v) fifo_cache \<times> 'v list" where
  "fifo_setLocked cache key value =
     (if map_of (fc_items cache) key \<noteq> None
      then (cache\<lparr>fc_items := AList.update key value (fc_items cache)\<rparr>, [])
      else
        let (cache', evicted) =
          (if fc_maxSize cache \<le> int (length (fc_items cache)) \<and> fc_order cache \<noteq> [] then
             (let oldest = hd (fc_order cache)
              in (cache\<lparr>fc_order := tl (fc_order cache), fc_items := AList.delete oldest (fc_items cache)\<rparr>,
                  case map_of (fc_items cache) oldest of
                    Some oldValue \<Rightarrow> (if fc_onEvict cache then [oldValue] else [])
                  | None \<Rightarrow> []))
           else (cache, []))
        in (cache'\<lparr>fc_items := AList.update key value (fc_items cache'),
                   fc_order := fc_order cache' @ [key]\<rparr>, evicted))"

definition fifo_Set :: "('k, 'v) fifo_cache option \<Rightarrow> 'k \<Rightarrow> 'v \<Rightarrow> ('k, 'v) fifo_cache option \<times> 'v list" where
  "fifo_Set cache key value =
     (case cache of
        None \<Rightarrow> (None, [])
      | Some c \<Rightarrow> (case fifo_setLocked c key value of (c', evicted) \<Rightarrow> (Some c', evicted)))"

text \<open>The value and whether it was there before; a nil cache returns the zero value.\<close>

definition fifo_SetIfAbsent :: "'v \<Rightarrow> ('k, 'v) fifo_cache option \<Rightarrow> 'k \<Rightarrow> 'v \<Rightarrow>
    ('v \<times> bool) \<times> ('k, 'v) fifo_cache option \<times> 'v list" where
  "fifo_SetIfAbsent zero cache key value =
     (case cache of
        None \<Rightarrow> ((zero, False), None, [])
      | Some c \<Rightarrow>
          (case map_of (fc_items c) key of
             Some existing \<Rightarrow> ((existing, True), Some c, [])
           | None \<Rightarrow> (case fifo_setLocked c key value of (c', evicted) \<Rightarrow> ((value, False), Some c', evicted))))"

text \<open>The values come out in the iteration order of a Go map; the list is one such order.\<close>

definition fifo_Clear :: "('k, 'v) fifo_cache option \<Rightarrow> 'v list \<times> ('k, 'v) fifo_cache option" where
  "fifo_Clear cache =
     (case cache of
        None \<Rightarrow> ([], None)
      | Some c \<Rightarrow> (map snd (fc_items c), Some (c\<lparr>fc_items := [], fc_order := []\<rparr>)))"

section \<open>Invariant and refinement\<close>

definition fifo_inv :: "('k, 'v) fifo_cache \<Rightarrow> bool" where
  "fifo_inv c \<longleftrightarrow> 0 < fc_maxSize c \<and> distinct (map fst (fc_items c)) \<and> distinct (fc_order c) \<and>
     set (fc_order c) = fst ` set (fc_items c) \<and> int (length (fc_items c)) \<le> fc_maxSize c"

text \<open>The abstract queue: the pairs in the order they went in.\<close>

definition fifo_queue :: "('k, 'v) fifo_cache \<Rightarrow> ('k \<times> 'v) list" where
  "fifo_queue c = map (\<lambda>k. (k, the (map_of (fc_items c) k))) (fc_order c)"

definition queue_put :: "int \<Rightarrow> 'k \<Rightarrow> 'v \<Rightarrow> ('k \<times> 'v) list \<Rightarrow> ('k \<times> 'v) list" where
  "queue_put maxSize key value q =
     (if key \<in> fst ` set q then map (\<lambda>(k, v). (k, if k = key then value else v)) q
      else (if maxSize \<le> int (length q) then tl q else q) @ [(key, value)])"

lemma fifo_inv_length:
  assumes "fifo_inv c"
  shows "length (fc_order c) = length (fc_items c)"
proof -
  have "distinct (fc_order c)" "distinct (map fst (fc_items c))"
    "set (fc_order c) = set (map fst (fc_items c))"
    using assms by (simp_all add: fifo_inv_def)
  then have "length (fc_order c) = length (map fst (fc_items c))" by (metis distinct_card)
  then show ?thesis by simp
qed

lemma fifo_in_order: "fifo_inv c \<Longrightarrow> k \<in> set (fc_order c) \<longleftrightarrow> map_of (fc_items c) k \<noteq> None"
  by (simp add: fifo_inv_def map_of_eq_None_iff)

lemma map_of_graph: "map_of (map (\<lambda>k. (k, f k)) ks) k = (if k \<in> set ks then Some (f k) else None)"
  by (induction ks) auto

lemma fifo_queue_lookup:
  assumes "fifo_inv c"
  shows "map_of (fifo_queue c) = map_of (fc_items c)"
proof
  fix k
  show "map_of (fifo_queue c) k = map_of (fc_items c) k"
    using fifo_in_order [OF assms, of k] by (auto simp: fifo_queue_def map_of_graph)
qed

lemma fifo_setLocked_cases:
  assumes "fifo_inv c"
  obtains (present) v where "map_of (fc_items c) key = Some v"
      and "fifo_setLocked c key value = (c\<lparr>fc_items := AList.update key value (fc_items c)\<rparr>, [])"
  | (full) oldest rest v where "map_of (fc_items c) key = None" and "fc_order c = oldest # rest"
      and "int (length (fc_items c)) = fc_maxSize c" and "map_of (fc_items c) oldest = Some v"
      and "fifo_setLocked c key value =
        (c\<lparr>fc_items := AList.update key value (AList.delete oldest (fc_items c)), fc_order := rest @ [key]\<rparr>,
         if fc_onEvict c then [v] else [])"
  | (room) "map_of (fc_items c) key = None" and "int (length (fc_items c)) < fc_maxSize c"
      and "fifo_setLocked c key value =
        (c\<lparr>fc_items := AList.update key value (fc_items c), fc_order := fc_order c @ [key]\<rparr>, [])"
proof (cases "map_of (fc_items c) key")
  case (Some v)
  then show ?thesis by (intro present) (simp_all add: fifo_setLocked_def)
next
  case None
  show ?thesis
  proof (cases "int (length (fc_items c)) < fc_maxSize c")
    case True
    with None show ?thesis by (intro room) (simp_all add: fifo_setLocked_def)
  next
    case False
    with assms have size: "int (length (fc_items c)) = fc_maxSize c" "fc_items c \<noteq> []"
      by (auto simp: fifo_inv_def)
    then obtain oldest rest where order: "fc_order c = oldest # rest"
      using fifo_inv_length [OF assms] by (cases "fc_order c") auto
    then obtain v where v: "map_of (fc_items c) oldest = Some v"
      using fifo_in_order [OF assms, of oldest] by auto
    show ?thesis
      by (rule full) (use None order size(1) v in \<open>simp_all add: fifo_setLocked_def Let_def\<close>)
  qed
qed

lemma alist_delete_length:
  assumes "distinct (map fst xs)" and "map_of xs k = Some v"
  shows "length (AList.delete k xs) = length xs - 1"
  using assms
proof (induction xs)
  case Nil
  then show ?case by simp
next
  case (Cons x xs)
  then show ?case by (cases "xs = []") (auto simp: delete_notin_dom [of k xs] split: if_splits)
qed

lemma alist_delete_keys: "fst ` set (AList.delete k xs) = fst ` set xs - {k}"
  by (induction xs) auto

lemma alist_update_length:
  "length (AList.update k v xs) = (if k \<in> fst ` set xs then length xs else Suc (length xs))"
  by (induction xs) auto

lemma fifo_setLocked_inv:
  assumes "fifo_inv c"
  shows "fifo_inv (fst (fifo_setLocked c key value))"
using assms
proof (cases rule: fifo_setLocked_cases [of c key "value"])
  case (present v)
  then have "key \<in> fst ` set (fc_items c)" by (auto dest: map_of_SomeD intro: rev_image_eqI)
  with present assms show ?thesis
    by (auto simp: fifo_inv_def distinct_update dom_update alist_update_length)
next
  case (full oldest rest v)
  have d: "distinct (map fst (fc_items c))" using assms by (simp add: fifo_inv_def)
  have new: "key \<notin> fst ` set (fc_items c)" using full(1) by (simp add: map_of_eq_None_iff)
  have "length (AList.delete oldest (fc_items c)) = length (fc_items c) - 1"
    by (rule alist_delete_length [OF d full(4)])
  moreover have "fst ` set (AList.delete oldest (fc_items c)) = fst ` set (fc_items c) - {oldest}"
    by (rule alist_delete_keys)
  moreover have "fc_items c \<noteq> []" using full(4) by auto
  ultimately show ?thesis
    using full assms new
    by (auto simp: fifo_inv_def distinct_update distinct_delete dom_update alist_update_length)
next
  case room
  then have "key \<notin> fst ` set (fc_items c)" by (simp add: map_of_eq_None_iff)
  with room assms show ?thesis
    by (auto simp: fifo_inv_def distinct_update dom_update alist_update_length)
qed

lemma fifo_setLocked_queue:
  assumes "fifo_inv c"
  shows "fifo_queue (fst (fifo_setLocked c key value)) = queue_put (fc_maxSize c) key value (fifo_queue c)"
proof -
  have keys: "fst ` set (fifo_queue c) = set (fc_order c)" by (force simp: fifo_queue_def)
  have len: "length (fifo_queue c) = length (fc_items c)"
    using fifo_inv_length [OF assms] by (simp add: fifo_queue_def)
  have dist: "distinct (fc_order c)" using assms by (simp add: fifo_inv_def)
  show ?thesis
    using assms
  proof (cases rule: fifo_setLocked_cases [of c key "value"])
    case (present v)
    then show ?thesis
      using fifo_in_order [OF assms, of key] by (auto simp: queue_put_def fifo_queue_def image_image update_conv')
  next
    case (full oldest rest v)
    then have "key \<notin> set (fc_order c)" using fifo_in_order [OF assms, of key] by simp
    then show ?thesis
      using full dist fifo_inv_length [OF assms]
      by (auto simp: queue_put_def image_image fifo_queue_def update_conv' delete_conv')
  next
    case room
    then have "key \<notin> set (fc_order c)" using fifo_in_order [OF assms, of key] by simp
    then show ?thesis
      using room fifo_inv_length [OF assms] by (auto simp: queue_put_def image_image fifo_queue_def update_conv')
  qed
qed

section \<open>The interface clients use\<close>

text \<open>
  A bounded store: a lookup after a store of the same key finds the value, a store never changes
  what is found under another key except by dropping it. A store may refuse an entry
  (\<open>accepts\<close>), and is then unchanged.
\<close>

locale bounded_store =
  fixes lookup :: "'s \<Rightarrow> 'k \<Rightarrow> 'v option"
    and store :: "'s \<Rightarrow> 'k \<Rightarrow> 'v \<Rightarrow> 's"
    and empty :: "'s"
    and inv :: "'s \<Rightarrow> bool"
    and accepts :: "'s \<Rightarrow> 'k \<Rightarrow> 'v \<Rightarrow> bool"
  assumes inv_empty: "inv empty"
    and lookup_empty: "lookup empty k = None"
    and inv_store: "inv s \<Longrightarrow> inv (store s k v)"
    and lookup_store_same: "inv s \<Longrightarrow> accepts s k v \<Longrightarrow> lookup (store s k v) k = Some v"
    and store_ignored: "inv s \<Longrightarrow> \<not> accepts s k v \<Longrightarrow> store s k v = s"
    and lookup_store_other: "inv s \<Longrightarrow> k' \<noteq> k \<Longrightarrow> lookup (store s k v) k' \<in> {None, lookup s k'}"
begin

text \<open>Everything a store shows was put in: a property of the entries is kept by stores.\<close>

definition entries_satisfy :: "('k \<Rightarrow> 'v \<Rightarrow> bool) \<Rightarrow> 's \<Rightarrow> bool" where
  "entries_satisfy P s \<longleftrightarrow> (\<forall>k v. lookup s k = Some v \<longrightarrow> P k v)"

lemma entries_empty: "entries_satisfy P empty"
  by (simp add: entries_satisfy_def lookup_empty)

lemma entries_store:
  assumes "inv s" and "entries_satisfy P s" and "P k v"
  shows "entries_satisfy P (store s k v)"
  unfolding entries_satisfy_def
proof (intro allI impI)
  fix k' v' assume found: "lookup (store s k v) k' = Some v'"
  show "P k' v'"
  proof (cases "accepts s k v \<and> k' = k")
    case True
    with found assms lookup_store_same [of s k v] show ?thesis by simp
  next
    case False
    then have "lookup s k' = Some v'"
      using found lookup_store_other [OF assms(1), of k' k v] store_ignored [OF assms(1), of k v]
      by (cases "k' = k") auto
    with assms(2) show ?thesis by (simp add: entries_satisfy_def)
  qed
qed

end

definition fifo_cache_inv :: "('k, 'v) fifo_cache option \<Rightarrow> bool" where
  "fifo_cache_inv cache \<longleftrightarrow> (case cache of None \<Rightarrow> True | Some c \<Rightarrow> fifo_inv c)"

definition fifo_put :: "('k, 'v) fifo_cache option \<Rightarrow> 'k \<Rightarrow> 'v \<Rightarrow> ('k, 'v) fifo_cache option" where
  "fifo_put cache key value = fst (fifo_Set cache key value)"

lemma fifo_put_simps [simp]:
  "fifo_put None key v = None"
  "fifo_put (Some c) key v = Some (fst (fifo_setLocked c key v))"
  by (simp_all add: fifo_put_def fifo_Set_def split: prod.splits)

lemma fifo_setLocked_lookup:
  assumes "fifo_inv c"
  shows "map_of (fc_items (fst (fifo_setLocked c key v))) key = Some v"
    and "k' \<noteq> key \<Longrightarrow> map_of (fc_items (fst (fifo_setLocked c key v))) k' \<in> {None, map_of (fc_items c) k'}"
  using assms
  by (cases rule: fifo_setLocked_cases [of c key v]; simp add: update_conv' delete_conv')+

interpretation fifo: bounded_store fifo_Get fifo_put "fifo_New n ev" fifo_cache_inv "\<lambda>cache k v. cache \<noteq> None"
proof (unfold_locales, goal_cases)
  case 1
  show ?case by (simp add: fifo_New_def fifo_cache_inv_def fifo_inv_def)
next
  case (2 k)
  show ?case by (simp add: fifo_New_def fifo_Get_def)
next
  case (3 s k v)
  then show ?case by (cases s) (simp_all add: fifo_cache_inv_def fifo_setLocked_inv)
next
  case (4 s k v)
  then show ?case by (auto simp: fifo_cache_inv_def fifo_Get_def fifo_setLocked_lookup)
next
  case (5 s k v)
  then show ?case by simp
next
  case (6 s k' k v)
  then show ?case
    using fifo_setLocked_lookup(2) [of _ k' k v] by (cases s) (auto simp: fifo_cache_inv_def fifo_Get_def)
qed

section \<open>Properties\<close>

lemma fifo_setLocked_maxSize: "fc_maxSize (fst (fifo_setLocked c key v)) = fc_maxSize c"
  by (simp add: fifo_setLocked_def Let_def split: prod.splits)

lemma fifo_run:
  assumes "fifo_inv c"
  shows "\<exists>c'. foldl (\<lambda>s (k, v). fifo_put s k v) (Some c) ops = Some c' \<and> fifo_inv c' \<and>
      fc_maxSize c' = fc_maxSize c \<and>
      fifo_queue c' = foldl (\<lambda>q (k, v). queue_put (fc_maxSize c) k v q) (fifo_queue c) ops"
  using assms
proof (induction ops arbitrary: c)
  case Nil
  then show ?case by simp
next
  case (Cons kv ops)
  obtain k v where kv: "kv = (k, v)" by fastforce
  let ?c = "fst (fifo_setLocked c k v)"
  have "fifo_inv ?c" using Cons.prems by (rule fifo_setLocked_inv)
  from Cons.IH [OF this] show ?case
    by (simp add: kv fifo_setLocked_maxSize fifo_setLocked_queue [OF Cons.prems])
qed

text \<open>
  C22. Whatever is stored into a fresh cache, it behaves as a first-in first-out queue of pairs:
  storing a known key replaces its value in place, storing a new one drops the oldest pair when
  the cache is full and appends; the cache never holds more than \<open>maxSize\<close> entries, and a lookup
  is a lookup in that queue.
\<close>

theorem fifo_refines_queue:
  assumes "0 < n"
  shows "\<exists>c. foldl (\<lambda>s (k, v). fifo_put s k v) (fifo_New n ev) ops = Some c \<and>
      fifo_queue c = foldl (\<lambda>q (k, v). queue_put n k v q) [] ops \<and>
      int (length (fc_items c)) \<le> n \<and> fifo_Get (Some c) = map_of (fifo_queue c)"
proof -
  let ?c = "\<lparr>fc_maxSize = n, fc_items = [], fc_order = [], fc_onEvict = ev\<rparr>"
  have "fifo_inv ?c" using assms by (simp add: fifo_inv_def)
  from fifo_run [OF this, of ops] obtain c where
    c: "foldl (\<lambda>s (k, v). fifo_put s k v) (Some ?c) ops = Some c" "fifo_inv c" "fc_maxSize c = n"
      "fifo_queue c = foldl (\<lambda>q (k, v). queue_put n k v q) [] ops"
    by (auto simp: fifo_queue_def)
  then show ?thesis
    using assms fifo_queue_lookup [OF c(2)] by (auto simp: fifo_New_def fifo_inv_def fifo_Get_def fun_eq_iff)
qed

theorem fifo_refines_queue_witness:
  "\<exists>c. foldl (\<lambda>s (k, v). fifo_put s k v) (fifo_New 2 False) [(1 :: nat, ''a''), (2, ''b''), (3, ''c'')] = Some c \<and>
      fifo_queue c = [(2, ''b''), (3, ''c'')] \<and> int (length (fc_items c)) \<le> 2 \<and>
      fifo_Get (Some c) = map_of (fifo_queue c)"
  using fifo_refines_queue [of 2 False "[(1 :: nat, ''a''), (2, ''b''), (3, ''c'')]"]
  by (simp add: queue_put_def)

end
