(* ===== verification/Sql_Cache.thy ===== *)
theory Sql_Cache
  imports Mysql_Dialect Raw_Fragments Fifo_Cache
begin

text \<open>
  The cache of compiled statements, sql_cache.go. A simple statement (no sub-query, no raw
  select or order, no join) is given a textual key that describes its shape, together with the
  arguments it binds; when the cache holds SQL under that key, the SQL is used with those
  arguments and the dialect is not called. \<open>marshal\<close> stands for \<open>json.Marshal\<close>, as in the
  dialects.
\<close>

type_synonym sql_cache = "(string, string) fifo_cache option"

definition newSQLCache :: "int \<Rightarrow> sql_cache" where
  "newSQLCache maxSize = (if maxSize \<le> 0 then None else fifo_New maxSize False)"

definition sqlCache_get :: "sql_cache \<Rightarrow> string \<Rightarrow> string option" where
  "sqlCache_get cache key = (if cache = None \<or> key = [] then None else fifo_Get cache key)"

definition sqlCache_set :: "sql_cache \<Rightarrow> string \<Rightarrow> string \<Rightarrow> sql_cache" where
  "sqlCache_set cache key sql =
     (if cache = None \<or> key = [] \<or> sql = [] then cache else fst (fifo_Set cache key sql))"

section \<open>Keys\<close>

text \<open>
  \<open>intString\<close> prints an \<open>int\<close> into a buffer from the right. The negation of the least value is
  itself, so that its digits are never written.
\<close>

function intDigits :: "int \<Rightarrow> string" where
  "intDigits v = (if v \<le> 0 then [] else intDigits (v div 10) @ [digit_char (nat (v mod 10))])"
  by pat_completeness auto
termination
  by (relation "measure nat") auto

declare intDigits.simps [simp del]

definition intString :: "int \<Rightarrow> string" where
  "intString v =
     (if v = 0 then ''0''
      else if v < 0 then CHR ''-'' # intDigits (wrap64 (- v))
      else intDigits v)"

definition simpleJSONPath :: "string \<Rightarrow> string list \<Rightarrow> string" where
  "simpleJSONPath dialect parts =
     (if dialect = ''pgsql'' then (if parts = [] then ''{}'' else ''{'' @ join '','' parts @ ''}'')
      else JSONPath parts)"

definition simpleJSONArgs :: "marshal_fun \<Rightarrow> string \<Rightarrow> string list \<Rightarrow> string \<Rightarrow> goany \<Rightarrow> goany list option" where
  "simpleJSONArgs marshal dialect parts jop value =
     (let path = AString (simpleJSONPath dialect parts);
          op = to_lower jop
      in if op \<in> {''='', ''!='', ''contains''} then
           (if dialect = ''mysql'' \<or> dialect = ''pgsql''
            then (case marshal value of Inl _ \<Rightarrow> None | Inr bytesValue \<Rightarrow> Some [path, AString bytesValue])
            else Some [path, value])
         else if op \<in> {''is null'', ''is not null'', ''exists''} then Some [path]
         else None)"

definition simpleSetValueArgs :: "goany \<Rightarrow> (goany list \<times> string) option" where
  "simpleSetValueArgs value =
     (case value of
        AIncrementExpr v \<Rightarrow> Some ([v], ''inc'')
      | ADecrementExpr v \<Rightarrow> Some ([v], ''dec'')
      | ARawExpr raw \<Rightarrow>
          (if raw_SQL raw = [] then None
           else Some (raw_Args raw, ''raw:'' @ raw_SQL raw @ '':'' @ intString (int (length (raw_Args raw)))))
      | v \<Rightarrow> Some ([v], ''value''))"

function
  simpleConditionsArgs :: "marshal_fun \<Rightarrow> string \<Rightarrow> condition list \<Rightarrow> (goany list \<times> string) option" and
  simpleConditionArgs :: "marshal_fun \<Rightarrow> string \<Rightarrow> condition \<Rightarrow> (goany list \<times> string) option"
where
  "simpleConditionsArgs marshal dialect conditions =
     (case conditions of
        [] \<Rightarrow> Some ([], [])
      | condition # rest \<Rightarrow>
          (case simpleConditionArgs marshal dialect condition of
             None \<Rightarrow> None
           | Some (conditionArgs, conditionShape) \<Rightarrow>
               (case simpleConditionsArgs marshal dialect rest of
                  None \<Rightarrow> None
                | Some (args, shape) \<Rightarrow>
                    Some (conditionArgs @ args,
                          ''['' @ cond_Bool condition @ ''|'' @ conditionShape @ '']'' @ shape))))"
| "simpleConditionArgs marshal dialect condition =
     (let op = to_lower (trim_space (cond_Op condition)) in
      if op \<in> {'''', ''invalid'', ''raw'', ''in'', ''exists'', ''count'', ''fulltext''} then None
      else if op = ''group'' \<or> op = ''not'' then
        (case simpleConditionsArgs marshal dialect (cond_Conditions condition) of
           None \<Rightarrow> None
         | Some (args, shape) \<Rightarrow> Some (args, op @ ''{'' @ shape @ ''}''))
      else if op = ''column'' then
        (case cond_Value condition of
           AColumnCondition cop right \<Rightarrow>
             Some ([], cond_Field condition @ ''|col|'' @ cop @ ''|'' @ right)
         | _ \<Rightarrow> None)
      else if op = ''json'' then
        (case cond_Value condition of
           AJSONCondition field parts jop value \<Rightarrow>
             (case simpleJSONArgs marshal dialect parts jop value of
                None \<Rightarrow> None
              | Some args \<Rightarrow>
                  Some (args, cond_Field condition @ ''|json|'' @ jop @ ''|'' @ join ''.'' parts))
         | _ \<Rightarrow> None)
      else if op \<in> {''in_values'', ''not_in_values'', ''between''} then
        (case cond_Value condition of
           AList values \<Rightarrow>
             Some (values, cond_Field condition @ ''|'' @ op @ ''|'' @ intString (int (length values)))
         | _ \<Rightarrow> None)
      else if op = ''is null'' \<or> op = ''is not null'' then
        Some ([], cond_Field condition @ ''|'' @ op)
      else
        (case cond_Value condition of
           ASourcePtr _ \<Rightarrow> None
         | v \<Rightarrow> Some ([v], cond_Field condition @ ''|'' @ cond_Op condition)))"
  by pat_completeness auto
termination
  by (relation "measure (case_sum (\<lambda>(m, d, cs). size_list size cs) (\<lambda>(m, d, c). size c))")
     (auto simp: ast_size)

declare simpleConditionsArgs.simps [simp del] simpleConditionArgs.simps [simp del]

definition hasRawSelectOrOrder :: "sel_item list \<Rightarrow> order_item list \<Rightarrow> bool" where
  "hasRawSelectOrOrder selects orders \<longleftrightarrow>
     (\<exists>item \<in> set selects.
        if sel_Expr item = ''__oro_aggregate__'' then
          (case sel_Args item of [AAggregateExpr func field alias] \<Rightarrow> False | _ \<Rightarrow> True)
        else sel_Raw item \<or> sel_Source item \<noteq> None \<or> sel_Expr item = ''__oro_relation_exists__'' \<or>
             sel_Expr item = ''__oro_fulltext_score__'') \<or>
     (\<exists>item \<in> set orders. ord_Raw item \<or> ord_Args item \<noteq> [])"

definition selectItemShape :: "sel_item \<Rightarrow> string" where
  "selectItemShape item =
     ''|'' @ sel_Expr item
     @ (if sel_Expr item = ''__oro_aggregate__'' then
          (case sel_Args item of
             [AAggregateExpr func field alias] \<Rightarrow> ''('' @ func @ '':'' @ field @ '')''
           | _ \<Rightarrow> '''')
        else '''')
     @ '':'' @ sel_Alias item"

definition appendSelectShape :: "sel_item list \<Rightarrow> string" where
  "appendSelectShape selects = concat (map selectItemShape selects)"

definition orderItemShape :: "order_item \<Rightarrow> string" where
  "orderItemShape item = ''|'' @ ord_Expr item @ (if ord_Desc item then '':d'' else '':a'')"

definition appendOrderShape :: "order_item list \<Rightarrow> string" where
  "appendOrderShape orders = concat (map orderItemShape orders)"

definition appendIntPointerShape :: "int option \<Rightarrow> string" where
  "appendIntPointerShape v = (case v of None \<Rightarrow> ''-'' | Some i \<Rightarrow> ''v:'' @ intString i)"

definition selectSQLCacheKey :: "marshal_fun \<Rightarrow> string \<Rightarrow> select_ast \<Rightarrow> (string \<times> goany list) option" where
  "selectSQLCacheKey marshal dialect stmt =
     (if src_Table (stmt_From stmt) \<noteq> [] \<or> src_Query (stmt_From stmt) \<noteq> None \<or>
         src_Raw (stmt_From stmt) \<noteq> None \<or> stmt_Joins stmt \<noteq> [] \<or> stmt_Having stmt \<noteq> [] \<or>
         stmt_Group stmt \<noteq> [] \<or> lock_Mode (stmt_Lock stmt) \<noteq> LockNone
      then None
      else if hasRawSelectOrOrder (stmt_Select stmt) (stmt_Order stmt) then None
      else
        (case simpleConditionsArgs marshal dialect (stmt_Where stmt) of
           None \<Rightarrow> None
         | Some (whereArgs, whereShape) \<Rightarrow>
             Some (''s|'' @ dialect @ ''|'' @ stmt_Table stmt @ ''|'' @ stmt_Alias stmt
                   @ ''|sel:'' @ appendSelectShape (stmt_Select stmt)
                   @ ''|w:'' @ whereShape
                   @ ''|o:'' @ appendOrderShape (stmt_Order stmt)
                   @ ''|l:'' @ appendIntPointerShape (stmt_Limit stmt)
                   @ ''|f:'' @ appendIntPointerShape (stmt_Offset stmt), whereArgs)))"

text \<open>The loops of \<open>insertSQLCacheKey\<close> over the rows and over the columns of a row.\<close>

fun insertRowArgs :: "string list \<Rightarrow> gomap \<Rightarrow> goany list option" where
  "insertRowArgs [] value = Some []"
| "insertRowArgs (column # keys) value =
     (case map_of value column of
        None \<Rightarrow> None
      | Some item \<Rightarrow> (case insertRowArgs keys value of None \<Rightarrow> None | Some args \<Rightarrow> Some (item # args)))"

fun insertRowsArgs :: "string list \<Rightarrow> gomap list \<Rightarrow> goany list option" where
  "insertRowsArgs keys [] = Some []"
| "insertRowsArgs keys (value # values) =
     (if length value \<noteq> length keys then None
      else
        (case insertRowArgs keys value of
           None \<Rightarrow> None
         | Some args \<Rightarrow>
             (case insertRowsArgs keys values of None \<Rightarrow> None | Some rest \<Rightarrow> Some (args @ rest))))"

definition insertSQLCacheKey :: "string \<Rightarrow> insert_ast \<Rightarrow> (string \<times> goany list) option" where
  "insertSQLCacheKey dialect stmt =
     (if ins_Values stmt = [] \<or> conf_Columns (ins_Conflict stmt) \<noteq> [] then None
      else
        (let keys = sortedKeys (hd (ins_Values stmt)) in
         case insertRowsArgs keys (ins_Values stmt) of
           None \<Rightarrow> None
         | Some args \<Rightarrow>
             Some (''i|'' @ dialect @ ''|'' @ ins_Table stmt
                   @ ''|r:'' @ (if ins_Returning stmt then ''1'' else ''0'')
                   @ ''|n:'' @ itoa (int (length (ins_Values stmt)))
                   @ concat (map (\<lambda>column. ''|'' @ column) keys), args)))"

fun updateSetShape :: "gomap \<Rightarrow> string list \<Rightarrow> (goany list \<times> string) option" where
  "updateSetShape values [] = Some ([], [])"
| "updateSetShape values (column # keys) =
     (case simpleSetValueArgs (map_get values column) of
        None \<Rightarrow> None
      | Some (valueArgs, valueShape) \<Rightarrow>
          (case updateSetShape values keys of
             None \<Rightarrow> None
           | Some (args, shape) \<Rightarrow>
               Some (valueArgs @ args, ''|'' @ column @ '':'' @ valueShape @ shape)))"

definition updateSQLCacheKey :: "marshal_fun \<Rightarrow> string \<Rightarrow> update_ast \<Rightarrow> (string \<times> goany list) option" where
  "updateSQLCacheKey marshal dialect stmt =
     (if upd_Values stmt = [] then None
      else
        (case updateSetShape (upd_Values stmt) (sortedKeys (upd_Values stmt)) of
           None \<Rightarrow> None
         | Some (setArgs, setShape) \<Rightarrow>
             (case simpleConditionsArgs marshal dialect (upd_Where stmt) of
                None \<Rightarrow> None
              | Some (whereArgs, whereShape) \<Rightarrow>
                  Some (''u|'' @ dialect @ ''|'' @ upd_Table stmt @ ''|set:'' @ setShape
                        @ ''|w:'' @ whereShape, setArgs @ whereArgs))))"

definition deleteSQLCacheKey :: "marshal_fun \<Rightarrow> string \<Rightarrow> delete_ast \<Rightarrow> (string \<times> goany list) option" where
  "deleteSQLCacheKey marshal dialect stmt =
     (case simpleConditionsArgs marshal dialect (del_Where stmt) of
        None \<Rightarrow> None
      | Some (whereArgs, whereShape) \<Rightarrow>
          Some (''d|'' @ dialect @ ''|'' @ del_Table stmt @ ''|w:'' @ whereShape, whereArgs))"

definition lightweightSQLCacheKey :: "marshal_fun \<Rightarrow> string \<Rightarrow> statement \<Rightarrow> (string \<times> goany list) option" where
  "lightweightSQLCacheKey marshal dialect statement =
     (case statement of
        StmtSelect stmt \<Rightarrow> selectSQLCacheKey marshal dialect stmt
      | StmtInsert stmt \<Rightarrow> insertSQLCacheKey dialect stmt
      | StmtUpdate stmt \<Rightarrow> updateSQLCacheKey marshal dialect stmt
      | StmtDelete stmt \<Rightarrow> deleteSQLCacheKey marshal dialect stmt
      | StmtOther \<Rightarrow> None)"

section \<open>Compiling through the cache\<close>

text \<open>
  A connection is given by the name of its dialect and the dialect's \<open>Compile\<close>; nil is \<open>None\<close>.
  The cache of the runtime is passed in and returned updated.
\<close>

type_synonym dialect_conn = "string \<times> (statement \<Rightarrow> compiled_sql result)"

definition compileStatementSQL ::
    "marshal_fun \<Rightarrow> sql_cache \<Rightarrow> dialect_conn option \<Rightarrow> statement \<Rightarrow> compiled_sql result \<times> sql_cache" where
  "compileStatementSQL marshal cache conn statement =
     (case conn of
        None \<Rightarrow> (Inl (mk_error ''compile'' ErrInvalidArgument), cache)
      | Some (name, compile) \<Rightarrow>
          (case lightweightSQLCacheKey marshal name statement of
             None \<Rightarrow> (compile statement, cache)
           | Some (key, args) \<Rightarrow>
               (case sqlCache_get cache key of
                  Some sql \<Rightarrow> (Inr \<lparr>c_SQL = sql, c_Args = args\<rparr>, cache)
                | None \<Rightarrow>
                    (case compile statement of
                       Inl err \<Rightarrow> (Inl err, cache)
                     | Inr compiled \<Rightarrow> (Inr compiled, sqlCache_set cache key (c_SQL compiled))))))"

end
