(* ===== verification/Sql_Cache_Keys.thy ===== *)
theory Sql_Cache_Keys
  imports Sql_Cache
begin

text \<open>
  When the keys of sql\_cache.go tell statements apart. The delimiters of the key language are
  \<open>| : [ ] { } ( )\<close>; for names without delimiters a key can be read back, up to the values a
  statement binds: two statements with one key have the same tables, columns, operators and
  nesting. The lemmas here are about keys only; what the dialects make of such statements is in
  \<open>Sql_Cache_Correct\<close>.
\<close>

named_theorems key_simps \<open>rewrite rules for the pieces of cache keys\<close>

definition key_delimiters :: "char set" where
  "key_delimiters = set ''|:[]{}()''"

definition plain_name :: "string \<Rightarrow> bool" where
  "plain_name s \<longleftrightarrow> list_all (\<lambda>c. c \<notin> set ''|:[]{}()'') s"

lemma plain_name_iff: "plain_name s \<longleftrightarrow> set s \<inter> key_delimiters = {}"
  by (auto simp: plain_name_def key_delimiters_def list_all_iff)

lemma plain_name_char [key_simps]: "plain_name s \<Longrightarrow> c \<in> key_delimiters \<Longrightarrow> c \<notin> set s"
  by (auto simp: plain_name_iff)

lemma key_delimiters_char [key_simps]:
  "CHR ''|'' \<in> key_delimiters" "CHR '':'' \<in> key_delimiters" "CHR ''['' \<in> key_delimiters"
  "CHR '']'' \<in> key_delimiters" "CHR ''{'' \<in> key_delimiters" "CHR ''}'' \<in> key_delimiters"
  "CHR ''('' \<in> key_delimiters" "CHR '')'' \<in> key_delimiters"
  by (simp_all add: key_delimiters_def)

lemma plain_first_delimiter:
  assumes "x @ c # r = y @ c # s" and "plain_name x" and "plain_name y" and "c \<in> key_delimiters"
  shows "x = y" and "r = s"
  using first_delimiter [OF assms(1), of key_delimiters] assms(2-4) by (auto simp: plain_name_iff)

section \<open>Numbers\<close>

lemma intDigits_itoa: "0 < v \<Longrightarrow> intDigits v = itoa_nat (nat v)"
proof (induction v rule: intDigits.induct)
  case (1 v)
  show ?case
  proof (cases "v < 10")
    case True
    with 1(2) show ?thesis by (simp add: intDigits.simps [of v] intDigits.simps [of 0] itoa_nat.simps [of "nat v"])
  next
    case False
    with 1 show ?thesis
      by (simp add: intDigits.simps [of v] itoa_nat.simps [of "nat v"] nat_div_distrib nat_mod_distrib
          pos_imp_zdiv_pos_iff)
  qed
qed

lemma itoa_nat_0: "itoa_nat 0 = ''0''"
  by code_simp

lemma intString_itoa:
  assumes "- (2 ^ 63) < v" and "v < 2 ^ 63"
  shows "intString v = itoa v"
proof -
  have "v < 0 \<Longrightarrow> wrap64 (- v) = - v" using assms by (intro wrap64_id) auto
  then show ?thesis
    by (auto simp: intString_def itoa_def intDigits_itoa itoa_nat_0)
qed

lemma intString_nat: "0 \<le> v \<Longrightarrow> intString v = itoa_nat (nat v)"
  by (auto simp: intString_def intDigits_itoa itoa_nat_0)

text \<open>Only the least \<open>int\<close> prints differently, as a lone sign.\<close>

lemma intString_least: "intString (- (2 ^ 63)) = ''-''"
  by code_simp

lemma itoa_nat_plain: "plain_name (itoa_nat n)"
proof -
  have "c \<notin> set ''|:[]{}()''" if "is_digit_char c" for c
    using that by (auto simp: is_digit_char_def)
  then show ?thesis using digits_itoa_nat by (auto simp: plain_name_def list_all_iff)
qed

lemma intString_inject:
  assumes "intString v = intString w" and "v \<in> {- (2 ^ 63)..<2 ^ 63}" and "w \<in> {- (2 ^ 63)..<2 ^ 63}"
  shows "v = w"
proof -
  have sign: "itoa i \<noteq> ''-''" for i
    using digits_itoa_nat [of "nat i"] by (auto simp: itoa_def is_digit_char_def)
  show ?thesis
    using assms sign itoa_inject [of v w] intString_itoa [of v] intString_itoa [of w] intString_least
    by (cases "v = - (2 ^ 63)"; cases "w = - (2 ^ 63)") (auto simp: le_less)
qed

section \<open>Conditions\<close>

definition cond_kind :: "condition \<Rightarrow> string" where
  "cond_kind c = to_lower (trim_space (cond_Op c))"

definition is_group :: "condition \<Rightarrow> bool" where
  "is_group c \<longleftrightarrow> cond_kind c \<in> {''group'', ''not''}"

text \<open>
  Conditions whose names are plain. A condition with an ESCAPE clause is left out: the key does
  not show it.
\<close>

function ok_cond :: "condition \<Rightarrow> bool" where
  "ok_cond c \<longleftrightarrow>
     plain_name (cond_Bool c) \<and> plain_name (cond_Field c) \<and> plain_name (cond_Op c) \<and> cond_Escape c = [] \<and>
     (case cond_Value c of
        AColumnCondition cop right \<Rightarrow> plain_name cop \<and> plain_name right
      | AJSONCondition field parts jop v \<Rightarrow>
          field = cond_Field c \<and> plain_name jop \<and> plain_name (join ''.'' parts)
      | _ \<Rightarrow> True) \<and>
     (\<forall>d \<in> set (cond_Conditions c). ok_cond d)"
  by pat_completeness auto
termination
proof (relation "measure size")
  fix c d assume "d \<in> set (cond_Conditions c)"
  then have "size d \<le> size_list size (cond_Conditions c)" by (rule size_list_estimation') simp
  then show "(d, c) \<in> measure size" using size_cond_Conditions [of c] by simp
qed simp

declare ok_cond.simps [simp del]

lemma ok_condD:
  assumes "ok_cond c"
  shows "plain_name (cond_Bool c)" "plain_name (cond_Field c)" "plain_name (cond_Op c)" "cond_Escape c = []"
    "d \<in> set (cond_Conditions c) \<Longrightarrow> ok_cond d"
  using assms by (simp_all add: ok_cond.simps [of c])

text \<open>The shape of a condition that is no group is a list of pieces with bars between them.\<close>

definition leaf_pieces :: "condition \<Rightarrow> string list" where
  "leaf_pieces c =
     (let op = cond_kind c in
      if op = ''column'' then [cond_Field c, ''col'', acol_Op (cond_Value c), acol_Right (cond_Value c)]
      else if op = ''json'' then
        [cond_Field c, ''json'', ajson_Op (cond_Value c), join ''.'' (ajson_Parts (cond_Value c))]
      else if op \<in> {''in_values'', ''not_in_values'', ''between''} then
        [cond_Field c, op, intString (int (case cond_Value c of AList vs \<Rightarrow> length vs | _ \<Rightarrow> 0))]
      else if op = ''is null'' \<or> op = ''is not null'' then [cond_Field c, op]
      else [cond_Field c, cond_Op c])"

definition special_kinds :: "string list" where
  "special_kinds = ['''', ''invalid'', ''raw'', ''in'', ''exists'', ''count'', ''fulltext'', ''group'', ''not'',
     ''column'', ''json'', ''in_values'', ''not_in_values'', ''between'', ''is null'', ''is not null'']"

lemma leaf_cases:
  assumes "simpleConditionArgs marshal dialect c = Some (a, s)" and "\<not> is_group c"
  obtains
    (column) cop right where "cond_kind c = ''column''" "cond_Value c = AColumnCondition cop right" "a = []"
      "s = cond_Field c @ ''|col|'' @ cop @ ''|'' @ right"
  | (json) field parts jop v where "cond_kind c = ''json''" "cond_Value c = AJSONCondition field parts jop v"
      "simpleJSONArgs marshal dialect parts jop v = Some a"
      "s = cond_Field c @ ''|json|'' @ jop @ ''|'' @ join ''.'' parts"
  | (list) vs where "cond_kind c \<in> {''in_values'', ''not_in_values'', ''between''}" "cond_Value c = AList vs"
      "a = vs" "s = cond_Field c @ ''|'' @ cond_kind c @ ''|'' @ intString (int (length vs))"
  | (null) "cond_kind c \<in> {''is null'', ''is not null''}" "a = []" "s = cond_Field c @ ''|'' @ cond_kind c"
  | (other) "cond_kind c \<notin> set special_kinds" "\<forall>src. cond_Value c \<noteq> ASourcePtr src" "a = [cond_Value c]"
      "s = cond_Field c @ ''|'' @ cond_Op c"
proof -
  note key = assms(1) [unfolded simpleConditionArgs.simps Let_def, folded cond_kind_def]
  consider (column) "cond_kind c = ''column''" | (json) "cond_kind c = ''json''"
    | (list) "cond_kind c \<in> {''in_values'', ''not_in_values'', ''between''}"
    | (null) "cond_kind c \<in> {''is null'', ''is not null''}"
    | (none) "cond_kind c \<in> {'''', ''invalid'', ''raw'', ''in'', ''exists'', ''count'', ''fulltext''}"
    | (other) "cond_kind c \<notin> set special_kinds"
    using assms(2) by (auto simp: is_group_def special_kinds_def)
  then show thesis
  proof cases
    case column
    then have "(case cond_Value c of
        AColumnCondition cop right \<Rightarrow> Some ([], cond_Field c @ ''|col|'' @ cop @ ''|'' @ right)
      | _ \<Rightarrow> None) = Some (a, s)" using key by simp
    then show thesis using column that(1) by (simp split: goany.splits)
  next
    case json
    then have "(case cond_Value c of
        AJSONCondition field parts jop v \<Rightarrow>
          (case simpleJSONArgs marshal dialect parts jop v of None \<Rightarrow> None
           | Some args \<Rightarrow> Some (args, cond_Field c @ ''|json|'' @ jop @ ''|'' @ join ''.'' parts))
      | _ \<Rightarrow> None) = Some (a, s)" using key by simp
    then show thesis using json that(2) by (simp split: goany.splits option.splits)
  next
    case list
    then have "(case cond_Value c of
        AList vs \<Rightarrow> Some (vs, cond_Field c @ ''|'' @ cond_kind c @ ''|'' @ intString (int (length vs)))
      | _ \<Rightarrow> None) = Some (a, s)" using key by auto
    then show thesis using that(3) [OF list] by (simp split: goany.splits)
  next
    case null
    with key that(4) show thesis by auto
  next
    case none
    with key show thesis by auto
  next
    case other
    then have "(case cond_Value c of ASourcePtr _ \<Rightarrow> None | v \<Rightarrow> Some ([v], cond_Field c @ ''|'' @ cond_Op c))
        = Some (a, s)" using key by (simp add: special_kinds_def)
    then show thesis using that(5) [OF other] by (cases "\<exists>src. cond_Value c = ASourcePtr src") (auto split: goany.splits)
  qed
qed

lemma leaf_shape:
  assumes "simpleConditionArgs marshal dialect c = Some (a, s)" and "\<not> is_group c"
  shows "s = join ''|'' (leaf_pieces c)"
  using assms
  by (cases rule: leaf_cases) (auto simp: leaf_pieces_def special_kinds_def)

lemma leaf_pieces_plain:
  assumes "simpleConditionArgs marshal dialect c = Some (a, s)" and "\<not> is_group c" and "ok_cond c"
  shows "\<forall>p \<in> set (leaf_pieces c). plain_name p"
proof -
  have known: "plain_name ''col''" "plain_name ''json''" "plain_name ''in_values''" "plain_name ''not_in_values''"
    "plain_name ''between''" "plain_name ''is null''" "plain_name ''is not null''"
    by (simp_all add: plain_name_def)
  show ?thesis
    using assms(1,2) known assms(3) [unfolded ok_cond.simps [of c]]
    by (cases rule: leaf_cases) (auto simp: leaf_pieces_def special_kinds_def intString_nat itoa_nat_plain)
qed

text \<open>
  Two conditions with one shape: of the same kind, on the same column, with the same operator and
  as many values.
\<close>

lemma leaf_same_cases:
  assumes key: "simpleConditionArgs marshal dialect c = Some (a, s)" "simpleConditionArgs marshal dialect c' = Some (a', s)"
    and leaf: "\<not> is_group c" "\<not> is_group c'" and ok: "ok_cond c" "ok_cond c'"
  obtains
    (column) cop right where "cond_kind c = ''column''" "cond_kind c' = ''column''" "cond_Field c' = cond_Field c"
      "cond_Value c = AColumnCondition cop right" "cond_Value c' = AColumnCondition cop right" "a = []" "a' = []"
  | (json) parts parts' jop v v' where "cond_kind c = ''json''" "cond_kind c' = ''json''"
      "cond_Field c' = cond_Field c"
      "cond_Value c = AJSONCondition (cond_Field c) parts jop v"
      "cond_Value c' = AJSONCondition (cond_Field c) parts' jop v'"
      "simpleJSONArgs marshal dialect parts jop v = Some a"
      "simpleJSONArgs marshal dialect parts' jop v' = Some a'"
  | (list) vs vs' where "cond_kind c \<in> {''in_values'', ''not_in_values'', ''between''}" "cond_kind c' = cond_kind c"
      "cond_Field c' = cond_Field c" "cond_Value c = AList vs" "cond_Value c' = AList vs'"
      "length vs' = length vs" "a = vs" "a' = vs'"
  | (null) "cond_kind c \<in> {''is null'', ''is not null''}" "cond_kind c' = cond_kind c"
      "cond_Field c' = cond_Field c" "a = []" "a' = []"
  | (other) "cond_kind c \<notin> set special_kinds" "cond_Op c' = cond_Op c" "cond_Field c' = cond_Field c"
      "\<forall>src. cond_Value c \<noteq> ASourcePtr src" "\<forall>src. cond_Value c' \<noteq> ASourcePtr src"
      "a = [cond_Value c]" "a' = [cond_Value c']"
proof -
  have bars: "\<forall>p \<in> set (leaf_pieces d). CHR ''|'' \<notin> set p"
    if "simpleConditionArgs marshal dialect d = Some (b, t)" "\<not> is_group d" "ok_cond d" for d b t
    using leaf_pieces_plain [OF that] by (auto simp: key_simps)
  have some: "leaf_pieces d \<noteq> []" for d by (simp add: leaf_pieces_def Let_def)
  have "join ''|'' (leaf_pieces c) = join ''|'' (leaf_pieces c')"
    using leaf_shape [OF key(1) leaf(1)] leaf_shape [OF key(2) leaf(2)] by simp
  then have same: "leaf_pieces c = leaf_pieces c'"
    using split_on_join [OF some bars [OF key(1) leaf(1) ok(1)]] split_on_join [OF some bars [OF key(2) leaf(2) ok(2)]]
    by metis
  have nulls: "cond_kind d = k" if "cond_Op d = k" "k \<in> {''is null'', ''is not null''}" for d k
  proof -
    have "to_lower (trim_space ''is null'') = ''is null''" "to_lower (trim_space ''is not null'') = ''is not null''"
      by code_simp+
    with that show ?thesis by (auto simp: cond_kind_def)
  qed
  have json_field: "cond_Value d = AJSONCondition f ps j v \<Longrightarrow> ok_cond d \<Longrightarrow> f = cond_Field d" for d f ps j v
    by (simp add: ok_cond.simps [of d])
  from key(1) leaf(1) show thesis
  proof (cases rule: leaf_cases)
    case 1: (column cop right)
    from key(2) leaf(2) show thesis
      by (cases rule: leaf_cases) (use same 1 that(1) in \<open>auto simp: leaf_pieces_def special_kinds_def\<close>)
  next
    case 1: (json field parts jop v)
    from key(2) leaf(2) show thesis
      by (cases rule: leaf_cases)
        (use same 1 that(2) ok json_field in \<open>auto simp: leaf_pieces_def special_kinds_def\<close>)
  next
    case 1: (list vs)
    from key(2) leaf(2) show thesis
      by (cases rule: leaf_cases)
        (use same 1 that(3) in \<open>auto simp: leaf_pieces_def special_kinds_def intString_nat\<close>)
  next
    case 1: null
    from key(2) leaf(2) show thesis
      by (cases rule: leaf_cases)
        (use same 1 that(4) nulls in \<open>auto simp: leaf_pieces_def special_kinds_def\<close>)
  next
    case 1: other
    from key(2) leaf(2) show thesis
      by (cases rule: leaf_cases)
        (use same 1 that(5) nulls [of c] in \<open>auto simp: leaf_pieces_def special_kinds_def\<close>)
  qed
qed

lemma leaf_same_length:
  assumes "simpleConditionArgs marshal dialect c = Some (a, s)" "simpleConditionArgs marshal dialect c' = Some (a', s)"
    and "\<not> is_group c" "\<not> is_group c'" and "ok_cond c" "ok_cond c'"
  shows "length a' = length a"
  using assms
  by (cases rule: leaf_same_cases) (auto simp: simpleJSONArgs_def Let_def split: if_splits sum.splits)

text \<open>Condition trees of the same shape.\<close>

inductive
  same_cond :: "marshal_fun \<Rightarrow> string \<Rightarrow> condition \<Rightarrow> condition \<Rightarrow> bool" and
  same_conds :: "marshal_fun \<Rightarrow> string \<Rightarrow> condition list \<Rightarrow> condition list \<Rightarrow> bool"
  for marshal :: marshal_fun and dialect :: string
where
  leaf: "simpleConditionArgs marshal dialect c = Some (a, s) \<Longrightarrow> simpleConditionArgs marshal dialect c' = Some (a', s) \<Longrightarrow>
    \<not> is_group c \<Longrightarrow> \<not> is_group c' \<Longrightarrow> ok_cond c \<Longrightarrow> ok_cond c' \<Longrightarrow> same_cond marshal dialect c c'"
| grp: "is_group c \<Longrightarrow> cond_kind c' = cond_kind c \<Longrightarrow>
    same_conds marshal dialect (cond_Conditions c) (cond_Conditions c') \<Longrightarrow> same_cond marshal dialect c c'"
| same_Nil: "same_conds marshal dialect [] []"
| same_Cons: "cond_Bool c' = cond_Bool c \<Longrightarrow> same_cond marshal dialect c c' \<Longrightarrow>
    same_conds marshal dialect cs cs' \<Longrightarrow> same_conds marshal dialect (c # cs) (c' # cs')"

lemma simpleConditionsArgs_Cons:
  assumes "simpleConditionsArgs marshal dialect (c # cs) = Some (a, s)"
  obtains a1 s1 a2 s2 where "simpleConditionArgs marshal dialect c = Some (a1, s1)"
    "simpleConditionsArgs marshal dialect cs = Some (a2, s2)" "a = a1 @ a2"
    "s = CHR ''['' # cond_Bool c @ CHR ''|'' # s1 @ CHR '']'' # s2"
  using assms by (auto simp: simpleConditionsArgs.simps [of _ _ "c # cs"] split: option.splits)

lemma simpleConditionsArgs_Nil [simp]: "simpleConditionsArgs marshal dialect [] = Some ([], [])"
  by (simp add: simpleConditionsArgs.simps)

lemma simpleConditionArgs_group:
  assumes "simpleConditionArgs marshal dialect c = Some (a, s)" and "is_group c"
  obtains s1 where "simpleConditionsArgs marshal dialect (cond_Conditions c) = Some (a, s1)"
    "s = cond_kind c @ CHR ''{'' # s1 @ ''}''"
  using assms
  by (auto simp: simpleConditionArgs.simps [of _ _ c] is_group_def cond_kind_def Let_def split: option.splits)

text \<open>
  Shapes are prefix free: what follows a shape, if it is no further condition, is determined by
  the whole text, and equal shapes are shapes of the same trees.
\<close>

abbreviation ends_conditions :: "string \<Rightarrow> bool" where
  "ends_conditions r \<equiv> (\<forall>t. r \<noteq> CHR ''['' # t)"

lemma leaf_shape_brackets:
  assumes "simpleConditionArgs marshal dialect c = Some (a, s)" and "\<not> is_group c" and "ok_cond c"
  shows "set s \<inter> set ''[]{}'' = {}"
proof -
  have "set s \<subseteq> set ''|'' \<union> \<Union> (set ` set (leaf_pieces c))"
    using leaf_shape [OF assms(1,2)] set_join [of "''|''" "leaf_pieces c"] by simp
  with leaf_pieces_plain [OF assms] show ?thesis by (fastforce simp: plain_name_iff key_delimiters_def)
qed

lemma group_kind_brackets: "is_group c \<Longrightarrow> set (cond_kind c) \<inter> set ''[]{}'' = {}"
  by (auto simp: is_group_def)

lemma shape_prefix_free:
  "simpleConditionsArgs marshal dialect cs = Some (a, s) \<Longrightarrow> simpleConditionsArgs marshal dialect cs' = Some (a', s') \<Longrightarrow>
   (\<forall>c \<in> set cs. ok_cond c) \<Longrightarrow> (\<forall>c \<in> set cs'. ok_cond c) \<Longrightarrow> s @ r = s' @ r' \<Longrightarrow> ends_conditions r \<Longrightarrow> ends_conditions r' \<Longrightarrow>
   s = s' \<and> same_conds marshal dialect cs cs'"
  "simpleConditionArgs marshal dialect c = Some (a, s) \<Longrightarrow> simpleConditionArgs marshal dialect c' = Some (a', s') \<Longrightarrow>
   ok_cond c \<Longrightarrow> ok_cond c' \<Longrightarrow> s @ CHR '']'' # r = s' @ CHR '']'' # r' \<Longrightarrow> s = s' \<and> same_cond marshal dialect c c'"
proof (induction marshal dialect cs and marshal dialect c arbitrary: cs' a s a' s' r r' and c' a s a' s' r r'
    rule: simpleConditionsArgs_simpleConditionArgs.induct)
  case (1 marshal dialect cs)
  show ?case
  proof (cases cs)
    case Nil
    show ?thesis
    proof (cases cs')
      case Nil
      with "1.prems" \<open>cs = []\<close> show ?thesis by (auto intro: same_Nil)
    next
      case (Cons c' cs'')
      with "1.prems"(2) obtain t where "s' = CHR ''['' # t" by (auto elim: simpleConditionsArgs_Cons)
      with "1.prems" \<open>cs = []\<close> show ?thesis by auto
    qed
  next
    case (Cons c cs1)
    obtain a1 s1 a2 s2 where c: "simpleConditionArgs marshal dialect c = Some (a1, s1)"
      "simpleConditionsArgs marshal dialect cs1 = Some (a2, s2)" "s = CHR ''['' # cond_Bool c @ CHR ''|'' # s1 @ CHR '']'' # s2"
      using "1.prems"(1) Cons by (auto elim: simpleConditionsArgs_Cons)
    have "cs' \<noteq> []" using "1.prems"(1,2,5,6,7) c by auto
    then obtain c' cs1' where cs': "cs' = c' # cs1'" by (cases cs') auto
    obtain a1' s1' a2' s2' where c': "simpleConditionArgs marshal dialect c' = Some (a1', s1')"
      "simpleConditionsArgs marshal dialect cs1' = Some (a2', s2')"
      "s' = CHR ''['' # cond_Bool c' @ CHR ''|'' # s1' @ CHR '']'' # s2'"
      using "1.prems"(2) cs' by (auto elim: simpleConditionsArgs_Cons)
    have ok: "ok_cond c" "ok_cond c'" using "1.prems"(3,4) Cons cs' by auto
    then have "plain_name (cond_Bool c)" "plain_name (cond_Bool c')" by (simp_all add: ok_condD)
    moreover have "cond_Bool c @ CHR ''|'' # (s1 @ CHR '']'' # (s2 @ r)) =
        cond_Bool c' @ CHR ''|'' # (s1' @ CHR '']'' # (s2' @ r'))"
      using "1.prems"(5) c(3) c'(3) by simp
    ultimately have b: "cond_Bool c = cond_Bool c'" "s1 @ CHR '']'' # (s2 @ r) = s1' @ CHR '']'' # (s2' @ r')"
      using plain_first_delimiter key_delimiters_char(1) by blast+
    have IHc: "s1 = s1' \<and> same_cond marshal dialect c c'"
      using "1.IH"(1) [OF Cons c(1) c'(1) ok b(2)] .
    then have rest: "s2 @ r = s2' @ r'" using b(2) by simp
    have IHcs: "s2 = s2' \<and> same_conds marshal dialect cs1 cs1'"
      using "1.prems"(3,4,6,7) Cons cs' by (intro "1.IH"(2) [OF Cons c(1) refl c(2) c'(2) _ _ rest]) auto
    show ?thesis using b IHc IHcs c(3) c'(3) Cons cs' by (auto intro: same_Cons)
  qed
next
  case (2 marshal dialect c)
  have grp_or_leaf: "(set s \<inter> set ''[]{}'' = {}) \<or> is_group c" "(set s' \<inter> set ''[]{}'' = {}) \<or> is_group c'"
    using leaf_shape_brackets "2.prems" by blast+
  show ?case
  proof (cases "is_group c")
    case True
    obtain s1 where c: "simpleConditionsArgs marshal dialect (cond_Conditions c) = Some (a, s1)"
      "s = cond_kind c @ CHR ''{'' # s1 @ ''}''"
      using "2.prems"(1) True by (rule simpleConditionArgs_group)
    have g': "is_group c'"
    proof (rule ccontr)
      assume "\<not> is_group c'"
      with grp_or_leaf "2.prems"(5) c(2) group_kind_brackets [OF True] show False
        using first_delimiter [of "cond_kind c" "CHR ''{''" _ s' "CHR '']''" r' "set ''[]{}''"] by auto
    qed
    obtain s1' where c': "simpleConditionsArgs marshal dialect (cond_Conditions c') = Some (a', s1')"
      "s' = cond_kind c' @ CHR ''{'' # s1' @ ''}''"
      using "2.prems"(2) g' by (rule simpleConditionArgs_group)
    have k: "cond_kind c = cond_kind c' \<and> s1 @ CHR ''}'' # CHR '']'' # r = s1' @ CHR ''}'' # CHR '']'' # r'"
      using "2.prems"(5) c(2) c'(2) group_kind_brackets [OF True] group_kind_brackets [OF g']
        first_delimiter [of "cond_kind c" "CHR ''{''" _ "cond_kind c'" "CHR ''{''" _ "set ''[]{}''"] by auto
    have "s1 = s1' \<and> same_conds marshal dialect (cond_Conditions c) (cond_Conditions c')"
      using "2.IH" [OF refl _ _ c(1) c'(1), of "CHR ''}'' # CHR '']'' # r" "CHR ''}'' # CHR '']'' # r'"]
        True k ok_condD(5) [OF "2.prems"(3)] ok_condD(5) [OF "2.prems"(4)] by (auto simp: is_group_def cond_kind_def)
    with True k c(2) c'(2) show ?thesis by (auto intro: grp)
  next
    case False
    have l': "\<not> is_group c'"
    proof
      assume g': "is_group c'"
      obtain s1' where "s' = cond_kind c' @ CHR ''{'' # s1' @ ''}''"
        using "2.prems"(2) g' by (rule simpleConditionArgs_group)
      with grp_or_leaf False "2.prems"(5) group_kind_brackets [OF g'] show False
        using first_delimiter [of s "CHR '']''" r "cond_kind c'" "CHR ''{''" _ "set ''[]{}''"] by auto
    qed
    with grp_or_leaf False "2.prems"(5) have "s = s'"
      using first_delimiter [of s "CHR '']''" r s' "CHR '']''" r' "set ''[]{}''"] by auto
    with "2.prems" False l' show ?thesis by (auto intro: leaf)
  qed
qed

lemma shape_start:
  assumes "simpleConditionsArgs marshal dialect cs = Some (a, s)" and "s \<noteq> []"
  obtains t where "s = CHR ''['' # t"
  using assms by (cases cs) (auto elim: simpleConditionsArgs_Cons)

text \<open>A key is a list of pieces, the shape of its conditions, and a list of pieces.\<close>

lemma key_with_shape:
  assumes key: "A @ s @ B = A' @ s' @ B'"
    and shape: "simpleConditionsArgs marshal dialect cs = Some (a, s)" "simpleConditionsArgs marshal dialect cs' = Some (a', s')"
    and ok: "\<forall>c \<in> set cs. ok_cond c" "\<forall>c \<in> set cs'. ok_cond c"
    and no: "CHR ''['' \<notin> set A" "CHR ''['' \<notin> set A'" "CHR ''['' \<notin> set B" "CHR ''['' \<notin> set B'"
  shows "s = s' \<and> same_conds marshal dialect cs cs' \<and> (A = A' \<and> B = B' \<or> A @ B = A' @ B')"
proof (cases "s = [] \<or> s' = []")
  case True
  have "s = [] \<and> s' = []"
  proof (rule ccontr)
    assume "\<not> ?thesis"
    then have "CHR ''['' \<in> set s \<and> s' = [] \<or> CHR ''['' \<in> set s' \<and> s = []"
      using True shape_start [OF shape(1)] shape_start [OF shape(2)] by (metis list.set_intros(1))
    then show False using arg_cong [OF key, of set] no by auto
  qed
  then show ?thesis
    using key shape_prefix_free(1) [OF shape ok, of "[]" "[]"] by simp
next
  case False
  obtain t t' where t: "s = CHR ''['' # t" "s' = CHR ''['' # t'"
    using False shape_start [OF shape(1)] shape_start [OF shape(2)] by metis
  then have "A @ CHR ''['' # (t @ B) = A' @ CHR ''['' # (t' @ B')" using key by simp
  then have "A = A'" and "t @ B = t' @ B'"
    using first_delimiter [of A "CHR ''[''" "t @ B" A' "CHR ''[''" "t' @ B'" "{CHR ''[''}"] no by auto
  moreover from this t have "s @ B = s' @ B'" by simp
  moreover have "ends_conditions B" "ends_conditions B'" using no(3,4) by auto
  ultimately show ?thesis using shape_prefix_free(1) [OF shape ok] by blast
qed

section \<open>Statements\<close>

lemma join_pieces: "join ''|'' (p # ps) = p @ concat (map ((#) (CHR ''|'')) ps)"
  by (induction ps arbitrary: p) (auto simp: join_Cons)

lemma pieces_inject:
  assumes "join ''|'' ps = join ''|'' qs" and "ps \<noteq> []" and "qs \<noteq> []"
    and "\<forall>p \<in> set ps. CHR ''|'' \<notin> set p" and "\<forall>q \<in> set qs. CHR ''|'' \<notin> set q"
  shows "ps = qs"
  using split_on_join [OF assms(2,4)] split_on_join [OF assms(3,5)] assms(1) by metis

lemma last_marker:
  assumes "xs @ m # ys = xs' @ m # ys'" and "m \<notin> set ys" and "m \<notin> set ys'"
  shows "xs = xs' \<and> ys = ys'"
  using assms by (auto simp: append_eq_append_conv2 append_eq_Cons_conv Cons_eq_append_conv)

definition ok_sel :: "sel_item \<Rightarrow> bool" where
  "ok_sel item \<longleftrightarrow> plain_name (sel_Expr item) \<and> plain_name (sel_Alias item) \<and> sel_Source item = None \<and>
     (case sel_Args item of
        [AAggregateExpr func field alias] \<Rightarrow> plain_name func \<and> plain_name field
      | _ \<Rightarrow> True)"

definition ok_limit :: "int option \<Rightarrow> bool" where
  "ok_limit v \<longleftrightarrow> (case v of None \<Rightarrow> True | Some i \<Rightarrow> - (2 ^ 63) \<le> i \<and> i < 2 ^ 63)"

definition ok_select :: "select_ast \<Rightarrow> bool" where
  "ok_select st \<longleftrightarrow> plain_name (stmt_Table st) \<and> plain_name (stmt_Alias st) \<and>
     list_all ok_sel (stmt_Select st) \<and> list_all ok_cond (stmt_Where st) \<and>
     list_all (\<lambda>item. plain_name (ord_Expr item)) (stmt_Order st) \<and>
     ok_limit (stmt_Limit st) \<and> ok_limit (stmt_Offset st)"

definition ok_row :: "gomap \<Rightarrow> bool" where
  "ok_row row \<longleftrightarrow> list_all (\<lambda>(k, v). plain_name k) row"

text \<open>A raw assignment may contain colons and parentheses, but no bar and no bracket.\<close>

definition ok_set_value :: "goany \<Rightarrow> bool" where
  "ok_set_value v \<longleftrightarrow>
     (case v of ARawExpr raw \<Rightarrow> CHR ''|'' \<notin> set (raw_SQL raw) \<and> CHR ''['' \<notin> set (raw_SQL raw) | _ \<Rightarrow> True)"

definition ok_stmt :: "statement \<Rightarrow> bool" where
  "ok_stmt statement \<longleftrightarrow>
     (case statement of
        StmtSelect st \<Rightarrow> ok_select st
      | StmtInsert st \<Rightarrow> plain_name (ins_Table st) \<and> list_all ok_row (ins_Values st)
      | StmtUpdate st \<Rightarrow> plain_name (upd_Table st) \<and> ok_row (upd_Values st) \<and>
          list_all (\<lambda>(k, v). ok_set_value v) (upd_Values st) \<and> list_all ok_cond (upd_Where st)
      | StmtDelete st \<Rightarrow> plain_name (del_Table st) \<and> list_all ok_cond (del_Where st)
      | StmtOther \<Rightarrow> True)"

subsection \<open>Selects\<close>

definition sel_piece :: "sel_item \<Rightarrow> string" where
  "sel_piece item = tl (selectItemShape item)"

definition order_piece :: "order_item \<Rightarrow> string" where
  "order_piece item = tl (orderItemShape item)"

definition select_pieces :: "string \<Rightarrow> select_ast \<Rightarrow> string list" where
  "select_pieces dialect st =
     [''s'', dialect, stmt_Table st, stmt_Alias st, ''sel:''] @ map sel_piece (stmt_Select st) @ [''w:'']"

definition tail_pieces :: "select_ast \<Rightarrow> string list" where
  "tail_pieces st = map order_piece (stmt_Order st)
     @ [''l:'' @ appendIntPointerShape (stmt_Limit st), ''f:'' @ appendIntPointerShape (stmt_Offset st)]"

lemma selectSQLCacheKey_pieces:
  assumes "selectSQLCacheKey marshal dialect st = Some (k, a)"
  obtains s where "simpleConditionsArgs marshal dialect (stmt_Where st) = Some (a, s)"
    and "k = join ''|'' (select_pieces dialect st) @ s @ CHR ''|'' # join ''|'' (''o:'' # tail_pieces st)"
proof -
  have "selectItemShape = (\<lambda>item. CHR ''|'' # sel_piece item)" "orderItemShape = (\<lambda>item. CHR ''|'' # order_piece item)"
    by (simp_all add: fun_eq_iff sel_piece_def selectItemShape_def order_piece_def orderItemShape_def)
  then have "appendSelectShape items = concat (map ((#) (CHR ''|'')) (map sel_piece items))"
    "appendOrderShape orders = concat (map ((#) (CHR ''|'')) (map order_piece orders))" for items orders
    by (simp_all add: appendSelectShape_def appendOrderShape_def comp_def)
  then show thesis
    using assms that
    by (auto simp: selectSQLCacheKey_def select_pieces_def tail_pieces_def join_pieces split: if_splits option.splits)
qed

text \<open>Items of the same shape.\<close>

definition same_sel :: "sel_item \<Rightarrow> sel_item \<Rightarrow> bool" where
  "same_sel i j \<longleftrightarrow> sel_Expr j = sel_Expr i \<and> sel_Alias j = sel_Alias i \<and>
     sel_Source i = None \<and> sel_Source j = None \<and>
     (if sel_Expr i = ''__oro_aggregate__''
      then \<exists>func field alias alias'. sel_Args i = [AAggregateExpr func field alias] \<and>
             sel_Args j = [AAggregateExpr func field alias']
      else \<not> sel_Raw i \<and> \<not> sel_Raw j \<and>
           sel_Expr i \<noteq> ''__oro_relation_exists__'' \<and> sel_Expr i \<noteq> ''__oro_fulltext_score__'')"

lemma sel_piece_cases:
  assumes "\<not> hasRawSelectOrOrder items orders" and "item \<in> set items"
  obtains (agg) func field al where "sel_Expr item = ''__oro_aggregate__''"
      "sel_Args item = [AAggregateExpr func field al]"
      "sel_piece item = sel_Expr item @ CHR ''('' # func @ CHR '':'' # field @ CHR '')'' # CHR '':'' # sel_Alias item"
  | (column) "sel_Expr item \<noteq> ''__oro_aggregate__''" "\<not> sel_Raw item" "sel_Source item = None"
      "sel_Expr item \<noteq> ''__oro_relation_exists__''" "sel_Expr item \<noteq> ''__oro_fulltext_score__''"
      "sel_piece item = sel_Expr item @ CHR '':'' # sel_Alias item"
proof (cases "sel_Expr item = ''__oro_aggregate__''")
  case True
  with assms have "\<not> (case sel_Args item of [AAggregateExpr func field alias] \<Rightarrow> False | _ \<Rightarrow> True)"
    by (auto simp: hasRawSelectOrOrder_def)
  then obtain func field al where args: "sel_Args item = [AAggregateExpr func field al]"
    by (simp split: list.splits goany.splits)
  then have "sel_piece item = sel_Expr item @ CHR ''('' # func @ CHR '':'' # field @ CHR '')'' # CHR '':'' # sel_Alias item"
    using True by (simp add: sel_piece_def selectItemShape_def)
  with True args show thesis by (rule agg)
next
  case False
  with assms column show thesis by (auto simp: hasRawSelectOrOrder_def sel_piece_def selectItemShape_def)
qed

lemma sel_piece_same:
  assumes raw: "\<not> hasRawSelectOrOrder items orders" "\<not> hasRawSelectOrOrder items' orders'"
    and mem: "item \<in> set items" "item' \<in> set items'" and ok: "ok_sel item" "ok_sel item'"
    and eq: "sel_piece item = sel_piece item'"
  shows "same_sel item item'"
proof -
  have plain: "set (sel_Expr i) \<inter> key_delimiters = {}" if "ok_sel i" for i
    using that by (simp add: ok_sel_def plain_name_iff)
  from raw(1) mem(1) show ?thesis
  proof (cases rule: sel_piece_cases)
    case i: (agg func field al)
    from raw(2) mem(2) show ?thesis
    proof (cases rule: sel_piece_cases)
      case j: (agg func' field' al')
      have "func @ CHR '':'' # field @ CHR '')'' # CHR '':'' # sel_Alias item =
          func' @ CHR '':'' # field' @ CHR '')'' # CHR '':'' # sel_Alias item'"
        using eq i j by simp
      moreover have "plain_name func" "plain_name func'" "plain_name field" "plain_name field'"
        using ok i j by (simp_all add: ok_sel_def)
      ultimately have "func = func' \<and> field = field' \<and> sel_Alias item = sel_Alias item'"
        by (metis plain_first_delimiter key_delimiters_char(2,8) list.inject)
      with i j ok show ?thesis by (simp add: same_sel_def ok_sel_def)
    next
      case j: column
      have "sel_Expr item @ CHR ''('' # func @ CHR '':'' # field @ CHR '')'' # CHR '':'' # sel_Alias item =
          sel_Expr item' @ CHR '':'' # sel_Alias item'"
        using eq i(3) j(6) by simp
      from first_delimiter [OF this plain [OF ok(1)] plain [OF ok(2)]] show ?thesis
        by (simp add: key_delimiters_char)
    qed
  next
    case i: column
    from raw(2) mem(2) show ?thesis
    proof (cases rule: sel_piece_cases)
      case j: (agg func' field' al')
      have "sel_Expr item @ CHR '':'' # sel_Alias item =
          sel_Expr item' @ CHR ''('' # func' @ CHR '':'' # field' @ CHR '')'' # CHR '':'' # sel_Alias item'"
        using eq i(6) j(3) by simp
      from first_delimiter [OF this plain [OF ok(1)] plain [OF ok(2)]] show ?thesis
        by (simp add: key_delimiters_char)
    next
      case j: column
      have "sel_Expr item @ CHR '':'' # sel_Alias item = sel_Expr item' @ CHR '':'' # sel_Alias item'"
        using eq i(6) j(6) by simp
      from first_delimiter [OF this plain [OF ok(1)] plain [OF ok(2)]] i j show ?thesis
        by (simp add: key_delimiters_char same_sel_def)
    qed
  qed
qed

lemma order_piece_same:
  assumes "order_piece i = order_piece j"
  shows "ord_Expr i = ord_Expr j \<and> ord_Desc i = ord_Desc j"
  using assms by (auto simp: order_piece_def orderItemShape_def split: if_splits)

text \<open>No piece contains a bar or a bracket, and only the marker is \<open>o:\<close>.\<close>

lemma sel_piece_chars:
  assumes "\<not> hasRawSelectOrOrder items orders" and "item \<in> set items" and "ok_sel item"
  shows "CHR ''|'' \<notin> set (sel_piece item) \<and> CHR ''['' \<notin> set (sel_piece item)"
  using assms(1,2)
proof (cases rule: sel_piece_cases)
  case (agg func field al)
  have "CHR ''|'' \<notin> set s \<and> CHR ''['' \<notin> set s" if "s \<in> {sel_Expr item, sel_Alias item, func, field}" for s
    using that assms(3) agg(2) by (auto simp: ok_sel_def key_simps)
  with agg(3) show ?thesis by simp
next
  case column
  have "CHR ''|'' \<notin> set s \<and> CHR ''['' \<notin> set s" if "s \<in> {sel_Expr item, sel_Alias item}" for s
    using that assms(3) by (auto simp: ok_sel_def key_simps)
  with column(6) show ?thesis by simp
qed

lemma tail_piece_chars:
  assumes "plain_name (ord_Expr item)"
  shows "CHR ''|'' \<notin> set (order_piece item)" "CHR ''['' \<notin> set (order_piece item)" "order_piece item \<noteq> ''o:''"
  using assms
  by (auto simp: order_piece_def orderItemShape_def key_simps append_eq_Cons_conv)

lemma appendIntPointerShape_chars:
  "CHR ''|'' \<notin> set (appendIntPointerShape v)" "CHR ''['' \<notin> set (appendIntPointerShape v)"
proof -
  have "set (intDigits i) \<subseteq> Collect is_digit_char" for i
    using digits_itoa_nat [of "nat i"] intDigits_itoa [of i] by (cases "0 < i") (auto simp: intDigits.simps [of i])
  moreover have "\<not> is_digit_char (CHR ''|'')" "\<not> is_digit_char (CHR ''['')" by (simp_all add: is_digit_char_def)
  ultimately have "CHR ''|'' \<notin> set (intDigits i)" "CHR ''['' \<notin> set (intDigits i)" for i by blast+
  then show "CHR ''|'' \<notin> set (appendIntPointerShape v)" "CHR ''['' \<notin> set (appendIntPointerShape v)"
    by (auto simp: appendIntPointerShape_def intString_def split: option.splits)
qed

lemma appendIntPointerShape_inject:
  assumes "appendIntPointerShape v = appendIntPointerShape w" and "ok_limit v" and "ok_limit w"
  shows "v = w"
  using assms intString_inject
  by (cases v; cases w) (auto simp: appendIntPointerShape_def ok_limit_def)

lemma bar_joinI: "\<forall>p \<in> set ps. c \<notin> set p \<Longrightarrow> c \<noteq> CHR ''|'' \<Longrightarrow> c \<notin> set (join ''|'' ps)"
  using set_join [of "''|''" ps] by auto

lemma bar_join_bracket:
  "\<forall>p \<in> set ps. CHR ''|'' \<notin> set p \<and> CHR ''['' \<notin> set p \<Longrightarrow> CHR ''['' \<notin> set (join ''|'' ps)"
  by (rule bar_joinI) simp_all

lemma select_pieces_chars:
  assumes "selectSQLCacheKey marshal dialect st = Some (k, a)" and "ok_select st" and "plain_name dialect"
  shows "\<forall>p \<in> set (select_pieces dialect st @ ''o:'' # tail_pieces st). CHR ''|'' \<notin> set p \<and> CHR ''['' \<notin> set p"
    and "''o:'' \<notin> set (tail_pieces st)"
proof -
  have raw: "\<not> hasRawSelectOrOrder (stmt_Select st) (stmt_Order st)"
    using assms(1) by (auto simp: selectSQLCacheKey_def split: if_splits)
  have ok: "\<forall>i \<in> set (stmt_Select st). ok_sel i" "\<forall>i \<in> set (stmt_Order st). plain_name (ord_Expr i)"
    "plain_name (stmt_Table st)" "plain_name (stmt_Alias st)"
    using assms(2) by (auto simp: ok_select_def list_all_iff)
  show "\<forall>p \<in> set (select_pieces dialect st @ ''o:'' # tail_pieces st). CHR ''|'' \<notin> set p \<and> CHR ''['' \<notin> set p"
    using ok assms(3) sel_piece_chars [OF raw] tail_piece_chars appendIntPointerShape_chars
    by (auto simp: select_pieces_def tail_pieces_def key_simps)
  show "''o:'' \<notin> set (tail_pieces st)"
    using ok(2) tail_piece_chars(3) by (auto simp: tail_pieces_def) metis
qed

definition same_select :: "marshal_fun \<Rightarrow> string \<Rightarrow> select_ast \<Rightarrow> select_ast \<Rightarrow> bool" where
  "same_select marshal dialect st st' \<longleftrightarrow>
     stmt_Table st' = stmt_Table st \<and> stmt_Alias st' = stmt_Alias st \<and>
     list_all2 same_sel (stmt_Select st) (stmt_Select st') \<and>
     map (\<lambda>i. (ord_Expr i, ord_Desc i)) (stmt_Order st') = map (\<lambda>i. (ord_Expr i, ord_Desc i)) (stmt_Order st) \<and>
     stmt_Limit st' = stmt_Limit st \<and> stmt_Offset st' = stmt_Offset st \<and>
     same_conds marshal dialect (stmt_Where st) (stmt_Where st')"

lemma map_piece_inject:
  assumes "map f xs = map g ys" and "\<And>x y. x \<in> set xs \<Longrightarrow> y \<in> set ys \<Longrightarrow> f x = g y \<Longrightarrow> P x y"
  shows "list_all2 P xs ys"
  using assms
proof (induction xs arbitrary: ys)
  case Nil
  then show ?case by simp
next
  case (Cons x xs)
  then show ?case by (cases ys) auto
qed

lemma select_key_same:
  assumes key: "selectSQLCacheKey marshal dialect st = Some (k, a)" "selectSQLCacheKey marshal dialect st' = Some (k, a')"
    and ok: "ok_select st" "ok_select st'" "plain_name dialect"
  shows "same_select marshal dialect st st'"
proof -
  obtain s s' where s: "simpleConditionsArgs marshal dialect (stmt_Where st) = Some (a, s)"
      "k = join ''|'' (select_pieces dialect st) @ s @ CHR ''|'' # join ''|'' (''o:'' # tail_pieces st)"
    and s': "simpleConditionsArgs marshal dialect (stmt_Where st') = Some (a', s')"
      "k = join ''|'' (select_pieces dialect st') @ s' @ CHR ''|'' # join ''|'' (''o:'' # tail_pieces st')"
    using selectSQLCacheKey_pieces [OF key(1)] selectSQLCacheKey_pieces [OF key(2)] by metis
  note chars = select_pieces_chars [OF key(1) ok(1,3)] select_pieces_chars [OF key(2) ok(2,3)]
  have bar: "\<forall>p \<in> set (select_pieces dialect st @ ''o:'' # tail_pieces st). CHR ''|'' \<notin> set p"
    "\<forall>p \<in> set (select_pieces dialect st' @ ''o:'' # tail_pieces st'). CHR ''|'' \<notin> set p"
    using chars by blast+
  have joined: "join ''|'' (select_pieces dialect z) @ CHR ''|'' # join ''|'' (''o:'' # tail_pieces z) =
      join ''|'' (select_pieces dialect z @ ''o:'' # tail_pieces z)" for z
    by (simp add: select_pieces_def join_pieces)
  have conds: "\<forall>c \<in> set (stmt_Where st). ok_cond c" "\<forall>c \<in> set (stmt_Where st'). ok_cond c"
    using ok(1,2) by (auto simp: ok_select_def list_all_iff)
  have br: "CHR ''['' \<notin> set (join ''|'' (select_pieces dialect st))"
    "CHR ''['' \<notin> set (join ''|'' (select_pieces dialect st'))"
    "CHR ''['' \<notin> set (CHR ''|'' # join ''|'' (''o:'' # tail_pieces st))"
    "CHR ''['' \<notin> set (CHR ''|'' # join ''|'' (''o:'' # tail_pieces st'))"
    using chars bar_joinI [of "select_pieces dialect _" "CHR ''[''"] bar_joinI [of "''o:'' # tail_pieces _" "CHR ''[''"]
    by simp_all
  have W: "same_conds marshal dialect (stmt_Where st) (stmt_Where st') \<and>
      join ''|'' (select_pieces dialect st @ ''o:'' # tail_pieces st) =
      join ''|'' (select_pieces dialect st' @ ''o:'' # tail_pieces st')"
    using key_with_shape [OF _ s(1) s'(1) conds br] s(2) s'(2) joined [of st] joined [of st'] by auto
  then have "select_pieces dialect st @ ''o:'' # tail_pieces st = select_pieces dialect st' @ ''o:'' # tail_pieces st'"
    using pieces_inject [OF _ _ _ bar] by simp
  from last_marker [OF this chars(2,4)]
  have P: "select_pieces dialect st = select_pieces dialect st'" "tail_pieces st = tail_pieces st'" by simp_all
  have raw: "\<not> hasRawSelectOrOrder (stmt_Select st) (stmt_Order st)" "\<not> hasRawSelectOrOrder (stmt_Select st') (stmt_Order st')"
    using key by (auto simp: selectSQLCacheKey_def split: if_splits)
  have "map sel_piece (stmt_Select st) = map sel_piece (stmt_Select st')" using P(1) by (simp add: select_pieces_def)
  then have "list_all2 same_sel (stmt_Select st) (stmt_Select st')"
    by (rule map_piece_inject) (use ok(1,2) in \<open>auto simp: ok_select_def list_all_iff intro: sel_piece_same [OF raw]\<close>)
  moreover have "map order_piece (stmt_Order st') = map order_piece (stmt_Order st)" using P(2) by (simp add: tail_pieces_def)
  then have "list_all2 (\<lambda>i j. (ord_Expr i, ord_Desc i) = (ord_Expr j, ord_Desc j)) (stmt_Order st') (stmt_Order st)"
    by (rule map_piece_inject) (auto dest: order_piece_same)
  then have "map (\<lambda>i. (ord_Expr i, ord_Desc i)) (stmt_Order st') = map (\<lambda>i. (ord_Expr i, ord_Desc i)) (stmt_Order st)"
    by (induction rule: list_all2_induct) auto
  moreover have "stmt_Limit st' = stmt_Limit st" "stmt_Offset st' = stmt_Offset st"
    using P(2) ok(1,2) appendIntPointerShape_inject by (auto simp: tail_pieces_def ok_select_def)
  ultimately show ?thesis using W P(1) by (simp add: same_select_def select_pieces_def)
qed

subsection \<open>Writes\<close>

definition is_set_expr :: "goany \<Rightarrow> bool" where
  "is_set_expr v \<longleftrightarrow> (case v of AIncrementExpr _ \<Rightarrow> True | ADecrementExpr _ \<Rightarrow> True | ARawExpr _ \<Rightarrow> True | _ \<Rightarrow> False)"

lemma set_shape_cases:
  assumes "simpleSetValueArgs v = Some (a, s)"
  obtains (inc) x where "v = AIncrementExpr x" "a = [x]" "s = ''inc''"
  | (dec) x where "v = ADecrementExpr x" "a = [x]" "s = ''dec''"
  | (raw) sql where "v = ARawExpr (RawSpec sql a)" "s = ''raw:'' @ sql @ CHR '':'' # itoa_nat (length a)"
  | (val) "\<not> is_set_expr v" "a = [v]" "s = ''value''"
proof (cases "is_set_expr v")
  case True
  then consider x where "v = AIncrementExpr x" | x where "v = ADecrementExpr x"
    | sql args where "v = ARawExpr (RawSpec sql args)"
    by (simp add: is_set_expr_def split: goany.splits) (metis raw_spec.exhaust)
  then show thesis
    using assms inc dec raw by cases (auto simp: simpleSetValueArgs_def intString_nat split: if_splits)
next
  case False
  then show thesis using assms val by (cases v) (simp_all add: is_set_expr_def simpleSetValueArgs_def)
qed

lemma set_shape_same:
  assumes key: "simpleSetValueArgs v = Some (a, s)" "simpleSetValueArgs w = Some (b, s)"
  obtains (inc) x y where "v = AIncrementExpr x" "w = AIncrementExpr y" "a = [x]" "b = [y]"
  | (dec) x y where "v = ADecrementExpr x" "w = ADecrementExpr y" "a = [x]" "b = [y]"
  | (raw) sql where "v = ARawExpr (RawSpec sql a)" "w = ARawExpr (RawSpec sql b)" "length b = length a"
  | (val) "\<not> is_set_expr v" "\<not> is_set_expr w" "a = [v]" "b = [w]"
proof -
  have raw_shape: "x = y \<and> m = n"
    if "x @ CHR '':'' # itoa_nat m = y @ CHR '':'' # itoa_nat n" for x y m n
  proof -
    have "CHR '':'' \<notin> set (itoa_nat i)" for i using itoa_nat_plain [of i] by (simp add: key_simps)
    with last_marker [OF that] show ?thesis by simp
  qed
  from key(1) show thesis
  proof (cases rule: set_shape_cases)
    case 1: (inc x)
    from key(2) show thesis by (cases rule: set_shape_cases) (use 1 in \<open>simp_all add: inc\<close>)
  next
    case 1: (dec x)
    from key(2) show thesis by (cases rule: set_shape_cases) (use 1 in \<open>simp_all add: dec\<close>)
  next
    case 1: (raw sql)
    from key(2) show thesis
    proof (cases rule: set_shape_cases)
      case 2: (raw sql')
      have "sql @ CHR '':'' # itoa_nat (length a) = sql' @ CHR '':'' # itoa_nat (length b)" using 1(2) 2(2) by simp
      from raw_shape [OF this] show thesis using raw 1(1) 2(1) by simp
    qed (use 1 in simp_all)
  next
    case 1: val
    from key(2) show thesis by (cases rule: set_shape_cases) (use 1 in \<open>simp_all add: val\<close>)
  qed
qed

text \<open>The arguments and the piece of one assignment of a cacheable update.\<close>

definition set_args :: "gomap \<Rightarrow> string \<Rightarrow> goany list" where
  "set_args vals column = fst (the (simpleSetValueArgs (map_get vals column)))"

definition set_piece :: "gomap \<Rightarrow> string \<Rightarrow> string" where
  "set_piece vals column = column @ CHR '':'' # snd (the (simpleSetValueArgs (map_get vals column)))"

lemma updateSetShape_pieces:
  assumes "updateSetShape vals columns = Some (a, s)"
  shows "a = concat (map (set_args vals) columns) \<and> s = concat (map ((#) (CHR ''|'')) (map (set_piece vals) columns)) \<and>
    (\<forall>column \<in> set columns. simpleSetValueArgs (map_get vals column) \<noteq> None)"
  using assms
proof (induction columns arbitrary: a s)
  case Nil
  then show ?case by simp
next
  case (Cons column columns)
  then show ?case by (auto simp: set_args_def set_piece_def split: option.splits)
qed

definition same_sets :: "gomap \<Rightarrow> gomap \<Rightarrow> bool" where
  "same_sets vals vals' \<longleftrightarrow> sortedKeys vals' = sortedKeys vals \<and>
     (\<forall>k \<in> set (sortedKeys vals). \<exists>s. simpleSetValueArgs (map_get vals k) = Some (set_args vals k, s) \<and>
        simpleSetValueArgs (map_get vals' k) = Some (set_args vals' k, s))"

lemma update_pieces_same:
  assumes piece: "map (set_piece vals) ks = map (set_piece vals') ks'" and plain: "\<forall>k \<in> set ks \<union> set ks'. plain_name k"
    and some: "\<forall>k \<in> set ks. simpleSetValueArgs (map_get vals k) \<noteq> None" "\<forall>k \<in> set ks'. simpleSetValueArgs (map_get vals' k) \<noteq> None"
  shows "ks' = ks \<and> (\<forall>k \<in> set ks. \<exists>s. simpleSetValueArgs (map_get vals k) = Some (set_args vals k, s) \<and>
      simpleSetValueArgs (map_get vals' k) = Some (set_args vals' k, s))"
  using assms
proof (induction ks arbitrary: ks')
  case Nil
  then show ?case by simp
next
  case (Cons k ks)
  obtain k' ks1 where ks': "ks' = k' # ks1" using Cons.prems(1) by (cases ks') auto
  obtain a s a' s' where v: "simpleSetValueArgs (map_get vals k) = Some (a, s)" "simpleSetValueArgs (map_get vals' k') = Some (a', s')"
    using Cons.prems(3,4) ks' by auto
  have "k @ CHR '':'' # s = k' @ CHR '':'' # s'" using Cons.prems(1) ks' v by (simp add: set_piece_def)
  moreover have "plain_name k" "plain_name k'" using Cons.prems(2) ks' by simp_all
  ultimately have "k = k'" "s = s'" using plain_first_delimiter key_delimiters_char(2) by blast+
  moreover have "ks1 = ks \<and> (\<forall>k \<in> set ks. \<exists>s. simpleSetValueArgs (map_get vals k) = Some (set_args vals k, s) \<and>
      simpleSetValueArgs (map_get vals' k) = Some (set_args vals' k, s))"
    using Cons.prems ks' by (intro Cons.IH) auto
  ultimately show ?case using v ks' by (auto simp: set_args_def)
qed

lemma set_piece_chars:
  assumes "ok_row vals" and "list_all (\<lambda>(k, v). ok_set_value v) vals" and "k \<in> set (sortedKeys vals)"
    and "simpleSetValueArgs (map_get vals k) \<noteq> None"
  shows "CHR ''|'' \<notin> set (set_piece vals k) \<and> CHR ''['' \<notin> set (set_piece vals k)"
proof -
  obtain a s where v: "simpleSetValueArgs (map_get vals k) = Some (a, s)" using assms(4) by auto
  have "map_of vals k \<noteq> None" using assms(3) by (simp add: map_of_eq_None_iff)
  then obtain w where "map_of vals k = Some w" by blast
  then have w: "map_get vals k = w" "(k, w) \<in> set vals" by (auto simp: map_get_def dest: map_of_SomeD)
  then have ok: "plain_name k" "ok_set_value w" using assms(1,2) by (auto simp: ok_row_def list_all_iff)
  have dig: "CHR ''|'' \<notin> set (itoa_nat n)" "CHR ''['' \<notin> set (itoa_nat n)" for n
    using itoa_nat_plain [of n] by (simp_all add: key_simps)
  have "CHR ''|'' \<notin> set s \<and> CHR ''['' \<notin> set s"
    using v by (cases rule: set_shape_cases) (use ok(2) w dig in \<open>simp_all add: ok_set_value_def\<close>)
  with ok(1) v show ?thesis by (simp add: set_piece_def key_simps)
qed

lemma update_key_same:
  assumes key: "updateSQLCacheKey marshal dialect st = Some (k, a)" "updateSQLCacheKey marshal dialect st' = Some (k, a')"
    and ok: "ok_stmt (StmtUpdate st)" "ok_stmt (StmtUpdate st')" "plain_name dialect"
  shows "upd_Table st' = upd_Table st \<and> same_sets (upd_Values st) (upd_Values st') \<and>
    same_conds marshal dialect (upd_Where st) (upd_Where st')"
proof -
  let ?P = "\<lambda>z. [''u'', dialect, upd_Table z, ''set:''] @ map (set_piece (upd_Values z)) (sortedKeys (upd_Values z)) @ [''w:'']"
  have parts: "\<exists>s w. simpleConditionsArgs marshal dialect (upd_Where z) = Some (w, s) \<and>
      (\<forall>c \<in> set (sortedKeys (upd_Values z)). simpleSetValueArgs (map_get (upd_Values z) c) \<noteq> None) \<and> k = join ''|'' (?P z) @ s"
    if "updateSQLCacheKey marshal dialect z = Some (k, b)" for z b
    using that updateSetShape_pieces
    by (force simp: updateSQLCacheKey_def join_pieces split: if_splits option.splits)
  obtain w s where s: "simpleConditionsArgs marshal dialect (upd_Where st) = Some (w, s)" "k = join ''|'' (?P st) @ s"
      "\<forall>c \<in> set (sortedKeys (upd_Values st)). simpleSetValueArgs (map_get (upd_Values st) c) \<noteq> None"
    using parts [OF key(1)] by blast
  obtain w' s' where s': "simpleConditionsArgs marshal dialect (upd_Where st') = Some (w', s')" "k = join ''|'' (?P st') @ s'"
      "\<forall>c \<in> set (sortedKeys (upd_Values st')). simpleSetValueArgs (map_get (upd_Values st') c) \<noteq> None"
    using parts [OF key(2)] by blast
  have chars: "\<forall>p \<in> set (?P z). CHR ''|'' \<notin> set p \<and> CHR ''['' \<notin> set p"
    if "ok_stmt (StmtUpdate z)" "\<forall>c \<in> set (sortedKeys (upd_Values z)). simpleSetValueArgs (map_get (upd_Values z) c) \<noteq> None" for z
    using that set_piece_chars [of "upd_Values z"] ok(3) by (auto simp: ok_stmt_def key_simps)
  note c = chars [OF ok(1) s(3)] chars [OF ok(2) s'(3)]
  have conds: "\<forall>c \<in> set (upd_Where st). ok_cond c" "\<forall>c \<in> set (upd_Where st'). ok_cond c"
    using ok(1,2) by (auto simp: ok_stmt_def list_all_iff)
  have br: "CHR ''['' \<notin> set (join ''|'' (?P st))" "CHR ''['' \<notin> set (join ''|'' (?P st'))"
    using bar_join_bracket [OF c(1)] bar_join_bracket [OF c(2)] .
  have "same_conds marshal dialect (upd_Where st) (upd_Where st') \<and> join ''|'' (?P st) = join ''|'' (?P st')"
    using key_with_shape [OF _ s(1) s'(1) conds br, of "[]" "[]"] s(2) s'(2) by auto
  moreover from this have "?P st = ?P st'" using pieces_inject [of "?P st" "?P st'"] c by auto
  moreover have "\<forall>k \<in> set (sortedKeys (upd_Values st)) \<union> set (sortedKeys (upd_Values st')). plain_name k"
    using ok(1,2) by (auto simp: ok_stmt_def ok_row_def list_all_iff)
  ultimately show ?thesis
    using update_pieces_same [OF _ _ s(3) s'(3)] by (auto simp: same_sets_def)
qed

lemma delete_key_same:
  assumes key: "deleteSQLCacheKey marshal dialect st = Some (k, a)" "deleteSQLCacheKey marshal dialect st' = Some (k, a')"
    and ok: "ok_stmt (StmtDelete st)" "ok_stmt (StmtDelete st')" "plain_name dialect"
  shows "del_Table st' = del_Table st \<and> same_conds marshal dialect (del_Where st) (del_Where st')"
proof -
  let ?P = "\<lambda>z. [''d'', dialect, del_Table z, ''w:'']"
  obtain s where s: "simpleConditionsArgs marshal dialect (del_Where st) = Some (a, s)" "k = join ''|'' (?P st) @ s"
    using key(1) by (auto simp: deleteSQLCacheKey_def split: option.splits)
  obtain s' where s': "simpleConditionsArgs marshal dialect (del_Where st') = Some (a', s')" "k = join ''|'' (?P st') @ s'"
    using key(2) by (auto simp: deleteSQLCacheKey_def split: option.splits)
  have conds: "\<forall>c \<in> set (del_Where st). ok_cond c" "\<forall>c \<in> set (del_Where st'). ok_cond c"
    and plain: "plain_name (del_Table st)" "plain_name (del_Table st')"
    using ok(1,2) by (auto simp: ok_stmt_def list_all_iff)
  have br: "CHR ''['' \<notin> set (join ''|'' (?P st))" "CHR ''['' \<notin> set (join ''|'' (?P st'))"
    using plain ok(3) by (auto simp: key_simps)
  have "same_conds marshal dialect (del_Where st) (del_Where st') \<and> join ''|'' (?P st) = join ''|'' (?P st')"
    using key_with_shape [OF _ s(1) s'(1) conds br, of "[]" "[]"] s(2) s'(2) by auto
  moreover from this have "?P st = ?P st'"
    using pieces_inject [of "?P st" "?P st'"] plain ok(3) by (simp add: key_simps)
  ultimately show ?thesis by simp
qed

lemma insert_key_same:
  assumes key: "insertSQLCacheKey dialect st = Some (k, a)" "insertSQLCacheKey dialect st' = Some (k, a')"
    and ok: "ok_stmt (StmtInsert st)" "ok_stmt (StmtInsert st')" "plain_name dialect"
  shows "ins_Table st' = ins_Table st \<and> ins_Returning st' = ins_Returning st \<and>
    length (ins_Values st') = length (ins_Values st) \<and> sortedKeys (hd (ins_Values st')) = sortedKeys (hd (ins_Values st))"
proof -
  let ?P = "\<lambda>z. [''i'', dialect, ins_Table z, ''r:'' @ (if ins_Returning z then ''1'' else ''0''),
    ''n:'' @ itoa (int (length (ins_Values z)))] @ sortedKeys (hd (ins_Values z))"
  have parts: "k = join ''|'' (?P z) \<and> ins_Values z \<noteq> []" if "insertSQLCacheKey dialect z = Some (k, b)" for z b
  proof -
    have "((@) ''|'') = ((#) (CHR ''|''))" by (simp add: fun_eq_iff)
    with that show ?thesis by (auto simp: insertSQLCacheKey_def Let_def join_pieces split: if_splits option.splits)
  qed
  have chars: "\<forall>p \<in> set (?P z). CHR ''|'' \<notin> set p" if "ok_stmt (StmtInsert z)" "ins_Values z \<noteq> []" for z
  proof -
    have "\<forall>k \<in> set (sortedKeys (hd (ins_Values z))). CHR ''|'' \<notin> set k" "CHR ''|'' \<notin> set (ins_Table z)"
    proof -
      have "ok_row (hd (ins_Values z))" "plain_name (ins_Table z)"
        using that hd_in_set [OF that(2)] by (simp_all add: ok_stmt_def list_all_iff)
      then show "\<forall>k \<in> set (sortedKeys (hd (ins_Values z))). CHR ''|'' \<notin> set k" "CHR ''|'' \<notin> set (ins_Table z)"
        by (auto simp: ok_row_def list_all_iff key_simps)
    qed
    moreover have "CHR ''|'' \<notin> set dialect" "CHR ''|'' \<notin> set (itoa (int (length (ins_Values z))))"
      using ok(3) itoa_nat_plain [of "length (ins_Values z)"] by (simp_all add: key_simps itoa_def)
    ultimately show ?thesis by simp
  qed
  have "?P st = ?P st'"
    using pieces_inject [of "?P st" "?P st'"] parts [OF key(1)] parts [OF key(2)] chars [OF ok(1)] chars [OF ok(2)] by simp
  then show ?thesis by (auto dest: itoa_inject split: if_splits)
qed

end
