(* ===== verification/Sql_Cache_Correct.thy ===== *)
theory Sql_Cache_Correct
  imports Sql_Cache_Keys
begin

text \<open>
  Compiling through the statement cache is compiling. A dialect whose text for a condition is
  determined by the shape of the condition (\<open>condition_compiler\<close>) produces, for statements with
  one key, one text, and exactly the arguments the key function collects
  (\<open>cacheable_dialect\<close>); a cache that holds only texts the dialect made is then invisible. The
  laws are discharged for the three dialects. The exception is the ESCAPE clause of a condition,
  which the key leaves out: a cached text without it is reused for a condition that has it.
\<close>

lemma join_Nil_sep: "join [] ps = concat ps"
  by (induction ps) (auto simp: join_Cons)

section \<open>Agreement up to arguments\<close>

text \<open>
  Two results agree when they are the same error, or the same text with the given arguments; a
  skipped condition binds nothing.
\<close>

definition agree_cond :: "goany list \<Rightarrow> goany list \<Rightarrow> fragment option result \<Rightarrow> fragment option result \<Rightarrow> bool" where
  "agree_cond a a' r r' \<longleftrightarrow>
     (\<exists>e. r = Inl e \<and> r' = Inl e) \<or> (r = Inr None \<and> r' = Inr None \<and> a = [] \<and> a' = []) \<or>
     (\<exists>sql. sql \<noteq> [] \<and> r = Inr (Some (sql, a)) \<and> r' = Inr (Some (sql, a')))"

definition agree_parts :: "goany list \<Rightarrow> goany list \<Rightarrow> (string list \<times> goany list) result \<Rightarrow> (string list \<times> goany list) result \<Rightarrow> bool" where
  "agree_parts a a' r r' \<longleftrightarrow>
     (\<exists>e. r = Inl e \<and> r' = Inl e) \<or>
     (\<exists>ps. [] \<notin> set ps \<and> (ps = [] \<longrightarrow> a = [] \<and> a' = []) \<and> r = Inr (ps, a) \<and> r' = Inr (ps, a'))"

definition agree_where :: "goany list \<Rightarrow> goany list \<Rightarrow> fragment result \<Rightarrow> fragment result \<Rightarrow> bool" where
  "agree_where a a' r r' \<longleftrightarrow>
     (\<exists>e. r = Inl e \<and> r' = Inl e) \<or>
     (\<exists>sql. (sql = [] \<longrightarrow> a = [] \<and> a' = []) \<and> r = Inr (sql, a) \<and> r' = Inr (sql, a'))"

definition agree_stmt :: "goany list \<Rightarrow> goany list \<Rightarrow> compiled_sql result \<Rightarrow> compiled_sql result \<Rightarrow> bool" where
  "agree_stmt a a' r r' \<longleftrightarrow>
     (\<exists>e. r = Inl e \<and> r' = Inl e) \<or>
     (\<exists>sql. r = Inr \<lparr>c_SQL = sql, c_Args = a\<rparr> \<and> r' = Inr \<lparr>c_SQL = sql, c_Args = a'\<rparr>)"

lemma agree_where_bind:
  assumes "agree_where a a' r r'"
    and "\<And>sql. (sql = [] \<longrightarrow> a = [] \<and> a' = []) \<Longrightarrow> agree_stmt b b' (f sql a) (f' sql a')"
  shows "agree_stmt b b' (bind_res r (\<lambda>(x, y). f x y)) (bind_res r' (\<lambda>(x, y). f' x y))"
proof -
  consider e where "r = Inl e" "r' = Inl e"
    | sql where "sql = [] \<longrightarrow> a = [] \<and> a' = []" "r = Inr (sql, a)" "r' = Inr (sql, a')"
    using assms(1) by (auto simp: agree_where_def)
  then show ?thesis
    using assms(2) by cases (simp_all add: agree_stmt_def)
qed

lemma concat_nonempty: "[] \<notin> set ps \<Longrightarrow> (\<forall>p \<in> set ps. p = []) \<longleftrightarrow> ps = []"
  by (cases ps) auto

lemma agree_bind_same:
  assumes "\<And>x. r = Inr x \<Longrightarrow> agree_stmt a a' (f x) (f' x)"
  shows "agree_stmt a a' (bind_res r f) (bind_res r f')"
  using assms by (cases r) (simp_all add: agree_stmt_def)

lemma agree_parts_cases:
  assumes "agree_parts a a' r r'"
  obtains (err) e where "r = Inl e" "r' = Inl e"
  | (nil) "r = Inr ([], [])" "r' = Inr ([], [])" "a = []" "a' = []"
  | (parts) ps where "[] \<notin> set ps" "ps \<noteq> []" "r = Inr (ps, a)" "r' = Inr (ps, a')"
  using assms by (auto simp: agree_parts_def)

lemma agree_parts_where:
  assumes "agree_parts a a' r r'"
  shows "agree_where a a' (bind_res r (\<lambda>(ps, x). Inr (concat ps, x))) (bind_res r' (\<lambda>(ps, x). Inr (concat ps, x)))"
  using assms by (auto simp: agree_parts_def agree_where_def concat_nonempty)

section \<open>Condition lists\<close>

text \<open>
  The loop of a dialect over a list of conditions. The number is the one of the next argument:
  only PostgreSQL looks at it. Laws are required for conditions that have a key.
\<close>

locale condition_compiler =
  fixes marshal :: marshal_fun
    and dialect :: string
    and conds :: "nat \<Rightarrow> bool \<Rightarrow> condition list \<Rightarrow> (string list \<times> goany list) result"
    and cond :: "nat \<Rightarrow> string \<Rightarrow> condition \<Rightarrow> fragment option result"
    and prefix :: "bool \<Rightarrow> condition \<Rightarrow> string"
  assumes conds_Nil: "conds i b [] = Inr ([], [])"
    and conds_Cons: "simpleConditionArgs marshal dialect c = Some (a, s) \<Longrightarrow>
      conds i b (c # cs) = bind_res (cond i (prefix b c) c) (\<lambda>part.
        case part of
          None \<Rightarrow> conds i False cs
        | Some (sql, x) \<Rightarrow> bind_res (conds (i + length x) False cs) (\<lambda>(ps, y). Inr (sql # ps, x @ y)))"
    and prefix_Bool: "cond_Bool c' = cond_Bool c \<Longrightarrow> prefix b c' = prefix b c"
    and cond_group: "is_group c \<Longrightarrow>
      cond i p c = bind_res (conds i True (cond_Conditions c)) (\<lambda>(ps, x).
        Inr (if concat ps = [] then None
             else Some (p @ (if cond_kind c = ''not'' then ''not ('' else ''('') @ concat ps @ '')'', x)))"
    and cond_leaf: "simpleConditionArgs marshal dialect c = Some (a, s) \<Longrightarrow>
      simpleConditionArgs marshal dialect c' = Some (a', s) \<Longrightarrow> \<not> is_group c \<Longrightarrow> \<not> is_group c' \<Longrightarrow>
      ok_cond c \<Longrightarrow> ok_cond c' \<Longrightarrow> agree_cond a a' (cond i p c) (cond i p c')"
begin

lemma same_agree:
  "same_cond marshal dialect c c' \<Longrightarrow> simpleConditionArgs marshal dialect c = Some (a, s) \<Longrightarrow>
   simpleConditionArgs marshal dialect c' = Some (a', s') \<Longrightarrow>
   length a' = length a \<and> agree_cond a a' (cond i p c) (cond i p c')"
  "same_conds marshal dialect cs cs' \<Longrightarrow> simpleConditionsArgs marshal dialect cs = Some (a, s) \<Longrightarrow>
   simpleConditionsArgs marshal dialect cs' = Some (a', s') \<Longrightarrow>
   length a' = length a \<and> agree_parts a a' (conds i b cs) (conds i b cs')"
proof (induction arbitrary: a s a' s' i p and a s a' s' i b rule: same_cond_same_conds.inducts)
  case (leaf c a1 s1 c' a1')
  then show ?case using cond_leaf [OF leaf(1-6)] leaf_same_length [OF leaf(1-6)] by auto
next
  case (grp c c')
  obtain t t' where t: "simpleConditionsArgs marshal dialect (cond_Conditions c) = Some (a, t)"
    "simpleConditionsArgs marshal dialect (cond_Conditions c') = Some (a', t')"
    using grp(1,2,5,6) by (auto simp: is_group_def elim!: simpleConditionArgs_group)
  have g': "is_group c'" using grp(1,2) by (simp add: is_group_def)
  have IH: "length a' = length a" "agree_parts a a' (conds i True (cond_Conditions c)) (conds i True (cond_Conditions c'))"
    using grp(4) [OF t] by simp_all
  from this(2) show ?case
    by (cases rule: agree_parts_cases)
      (use grp(2) IH(1) in \<open>auto simp: cond_group [OF grp(1)] cond_group [OF g'] agree_cond_def concat_nonempty\<close>)
next
  case same_Nil
  then show ?case by (auto simp: conds_Nil agree_parts_def)
next
  case (same_Cons c' c cs cs')
  obtain a1 s1 a2 s2 where k: "simpleConditionArgs marshal dialect c = Some (a1, s1)"
    "simpleConditionsArgs marshal dialect cs = Some (a2, s2)" "a = a1 @ a2"
    using same_Cons.prems(1) by (rule simpleConditionsArgs_Cons)
  obtain a1' s1' a2' s2' where k': "simpleConditionArgs marshal dialect c' = Some (a1', s1')"
    "simpleConditionsArgs marshal dialect cs' = Some (a2', s2')" "a' = a1' @ a2'"
    using same_Cons.prems(2) by (rule simpleConditionsArgs_Cons)
  have len: "length a1' = length a1" "length a2' = length a2"
    and one: "agree_cond a1 a1' (cond i (prefix b c) c) (cond i (prefix b c) c')"
    using same_Cons(3) [OF k(1) k'(1)] same_Cons(5) [OF k(2) k'(2)] by simp_all
  have rest: "agree_parts a2 a2' (conds j False cs) (conds j False cs')" for j
    using same_Cons(5) [OF k(2) k'(2)] by simp
  show ?case
    using one rest [of i] rest [of "i + length a1"] len k(3) k'(3)
      prefix_Bool [OF same_Cons(1)]
    by (auto simp: conds_Cons [OF k(1)] conds_Cons [OF k'(1)] agree_cond_def agree_parts_def)
qed

lemma same_where:
  assumes "same_conds marshal dialect cs cs'"
    and "simpleConditionsArgs marshal dialect cs = Some (a, s)" and "simpleConditionsArgs marshal dialect cs' = Some (a', s')"
  shows "agree_where a a' (bind_res (conds i b cs) (\<lambda>(ps, x). Inr (concat ps, x)))
    (bind_res (conds i b cs') (\<lambda>(ps, x). Inr (concat ps, x)))"
  using same_agree(2) [OF assms] by (blast intro: agree_parts_where)

end

section \<open>Parts of statements\<close>

lemma order_same:
  assumes "map (\<lambda>i. (ord_Expr i, ord_Desc i)) ys = map (\<lambda>i. (ord_Expr i, ord_Desc i)) xs"
    and "\<And>i. i \<in> set xs \<union> set ys \<Longrightarrow> f i = g (ord_Expr i, ord_Desc i)"
  shows "map f ys = map f xs"
proof -
  have "map f ys = map g (map (\<lambda>i. (ord_Expr i, ord_Desc i)) ys)" using assms(2) by simp
  also have "\<dots> = map f xs" unfolding assms(1) using assms(2) by simp
  finally show ?thesis .
qed

lemma order_args_Nil: "(\<And>i. i \<in> set items \<Longrightarrow> \<not> ord_Raw i \<and> ord_Args i = []) \<Longrightarrow> concat (map ord_Args items) = []"
  by simp

lemma select_key_plain:
  assumes "selectSQLCacheKey marshal dialect st = Some (k, a)"
  shows "src_Table (stmt_From st) = []" "src_Query (stmt_From st) = None" "src_Raw (stmt_From st) = None"
    "stmt_Joins st = []" "stmt_Having st = []" "stmt_Group st = []" "lock_Mode (stmt_Lock st) = LockNone"
    "\<And>i. i \<in> set (stmt_Order st) \<Longrightarrow> \<not> ord_Raw i \<and> ord_Args i = []"
    "\<exists>s. simpleConditionsArgs marshal dialect (stmt_Where st) = Some (a, s)"
  using assms by (auto simp: selectSQLCacheKey_def hasRawSelectOrOrder_def split: if_splits option.splits)

text \<open>The statements an insert, update or delete key describes.\<close>

lemma write_key_plain:
  "insertSQLCacheKey dialect ins = Some (k, a) \<Longrightarrow>
     ins_Values ins \<noteq> [] \<and> conf_Columns (ins_Conflict ins) = [] \<and>
     insertRowsArgs (sortedKeys (hd (ins_Values ins))) (ins_Values ins) = Some a"
  "updateSQLCacheKey marshal dialect upd = Some (k, a) \<Longrightarrow>
     upd_Values upd \<noteq> [] \<and> (\<exists>b s. simpleConditionsArgs marshal dialect (upd_Where upd) = Some (b, s) \<and>
       a = concat (map (set_args (upd_Values upd)) (sortedKeys (upd_Values upd))) @ b)"
  "deleteSQLCacheKey marshal dialect del = Some (k, a) \<Longrightarrow>
     \<exists>s. simpleConditionsArgs marshal dialect (del_Where del) = Some (a, s)"
  using updateSetShape_pieces [of "upd_Values upd" "sortedKeys (upd_Values upd)"]
  by (auto simp: insertSQLCacheKey_def updateSQLCacheKey_def deleteSQLCacheKey_def Let_def split: if_splits option.splits)

text \<open>Equal keys are keys of statements of one kind.\<close>

lemma key_head:
  "selectSQLCacheKey marshal dialect sel = Some (k, a) \<Longrightarrow> hd k = CHR ''s''"
  "insertSQLCacheKey dialect ins = Some (k, a) \<Longrightarrow> hd k = CHR ''i''"
  "updateSQLCacheKey marshal dialect upd = Some (k, a) \<Longrightarrow> hd k = CHR ''u''"
  "deleteSQLCacheKey marshal dialect del = Some (k, a) \<Longrightarrow> hd k = CHR ''d''"
  by (auto simp: selectSQLCacheKey_def insertSQLCacheKey_def updateSQLCacheKey_def deleteSQLCacheKey_def Let_def
      split: if_splits option.splits)

section \<open>Dialects that can be cached\<close>

text \<open>
  What a dialect promises for each kind of statement, and what follows for all: statements with
  one key compile to one text, with the arguments collected along with the key.
\<close>

locale cacheable_dialect =
  fixes marshal :: marshal_fun
    and name :: string
    and compile :: "statement \<Rightarrow> compiled_sql result"
  assumes name_plain: "plain_name name"
    and select_same: "same_select marshal name s s' \<Longrightarrow> selectSQLCacheKey marshal name s = Some (k, a) \<Longrightarrow>
      selectSQLCacheKey marshal name s' = Some (k, a') \<Longrightarrow> agree_stmt a a' (compile (StmtSelect s)) (compile (StmtSelect s'))"
    and insert_same: "ins_Table i' = ins_Table i \<Longrightarrow> ins_Returning i' = ins_Returning i \<Longrightarrow>
      length (ins_Values i') = length (ins_Values i) \<Longrightarrow> sortedKeys (hd (ins_Values i')) = sortedKeys (hd (ins_Values i)) \<Longrightarrow>
      insertSQLCacheKey name i = Some (k, a) \<Longrightarrow> insertSQLCacheKey name i' = Some (k, a') \<Longrightarrow>
      agree_stmt a a' (compile (StmtInsert i)) (compile (StmtInsert i'))"
    and update_same: "upd_Table u' = upd_Table u \<Longrightarrow> same_sets (upd_Values u) (upd_Values u') \<Longrightarrow>
      same_conds marshal name (upd_Where u) (upd_Where u') \<Longrightarrow>
      updateSQLCacheKey marshal name u = Some (k, a) \<Longrightarrow> updateSQLCacheKey marshal name u' = Some (k, a') \<Longrightarrow>
      agree_stmt a a' (compile (StmtUpdate u)) (compile (StmtUpdate u'))"
    and delete_same: "del_Table d' = del_Table d \<Longrightarrow> same_conds marshal name (del_Where d) (del_Where d') \<Longrightarrow>
      deleteSQLCacheKey marshal name d = Some (k, a) \<Longrightarrow> deleteSQLCacheKey marshal name d' = Some (k, a') \<Longrightarrow>
      agree_stmt a a' (compile (StmtDelete d)) (compile (StmtDelete d'))"
begin

lemma compile_same:
  assumes key: "lightweightSQLCacheKey marshal name st = Some (k, a)" "lightweightSQLCacheKey marshal name st' = Some (k, a')"
    and ok: "ok_stmt st" "ok_stmt st'"
  shows "agree_stmt a a' (compile st) (compile st')"
proof (cases st)
  case sel: (StmtSelect s)
  then obtain s' where sel': "st' = StmtSelect s'"
    using key key_head by (cases st') (fastforce simp: lightweightSQLCacheKey_def)+
  have "selectSQLCacheKey marshal name s = Some (k, a)" "selectSQLCacheKey marshal name s' = Some (k, a')"
    using key sel sel' by (simp_all add: lightweightSQLCacheKey_def)
  moreover from this have "same_select marshal name s s'"
    using ok sel sel' name_plain by (auto simp: ok_stmt_def intro: select_key_same)
  ultimately show ?thesis using select_same sel sel' by simp
next
  case ins: (StmtInsert i)
  then obtain i' where ins': "st' = StmtInsert i'"
    using key key_head by (cases st') (fastforce simp: lightweightSQLCacheKey_def)+
  have "insertSQLCacheKey name i = Some (k, a)" "insertSQLCacheKey name i' = Some (k, a')"
    using key ins ins' by (simp_all add: lightweightSQLCacheKey_def)
  then show ?thesis
    using insert_same [of i' i k a a'] insert_key_same [of name i k a i' a'] ok ins ins' name_plain by simp
next
  case upd: (StmtUpdate u)
  then obtain u' where upd': "st' = StmtUpdate u'"
    using key key_head by (cases st') (fastforce simp: lightweightSQLCacheKey_def)+
  have "updateSQLCacheKey marshal name u = Some (k, a)" "updateSQLCacheKey marshal name u' = Some (k, a')"
    using key upd upd' by (simp_all add: lightweightSQLCacheKey_def)
  then show ?thesis
    using update_same [of u' u k a a'] update_key_same [of marshal name u k a u' a'] ok upd upd' name_plain by simp
next
  case del: (StmtDelete d)
  then obtain d' where del': "st' = StmtDelete d'"
    using key key_head by (cases st') (fastforce simp: lightweightSQLCacheKey_def)+
  have "deleteSQLCacheKey marshal name d = Some (k, a)" "deleteSQLCacheKey marshal name d' = Some (k, a')"
    using key del del' by (simp_all add: lightweightSQLCacheKey_def)
  then show ?thesis
    using delete_same [of d' d k a a'] delete_key_same [of marshal name d k a d' a'] ok del del' name_plain by simp
next
  case StmtOther
  with key show ?thesis by (simp add: lightweightSQLCacheKey_def)
qed

end

section \<open>The cache of texts as a store\<close>

definition sqlCache_accepts :: "sql_cache \<Rightarrow> string \<Rightarrow> string \<Rightarrow> bool" where
  "sqlCache_accepts cache key sql \<longleftrightarrow> cache \<noteq> None \<and> key \<noteq> [] \<and> sql \<noteq> []"

lemma sqlCache_set_put: "sqlCache_set cache key sql = (if sqlCache_accepts cache key sql then fifo_put cache key sql else cache)"
  by (simp add: sqlCache_set_def sqlCache_accepts_def fifo_put_def)

interpretation sql_cache: bounded_store sqlCache_get sqlCache_set "newSQLCache n" fifo_cache_inv sqlCache_accepts
proof (unfold_locales, goal_cases)
  case 1
  show ?case
    by (cases "n \<le> 0") (simp_all add: newSQLCache_def fifo.inv_empty, simp add: fifo_cache_inv_def)
next
  case (2 k)
  show ?case by (simp add: newSQLCache_def sqlCache_get_def fifo.lookup_empty)
next
  case (3 s k v)
  then show ?case using fifo.inv_store [of s k v] by (simp add: sqlCache_set_put)
next
  case (4 s k v)
  then show ?case
    using fifo.lookup_store_same [of s k v] fifo.inv_store [of s k v]
    by (cases s) (simp_all add: sqlCache_set_put sqlCache_get_def sqlCache_accepts_def)
next
  case (5 s k v)
  then show ?case by (simp add: sqlCache_set_put)
next
  case (6 s k' k v)
  then show ?case
    using fifo.lookup_store_other [of s k' k v]
    by (cases s) (auto simp: sqlCache_set_put sqlCache_get_def sqlCache_accepts_def)
qed

text \<open>A sequence of statements compiled through one cache, and the results in order.\<close>

primrec compile_all :: "marshal_fun \<Rightarrow> dialect_conn option \<Rightarrow> sql_cache \<Rightarrow> statement list \<Rightarrow> compiled_sql result list" where
  "compile_all marshal conn cache [] = []"
| "compile_all marshal conn cache (st # sts) =
     (let (result, cache') = compileStatementSQL marshal cache conn st in result # compile_all marshal conn cache' sts)"

context cacheable_dialect
begin

text \<open>An entry is the text the dialect makes for some statement with that key.\<close>

definition compiled_entry :: "string \<Rightarrow> string \<Rightarrow> bool" where
  "compiled_entry key sql \<longleftrightarrow>
     (\<exists>st a b. ok_stmt st \<and> lightweightSQLCacheKey marshal name st = Some (key, a) \<and> compile st = Inr \<lparr>c_SQL = sql, c_Args = b\<rparr>)"

lemma compile_through_cache:
  assumes inv: "fifo_cache_inv cache" "sql_cache.entries_satisfy compiled_entry cache" and ok: "ok_stmt st"
  shows "fst (compileStatementSQL marshal cache (Some (name, compile)) st) = compile st"
    and "fifo_cache_inv (snd (compileStatementSQL marshal cache (Some (name, compile)) st))"
    and "sql_cache.entries_satisfy compiled_entry (snd (compileStatementSQL marshal cache (Some (name, compile)) st))"
proof (atomize (full), cases "lightweightSQLCacheKey marshal name st")
  case None
  with inv show "fst (compileStatementSQL marshal cache (Some (name, compile)) st) = compile st \<and>
      fifo_cache_inv (snd (compileStatementSQL marshal cache (Some (name, compile)) st)) \<and>
      sql_cache.entries_satisfy compiled_entry (snd (compileStatementSQL marshal cache (Some (name, compile)) st))"
    by (simp add: compileStatementSQL_def)
next
  case (Some ka)
  obtain key a where ka: "ka = (key, a)" by fastforce
  show "fst (compileStatementSQL marshal cache (Some (name, compile)) st) = compile st \<and>
      fifo_cache_inv (snd (compileStatementSQL marshal cache (Some (name, compile)) st)) \<and>
      sql_cache.entries_satisfy compiled_entry (snd (compileStatementSQL marshal cache (Some (name, compile)) st))"
  proof (cases "sqlCache_get cache key")
    case found: (Some sql)
    then have "compiled_entry key sql" using inv(2) by (simp add: sql_cache.entries_satisfy_def)
    then obtain st' a' b where st': "ok_stmt st'" "lightweightSQLCacheKey marshal name st' = Some (key, a')"
      "compile st' = Inr \<lparr>c_SQL = sql, c_Args = b\<rparr>" by (auto simp: compiled_entry_def)
    have "agree_stmt a' a (compile st') (compile st)" using compile_same [OF st'(2) _ st'(1) ok] Some ka by simp
    then have "compile st = Inr \<lparr>c_SQL = sql, c_Args = a\<rparr>" using st'(3) by (auto simp: agree_stmt_def)
    with Some ka found inv show ?thesis by (simp add: compileStatementSQL_def)
  next
    case missing: None
    show ?thesis
    proof (cases "compile st")
      case (Inl e)
      with Some ka missing inv show ?thesis by (simp add: compileStatementSQL_def)
    next
      case (Inr compiled)
      then have "compiled_entry key (c_SQL compiled)" using Some ka ok by (cases compiled) (auto simp: compiled_entry_def)
      with Some ka missing Inr inv show ?thesis
        by (simp add: compileStatementSQL_def sql_cache.inv_store sql_cache.entries_store)
    qed
  qed
qed

lemma compile_all_cached:
  assumes "fifo_cache_inv cache" and "sql_cache.entries_satisfy compiled_entry cache" and "\<forall>st \<in> set sts. ok_stmt st"
  shows "compile_all marshal (Some (name, compile)) cache sts = map compile sts"
  using assms
proof (induction sts arbitrary: cache)
  case Nil
  then show ?case by simp
next
  case (Cons st sts)
  have "ok_stmt st" using Cons.prems(3) by simp
  note step = compile_through_cache [OF Cons.prems(1,2) this]
  then show ?case
    using Cons.IH [OF step(2,3)] Cons.prems(3)
    by (cases "compileStatementSQL marshal cache (Some (name, compile)) st") simp
qed

lemma compile_all_transparent:
  "\<forall>st \<in> set sts. ok_stmt st \<Longrightarrow> compile_all marshal (Some (name, compile)) (newSQLCache n) sts = map compile sts"
  using compile_all_cached [OF sql_cache.inv_empty sql_cache.entries_empty] .

end

end
