(* ===== verification/Sql_Cache_Sqlite.thy ===== *)
theory Sql_Cache_Sqlite
  imports Sql_Cache_Correct Sqlite_Dialect
begin

text \<open>
  The SQLite dialect keeps the contract of the statement cache: its texts depend on the shape of a
  statement only, and the arguments it binds are those the key function collects.
\<close>

lemmas sqlite_cond_unfold = sqlite_compileCondition.simps [unfolded Let_def, folded cond_kind_def]

lemma sqlite_cond_other:
  assumes "cond_kind c \<notin> set special_kinds" and "\<forall>src. cond_Value c \<noteq> ASourcePtr src" and "cond_Escape c = []"
  shows "sqlite_compileCondition p c =
    (if \<not> IsSafeConditionOperator (cond_Op c) then Inl (mk_field_error ''sqlite.where'' ErrInvalidArgument (cond_Field c))
     else Inr (Some (p @ sqlite_QuoteIdent (cond_Field c) @ '' '' @ NormalizeConditionOperator (cond_Op c) @ '' ?'', [cond_Value c])))"
proof -
  have "sqlite_compileCondition p c =
    (if \<not> IsSafeConditionOperator (cond_Op c) then Inl (mk_field_error ''sqlite.where'' ErrInvalidArgument (cond_Field c))
     else case cond_Value c of
        ASourcePtr source \<Rightarrow>
          bind_res (sqlite_compileScalarSource source ''sqlite.where'') (\<lambda>(sql, sourceArgs).
            Inr (Some ((p @ sqlite_QuoteIdent (cond_Field c) @ '' '' @ NormalizeConditionOperator (cond_Op c)) @ '' '' @ sql, sourceArgs)))
      | v \<Rightarrow> Inr (Some ((p @ sqlite_QuoteIdent (cond_Field c) @ '' '' @ NormalizeConditionOperator (cond_Op c)) @ '' ?'', [v])))"
    using assms(1,3) by (simp add: sqlite_cond_unfold special_kinds_def cong: goany.case_cong)
  then show ?thesis using assms(2) by (simp split: goany.splits)
qed

lemma sqlite_cond_leaf:
  assumes "simpleConditionArgs marshal ''sqlite'' c = Some (a, s)" "simpleConditionArgs marshal ''sqlite'' c' = Some (a', s)"
    and "\<not> is_group c" "\<not> is_group c'" and "ok_cond c" "ok_cond c'"
  shows "agree_cond a a' (sqlite_compileCondition p c) (sqlite_compileCondition p c')"
  using assms
proof (cases rule: leaf_same_cases)
  case (column cop right)
  then show ?thesis
    by (simp add: sqlite_cond_unfold sqlite_compileColumnCondition_def agree_cond_def)
next
  case (json parts parts' jop v v')
  then show ?thesis
    by (auto simp: sqlite_cond_unfold sqlite_compileJSONCondition_def simpleJSONArgs_def simpleJSONPath_def
        sqliteJSONPath_def Let_def agree_cond_def split: if_splits)
next
  case (list vs vs')
  then have "vs' = [] \<longrightarrow> [] = vs" "vs = [] \<longrightarrow> vs' = []" by auto
  with list show ?thesis
    by (elim insertE emptyE) (simp_all add: sqlite_cond_unfold sqlite_compileInValuesCondition_def
        sqlite_compileBetweenCondition_def agree_cond_def)
next
  case null
  then show ?thesis by (elim insertE emptyE) (simp_all add: sqlite_cond_unfold agree_cond_def)
next
  case other
  then have kind: "cond_kind c' = cond_kind c" by (simp add: cond_kind_def)
  have esc: "cond_Escape c = []" "cond_Escape c' = []" using assms(5,6) by (simp_all add: ok_condD)
  show ?thesis
    using other(2-7) kind esc sqlite_cond_other [of c p] sqlite_cond_other [of c' p] other(1)
    by (simp add: agree_cond_def)
qed

interpretation sqlite_conds: condition_compiler marshal "''sqlite''" "\<lambda>i. sqlite_compileConditions" "\<lambda>i. sqlite_compileCondition"
    sqlite_cond_prefix for marshal
proof (unfold_locales, goal_cases)
  case (1 i b)
  then show ?case by (simp add: sqlite_compileConditions.simps)
next
  case (2 c a s i b cs)
  show ?case
    by (subst sqlite_compileConditions.simps) (auto simp: bind_res_def split: sum.splits option.splits)
next
  case (3 c' c b)
  then show ?case by (simp add: sqlite_cond_prefix_def)
next
  case (4 c i p)
  then have "cond_kind c = ''group'' \<or> cond_kind c = ''not''" by (simp add: is_group_def)
  then show ?case
    by (elim disjE) (simp_all add: sqlite_cond_unfold sqlite_compileWhere.simps join_Nil_sep bind_res_def split: sum.splits)
next
  case (5 c a s c' a' i p)
  then show ?case by (rule sqlite_cond_leaf)
qed

lemma sqlite_where_same:
  assumes "same_conds marshal ''sqlite'' cs cs'" and "simpleConditionsArgs marshal ''sqlite'' cs = Some (a, s)"
    and "simpleConditionsArgs marshal ''sqlite'' cs' = Some (a', s')"
  shows "agree_where a a' (sqlite_compileWhere cs) (sqlite_compileWhere cs')"
  using sqlite_conds.same_where [OF assms] by (simp add: sqlite_compileWhere.simps join_Nil_sep)

lemma sqlite_item_same:
  assumes "same_sel i j"
  shows "sqlite_compileSelectExpr j = sqlite_compileSelectExpr i \<and> res_all (\<lambda>(e, x). x = []) (sqlite_compileSelectExpr i)"
  using assms
  by (auto simp: same_sel_def sqlite_compileSelectExpr.simps sqlite_compileAggregateSelect_def split: sum.splits if_splits)

lemma sqlite_items_same:
  assumes "list_all2 same_sel xs ys"
  shows "sqlite_compileSelectItems ys = sqlite_compileSelectItems xs \<and>
    res_all (\<lambda>(ps, x). x = []) (sqlite_compileSelectItems xs)"
  using assms
proof (induction rule: list_all2_induct)
  case Nil
  then show ?case by (simp add: sqlite_compileSelectItems.simps)
next
  case (Cons i xs j ys)
  have "sel_Expr j = sel_Expr i" using Cons(1) by (simp add: same_sel_def)
  with Cons sqlite_item_same [OF Cons(1)] show ?case
    by (auto simp: sqlite_compileSelectItems.simps [of "i # xs"] sqlite_compileSelectItems.simps [of "j # ys"]
        res_all_def bind_res_def split: sum.splits)
qed

lemma sqlite_select_same:
  assumes same: "same_select marshal ''sqlite'' st st'"
    and key: "selectSQLCacheKey marshal ''sqlite'' st = Some (k, a)" "selectSQLCacheKey marshal ''sqlite'' st' = Some (k', a')"
  shows "agree_stmt a a' (sqlite_compileSelect st) (sqlite_compileSelect st')"
proof -
  note p = select_key_plain [OF key(1)] and p' = select_key_plain [OF key(2)]
  note s = same [unfolded same_select_def]
  have items: "sqlite_compileSelectItems (stmt_Select st') = sqlite_compileSelectItems (stmt_Select st)"
    "res_all (\<lambda>(ps, x). x = []) (sqlite_compileSelectItems (stmt_Select st))" "stmt_Select st' = [] \<longleftrightarrow> stmt_Select st = []"
    using s sqlite_items_same [of "stmt_Select st" "stmt_Select st'"] by (auto dest: list_all2_lengthD)
  have order: "sqlite_compileOrder (stmt_Order st') = sqlite_compileOrder (stmt_Order st)" "snd (sqlite_compileOrder (stmt_Order st)) = []"
  proof -
    have "map sqlite_orderItem (stmt_Order st') = map sqlite_orderItem (stmt_Order st)"
      using s p(8) p'(8) by (intro order_same [where g = "\<lambda>(e, d). sqlite_QuoteIdent e @ (if d then '' desc'' else '' asc'')"])
        (auto simp: sqlite_orderItem_def Let_def)
    then show "sqlite_compileOrder (stmt_Order st') = sqlite_compileOrder (stmt_Order st)"
      "snd (sqlite_compileOrder (stmt_Order st)) = []"
      using order_args_Nil [OF p(8)] order_args_Nil [OF p'(8)] by (simp_all add: sqlite_compileOrder_def del: concat_eq_Nil_conv)
  qed
  obtain t t' where w: "simpleConditionsArgs marshal ''sqlite'' (stmt_Where st) = Some (a, t)"
    "simpleConditionsArgs marshal ''sqlite'' (stmt_Where st') = Some (a', t')" using p(9) p'(9) by auto
  have tail: "sqlite_limit_offset_lock st' = sqlite_limit_offset_lock st"
    using s p(7) p'(7) by (auto simp: sqlite_limit_offset_lock_def)
  have source: "sqlite_compileSelectSource st' = sqlite_compileSelectSource st"
    "res_all (\<lambda>(e, x). x = []) (sqlite_compileSelectSource st)"
    using s p(1-3) p'(1-3) by (simp_all add: sqlite_compileSelectSource.simps sqlite_compileSource.simps)
  have none: "sqlite_compileWhere [] = Inr ([], [])" "sqlite_compileJoins [] = Inr ([], [])" "sqlite_compileGroup [] = []"
    by (simp_all add: sqlite_compileWhere.simps sqlite_compileConditions.simps sqlite_compileJoins.simps sqlite_compileGroup_def)
  obtain sql where "sqlite_compileOrder (stmt_Order st) = (sql, [])" using order(2) by (metis prod.collapse)
  note rules = this sqlite_compileSelect.simps [of st] sqlite_compileSelect.simps [of st'] p(4-6) p'(4-6) items(1,3) order(1)
    none source(1) tail
  have "agree_where a a' (sqlite_compileWhere (stmt_Where st)) (sqlite_compileWhere (stmt_Where st'))"
    using s sqlite_where_same [OF _ w] by blast
  then show ?thesis
    unfolding agree_where_def
    by (cases "sqlite_compileSelectItems (stmt_Select st)"; cases "sqlite_compileSelectSource st"; cases "sqlite_limit_offset_lock st")
      (use items(2) source(2) in \<open>auto simp: rules agree_stmt_def\<close>)
qed

lemma sqlite_insertRow_args: "insertRowArgs ks row = Some a \<Longrightarrow> sqlite_insertRow ks row = Inr a"
  by (induction ks arbitrary: a) (auto split: option.splits)

lemma sqlite_insertRows_args: "insertRowsArgs ks rows = Some a \<Longrightarrow> sqlite_insertRows ks rows = Inr a"
  by (induction rows arbitrary: a) (auto simp: sqlite_insertRow_args split: option.splits if_splits)

lemma sqlite_insert_args:
  assumes "insertSQLCacheKey ''sqlite'' st = Some (k, a)"
  shows "sqlite_compileInsert st = Inr \<lparr>c_SQL =
    ''insert into '' @ sqlite_QuoteIdent (ins_Table st) @ '' (''
      @ join '', '' (map sqlite_QuoteIdent (sortedKeys (hd (ins_Values st)))) @ '') values ''
      @ join '', '' (replicate (length (ins_Values st))
          (''('' @ trim_right (repeat_str ''?, '' (length (sortedKeys (hd (ins_Values st))))) '', '' @ '')''))
      @ (if ins_Returning st then '' returning *'' else ''''), c_Args = a\<rparr>"
  using write_key_plain(1) [OF assms]
  by (cases "ins_Values st") (simp_all add: sqlite_compileInsert_def sqlite_plainInsert_def Let_def sqlite_insertRows_args
      del: sqlite_insertRows.simps insertRowsArgs.simps)

lemma sqlite_set_same:
  assumes "simpleSetValueArgs v = Some (a, s)" and "simpleSetValueArgs w = Some (b, s)"
  shows "fst (sqlite_compileSet column w) = fst (sqlite_compileSet column v) \<and>
    snd (sqlite_compileSet column v) = a \<and> snd (sqlite_compileSet column w) = b"
  using assms
proof (cases rule: set_shape_same)
  case val
  have "sqlite_compileSet column x = (sqlite_QuoteIdent column @ '' = ?'', [x])" if "\<not> is_set_expr x" for x
    using that by (simp add: sqlite_compileSet_def is_set_expr_def split: goany.splits)
  with val show ?thesis by simp
qed (simp_all add: sqlite_compileSet_def)

lemma sqlite_sets_same:
  assumes "same_sets vals vals'"
  shows "map (\<lambda>c. fst (sqlite_compileSet c (map_get vals' c))) (sortedKeys vals') = map (\<lambda>c. fst (sqlite_compileSet c (map_get vals c))) (sortedKeys vals)"
    and "map (\<lambda>c. snd (sqlite_compileSet c (map_get vals c))) (sortedKeys vals) = map (set_args vals) (sortedKeys vals)"
    and "map (\<lambda>c. snd (sqlite_compileSet c (map_get vals' c))) (sortedKeys vals') = map (set_args vals') (sortedKeys vals')"
proof -
  have keys: "sortedKeys vals' = sortedKeys vals" using assms by (simp add: same_sets_def)
  have "fst (sqlite_compileSet c (map_get vals' c)) = fst (sqlite_compileSet c (map_get vals c)) \<and>
      snd (sqlite_compileSet c (map_get vals c)) = set_args vals c \<and> snd (sqlite_compileSet c (map_get vals' c)) = set_args vals' c"
    if "c \<in> set (sortedKeys vals)" for c
    using assms that sqlite_set_same unfolding same_sets_def by blast
  then show "map (\<lambda>c. fst (sqlite_compileSet c (map_get vals' c))) (sortedKeys vals') = map (\<lambda>c. fst (sqlite_compileSet c (map_get vals c))) (sortedKeys vals)"
    "map (\<lambda>c. snd (sqlite_compileSet c (map_get vals c))) (sortedKeys vals) = map (set_args vals) (sortedKeys vals)"
    "map (\<lambda>c. snd (sqlite_compileSet c (map_get vals' c))) (sortedKeys vals') = map (set_args vals') (sortedKeys vals')"
    unfolding keys by (auto simp del: set_sortedKeys)
qed

interpretation sqlite_cache: cacheable_dialect marshal "''sqlite''" sqlite_Compile for marshal
proof (unfold_locales, goal_cases)
  case 1
  show ?case by (simp add: plain_name_def)
next
  case (2 s s' k a a')
  then show ?case using sqlite_select_same by (simp add: sqlite_Compile_def)
next
  case (3 i' i k a a')
  then show ?case by (simp add: sqlite_Compile_def sqlite_insert_args agree_stmt_def)
next
  case (4 u' u k a a')
  obtain b s b' s' where w: "simpleConditionsArgs marshal ''sqlite'' (upd_Where u) = Some (b, s)"
    "simpleConditionsArgs marshal ''sqlite'' (upd_Where u') = Some (b', s')"
    and a: "a = concat (map (set_args (upd_Values u)) (sortedKeys (upd_Values u))) @ b" "upd_Values u \<noteq> []"
      "a' = concat (map (set_args (upd_Values u')) (sortedKeys (upd_Values u'))) @ b'" "upd_Values u' \<noteq> []"
    using write_key_plain(2) [OF 4(4)] write_key_plain(2) [OF 4(5)] by blast
  show ?case
    using sqlite_where_same [OF 4(3) w] a sqlite_sets_same [OF 4(2)]
    by (auto simp: sqlite_Compile_def sqlite_compileUpdate_def agree_where_def agree_stmt_def Let_def comp_def 4(1)
        simp del: map_eq_conv)
next
  case (5 d' d k a a')
  obtain s s' where w: "simpleConditionsArgs marshal ''sqlite'' (del_Where d) = Some (a, s)"
    "simpleConditionsArgs marshal ''sqlite'' (del_Where d') = Some (a', s')"
    using write_key_plain(3) [OF 5(3)] write_key_plain(3) [OF 5(4)] by blast
  from sqlite_where_same [OF 5(2) w] 5(1) show ?case
    by (auto simp: sqlite_Compile_def sqlite_compileDelete_def agree_where_def agree_stmt_def)
qed

end
