(* ===== verification/Sql_Cache_Mysql.thy ===== *)
theory Sql_Cache_Mysql
  imports Sql_Cache_Correct Mysql_Dialect
begin

text \<open>
  The MySQL dialect keeps the contract of the statement cache.
\<close>

lemmas mysql_cond_unfold = mysql_compileCondition.simps [unfolded Let_def, folded cond_kind_def]

lemma mysql_cond_other:
  assumes "cond_kind c \<notin> set special_kinds" and "\<forall>src. cond_Value c \<noteq> ASourcePtr src" and "cond_Escape c = []"
  shows "(mysql_compileCondition marshal) p c =
    (if \<not> IsSafeConditionOperator (cond_Op c) then Inl (mk_field_error ''mysql.where'' ErrInvalidArgument (cond_Field c))
     else Inr (Some (p @ mysql_QuoteIdent (cond_Field c) @ '' '' @ NormalizeConditionOperator (cond_Op c) @ '' ?'', [cond_Value c])))"
proof -
  have "(mysql_compileCondition marshal) p c =
    (if \<not> IsSafeConditionOperator (cond_Op c) then Inl (mk_field_error ''mysql.where'' ErrInvalidArgument (cond_Field c))
     else case cond_Value c of
        ASourcePtr source \<Rightarrow>
          bind_res ((mysql_compileScalarSource marshal) source ''mysql.where'') (\<lambda>(sql, sourceArgs).
            Inr (Some ((p @ mysql_QuoteIdent (cond_Field c) @ '' '' @ NormalizeConditionOperator (cond_Op c)) @ '' '' @ sql, sourceArgs)))
      | v \<Rightarrow> Inr (Some ((p @ mysql_QuoteIdent (cond_Field c) @ '' '' @ NormalizeConditionOperator (cond_Op c)) @ '' ?'', [v])))"
    using assms(1,3) by (simp add: mysql_cond_unfold special_kinds_def cong: goany.case_cong)
  then show ?thesis using assms(2) by (simp split: goany.splits)
qed

lemma mysql_cond_leaf:
  assumes "simpleConditionArgs marshal ''mysql'' c = Some (a, s)" "simpleConditionArgs marshal ''mysql'' c' = Some (a', s)"
    and "\<not> is_group c" "\<not> is_group c'" and "ok_cond c" "ok_cond c'"
  shows "agree_cond a a' ((mysql_compileCondition marshal) p c) ((mysql_compileCondition marshal) p c')"
  using assms
proof (cases rule: leaf_same_cases)
  case (column cop right)
  then show ?thesis
    by (simp add: mysql_cond_unfold mysql_compileColumnCondition_def agree_cond_def)
next
  case (json parts parts' jop v v')
  then show ?thesis
    by (auto simp: mysql_cond_unfold mysql_compileJSONCondition_def simpleJSONArgs_def simpleJSONPath_def
        mysqlJSONPath_def mysql_jsonConditionArgument_def Let_def agree_cond_def split: if_splits sum.splits)
next
  case (list vs vs')
  then have "vs' = [] \<longrightarrow> [] = vs" "vs = [] \<longrightarrow> vs' = []" by auto
  with list show ?thesis
    by (elim insertE emptyE) (simp_all add: mysql_cond_unfold mysql_compileInValuesCondition_def
        mysql_compileBetweenCondition_def agree_cond_def)
next
  case null
  then show ?thesis by (elim insertE emptyE) (simp_all add: mysql_cond_unfold agree_cond_def)
next
  case other
  then have kind: "cond_kind c' = cond_kind c" by (simp add: cond_kind_def)
  have esc: "cond_Escape c = []" "cond_Escape c' = []" using assms(5,6) by (simp_all add: ok_condD)
  show ?thesis
    using other(2-7) kind esc mysql_cond_other [of c marshal p] mysql_cond_other [of c' marshal p] other(1)
    by (simp add: agree_cond_def)
qed

interpretation mysql_conds: condition_compiler marshal "''mysql''" "\<lambda>i. (mysql_compileConditions marshal)" "\<lambda>i. (mysql_compileCondition marshal)"
    mysql_cond_prefix for marshal
proof (unfold_locales, goal_cases)
  case (1 i b)
  then show ?case by (simp add: mysql_compileConditions.simps)
next
  case (2 c a s i b cs)
  show ?case
    by (subst mysql_compileConditions.simps) (auto simp: bind_res_def split: sum.splits option.splits)
next
  case (3 c' c b)
  then show ?case by (simp add: mysql_cond_prefix_def)
next
  case (4 c i p)
  then have "cond_kind c = ''group'' \<or> cond_kind c = ''not''" by (simp add: is_group_def)
  then show ?case
    by (elim disjE) (simp_all add: mysql_cond_unfold mysql_compileWhere.simps join_Nil_sep bind_res_def split: sum.splits)
next
  case (5 c a s c' a' i p)
  then show ?case by (rule mysql_cond_leaf)
qed

lemma mysql_where_same:
  assumes "same_conds marshal ''mysql'' cs cs'" and "simpleConditionsArgs marshal ''mysql'' cs = Some (a, s)"
    and "simpleConditionsArgs marshal ''mysql'' cs' = Some (a', s')"
  shows "agree_where a a' ((mysql_compileWhere marshal) cs) ((mysql_compileWhere marshal) cs')"
  using mysql_conds.same_where [OF assms] by (simp add: mysql_compileWhere.simps join_Nil_sep)

lemma mysql_item_same:
  assumes "same_sel i j"
  shows "(mysql_compileSelectExpr marshal) j = (mysql_compileSelectExpr marshal) i \<and> res_all (\<lambda>(e, x). x = []) ((mysql_compileSelectExpr marshal) i)"
  using assms
  by (auto simp: same_sel_def mysql_compileSelectExpr.simps mysql_compileAggregateSelect_def split: sum.splits if_splits)

lemma mysql_items_same:
  assumes "list_all2 same_sel xs ys"
  shows "(mysql_compileSelectItems marshal) ys = (mysql_compileSelectItems marshal) xs \<and>
    res_all (\<lambda>(ps, x). x = []) ((mysql_compileSelectItems marshal) xs)"
  using assms
proof (induction rule: list_all2_induct)
  case Nil
  then show ?case by (simp add: mysql_compileSelectItems.simps)
next
  case (Cons i xs j ys)
  have "sel_Expr j = sel_Expr i" using Cons(1) by (simp add: same_sel_def)
  with Cons mysql_item_same [OF Cons(1), of marshal] show ?case
    by (auto simp: mysql_compileSelectItems.simps [of _ "i # xs"] mysql_compileSelectItems.simps [of _ "j # ys"]
        res_all_def bind_res_def split: sum.splits)
qed

lemma mysql_select_same:
  assumes same: "same_select marshal ''mysql'' st st'"
    and key: "selectSQLCacheKey marshal ''mysql'' st = Some (k, a)" "selectSQLCacheKey marshal ''mysql'' st' = Some (k', a')"
  shows "agree_stmt a a' ((mysql_compileSelect marshal) st) ((mysql_compileSelect marshal) st')"
proof -
  note p = select_key_plain [OF key(1)] and p' = select_key_plain [OF key(2)]
  note s = same [unfolded same_select_def]
  have items: "(mysql_compileSelectItems marshal) (stmt_Select st') = (mysql_compileSelectItems marshal) (stmt_Select st)"
    "res_all (\<lambda>(ps, x). x = []) ((mysql_compileSelectItems marshal) (stmt_Select st))" "stmt_Select st' = [] \<longleftrightarrow> stmt_Select st = []"
    using s mysql_items_same [of "stmt_Select st" "stmt_Select st'"] by (auto dest: list_all2_lengthD)
  have order: "mysql_compileOrder (stmt_Order st') = mysql_compileOrder (stmt_Order st)" "snd (mysql_compileOrder (stmt_Order st)) = []"
  proof -
    have "map mysql_orderItem (stmt_Order st') = map mysql_orderItem (stmt_Order st)"
      using s p(8) p'(8) by (intro order_same [where g = "\<lambda>(e, d). mysql_QuoteIdent e @ (if d then '' desc'' else '' asc'')"])
        (auto simp: mysql_orderItem_def Let_def)
    then show "mysql_compileOrder (stmt_Order st') = mysql_compileOrder (stmt_Order st)"
      "snd (mysql_compileOrder (stmt_Order st)) = []"
      using order_args_Nil [OF p(8)] order_args_Nil [OF p'(8)] by (simp_all add: mysql_compileOrder_def del: concat_eq_Nil_conv)
  qed
  obtain t t' where w: "simpleConditionsArgs marshal ''mysql'' (stmt_Where st) = Some (a, t)"
    "simpleConditionsArgs marshal ''mysql'' (stmt_Where st') = Some (a', t')" using p(9) p'(9) by auto
  have tail: "mysql_limit_offset_lock st' = mysql_limit_offset_lock st"
    using s p(7) p'(7) by (auto simp: mysql_limit_offset_lock_def mysql_compileLock_def)
  have source: "(mysql_compileSelectSource marshal) st' = (mysql_compileSelectSource marshal) st"
    "res_all (\<lambda>(e, x). x = []) ((mysql_compileSelectSource marshal) st)"
    using s p(1-3) p'(1-3) by (simp_all add: mysql_compileSelectSource.simps mysql_compileSource.simps)
  have none: "(mysql_compileWhere marshal) [] = Inr ([], [])" "(mysql_compileJoins marshal) [] = Inr ([], [])" "mysql_compileGroup [] = []"
    by (simp_all add: mysql_compileWhere.simps mysql_compileConditions.simps mysql_compileJoins.simps mysql_compileGroup_def)
  obtain sql where "mysql_compileOrder (stmt_Order st) = (sql, [])" using order(2) by (metis prod.collapse)
  note rules = this mysql_compileSelect.simps [of _ st] mysql_compileSelect.simps [of _ st'] p(4-6) p'(4-6) items(1,3) order(1)
    none source(1) tail
  have "agree_where a a' ((mysql_compileWhere marshal) (stmt_Where st)) ((mysql_compileWhere marshal) (stmt_Where st'))"
    using s mysql_where_same [OF _ w] by blast
  then show ?thesis
    unfolding agree_where_def
    by (cases "(mysql_compileSelectItems marshal) (stmt_Select st)"; cases "(mysql_compileSelectSource marshal) st"; cases "mysql_limit_offset_lock st")
      (use items(2) source(2) in \<open>auto simp: rules agree_stmt_def\<close>)
qed

lemma mysql_insertRow_args: "insertRowArgs ks row = Some a \<Longrightarrow> mysql_insertRow ks row = Inr a"
  by (induction ks arbitrary: a) (auto split: option.splits)

lemma mysql_insertRows_args: "insertRowsArgs ks rows = Some a \<Longrightarrow> mysql_insertRows ks rows = Inr a"
  by (induction rows arbitrary: a) (auto simp: mysql_insertRow_args split: option.splits if_splits)

lemma mysql_insert_args:
  assumes "insertSQLCacheKey ''mysql'' st = Some (k, a)"
  shows "mysql_compileInsert st = Inr \<lparr>c_SQL =
    ''insert into '' @ mysql_QuoteIdent (ins_Table st) @ '' (''
      @ join '', '' (map mysql_QuoteIdent (sortedKeys (hd (ins_Values st)))) @ '') values ''
      @ join '', '' (replicate (length (ins_Values st))
          (''('' @ trim_right (repeat_str ''?, '' (length (sortedKeys (hd (ins_Values st))))) '', '' @ '')''))
      @ (if ins_Returning st then '' returning *'' else ''''), c_Args = a\<rparr>"
  using write_key_plain(1) [OF assms]
  by (cases "ins_Values st") (simp_all add: mysql_compileInsert_def mysql_plainInsert_def Let_def mysql_insertRows_args
      del: mysql_insertRows.simps insertRowsArgs.simps)

lemma mysql_set_same:
  assumes "simpleSetValueArgs v = Some (a, s)" and "simpleSetValueArgs w = Some (b, s)"
  shows "fst (mysql_compileSet column w) = fst (mysql_compileSet column v) \<and>
    snd (mysql_compileSet column v) = a \<and> snd (mysql_compileSet column w) = b"
  using assms
proof (cases rule: set_shape_same)
  case val
  have "mysql_compileSet column x = (mysql_QuoteIdent column @ '' = ?'', [x])" if "\<not> is_set_expr x" for x
    using that by (simp add: mysql_compileSet_def is_set_expr_def split: goany.splits)
  with val show ?thesis by simp
qed (simp_all add: mysql_compileSet_def)

lemma mysql_sets_same:
  assumes "same_sets vals vals'"
  shows "map (\<lambda>c. fst (mysql_compileSet c (map_get vals' c))) (sortedKeys vals') = map (\<lambda>c. fst (mysql_compileSet c (map_get vals c))) (sortedKeys vals)"
    and "map (\<lambda>c. snd (mysql_compileSet c (map_get vals c))) (sortedKeys vals) = map (set_args vals) (sortedKeys vals)"
    and "map (\<lambda>c. snd (mysql_compileSet c (map_get vals' c))) (sortedKeys vals') = map (set_args vals') (sortedKeys vals')"
proof -
  have keys: "sortedKeys vals' = sortedKeys vals" using assms by (simp add: same_sets_def)
  have "fst (mysql_compileSet c (map_get vals' c)) = fst (mysql_compileSet c (map_get vals c)) \<and>
      snd (mysql_compileSet c (map_get vals c)) = set_args vals c \<and> snd (mysql_compileSet c (map_get vals' c)) = set_args vals' c"
    if "c \<in> set (sortedKeys vals)" for c
    using assms that mysql_set_same unfolding same_sets_def by blast
  then show "map (\<lambda>c. fst (mysql_compileSet c (map_get vals' c))) (sortedKeys vals') = map (\<lambda>c. fst (mysql_compileSet c (map_get vals c))) (sortedKeys vals)"
    "map (\<lambda>c. snd (mysql_compileSet c (map_get vals c))) (sortedKeys vals) = map (set_args vals) (sortedKeys vals)"
    "map (\<lambda>c. snd (mysql_compileSet c (map_get vals' c))) (sortedKeys vals') = map (set_args vals') (sortedKeys vals')"
    unfolding keys by (auto simp del: set_sortedKeys)
qed

interpretation mysql_cache: cacheable_dialect marshal "''mysql''" "mysql_Compile marshal" for marshal
proof (unfold_locales, goal_cases)
  case 1
  show ?case by (simp add: plain_name_def)
next
  case (2 s s' k a a')
  then show ?case using mysql_select_same by (simp add: mysql_Compile_def)
next
  case (3 i' i k a a')
  then show ?case by (simp add: mysql_Compile_def mysql_insert_args agree_stmt_def)
next
  case (4 u' u k a a')
  obtain b s b' s' where w: "simpleConditionsArgs marshal ''mysql'' (upd_Where u) = Some (b, s)"
    "simpleConditionsArgs marshal ''mysql'' (upd_Where u') = Some (b', s')"
    and a: "a = concat (map (set_args (upd_Values u)) (sortedKeys (upd_Values u))) @ b" "upd_Values u \<noteq> []"
      "a' = concat (map (set_args (upd_Values u')) (sortedKeys (upd_Values u'))) @ b'" "upd_Values u' \<noteq> []"
    using write_key_plain(2) [OF 4(4)] write_key_plain(2) [OF 4(5)] by blast
  show ?case
    using mysql_where_same [OF 4(3) w] a mysql_sets_same [OF 4(2)]
    by (auto simp: mysql_Compile_def mysql_compileUpdate_def agree_where_def agree_stmt_def Let_def comp_def 4(1)
        simp del: map_eq_conv)
next
  case (5 d' d k a a')
  obtain s s' where w: "simpleConditionsArgs marshal ''mysql'' (del_Where d) = Some (a, s)"
    "simpleConditionsArgs marshal ''mysql'' (del_Where d') = Some (a', s')"
    using write_key_plain(3) [OF 5(3)] write_key_plain(3) [OF 5(4)] by blast
  from mysql_where_same [OF 5(2) w] 5(1) show ?case
    by (auto simp: mysql_Compile_def mysql_compileDelete_def agree_where_def agree_stmt_def)
qed

end
