(* ===== verification/Sql_Cache_Pgsql.thy ===== *)
theory Sql_Cache_Pgsql
  imports Sql_Cache_Correct Pgsql_Dialect
begin

text \<open>
  The PostgreSQL dialect keeps the contract of the statement cache. Its texts also depend on the
  number of the next argument; statements of one shape bind the same number of arguments at every
  place, so the numbers agree.
\<close>

lemmas pgsql_cond_unfold = pgsql_compileCondition.simps [unfolded Let_def, folded cond_kind_def]

section \<open>Conditions\<close>

lemma pgsql_cond_other:
  assumes "cond_kind c \<notin> set special_kinds" and "\<forall>src. cond_Value c \<noteq> ASourcePtr src"
  shows "pgsql_compileCondition marshal p c i =
    (if \<not> IsSafeConditionOperator (cond_Op c) \<or> cond_Escape c \<notin> {[], [CHR 0x5C]}
     then Inl (mk_field_error ''pgsql.where'' ErrInvalidArgument (cond_Field c))
     else Inr (Some (p @ pgsql_QuoteIdent (cond_Field c) @ '' '' @ NormalizeConditionOperator (cond_Op c) @ '' '' @ pgsql_Placeholder i
         @ (if cond_Escape c = [] then [] else '' escape '' @ [CHR 0x27, CHR 0x5C, CHR 0x27]),
       [cond_Value c], i + 1)))"
proof -
  let ?lhs = "p @ pgsql_QuoteIdent (cond_Field c) @ '' '' @ NormalizeConditionOperator (cond_Op c) @ '' ''"
  have "pgsql_compileCondition marshal p c i =
    (if \<not> IsSafeConditionOperator (cond_Op c) then Inl (mk_field_error ''pgsql.where'' ErrInvalidArgument (cond_Field c))
     else case cond_Value c of
        ASourcePtr source \<Rightarrow>
          bind_res (pgsql_compileScalarSource marshal source i ''pgsql.where'') (\<lambda>(sql, sourceArgs, nextIndex).
            Inr (Some (?lhs @ sql, sourceArgs, nextIndex)))
      | v \<Rightarrow> (if cond_Escape c = [] then Inr (Some (?lhs @ pgsql_Placeholder i, [v], i + 1))
             else if cond_Escape c \<noteq> [CHR 0x5C] then Inl (mk_field_error ''pgsql.where'' ErrInvalidArgument (cond_Field c))
             else Inr (Some (?lhs @ pgsql_Placeholder i @ '' escape '' @ [CHR 0x27, CHR 0x5C, CHR 0x27], [v], i + 1))))"
    using assms(1) by (simp add: pgsql_cond_unfold special_kinds_def cong: goany.case_cong)
  then show ?thesis using assms(2) by (simp split: goany.splits)
qed

definition pg_agree where
  "pg_agree i a a' r r' \<longleftrightarrow> (\<exists>e. r = Inl e \<and> r' = Inl e) \<or>
     (\<exists>sql. sql \<noteq> [] \<and> r = Inr (Some (sql, a, i + length a)) \<and> r' = Inr (Some (sql, a', i + length a')))"

lemma pgsql_cond_leaf:
  assumes "simpleConditionArgs marshal ''pgsql'' c = Some (a, s)" "simpleConditionArgs marshal ''pgsql'' c' = Some (a', s)"
    and "\<not> is_group c" "\<not> is_group c'" and "ok_cond c" "ok_cond c'"
  shows "pg_agree i a a' (pgsql_compileCondition marshal p c i) (pgsql_compileCondition marshal p c' i)"
  using assms
proof (cases rule: leaf_same_cases)
  case (column cop right)
  then show ?thesis
    by (simp add: pgsql_cond_unfold pgsql_compileColumnCondition_def pg_agree_def)
next
  case (json parts parts' jop v v')
  then show ?thesis
    by (auto simp: pgsql_cond_unfold pgsql_compileJSONCondition_def simpleJSONArgs_def simpleJSONPath_def
        pgsqlJSONPath_def pgsql_jsonConditionArgument_def Let_def pg_agree_def split: if_splits sum.splits)
next
  case (list vs vs')
  then have "vs' = [] \<longrightarrow> [] = vs" "vs = [] \<longrightarrow> vs' = []" by auto
  with list show ?thesis
    by (elim insertE emptyE) (simp_all add: pgsql_cond_unfold pgsql_compileInValuesCondition_def
        pgsql_compileBetweenCondition_def pg_agree_def Let_def)
next
  case null
  then show ?thesis by (elim insertE emptyE) (simp_all add: pgsql_cond_unfold pg_agree_def)
next
  case other
  then have kind: "cond_kind c' = cond_kind c" by (simp add: cond_kind_def)
  have esc: "cond_Escape c = []" "cond_Escape c' = []" using assms(5,6) by (simp_all add: ok_condD)
  show ?thesis
    using other(2-7) kind esc pgsql_cond_other [of c marshal p i] pgsql_cond_other [of c' marshal p i] other(1)
    by (simp add: pg_agree_def)
qed

text \<open>One condition, without the number that follows it.\<close>

definition pgsql_condition :: "marshal_fun \<Rightarrow> nat \<Rightarrow> string \<Rightarrow> condition \<Rightarrow> fragment option result" where
  "pgsql_condition marshal i p c =
     bind_res (pgsql_compileCondition marshal p c i) (\<lambda>part. Inr (map_option (\<lambda>(sql, args, nextIndex). (sql, args)) part))"

lemma pgsql_next:
  assumes key: "simpleConditionArgs marshal ''pgsql'' c = Some (a, s)"
    and "pgsql_compileCondition marshal p c i = Inr (Some (sql, x, n))"
  shows "n = i + length x"
proof (cases "is_group c")
  case True
  then have "cond_kind c = ''group'' \<or> cond_kind c = ''not''" by (simp add: is_group_def)
  then show ?thesis
    using assms(2) by (elim disjE) (auto simp: pgsql_cond_unfold result_simps split: if_splits)
next
  case False
  with key show ?thesis
  proof (cases rule: leaf_cases)
    case (column cop right)
    with assms(2) show ?thesis by (auto simp: pgsql_cond_unfold result_simps)
  next
    case (json field parts jop v)
    then have "bind_res (pgsql_compileJSONCondition marshal c i) (\<lambda>(sql, args, n). Inr (Some (p @ sql, args, n))) = Inr (Some (sql, x, n))"
      using assms(2) by (simp add: pgsql_cond_unfold)
    then show ?thesis
      using json(2) by (auto simp: pgsql_compileJSONCondition_def Let_def result_simps split: if_splits)
  next
    case (list vs)
    with assms(2) show ?thesis
      by (elim insertE emptyE) (auto simp: pgsql_cond_unfold pgsql_compileInValuesCondition_def
          pgsql_compileBetweenCondition_def Let_def result_simps split: if_splits)
  next
    case null
    with assms(2) show ?thesis by (elim insertE emptyE) (simp_all add: pgsql_cond_unfold)
  next
    case other
    with pgsql_cond_other [OF other(1,2), of marshal p i] assms(2) show ?thesis by (auto split: if_splits)
  qed
qed

interpretation pgsql_conds: condition_compiler marshal "''pgsql''" "\<lambda>i b cs. pgsql_compileConditions marshal b cs i"
    "pgsql_condition marshal" pgsql_cond_prefix for marshal
proof (unfold_locales, goal_cases)
  case (1 i b)
  then show ?case by (simp add: pgsql_compileConditions.simps)
next
  case (2 c a s i b cs)
  show ?case
  proof (cases "pgsql_compileCondition marshal (pgsql_cond_prefix b c) c i")
    case (Inl e)
    then show ?thesis by (simp add: pgsql_compileConditions.simps [of _ _ "c # cs"] pgsql_condition_def)
  next
    case (Inr part)
    then show ?thesis
      using pgsql_next [OF 2, of "pgsql_cond_prefix b c" i]
      by (cases part) (auto simp: pgsql_compileConditions.simps [of _ _ "c # cs"] pgsql_condition_def)
  qed
next
  case (3 c' c b)
  then show ?case by (simp add: pgsql_cond_prefix_def)
next
  case (4 c i p)
  then have "cond_kind c = ''group'' \<or> cond_kind c = ''not''" by (simp add: is_group_def)
  then show ?case
    by (elim disjE) (auto simp: pgsql_condition_def pgsql_cond_unfold pgsql_compileWhere.simps join_Nil_sep bind_res_def split: sum.splits)
next
  case (5 c a s c' a' i p)
  then have "pg_agree i a a' (pgsql_compileCondition marshal p c i) (pgsql_compileCondition marshal p c' i)"
    by (rule pgsql_cond_leaf)
  then show ?case by (auto simp: pg_agree_def pgsql_condition_def agree_cond_def)
qed

lemma pgsql_where_same:
  assumes "same_conds marshal ''pgsql'' cs cs'" and "simpleConditionsArgs marshal ''pgsql'' cs = Some (a, s)"
    and "simpleConditionsArgs marshal ''pgsql'' cs' = Some (a', s')"
  shows "agree_where a a' (pgsql_compileWhere marshal cs i) (pgsql_compileWhere marshal cs' i)"
  using pgsql_conds.same_where [OF assms, where i = i and b = True] by (simp add: pgsql_compileWhere.simps join_Nil_sep)

section \<open>Selects\<close>

lemma pgsql_item_same:
  assumes "same_sel i j"
  shows "pgsql_compileSelectExpr marshal j n = pgsql_compileSelectExpr marshal i n \<and>
    res_all (\<lambda>(e, x, m). x = [] \<and> m = n) (pgsql_compileSelectExpr marshal i n)"
  using assms
  by (auto simp: same_sel_def pgsql_compileSelectExpr.simps pgsql_compileAggregateSelect_def split: sum.splits if_splits)

lemma pgsql_items_same:
  assumes "list_all2 same_sel xs ys"
  shows "pgsql_compileSelectItems marshal ys n = pgsql_compileSelectItems marshal xs n \<and>
    res_all (\<lambda>(ps, x, m). x = [] \<and> m = n) (pgsql_compileSelectItems marshal xs n)"
  using assms
proof (induction rule: list_all2_induct)
  case Nil
  then show ?case by (simp add: pgsql_compileSelectItems.simps)
next
  case (Cons i xs j ys)
  have "sel_Expr j = sel_Expr i" using Cons(1) by (simp add: same_sel_def)
  with Cons pgsql_item_same [OF Cons(1), of marshal n] show ?case
    by (auto simp: pgsql_compileSelectItems.simps [of _ "i # xs"] pgsql_compileSelectItems.simps [of _ "j # ys"]
        res_all_def bind_res_def split: sum.splits)
qed

lemma pgsql_select_same:
  assumes same: "same_select marshal ''pgsql'' st st'"
    and key: "selectSQLCacheKey marshal ''pgsql'' st = Some (k, a)" "selectSQLCacheKey marshal ''pgsql'' st' = Some (k', a')"
  shows "agree_stmt a a' (pgsql_compileSelect marshal st) (pgsql_compileSelect marshal st')"
proof -
  note p = select_key_plain [OF key(1)] and p' = select_key_plain [OF key(2)]
  note s = same [unfolded same_select_def]
  have items: "pgsql_compileSelectItems marshal (stmt_Select st') 1 = pgsql_compileSelectItems marshal (stmt_Select st) 1"
    "res_all (\<lambda>(ps, x, m). x = [] \<and> m = 1) (pgsql_compileSelectItems marshal (stmt_Select st) 1)" "stmt_Select st' = [] \<longleftrightarrow> stmt_Select st = []"
    using s pgsql_items_same [of "stmt_Select st" "stmt_Select st'" marshal 1] by (auto dest: list_all2_lengthD)
  have order: "pgsql_compileOrder (stmt_Order st') = pgsql_compileOrder (stmt_Order st)" "snd (pgsql_compileOrder (stmt_Order st)) = []"
  proof -
    have "map pgsql_orderItem (stmt_Order st') = map pgsql_orderItem (stmt_Order st)"
      using s p(8) p'(8) by (intro order_same [where g = "\<lambda>(e, d). pgsql_QuoteIdent e @ (if d then '' desc'' else '' asc'')"])
        (auto simp: pgsql_orderItem_def Let_def)
    then show "pgsql_compileOrder (stmt_Order st') = pgsql_compileOrder (stmt_Order st)"
      "snd (pgsql_compileOrder (stmt_Order st)) = []"
      using order_args_Nil [OF p(8)] order_args_Nil [OF p'(8)] by (simp_all add: pgsql_compileOrder_def del: concat_eq_Nil_conv)
  qed
  obtain t t' where w: "simpleConditionsArgs marshal ''pgsql'' (stmt_Where st) = Some (a, t)"
    "simpleConditionsArgs marshal ''pgsql'' (stmt_Where st') = Some (a', t')" using p(9) p'(9) by auto
  have tail: "pgsql_limit_offset_lock st' = pgsql_limit_offset_lock st"
    using s p(7) p'(7) by (auto simp: pgsql_limit_offset_lock_def pgsql_compileLock_def)
  have source: "pgsql_compileSelectSource marshal st' 1 = pgsql_compileSelectSource marshal st 1"
    "res_all (\<lambda>(e, x, m). x = [] \<and> m = 1) (pgsql_compileSelectSource marshal st 1)"
    using s p(1-3) p'(1-3) by (simp_all add: pgsql_compileSelectSource.simps pgsql_compileSource.simps)
  have none: "pgsql_compileWhere marshal [] n = Inr ([], [])" "pgsql_compileJoins marshal [] n = Inr ([], [], n)" "pgsql_compileGroup [] = []" for n
    by (simp_all add: pgsql_compileWhere.simps pgsql_compileConditions.simps pgsql_compileJoins.simps pgsql_compileGroup_def)
  obtain sql where "pgsql_compileOrder (stmt_Order st) = (sql, [])" using order(2) by (metis prod.collapse)
  note rules = this pgsql_compileSelect.simps [of _ st] pgsql_compileSelect.simps [of _ st'] p(4-6) p'(4-6) items(1,3) order(1)
    none source(1) tail
  have "agree_where a a' (pgsql_compileWhere marshal (stmt_Where st) 1) (pgsql_compileWhere marshal (stmt_Where st') 1)"
    using s pgsql_where_same [OF _ w] by blast
  then show ?thesis
    unfolding agree_where_def
    by (cases "pgsql_compileSelectItems marshal (stmt_Select st) 1"; cases "pgsql_compileSelectSource marshal st 1"; cases "pgsql_limit_offset_lock st")
      (use items(2) source(2) in \<open>auto simp: rules [unfolded One_nat_def] agree_stmt_def\<close>)
qed

section \<open>Writes\<close>

text \<open>The row templates of an insert with \<open>m\<close> columns, from a number on.\<close>

primrec row_templates :: "nat \<Rightarrow> nat \<Rightarrow> nat \<Rightarrow> string list" where
  "row_templates m 0 i = []"
| "row_templates m (Suc n) i =
     (''('' @ join '', '' (map pgsql_Placeholder [i..<i + m]) @ '')'') # row_templates m n (i + m)"

lemma pgsql_insertRow_args:
  "insertRowArgs ks row = Some a \<Longrightarrow>
   pgsql_insertRow ks row i = Inr (a, map pgsql_Placeholder [i..<i + length ks], i + length ks)"
  by (induction ks arbitrary: a i) (auto simp: upt_conv_Cons simp del: upt_Suc split: option.splits)

lemma pgsql_insertRows_args:
  "insertRowsArgs ks rows = Some a \<Longrightarrow> pgsql_insertRows ks rows i = Inr (a, row_templates (length ks) (length rows) i)"
  by (induction rows arbitrary: a i) (auto simp: pgsql_insertRow_args split: option.splits if_splits)

lemma pgsql_insert_args:
  assumes "insertSQLCacheKey ''pgsql'' st = Some (k, a)"
  shows "pgsql_compileInsert st = Inr \<lparr>c_SQL =
    ''insert into '' @ pgsql_QuoteIdent (ins_Table st) @ '' (''
      @ join '', '' (map pgsql_QuoteIdent (sortedKeys (hd (ins_Values st)))) @ '') values ''
      @ join '', '' (row_templates (length (sortedKeys (hd (ins_Values st)))) (length (ins_Values st)) 1)
      @ (if ins_Returning st then '' returning *'' else ''''), c_Args = a\<rparr>"
  using write_key_plain(1) [OF assms]
  by (cases "ins_Values st") (simp_all add: pgsql_compileInsert_def pgsql_plainInsert_def Let_def pgsql_insertRows_args
      del: pgsql_insertRows.simps insertRowsArgs.simps row_templates.simps)

lemma pgsql_set_same:
  assumes "simpleSetValueArgs v = Some (a, s)" and "simpleSetValueArgs w = Some (b, s)"
  shows "\<exists>sql. pgsql_compileSet column v i = (sql, a, i + length a) \<and> pgsql_compileSet column w i = (sql, b, i + length b) \<and>
    length b = length a"
  using assms
proof (cases rule: set_shape_same)
  case val
  have "pgsql_compileSet column x i = (pgsql_QuoteIdent column @ '' = '' @ pgsql_Placeholder i, [x], i + 1)" if "\<not> is_set_expr x" for x
    using that by (simp add: pgsql_compileSet_def is_set_expr_def split: goany.splits)
  with val show ?thesis by simp
qed (simp_all add: pgsql_compileSet_def)

lemma pgsql_sets_same:
  assumes "\<forall>c \<in> set ks. \<exists>s. simpleSetValueArgs (map_get vals c) = Some (set_args vals c, s) \<and>
      simpleSetValueArgs (map_get vals' c) = Some (set_args vals' c, s)"
  shows "\<exists>sets n. pgsql_compileSets vals ks i = (sets, concat (map (set_args vals) ks), n) \<and>
      pgsql_compileSets vals' ks i = (sets, concat (map (set_args vals') ks), n)"
  using assms
proof (induction ks arbitrary: i)
  case Nil
  then show ?case by simp
next
  case (Cons c ks)
  obtain s where "simpleSetValueArgs (map_get vals c) = Some (set_args vals c, s)"
    "simpleSetValueArgs (map_get vals' c) = Some (set_args vals' c, s)" using Cons.prems by auto
  from pgsql_set_same [OF this, of c i] obtain sql where
    "pgsql_compileSet c (map_get vals c) i = (sql, set_args vals c, i + length (set_args vals c))"
    "pgsql_compileSet c (map_get vals' c) i = (sql, set_args vals' c, i + length (set_args vals c))" by auto
  then show ?case using Cons.IH [of "i + length (set_args vals c)"] Cons.prems by auto
qed

interpretation pgsql_cache: cacheable_dialect marshal "''pgsql''" "pgsql_Compile marshal" for marshal
proof (unfold_locales, goal_cases)
  case 1
  show ?case by (simp add: plain_name_def)
next
  case (2 s s' k a a')
  then show ?case using pgsql_select_same by (simp add: pgsql_Compile_def)
next
  case (3 i' i k a a')
  then show ?case by (simp add: pgsql_Compile_def pgsql_insert_args agree_stmt_def)
next
  case (4 u' u k a a')
  obtain b s b' s' where w: "simpleConditionsArgs marshal ''pgsql'' (upd_Where u) = Some (b, s)"
    "simpleConditionsArgs marshal ''pgsql'' (upd_Where u') = Some (b', s')"
    and a: "a = concat (map (set_args (upd_Values u)) (sortedKeys (upd_Values u))) @ b" "upd_Values u \<noteq> []"
      "a' = concat (map (set_args (upd_Values u')) (sortedKeys (upd_Values u'))) @ b'" "upd_Values u' \<noteq> []"
    using write_key_plain(2) [OF 4(4)] write_key_plain(2) [OF 4(5)] by blast
  have keys: "sortedKeys (upd_Values u') = sortedKeys (upd_Values u)" using 4(2) by (simp add: same_sets_def)
  obtain sets n where "pgsql_compileSets (upd_Values u) (sortedKeys (upd_Values u)) 1 =
      (sets, concat (map (set_args (upd_Values u)) (sortedKeys (upd_Values u))), n)"
    "pgsql_compileSets (upd_Values u') (sortedKeys (upd_Values u)) 1 =
      (sets, concat (map (set_args (upd_Values u')) (sortedKeys (upd_Values u))), n)"
    using pgsql_sets_same [of "sortedKeys (upd_Values u)" "upd_Values u" "upd_Values u'" 1] 4(2) unfolding same_sets_def by blast
  with pgsql_where_same [OF 4(3) w, of n] a keys show ?case
    by (auto simp: pgsql_Compile_def pgsql_compileUpdate_def agree_where_def agree_stmt_def Let_def 4(1) simp del: map_eq_conv)
next
  case (5 d' d k a a')
  obtain s s' where w: "simpleConditionsArgs marshal ''pgsql'' (del_Where d) = Some (a, s)"
    "simpleConditionsArgs marshal ''pgsql'' (del_Where d') = Some (a', s')"
    using write_key_plain(3) [OF 5(3)] write_key_plain(3) [OF 5(4)] by blast
  from pgsql_where_same [OF 5(2) w, of 1] 5(1) show ?case
    by (auto simp: pgsql_Compile_def pgsql_compileDelete_def agree_where_def agree_stmt_def)
qed

end
