(* ===== verification/Sql_Cache_Transparent.thy ===== *)
theory Sql_Cache_Transparent
  imports Sql_Cache_Sqlite Sql_Cache_Mysql Sql_Cache_Pgsql
begin

text \<open>
  The properties of the statement cache, for the three dialects: it is transparent for statements
  whose names contain no delimiter of the key language and whose conditions have no ESCAPE clause;
  with an ESCAPE clause it is not.
\<close>

text \<open>
  C5. Compiling any sequence of statements through one cache, of any size, gives for each of them
  exactly what the dialect's \<open>Compile\<close> gives: the text of an earlier statement is reused only
  where it is the text of this one, with this one's arguments in their order; and errors are
  those of \<open>Compile\<close>.
\<close>

theorem statement_cache_transparent:
  assumes "conn \<in> {(''sqlite'', sqlite_Compile), (''mysql'', mysql_Compile marshal), (''pgsql'', pgsql_Compile marshal)}"
    and "list_all ok_stmt sts"
  shows "compile_all marshal (Some conn) (newSQLCache n) sts = map (snd conn) sts"
  using assms sqlite_cache.compile_all_transparent mysql_cache.compile_all_transparent pgsql_cache.compile_all_transparent
  by (auto simp: list_all_iff)

text \<open>Two deletes of one shape and an update that raises a counter: the second statement is served from the cache.\<close>

definition cache_example :: "statement list" where
  "cache_example =
     [StmtDelete \<lparr>del_Table = ''users'', del_Where = [Condition ''and'' ''name'' ''='' (AString ''a'') [] []]\<rparr>,
      StmtDelete \<lparr>del_Table = ''users'', del_Where = [Condition ''and'' ''name'' ''='' (AString ''b'') [] []]\<rparr>,
      StmtUpdate \<lparr>upd_Table = ''users'', upd_Values = [(''n'', AIncrementExpr (AString ''1''))],
        upd_Where = [Condition ''and'' '''' ''group'' ANil [Condition ''and'' ''id'' ''in_values'' (AList [AString ''7'']) [] []] []]\<rparr>]"

theorem statement_cache_transparent_witness:
  "compile_all (\<lambda>v. Inr ''null'') (Some (''pgsql'', pgsql_Compile (\<lambda>v. Inr ''null''))) (newSQLCache 8) cache_example =
     map (pgsql_Compile (\<lambda>v. Inr ''null'')) cache_example \<and>
   map_option fst (lightweightSQLCacheKey (\<lambda>v. Inr ''null'') ''pgsql'' (cache_example ! 0)) =
     map_option fst (lightweightSQLCacheKey (\<lambda>v. Inr ''null'') ''pgsql'' (cache_example ! 1))"
proof
  have "list_all ok_stmt cache_example" by code_simp
  then show "compile_all (\<lambda>v. Inr ''null'') (Some (''pgsql'', pgsql_Compile (\<lambda>v. Inr ''null''))) (newSQLCache 8) cache_example =
     map (pgsql_Compile (\<lambda>v. Inr ''null'')) cache_example"
    using statement_cache_transparent [of "(''pgsql'', pgsql_Compile (\<lambda>v. Inr ''null''))" "\<lambda>v. Inr ''null''" cache_example 8]
    by simp
  show "map_option fst (lightweightSQLCacheKey (\<lambda>v. Inr ''null'') ''pgsql'' (cache_example ! 0)) =
     map_option fst (lightweightSQLCacheKey (\<lambda>v. Inr ''null'') ''pgsql'' (cache_example ! 1))"
    by code_simp
qed

definition like_delete :: "string \<Rightarrow> string \<Rightarrow> statement" where
  "like_delete pattern escape =
     StmtDelete \<lparr>del_Table = ''t'', del_Where = [Condition ''and'' ''f'' ''like'' (AString pattern) [] escape]\<rparr>"

text \<open>
  the escape character of a LIKE condition is not part of the key. After
  \<open>f like 'a%'\<close> has been compiled, a search for the literal text \<open>50%\<close> (which
  \<open>Contains\<close> writes with an escaped percent sign and an ESCAPE clause) is sent without the
  clause: the text that reaches the database is not the one the dialect compiles.
\<close>

theorem escape_missing_from_key:
  "compile_all marshal (Some (''sqlite'', sqlite_Compile)) (newSQLCache 8)
       [like_delete ''a%'' [], like_delete (''%'' @ EscapeLike ''50%'' @ ''%'') [CHR 0x5C]] =
     [Inr \<lparr>c_SQL = ''delete from '' @ sqlite_QuoteIdent ''t'' @ '' where '' @ sqlite_QuoteIdent ''f'' @ '' like ?'',
           c_Args = [AString ''a%'']\<rparr>,
      Inr \<lparr>c_SQL = ''delete from '' @ sqlite_QuoteIdent ''t'' @ '' where '' @ sqlite_QuoteIdent ''f'' @ '' like ?'',
           c_Args = [AString (''%'' @ EscapeLike ''50%'' @ ''%'')]\<rparr>] \<and>
   sqlite_Compile (like_delete (''%'' @ EscapeLike ''50%'' @ ''%'') [CHR 0x5C]) =
     Inr \<lparr>c_SQL = ''delete from '' @ sqlite_QuoteIdent ''t'' @ '' where '' @ sqlite_QuoteIdent ''f'' @ '' like ?''
            @ '' escape '' @ [CHR 0x27, CHR 0x5C, CHR 0x27],
          c_Args = [AString (''%'' @ EscapeLike ''50%'' @ ''%'')]\<rparr>"
  by code_simp

end
