(* ===== verification/Where_Correct.thy ===== *)
theory Where_Correct
  imports Where_Builder Sql_Cache_Transparent
begin

text \<open>
  The conditions a program builds and what the dialects make of them: what \<open>Where\<close> accepts is
  compiled to the comparison that was asked for; an error in a nested group reaches the compiled
  statement; \<open>And\<close>, \<open>Or\<close> and \<open>Not\<close> bracket their parts; the LIKE patterns of \<open>Contains\<close>,
  \<open>StartsWith\<close> and \<open>EndsWith\<close> match literally.
\<close>

section \<open>Operators that pass the white list\<close>

lemma safe_operator_kind:
  assumes "IsSafeConditionOperator op"
  shows "to_lower (trim_space op) \<notin> set special_kinds"
proof
  assume "to_lower (trim_space op) \<in> set special_kinds"
  then have "NormalizeConditionOperator op \<in> (\<lambda>k. join '' '' (go_fields k)) ` set special_kinds"
    unfolding NormalizeConditionOperator_def by (rule imageI)
  moreover have "(\<lambda>k. join '' '' (go_fields k)) ` set special_kinds = set special_kinds"
    by code_simp
  moreover have "set special_kinds \<inter> set safe_condition_operators = {}"
    by code_simp
  ultimately show False
    using assms unfolding IsSafeConditionOperator_def by blast
qed

text \<open>A condition on a column: the text of the three dialects.\<close>

lemma column_condition_text:
  assumes "IsSafeConditionOperator op" and "\<forall>src. v \<noteq> ASourcePtr src"
  shows "sqlite_compileWhere [Condition b f op v [] []] = Inr (sqlite_QuoteIdent f @ '' '' @ NormalizeConditionOperator op @ '' ?'', [v])"
    and "mysql_compileWhere marshal [Condition b f op v [] []] = Inr (mysql_QuoteIdent f @ '' '' @ NormalizeConditionOperator op @ '' ?'', [v])"
    and "pgsql_compileWhere marshal [Condition b f op v [] []] i =
      Inr (pgsql_QuoteIdent f @ '' '' @ NormalizeConditionOperator op @ '' '' @ pgsql_Placeholder i, [v])"
proof -
  let ?c = "Condition b f op v [] []"
  have k: "cond_kind ?c \<notin> set special_kinds" "\<forall>src. cond_Value ?c \<noteq> ASourcePtr src" "cond_Escape ?c = []"
    using safe_operator_kind [OF assms(1)] assms(2) by (simp_all add: cond_kind_def)
  show "sqlite_compileWhere [?c] = Inr (sqlite_QuoteIdent f @ '' '' @ NormalizeConditionOperator op @ '' ?'', [v])"
    using sqlite_cond_other [OF k] assms(1)
    by (simp add: sqlite_compileWhere.simps sqlite_compileConditions.simps sqlite_cond_prefix_def)
  show "mysql_compileWhere marshal [?c] = Inr (mysql_QuoteIdent f @ '' '' @ NormalizeConditionOperator op @ '' ?'', [v])"
    using mysql_cond_other [OF k] assms(1)
    by (simp add: mysql_compileWhere.simps mysql_compileConditions.simps mysql_cond_prefix_def)
  show "pgsql_compileWhere marshal [?c] i =
      Inr (pgsql_QuoteIdent f @ '' '' @ NormalizeConditionOperator op @ '' '' @ pgsql_Placeholder i, [v])"
    using pgsql_cond_other [OF k(1,2)] assms(1)
    by (simp add: pgsql_compileWhere.simps pgsql_compileConditions.simps pgsql_cond_prefix_def)
qed

lemma eq_operator: "IsSafeConditionOperator ''=''" "NormalizeConditionOperator ''='' = ''=''"
  by code_simp+

lemma whereConditions_field:
  assumes "whereConditions b (AString f) args = Inr cs"
  obtains op v where "cs = [withBool b (mk_cond f op v)]" "IsSafeConditionOperator op"
    "args = [v] \<and> op = ''='' \<or> args = [AString op, v]"
  using assms eq_operator
  by (fastforce simp: whereConditions_def buildConditionFromRawOrCondition_def buildSingleCondition_def buildConditions_def
      field_conditions_def split: if_splits list.splits goany.splits option.splits)

text \<open>
  C20. What \<open>Where(field, args...)\<close> accepts for a named field is compiled, by each of the three
  dialects, to one comparison of the quoted column with one placeholder, the operator being one
  of the white list, and binds exactly the value given last.
\<close>

theorem where_accepted_compiles:
  assumes "whereConditions b (AString f) args = Inr cs" and "\<forall>src. last args \<noteq> ASourcePtr src"
  shows "\<exists>op \<in> set safe_condition_operators.
    sqlite_compileWhere cs = Inr (sqlite_QuoteIdent f @ '' '' @ op @ '' ?'', [last args]) \<and>
    mysql_compileWhere marshal cs = Inr (mysql_QuoteIdent f @ '' '' @ op @ '' ?'', [last args]) \<and>
    pgsql_compileWhere marshal cs i = Inr (pgsql_QuoteIdent f @ '' '' @ op @ '' '' @ pgsql_Placeholder i, [last args])"
  using assms(1)
proof (rule whereConditions_field)
  fix op v assume c: "cs = [withBool b (mk_cond f op v)]" and safe: "IsSafeConditionOperator op"
    and args: "args = [v] \<and> op = ''='' \<or> args = [AString op, v]"
  have "withBool b (mk_cond f op v) = Condition b f op v [] []" by (simp add: withBool_def mk_cond_def)
  moreover have v: "last args = v" using args by auto
  moreover have "\<forall>src. v \<noteq> ASourcePtr src" using v assms(2) by simp
  note texts = column_condition_text [OF safe this]
  ultimately show ?thesis
    using texts c safe unfolding IsSafeConditionOperator_def by (intro bexI [of _ "NormalizeConditionOperator op"]) simp_all
qed

theorem where_accepted_compiles_witness:
  "whereConditions ''and'' (AString ''age'') [AString '' >= '', AOther ''18''] = Inr [Condition ''and'' ''age'' '' >= '' (AOther ''18'') [] []] \<and>
   (\<exists>op \<in> set safe_condition_operators.
    sqlite_compileWhere [Condition ''and'' ''age'' '' >= '' (AOther ''18'') [] []] = Inr (sqlite_QuoteIdent ''age'' @ '' '' @ op @ '' ?'', [AOther ''18'']))"
proof -
  have w: "whereConditions ''and'' (AString ''age'') [AString '' >= '', AOther ''18''] = Inr [Condition ''and'' ''age'' '' >= '' (AOther ''18'') [] []]"
    by code_simp
  moreover have "\<exists>op \<in> set safe_condition_operators.
    sqlite_compileWhere [Condition ''and'' ''age'' '' >= '' (AOther ''18'') [] []] = Inr (sqlite_QuoteIdent ''age'' @ '' '' @ op @ '' ?'', [AOther ''18''])"
  proof -
    have l: "last [AString '' >= '', AOther ''18''] = AOther ''18''" by simp
    have "\<forall>src. last [AString '' >= '', AOther ''18''] \<noteq> ASourcePtr src" by simp
    from where_accepted_compiles [OF w this, of "\<lambda>v. Inr []" 1, unfolded l] show ?thesis by blast
  qed
  ultimately show ?thesis by blast
qed

section \<open>Errors in nested groups\<close>

text \<open>A callback as the list of calls it makes on its builder.\<close>

datatype where_op =
    OpWhere goany "goany list" | OpOrWhere goany "goany list"
  | OpColumn string "string list" | OpOrColumn string "string list"
  | OpExists source_ast | OpOrExists source_ast
  | OpIn string source_ast | OpOrIn string source_ast
  | OpRaw string "goany list" | OpOrRaw string "goany list"
  | OpGroup "where_op list" | OpOrGroup "where_op list" | OpWhen bool "where_op list"

fun run_op :: "where_op \<Rightarrow> where_builder \<Rightarrow> where_builder"
  and run_ops :: "where_op list \<Rightarrow> where_builder \<Rightarrow> where_builder" where
  "run_op (OpWhere f args) = builder_Where f args"
| "run_op (OpOrWhere f args) = builder_OrWhere f args"
| "run_op (OpColumn left args) = builder_WhereColumn left args"
| "run_op (OpOrColumn left args) = builder_OrWhereColumn left args"
| "run_op (OpExists source) = builder_WhereExists source"
| "run_op (OpOrExists source) = builder_OrWhereExists source"
| "run_op (OpIn f source) = builder_WhereIn f source"
| "run_op (OpOrIn f source) = builder_OrWhereIn f source"
| "run_op (OpRaw sql args) = builder_WhereRaw sql args"
| "run_op (OpOrRaw sql args) = builder_OrWhereRaw sql args"
| "run_op (OpGroup ops) = builder_WhereGroup (Some (run_ops ops))"
| "run_op (OpOrGroup ops) = builder_OrWhereGroup (Some (run_ops ops))"
| "run_op (OpWhen b ops) = builder_WhereWhen b (Some (run_ops ops))"
| "run_ops [] = (\<lambda>builder. builder)"
| "run_ops (p # ops) = (\<lambda>builder. run_ops ops (run_op p builder))"

text \<open>The error of a call, and the last one of a list of calls, at any depth.\<close>

fun op_error :: "where_op \<Rightarrow> go_error option"
  and ops_error :: "where_op list \<Rightarrow> go_error option" where
  "op_error (OpWhere f args) = (case whereConditions ''and'' f args of Inl e \<Rightarrow> Some e | Inr _ \<Rightarrow> None)"
| "op_error (OpOrWhere f args) = (case whereConditions ''or'' f args of Inl e \<Rightarrow> Some e | Inr _ \<Rightarrow> None)"
| "op_error (OpGroup ops) = ops_error ops"
| "op_error (OpOrGroup ops) = ops_error ops"
| "op_error (OpWhen b ops) = (if b then ops_error ops else None)"
| "op_error _ = None"
| "ops_error [] = None"
| "ops_error (p # ops) = (case ops_error ops of Some e \<Rightarrow> Some e | None \<Rightarrow> op_error p)"

lemma builder_where_err:
  "wb_err (builder_where b f args builder) =
     (case whereConditions b f args of Inl e \<Rightarrow> Some e | Inr _ \<Rightarrow> wb_err builder)"
  by (simp add: builder_where_def appendWhereCondition_def split: sum.splits)

lemma builder_group_err:
  "wb_err (builder_whereGroup b (Some f) builder) =
     (case wb_err (f empty_builder) of Some e \<Rightarrow> Some e | None \<Rightarrow> wb_err builder)"
  by (simp add: builder_whereGroup_def Let_def split: option.splits)

lemmas builder_defs = builder_Where_def builder_OrWhere_def builder_WhereColumn_def builder_OrWhereColumn_def
  builder_WhereExists_def builder_OrWhereExists_def builder_WhereIn_def builder_OrWhereIn_def builder_WhereRaw_def
  builder_OrWhereRaw_def builder_WhereGroup_def builder_OrWhereGroup_def builder_WhereWhen_def builder_add_def

lemma run_err:
  "wb_err (run_op p builder) = (case op_error p of Some e \<Rightarrow> Some e | None \<Rightarrow> wb_err builder)"
  "wb_err (run_ops ops builder) = (case ops_error ops of Some e \<Rightarrow> Some e | None \<Rightarrow> wb_err builder)"
proof (induction p and ops arbitrary: builder and builder rule: run_op_run_ops.induct)
  case (15 p ops)
  then show ?case by (simp split: option.splits)
qed (simp_all add: builder_defs builder_where_err builder_group_err empty_builder_def split: sum.splits option.splits)

lemma invalid_compiles_to_error:
  "sqlite_compileWhere [mk_cond [] ''invalid'' (AError e)] = Inl e"
  "mysql_compileWhere marshal [mk_cond [] ''invalid'' (AError e)] = Inl e"
  "pgsql_compileWhere marshal [mk_cond [] ''invalid'' (AError e)] i = Inl e"
proof -
  have "cond_kind (mk_cond [] ''invalid'' (AError e)) = ''invalid''" by (simp add: cond_kind_def mk_cond_def) code_simp
  then show "sqlite_compileWhere [mk_cond [] ''invalid'' (AError e)] = Inl e"
    "mysql_compileWhere marshal [mk_cond [] ''invalid'' (AError e)] = Inl e"
    "pgsql_compileWhere marshal [mk_cond [] ''invalid'' (AError e)] i = Inl e"
    by (simp_all add: sqlite_compileWhere.simps sqlite_compileConditions.simps sqlite_cond_unfold
        mysql_compileWhere.simps mysql_compileConditions.simps mysql_cond_unfold
        pgsql_compileWhere.simps pgsql_compileConditions.simps pgsql_cond_unfold mk_cond_def)
qed

text \<open>
  C31. An argument error in a callback of \<open>WhereGroup\<close>, at any depth of nested groups, is never
  lost: the group compiles, in every dialect, to exactly the last such error; and a callback
  without errors gives a group, or nothing when it added no condition.
\<close>

theorem where_group_error_surfaces:
  "case ops_error ops of
     Some e \<Rightarrow>
       sqlite_compileWhere [buildWhereGroup b (Some (run_ops ops))] = Inl e \<and>
       mysql_compileWhere marshal [buildWhereGroup b (Some (run_ops ops))] = Inl e \<and>
       pgsql_compileWhere marshal [buildWhereGroup b (Some (run_ops ops))] i = Inl e
   | None \<Rightarrow>
       (let cs = wb_conditions (run_ops ops empty_builder) in
        buildWhereGroup b (Some (run_ops ops)) =
          (if cs = [] then mk_cond [] ''empty_group'' ANil else Condition b [] ''group'' ANil cs []))"
proof (cases "ops_error ops")
  case None
  then have "wb_err (run_ops ops empty_builder) = None" by (simp add: run_err empty_builder_def)
  with None show ?thesis by (simp add: buildWhereGroup_def Let_def)
next
  case (Some e)
  then have "wb_err (run_ops ops empty_builder) = Some e" by (simp add: run_err)
  with Some show ?thesis by (simp add: buildWhereGroup_def invalid_compiles_to_error)
qed

section \<open>And, Or, Not\<close>

lemma sqlite_cond_prefix_text:
  "sqlite_compileCondition p c =
     bind_res (sqlite_compileCondition [] c) (\<lambda>part. Inr (map_option (\<lambda>(sql, args). (p @ sql, args)) part))"
  unfolding sqlite_compileCondition.simps [of p c] sqlite_compileCondition.simps [of "[]" c] Let_def
    if_distrib [where f = "\<lambda>r. bind_res r g" for g] goany.case_distrib [where h = "\<lambda>r. bind_res r g" for g]
  by (intro if_cong refl goany.case_cong_weak goany.case_cong; auto simp: bind_res_def split: sum.splits)

lemma withBool_same:
  "cond_Op (withBool b c) = cond_Op c" "cond_Field (withBool b c) = cond_Field c" "cond_Value (withBool b c) = cond_Value c"
  "cond_Conditions (withBool b c) = cond_Conditions c" "cond_Escape (withBool b c) = cond_Escape c"
  by (simp_all add: withBool_def)

lemma withBool_compile: "sqlite_compileCondition p (withBool b c) = sqlite_compileCondition p c"
  unfolding sqlite_compileCondition.simps [of p "withBool b c"] sqlite_compileCondition.simps [of p c] withBool_same
    sqlite_compileInCondition.simps sqlite_compileExistsCondition.simps sqlite_compileCountCondition.simps
    sqlite_compileJSONCondition_def sqlite_compileColumnCondition_def sqlite_compileInValuesCondition_def
    sqlite_compileBetweenCondition_def ..

lemma sqlite_bool_list:
  assumes "\<forall>c \<in> set cs. cond_Bool c = [] \<and> sqlite_compileCondition [] c = Inr (Some (txt c, arg c))"
    and "b = ''and'' \<or> b = ''or''"
  shows "sqlite_compileConditions first (map (withBool b) cs) =
    Inr (case cs of [] \<Rightarrow> [] | c # rest \<Rightarrow> ((if first then [] else '' '' @ b @ '' '') @ txt c) # map (\<lambda>c. '' '' @ b @ '' '' @ txt c) rest,
         concat (map arg cs))"
  using assms(1)
proof (induction cs arbitrary: first)
  case Nil
  then show ?case by (simp add: sqlite_compileConditions.simps)
next
  case (Cons c cs)
  have norm: "to_lower (trim_space ''and'') = ''and''" "to_lower (trim_space ''or'') = ''or''" by code_simp+
  have "cond_Bool (withBool b c) = b" using Cons.prems by (simp add: withBool_def)
  then have p: "sqlite_cond_prefix first (withBool b c) = (if first then [] else '' '' @ b @ '' '')"
    using assms(2) norm by (auto simp: sqlite_cond_prefix_def)
  have "sqlite_compileCondition q (withBool b c) = Inr (Some (q @ txt c, arg c))" for q
    using Cons.prems by (subst sqlite_cond_prefix_text) (simp add: withBool_compile)
  then show ?case
    using Cons p by (cases cs) (simp_all add: sqlite_compileConditions.simps [of _ "_ # _"] sqlite_compileConditions.simps [of _ "[]"])
qed

lemma join_between: "concat (case xs of [] \<Rightarrow> [] | x # rest \<Rightarrow> x # map ((@) sep) rest) = join sep xs"
proof (induction xs)
  case Nil
  then show ?case by simp
next
  case (Cons x xs)
  then show ?case by (cases xs) simp_all
qed

lemma grouping_parts:
  assumes "\<forall>c \<in> set cs. cond_Bool c = [] \<and> sqlite_compileCondition [] c = Inr (Some (txt c, arg c)) \<and> txt c \<noteq> []" and "cs \<noteq> []"
  shows "sqlite_compileWhere [Or_cond cs] = Inr (''('' @ join '' or '' (map txt cs) @ '')'', concat (map arg cs))"
    and "sqlite_compileWhere [And_cond cs] = Inr (''('' @ join '' and '' (map txt cs) @ '')'', concat (map arg cs))"
    and "sqlite_compileWhere [Not_cond (hd cs)] = Inr (''not ('' @ txt (hd cs) @ '')'', arg (hd cs))"
proof -
  have ok: "\<forall>c \<in> set cs. cond_Bool c = [] \<and> sqlite_compileCondition [] c = Inr (Some (txt c, arg c))" using assms(1) by blast
  obtain c cs' where cs: "cs = c # cs'" using assms(2) by (cases cs) auto
  have kinds: "cond_kind (Or_cond cs) = ''group''" "cond_kind (And_cond cs) = ''group''" "cond_kind (Not_cond c) = ''not''"
    unfolding cond_kind_def Or_cond_def And_cond_def Not_cond_def condition.sel by code_simp+
  have part: "sqlite_compileWhere (map (withBool b) cs) = Inr (join ('' '' @ b @ '' '') (map txt cs), concat (map arg cs)) \<and>
      join ('' '' @ b @ '' '') (map txt cs) \<noteq> []" if "b = ''and'' \<or> b = ''or''" for b
    using sqlite_bool_list [OF ok that, of True] assms(1) join_between [of "'' '' @ b @ '' ''" "map txt cs"]
    by (auto simp: sqlite_compileWhere.simps join_Nil_sep cs comp_def join_Cons)
  have single: "sqlite_compileWhere [g] = Inr (open_text @ body @ '')'', x)"
    if "is_group g" "open_text = (if cond_kind g = ''not'' then ''not ('' else ''('')"
      "sqlite_compileWhere (cond_Conditions g) = Inr (body, x)" "body \<noteq> []" for g open_text body x
  proof -
    note g = that
    obtain ps where "sqlite_compileConditions True (cond_Conditions g) = Inr (ps, x)" "concat ps = body"
      using g(3) by (auto simp: sqlite_compileWhere.simps result_simps join_Nil_sep)
    with sqlite_conds.cond_group [OF g(1), of "[]"] g(2,4) show ?thesis
      by (auto simp: sqlite_compileWhere.simps sqlite_compileConditions.simps [of _ "[_]"] sqlite_compileConditions.simps [of _ "[]"]
          sqlite_cond_prefix_def)
  qed
  show "sqlite_compileWhere [Or_cond cs] = Inr (''('' @ join '' or '' (map txt cs) @ '')'', concat (map arg cs))"
    using part [of "''or''"] kinds(1)
    by (intro single) (simp_all add: is_group_def Or_cond_def conditionsWithBool_def)
  show "sqlite_compileWhere [And_cond cs] = Inr (''('' @ join '' and '' (map txt cs) @ '')'', concat (map arg cs))"
    using part [of "''and''"] kinds(2)
    by (intro single) (simp_all add: is_group_def And_cond_def conditionsWithBool_def)
  have "sqlite_compileWhere [c] = Inr (txt c, arg c)"
    using ok cs by (simp add: sqlite_compileWhere.simps sqlite_compileConditions.simps sqlite_cond_prefix_def)
  then show "sqlite_compileWhere [Not_cond (hd cs)] = Inr (''not ('' @ txt (hd cs) @ '')'', arg (hd cs))"
    using kinds(3) assms(1) cs by (intro single) (simp_all add: is_group_def, simp_all add: Not_cond_def)
qed



section \<open>LIKE patterns\<close>

text \<open>What a LIKE pattern matches.\<close>

fun like_match :: "like_token list \<Rightarrow> string \<Rightarrow> bool" where
  "like_match [] s = (s = [])"
| "like_match (LikeChar c # ts) s = (case s of [] \<Rightarrow> False | d # r \<Rightarrow> d = c \<and> like_match ts r)"
| "like_match (LikeOne # ts) s = (case s of [] \<Rightarrow> False | d # r \<Rightarrow> like_match ts r)"
| "like_match (LikeAny # ts) [] = like_match ts []"
| "like_match (LikeAny # ts) (d # r) = (like_match ts (d # r) \<or> like_match (LikeAny # ts) r)"

lemma like_match_chars: "like_match (map LikeChar v @ ts) s \<longleftrightarrow> (\<exists>r. s = v @ r \<and> like_match ts r)"
  by (induction v arbitrary: s) (auto split: list.splits)

lemma like_match_any: "like_match (LikeAny # ts) s \<longleftrightarrow> (\<exists>u r. s = u @ r \<and> like_match ts r)"
proof (induction s)
  case Nil
  then show ?case by simp
next
  case (Cons d s)
  have "(\<exists>u r. d # s = u @ r \<and> like_match ts r) \<longleftrightarrow> like_match ts (d # s) \<or> (\<exists>u r. s = u @ r \<and> like_match ts r)"
    by (metis append_Cons append_Nil neq_Nil_conv list.inject)
  with Cons show ?case by simp
qed

lemma like_match_any_end: "like_match [LikeAny] s"
  by (simp add: like_match_any)

text \<open>The pattern of a condition, read with the escape character it names.\<close>

definition cond_pattern :: "condition \<Rightarrow> like_token list option" where
  "cond_pattern c =
     (case cond_Value c of AString p \<Rightarrow> if cond_Escape c = [CHR 0x5C] then like_tokens p else None | _ \<Rightarrow> None)"

text \<open>
  C32. Whatever characters it contains, wildcards and backslashes included, the text given to
  \<open>Contains\<close>, \<open>StartsWith\<close> or \<open>EndsWith\<close> is matched literally: the pattern that is bound matches
  exactly the strings that contain it, start with it, end with it.
\<close>

theorem like_literal:
  "(\<exists>ts. cond_pattern (field_Contains f v) = Some ts \<and> (\<forall>s. like_match ts s \<longleftrightarrow> (\<exists>u w. s = u @ v @ w))) \<and>
   (\<exists>ts. cond_pattern (field_StartsWith f v) = Some ts \<and> (\<forall>s. like_match ts s \<longleftrightarrow> (\<exists>w. s = v @ w))) \<and>
   (\<exists>ts. cond_pattern (field_EndsWith f v) = Some ts \<and> (\<forall>s. like_match ts s \<longleftrightarrow> (\<exists>u. s = u @ v)))"
proof (intro conjI)
  have "like_match (LikeAny # map LikeChar v @ [LikeAny]) s \<longleftrightarrow> (\<exists>u w. s = u @ v @ w)" for s
    unfolding like_match_any like_match_chars like_match.simps by auto
  then show "\<exists>ts. cond_pattern (field_Contains f v) = Some ts \<and> (\<forall>s. like_match ts s \<longleftrightarrow> (\<exists>u w. s = u @ v @ w))"
    by (simp add: cond_pattern_def field_Contains_def like_escaped_def like_tokens_any like_tokens_EscapeLike_append)
  have "like_match (map LikeChar v @ [LikeAny]) s \<longleftrightarrow> (\<exists>w. s = v @ w)" for s
    unfolding like_match_any like_match_chars like_match.simps by auto
  then show "\<exists>ts. cond_pattern (field_StartsWith f v) = Some ts \<and> (\<forall>s. like_match ts s \<longleftrightarrow> (\<exists>w. s = v @ w))"
    by (simp add: cond_pattern_def field_StartsWith_def like_escaped_def like_tokens_any like_tokens_EscapeLike_append)
  have "like_match (LikeAny # map LikeChar v @ []) s \<longleftrightarrow> (\<exists>u. s = u @ v)" for s
    unfolding like_match_any like_match_chars by simp
  then show "\<exists>ts. cond_pattern (field_EndsWith f v) = Some ts \<and> (\<forall>s. like_match ts s \<longleftrightarrow> (\<exists>u. s = u @ v))"
    by (simp add: cond_pattern_def field_EndsWith_def like_escaped_def like_tokens_any like_tokens_EscapeLike)
qed

end
