(* ===== verification/Go_Slices.thy ===== *)
theory Go_Slices
  imports Main
begin

text \<open>
  Go slices over an explicit store of backing arrays. A slice is a pointer to an array with a
  length and a capacity; \<open>append\<close> writes into the array behind the slice while the
  capacity lasts and only then copies to a new array. Slices that share an array therefore
  share the cells past their ends. The new capacity is chosen by the Go run time and is a
  parameter \<open>grow\<close> (old capacity, length needed); all that the language promises of it is
  \<open>grow_ok\<close>.

  An array is the list of the cells written so far: no slice of the modelled code is ever
  extended except by \<open>append\<close>, so a cell is written before it is read.
\<close>

datatype 'a slice = Slice (sl_addr: nat) (sl_len: nat) (sl_cap: nat)

type_synonym 'a arrays = "'a list list"

type_synonym growth = "nat \<Rightarrow> nat \<Rightarrow> nat"

definition nil_slice :: "'a slice" where
  "nil_slice = Slice 0 0 0"

definition grow_ok :: "growth \<Rightarrow> bool" where
  "grow_ok grow \<longleftrightarrow> (\<forall>c n. n \<le> grow c n)"

text \<open>The growth of Go's run time below 256 elements, for an element size of which a doubled capacity fills a size class.\<close>

definition doubling :: growth where
  "doubling c n = max (2 * c) n"

definition contents :: "'a arrays \<Rightarrow> 'a slice \<Rightarrow> 'a list" where
  "contents a s = (if sl_len s = 0 then [] else take (sl_len s) (a ! sl_addr s))"

definition go_append :: "growth \<Rightarrow> 'a slice \<Rightarrow> 'a list \<Rightarrow> 'a arrays \<Rightarrow> 'a slice \<times> 'a arrays" where
  "go_append grow s xs a =
     (let n = sl_len s + length xs in
      if n \<le> sl_cap s
      then (Slice (sl_addr s) n (sl_cap s),
            a[sl_addr s := take (sl_len s) (a ! sl_addr s) @ xs @ drop n (a ! sl_addr s)])
      else (Slice (length a) n (grow (sl_cap s) n), a @ [contents a s @ xs]))"

text \<open>A slice of the store: within its capacity, and with an array behind it unless that is zero.\<close>

definition slice_ok :: "'a arrays \<Rightarrow> 'a slice \<Rightarrow> bool" where
  "slice_ok a s \<longleftrightarrow>
     sl_len s \<le> sl_cap s \<and>
     (sl_cap s = 0 \<or> sl_addr s < length a \<and> sl_len s \<le> length (a ! sl_addr s))"

text \<open>
  What an append to \<open>t\<close> leaves alone: a slice over another array, and one over the same array
  that ends no later than \<open>t\<close>. Two slices are separate when they have no array in common.
\<close>

definition outside :: "'a slice \<Rightarrow> 'a slice \<Rightarrow> bool" where
  "outside s t \<longleftrightarrow> sl_len s = 0 \<or> sl_cap t = 0 \<or> sl_addr s \<noteq> sl_addr t \<or> sl_len s \<le> sl_len t"

definition separate :: "'a slice \<Rightarrow> 'a slice \<Rightarrow> bool" where
  "separate s t \<longleftrightarrow> sl_cap s = 0 \<or> sl_cap t = 0 \<or> sl_addr s \<noteq> sl_addr t"

lemma nil_slice_simps [simp]:
  "slice_ok a nil_slice" "contents a nil_slice = []" "separate nil_slice t" "sl_len nil_slice = 0" "sl_cap nil_slice = 0"
  by (simp_all add: nil_slice_def slice_ok_def contents_def separate_def)

lemma outside_refl [simp]: "outside s s"
  by (simp add: outside_def)

lemma separate_outside: "separate s t \<Longrightarrow> slice_ok a s \<Longrightarrow> outside s t"
  by (auto simp: outside_def separate_def slice_ok_def)

lemma separate_sym: "separate s t \<longleftrightarrow> separate t s"
  by (auto simp: separate_def)

lemma doubling_ok: "grow_ok doubling"
  by (simp add: grow_ok_def doubling_def)

lemma slice_ok_len_0: "slice_ok a s \<Longrightarrow> sl_cap s = 0 \<Longrightarrow> sl_len s = 0"
  by (simp add: slice_ok_def)

lemma append_length: "go_append grow s xs a = (t, b) \<Longrightarrow> length a \<le> length b"
  by (auto simp: go_append_def Let_def split: if_splits)

lemma contents_length: "slice_ok a s \<Longrightarrow> length (contents a s) = sl_len s"
  by (auto simp: slice_ok_def contents_def)

text \<open>An append gives the old contents followed by the new elements.\<close>

lemma append_contents:
  assumes "go_append grow s xs a = (t, b)" and "slice_ok a s"
  shows "contents b t = contents a s @ xs"
proof (cases "sl_len s + length xs \<le> sl_cap s")
  case True
  show ?thesis
  proof (cases "sl_cap s = 0")
    case True
    with assms \<open>sl_len s + length xs \<le> sl_cap s\<close> show ?thesis
      by (auto simp: go_append_def contents_def)
  next
    case False
    with assms True show ?thesis
      by (auto simp: go_append_def Let_def contents_def slice_ok_def min_def)
  qed
next
  case False
  with assms show ?thesis
    by (auto simp: go_append_def Let_def contents_length contents_def [of _ "Slice _ _ _"] nth_append)
qed

lemma append_ok:
  assumes "go_append grow s xs a = (t, b)" and "slice_ok a s" and "grow_ok grow"
  shows "slice_ok b t"
  using assms contents_length [OF assms(2)]
  by (auto simp: go_append_def Let_def slice_ok_def grow_ok_def min_def nth_append split: if_splits)

lemma append_outside:
  assumes "go_append grow s xs a = (t, b)" and "slice_ok a r" and "outside r s"
  shows "contents b r = contents a r" and "slice_ok b r" and "outside r t"
proof -
  have addr: "sl_len r = 0 \<or> sl_addr r < length a"
    using assms(2) by (auto simp: slice_ok_def)
  show "contents b r = contents a r"
  proof (cases "sl_len r = 0")
    case True
    then show ?thesis by (simp add: contents_def)
  next
    case False
    then show ?thesis
      using assms addr
      by (cases "sl_addr r = sl_addr s")
        (auto simp: go_append_def Let_def contents_def slice_ok_def outside_def nth_list_update nth_append min_def
          split: if_splits)
  qed
  show "slice_ok b r"
    using assms addr
    by (cases "sl_addr r = sl_addr s")
      (auto simp: go_append_def Let_def slice_ok_def outside_def nth_list_update nth_append min_def split: if_splits)
  show "outside r t"
    using assms addr by (auto simp: go_append_def Let_def outside_def split: if_splits)
qed

lemma append_separate:
  assumes "go_append grow s xs a = (t, b)" and "slice_ok a r"
  shows "separate r s \<Longrightarrow> separate r t" and "separate s r \<Longrightarrow> separate t r"
  using assms by (auto simp: go_append_def Let_def separate_def slice_ok_def split: if_splits)

lemma append_separate_same:
  assumes "go_append grow s xs a = (t, b)" and "slice_ok a r" and "separate r s \<or> separate s r"
  shows "contents b r = contents a r" and "slice_ok b r"
proof -
  have "outside r s" using assms(2,3) by (auto intro: separate_outside simp: separate_sym)
  then show "contents b r = contents a r" and "slice_ok b r"
    using append_outside [OF assms(1,2)] by blast+
qed

text \<open>The same facts as rewrite rules for the two components of an append.\<close>

named_theorems slice_simps \<open>rewrite rules for append on slices\<close>

lemma append_pair: "go_append grow s xs a = (fst (go_append grow s xs a), snd (go_append grow s xs a))"
  by simp

lemmas [slice_simps] =
  append_contents [OF append_pair] append_ok [OF append_pair] append_outside [OF append_pair]
  append_separate [OF append_pair] append_separate_same [OF append_pair]

text \<open>
  A slice is \<open>own\<close> above a bound \<open>N\<close> when an append to it cannot touch the arrays below \<open>N\<close>: it
  is full, or its array lies above the bound.
\<close>

definition own :: "nat \<Rightarrow> 'a slice \<Rightarrow> bool" where
  "own N s \<longleftrightarrow> sl_cap s = sl_len s \<or> N \<le> sl_addr s"

lemma append_own:
  assumes "go_append grow s xs a = (t, b)" and "own N s" and "N \<le> length a" and "slice_ok a s"
  shows "own N t" and "i < N \<Longrightarrow> b ! i = a ! i"
proof -
  show "own N t"
    using assms by (auto simp: go_append_def Let_def own_def split: if_splits)
  show "b ! i = a ! i" if "i < N"
  proof (cases "sl_len s + length xs \<le> sl_cap s \<and> i = sl_addr s")
    case True
    with assms that have "xs = []" and "sl_len s = sl_cap s" by (auto simp: own_def)
    with True assms that show ?thesis by (auto simp: go_append_def Let_def)
  next
    case False
    with assms that show ?thesis
      by (auto simp: go_append_def Let_def nth_append split: if_splits)
  qed
qed

lemma contents_cong: "(\<And>i. i < length a \<Longrightarrow> b ! i = a ! i) \<Longrightarrow> slice_ok a s \<Longrightarrow> contents b s = contents a s"
  by (auto simp: contents_def slice_ok_def)

text \<open>Two appends to one slice with room to spare: the second replaces what the first added.\<close>

lemma append_twice:
  assumes "go_append grow s xs a = (t, b)" and "go_append grow s ys b = (u, c)"
    and "slice_ok a s" and "sl_len s + length xs \<le> sl_cap s" and "length ys = length xs" and "xs \<noteq> []"
  shows "contents c t = contents a s @ ys"
  using assms by (auto simp: go_append_def Let_def contents_def slice_ok_def min_def)

end
