(* ===== verification/Table_Query.thy ===== *)
theory Table_Query
  imports Where_Builder Go_Slices
begin

text \<open>
  The query specification of ast.go, the chained builder of query\_table.go and the planner of
  runtime.go. The slices of a specification live in a store of arrays (Go\_Slices), one for each
  element type. A builder method copies the query struct and appends to the slices of the copy, so
  the copy and the receiver share their arrays; every method below therefore takes the query and
  the store and returns both. The specification record is polymorphic in its slice fields:
  \<open>heap_spec\<close> holds slices, \<open>list_spec\<close> the lists they denote. \<open>With\<close> and \<open>Model\<close> are set for model
  queries only and are left out; a \<open>*int\<close> is an option, since nothing writes through it.
\<close>

section \<open>Query specifications (ast.go)\<close>

record 'g cache_spec =
  cache_Enabled :: bool
  cache_TTL :: int
  cache_Key :: string
  cache_Tags :: 'g

record ('c, 's, 'j, 'o, 'g) query_spec =
  spec_Connection :: string
  spec_ShardGroup :: string
  spec_Table :: string
  spec_Alias :: string
  spec_From :: source_ast
  spec_ModelName :: string
  spec_Where :: 'c
  spec_Select :: 's
  spec_SelectErr :: "go_error option"
  spec_Joins :: 'j
  spec_Group :: 'g
  spec_Having :: 'c
  spec_Order :: 'o
  spec_Limit :: "int option"
  spec_Offset :: "int option"
  spec_Lock :: lock_spec
  spec_SkipEvents :: bool
  spec_UsePrimary :: bool
  spec_Cache :: "'g cache_spec"
  spec_Timeout :: int
  spec_finalized :: bool

type_synonym heap_spec =
  "(condition slice, sel_item slice, join_item slice, order_item slice, string slice) query_spec"

type_synonym list_spec =
  "(condition list, sel_item list, join_item list, order_item list, string list) query_spec"

record write_spec =
  write_Query :: list_spec
  write_Values :: "gomap list"
  write_Primary :: "string list"
  write_Conflict :: conflict_spec
  write_Returning :: bool
  write_Operation :: string

text \<open>A lock option is a function on the lock specification, nil is \<open>None\<close>.\<close>

definition NoWait :: "lock_spec \<Rightarrow> lock_spec" where
  "NoWait spec = spec\<lparr>lock_NoWait := True\<rparr>"

definition SkipLocked :: "lock_spec \<Rightarrow> lock_spec" where
  "SkipLocked spec = spec\<lparr>lock_SkipLocked := True\<rparr>"

definition applyLockOptions :: "lock_mode \<Rightarrow> (lock_spec \<Rightarrow> lock_spec) option list \<Rightarrow> lock_spec" where
  "applyLockOptions mode options =
     fold (\<lambda>option spec. case option of None \<Rightarrow> spec | Some f \<Rightarrow> f spec) options
       \<lparr>lock_Mode = mode, lock_NoWait = False, lock_SkipLocked = False\<rparr>"

section \<open>The planner (runtime.go)\<close>

definition BuildSelect :: "list_spec \<Rightarrow> statement" where
  "BuildSelect spec =
     StmtSelect (SelectAST (spec_Table spec) (spec_Alias spec) (spec_From spec) (spec_Joins spec) (spec_Where spec)
       (spec_Select spec) (spec_Group spec) (spec_Having spec) (spec_Order spec) (spec_Limit spec) (spec_Offset spec)
       (spec_Lock spec))"

definition BuildInsert :: "write_spec \<Rightarrow> statement" where
  "BuildInsert spec =
     StmtInsert \<lparr>ins_Table = spec_Table (write_Query spec), ins_Values = write_Values spec, ins_Conflict = no_conflict,
       ins_Returning = write_Returning spec\<rparr>"

definition BuildUpsert :: "write_spec \<Rightarrow> statement" where
  "BuildUpsert spec =
     StmtInsert \<lparr>ins_Table = spec_Table (write_Query spec), ins_Values = write_Values spec,
       ins_Conflict = write_Conflict spec, ins_Returning = write_Returning spec\<rparr>"

definition BuildUpdate :: "write_spec \<Rightarrow> statement" where
  "BuildUpdate spec =
     StmtUpdate \<lparr>upd_Table = spec_Table (write_Query spec),
       upd_Values = (case write_Values spec of [] \<Rightarrow> [] | row # _ \<Rightarrow> row), upd_Where = spec_Where (write_Query spec)\<rparr>"

definition BuildDelete :: "write_spec \<Rightarrow> statement" where
  "BuildDelete spec =
     StmtDelete \<lparr>del_Table = spec_Table (write_Query spec), del_Where = spec_Where (write_Query spec)\<rparr>"

section \<open>The store and the appends\<close>

record go_heap =
  heap_conds :: "condition arrays"
  heap_sels :: "sel_item arrays"
  heap_joins :: "join_item arrays"
  heap_orders :: "order_item arrays"
  heap_strings :: "string arrays"

definition empty_heap :: go_heap where
  "empty_heap = \<lparr>heap_conds = [], heap_sels = [], heap_joins = [], heap_orders = [], heap_strings = []\<rparr>"

record table_query =
  tq_spec :: heap_spec
  tq_shard :: gomap
  tq_allShards :: bool

type_synonym builder_step = "table_query \<times> go_heap \<Rightarrow> table_query \<times> go_heap"

text \<open>\<open>clone := *query\<close> followed by an update of the specification.\<close>

definition on_spec :: "(heap_spec \<Rightarrow> heap_spec) \<Rightarrow> builder_step" where
  "on_spec f st = (case st of (query, h) \<Rightarrow> (query\<lparr>tq_spec := f (tq_spec query)\<rparr>, h))"

definition set_SelectErr :: "go_error \<Rightarrow> builder_step" where
  "set_SelectErr err = on_spec (\<lambda>spec. spec\<lparr>spec_SelectErr := Some err\<rparr>)"

text \<open>\<open>clone.spec.Where = append(clone.spec.Where, cs...)\<close>, and the same for the other slices.\<close>

definition append_Where :: "growth \<Rightarrow> condition list \<Rightarrow> builder_step" where
  "append_Where grow cs st =
     (case st of (query, h) \<Rightarrow>
        case go_append grow (spec_Where (tq_spec query)) cs (heap_conds h) of (s, a) \<Rightarrow>
          (query\<lparr>tq_spec := (tq_spec query)\<lparr>spec_Where := s\<rparr>\<rparr>, h\<lparr>heap_conds := a\<rparr>))"

definition append_Having :: "growth \<Rightarrow> condition list \<Rightarrow> builder_step" where
  "append_Having grow cs st =
     (case st of (query, h) \<Rightarrow>
        case go_append grow (spec_Having (tq_spec query)) cs (heap_conds h) of (s, a) \<Rightarrow>
          (query\<lparr>tq_spec := (tq_spec query)\<lparr>spec_Having := s\<rparr>\<rparr>, h\<lparr>heap_conds := a\<rparr>))"

definition append_Select :: "growth \<Rightarrow> sel_item list \<Rightarrow> builder_step" where
  "append_Select grow items st =
     (case st of (query, h) \<Rightarrow>
        case go_append grow (spec_Select (tq_spec query)) items (heap_sels h) of (s, a) \<Rightarrow>
          (query\<lparr>tq_spec := (tq_spec query)\<lparr>spec_Select := s\<rparr>\<rparr>, h\<lparr>heap_sels := a\<rparr>))"

definition append_Joins :: "growth \<Rightarrow> join_item list \<Rightarrow> builder_step" where
  "append_Joins grow joins st =
     (case st of (query, h) \<Rightarrow>
        case go_append grow (spec_Joins (tq_spec query)) joins (heap_joins h) of (s, a) \<Rightarrow>
          (query\<lparr>tq_spec := (tq_spec query)\<lparr>spec_Joins := s\<rparr>\<rparr>, h\<lparr>heap_joins := a\<rparr>))"

definition append_Order :: "growth \<Rightarrow> order_item list \<Rightarrow> builder_step" where
  "append_Order grow items st =
     (case st of (query, h) \<Rightarrow>
        case go_append grow (spec_Order (tq_spec query)) items (heap_orders h) of (s, a) \<Rightarrow>
          (query\<lparr>tq_spec := (tq_spec query)\<lparr>spec_Order := s\<rparr>\<rparr>, h\<lparr>heap_orders := a\<rparr>))"

definition append_Group :: "growth \<Rightarrow> string list \<Rightarrow> builder_step" where
  "append_Group grow fs st =
     (case st of (query, h) \<Rightarrow>
        case go_append grow (spec_Group (tq_spec query)) fs (heap_strings h) of (s, a) \<Rightarrow>
          (query\<lparr>tq_spec := (tq_spec query)\<lparr>spec_Group := s\<rparr>\<rparr>, h\<lparr>heap_strings := a\<rparr>))"

definition append_Tags :: "growth \<Rightarrow> string list \<Rightarrow> builder_step" where
  "append_Tags grow tags st =
     (case st of (query, h) \<Rightarrow>
        case go_append grow (cache_Tags (spec_Cache (tq_spec query))) tags (heap_strings h) of (s, a) \<Rightarrow>
          (query\<lparr>tq_spec := (tq_spec query)\<lparr>spec_Cache := (spec_Cache (tq_spec query))\<lparr>cache_Tags := s\<rparr>\<rparr>\<rparr>,
           h\<lparr>heap_strings := a\<rparr>))"

section \<open>The builder (query\_table.go, db.go)\<close>

definition zero_spec :: heap_spec where
  "zero_spec =
     \<lparr>spec_Connection = [], spec_ShardGroup = [], spec_Table = [], spec_Alias = [],
      spec_From = SourceAST [] [] None None, spec_ModelName = [], spec_Where = nil_slice, spec_Select = nil_slice,
      spec_SelectErr = None, spec_Joins = nil_slice, spec_Group = nil_slice, spec_Having = nil_slice,
      spec_Order = nil_slice, spec_Limit = None, spec_Offset = None,
      spec_Lock = \<lparr>lock_Mode = LockNone, lock_NoWait = False, lock_SkipLocked = False\<rparr>, spec_SkipEvents = False,
      spec_UsePrimary = False,
      spec_Cache = \<lparr>cache_Enabled = False, cache_TTL = 0, cache_Key = [], cache_Tags = nil_slice\<rparr>, spec_Timeout = 0,
      spec_finalized = False\<rparr>"

definition db_Table :: "string \<Rightarrow> string \<Rightarrow> table_query" where
  "db_Table connection name =
     \<lparr>tq_spec = zero_spec\<lparr>spec_Connection := connection, spec_Table := name\<rparr>, tq_shard = [], tq_allShards = False\<rparr>"

definition db_From :: "string \<Rightarrow> source_ast \<Rightarrow> table_query" where
  "db_From connection source =
     \<lparr>tq_spec = zero_spec\<lparr>spec_Connection := connection, spec_From := source\<rparr>, tq_shard = [], tq_allShards = False\<rparr>"

definition query_where :: "growth \<Rightarrow> string \<Rightarrow> goany \<Rightarrow> goany list \<Rightarrow> builder_step" where
  "query_where grow boolOp field args =
     (case whereConditions boolOp field args of
        Inl err \<Rightarrow> set_SelectErr err
      | Inr conditions \<Rightarrow> append_Where grow conditions)"

definition query_Where :: "growth \<Rightarrow> goany \<Rightarrow> goany list \<Rightarrow> builder_step" where
  "query_Where grow field args = query_where grow ''and'' field args"

definition query_OrWhere :: "growth \<Rightarrow> goany \<Rightarrow> goany list \<Rightarrow> builder_step" where
  "query_OrWhere grow field args = query_where grow ''or'' field args"

definition query_whereGroup :: "growth \<Rightarrow> string \<Rightarrow> where_callback \<Rightarrow> builder_step" where
  "query_whereGroup grow boolOp fn =
     (let condition = buildWhereGroup boolOp fn in
      if cond_Op condition = ''empty_group'' then id else append_Where grow [condition])"

definition query_WhereGroup :: "growth \<Rightarrow> where_callback \<Rightarrow> builder_step" where
  "query_WhereGroup grow fn = query_whereGroup grow ''and'' fn"

definition query_OrWhereGroup :: "growth \<Rightarrow> where_callback \<Rightarrow> builder_step" where
  "query_OrWhereGroup grow fn = query_whereGroup grow ''or'' fn"

definition query_WhereWhen :: "growth \<Rightarrow> bool \<Rightarrow> where_callback \<Rightarrow> builder_step" where
  "query_WhereWhen grow condition fn = (if \<not> condition then id else query_WhereGroup grow fn)"

definition query_WhereRaw :: "growth \<Rightarrow> string \<Rightarrow> goany list \<Rightarrow> builder_step" where
  "query_WhereRaw grow sql args = append_Where grow [withBool ''and'' (RawCondition sql args)]"

definition query_WhereColumn :: "growth \<Rightarrow> string \<Rightarrow> string list \<Rightarrow> builder_step" where
  "query_WhereColumn grow left args = append_Where grow [withBool ''and'' (buildColumnCondition left args)]"

definition query_WhereIn :: "growth \<Rightarrow> string \<Rightarrow> source_ast \<Rightarrow> builder_step" where
  "query_WhereIn grow field source = append_Where grow [withBool ''and'' (buildInCondition field source)]"

definition query_WhereExists :: "growth \<Rightarrow> source_ast \<Rightarrow> builder_step" where
  "query_WhereExists grow source = append_Where grow [withBool ''and'' (buildExistsCondition source)]"

definition query_Select :: "growth \<Rightarrow> (string \<Rightarrow> string option) \<Rightarrow> goany list \<Rightarrow> builder_step" where
  "query_Select grow relation_alias items =
     (case selectExprs relation_alias items of
        Inl err \<Rightarrow> set_SelectErr err
      | Inr exprs \<Rightarrow> append_Select grow exprs)"

definition query_As :: "string \<Rightarrow> builder_step" where
  "query_As al = on_spec (\<lambda>spec. spec\<lparr>spec_Alias := al\<rparr>)"

definition query_UsePrimary :: builder_step where
  "query_UsePrimary = on_spec (\<lambda>spec. spec\<lparr>spec_UsePrimary := True\<rparr>)"

definition query_Cache :: "int \<Rightarrow> builder_step" where
  "query_Cache ttl = on_spec (\<lambda>spec.
     let spec' = spec\<lparr>spec_Cache := (spec_Cache spec)\<lparr>cache_Enabled := True, cache_TTL := ttl\<rparr>\<rparr> in
     if ttl \<le> 0 then spec'\<lparr>spec_SelectErr := Some (mk_error ''cache'' ErrInvalidArgument)\<rparr> else spec')"

definition query_CacheKey :: "string \<Rightarrow> builder_step" where
  "query_CacheKey key = on_spec (\<lambda>spec. spec\<lparr>spec_Cache := (spec_Cache spec)\<lparr>cache_Key := key\<rparr>\<rparr>)"

definition query_CacheTags :: "growth \<Rightarrow> string list \<Rightarrow> builder_step" where
  "query_CacheTags grow tags = append_Tags grow tags"

definition query_Timeout :: "int \<Rightarrow> builder_step" where
  "query_Timeout timeout = on_spec (\<lambda>spec. spec\<lparr>spec_Timeout := timeout\<rparr>)"

definition query_Join :: "growth \<Rightarrow> goany \<Rightarrow> (join_item \<Rightarrow> join_item) option \<Rightarrow> builder_step" where
  "query_Join grow source fn = append_Joins grow [buildJoin JoinInner source fn]"

definition query_LeftJoin :: "growth \<Rightarrow> goany \<Rightarrow> (join_item \<Rightarrow> join_item) option \<Rightarrow> builder_step" where
  "query_LeftJoin grow source fn = append_Joins grow [buildJoin JoinLeft source fn]"

definition query_RightJoin :: "growth \<Rightarrow> goany \<Rightarrow> (join_item \<Rightarrow> join_item) option \<Rightarrow> builder_step" where
  "query_RightJoin grow source fn = append_Joins grow [buildJoin JoinRight source fn]"

definition query_FullJoin :: "growth \<Rightarrow> goany \<Rightarrow> (join_item \<Rightarrow> join_item) option \<Rightarrow> builder_step" where
  "query_FullJoin grow source fn = append_Joins grow [buildJoin JoinFull source fn]"

definition query_CrossJoin :: "growth \<Rightarrow> string \<Rightarrow> builder_step" where
  "query_CrossJoin grow table = append_Joins grow [buildJoin JoinCross (AString table) None]"

definition query_JoinRaw :: "growth \<Rightarrow> string \<Rightarrow> goany list \<Rightarrow> builder_step" where
  "query_JoinRaw grow sql args =
     append_Joins grow [JoinAST (JoinTypeOther 0) [] [] (SourceAST [] [] None None) (Some (RawSpec sql args)) None []]"

definition query_OrderBy :: "growth \<Rightarrow> string list \<Rightarrow> builder_step" where
  "query_OrderBy grow fs = append_Order grow (orderExprs False fs)"

definition query_OrderByDesc :: "growth \<Rightarrow> string list \<Rightarrow> builder_step" where
  "query_OrderByDesc grow fs = append_Order grow (orderExprs True fs)"

definition query_OrderByRaw :: "growth \<Rightarrow> string \<Rightarrow> goany list \<Rightarrow> builder_step" where
  "query_OrderByRaw grow sql args = append_Order grow [OrderExpr sql False True args]"

definition query_GroupBy :: "growth \<Rightarrow> string list \<Rightarrow> builder_step" where
  "query_GroupBy grow fs = append_Group grow fs"

definition query_Having :: "growth \<Rightarrow> string \<Rightarrow> goany list \<Rightarrow> builder_step" where
  "query_Having grow field args =
     (case buildConditions (AString field) args of
        Inl err \<Rightarrow> set_SelectErr err
      | Inr conditions \<Rightarrow> append_Having grow (conditionsWithBool ''and'' conditions))"

definition query_HavingColumn :: "growth \<Rightarrow> string \<Rightarrow> string list \<Rightarrow> builder_step" where
  "query_HavingColumn grow left args = append_Having grow [withBool ''and'' (buildColumnCondition left args)]"

definition query_HavingIn :: "growth \<Rightarrow> string \<Rightarrow> source_ast \<Rightarrow> builder_step" where
  "query_HavingIn grow field source = append_Having grow [withBool ''and'' (buildInCondition field source)]"

definition query_HavingExists :: "growth \<Rightarrow> source_ast \<Rightarrow> builder_step" where
  "query_HavingExists grow source = append_Having grow [withBool ''and'' (buildExistsCondition source)]"

definition query_HavingRaw :: "growth \<Rightarrow> string \<Rightarrow> goany list \<Rightarrow> builder_step" where
  "query_HavingRaw grow sql args = append_Having grow [withBool ''and'' (RawCondition sql args)]"

definition query_Limit :: "int \<Rightarrow> builder_step" where
  "query_Limit limit = on_spec (\<lambda>spec. spec\<lparr>spec_Limit := Some limit\<rparr>)"

definition query_Offset :: "int \<Rightarrow> builder_step" where
  "query_Offset offset = on_spec (\<lambda>spec. spec\<lparr>spec_Offset := Some offset\<rparr>)"

definition query_LockForUpdate :: "(lock_spec \<Rightarrow> lock_spec) option list \<Rightarrow> builder_step" where
  "query_LockForUpdate options = on_spec (\<lambda>spec. spec\<lparr>spec_Lock := applyLockOptions LockUpdate options\<rparr>)"

definition query_LockForShare :: "(lock_spec \<Rightarrow> lock_spec) option list \<Rightarrow> builder_step" where
  "query_LockForShare options = on_spec (\<lambda>spec. spec\<lparr>spec_Lock := applyLockOptions LockShare options\<rparr>)"

text \<open>\<open>copyMap\<close> copies the entries, so the copy is the same association list.\<close>

definition query_Shard :: "string \<Rightarrow> gomap \<Rightarrow> builder_step" where
  "query_Shard grp values st =
     (case on_spec (\<lambda>spec. spec\<lparr>spec_ShardGroup := grp\<rparr>) st of (query, h) \<Rightarrow>
        (query\<lparr>tq_shard := values, tq_allShards := False\<rparr>, h))"

definition query_AllShards :: "string \<Rightarrow> builder_step" where
  "query_AllShards grp st =
     (case on_spec (\<lambda>spec. spec\<lparr>spec_ShardGroup := grp\<rparr>) st of (query, h) \<Rightarrow>
        (query\<lparr>tq_shard := [], tq_allShards := True\<rparr>, h))"

end
