(* ===== verification/Table_Query_Correct.thy ===== *)
theory Table_Query_Correct
  imports Table_Query
begin

text \<open>
  The builder of query\_table.go against its contract: a chain of builder calls yields the
  specification that the calls describe, and leaves the query it starts from as it was, whatever
  capacities the run time chooses. Two chains from one query are independent when the slices of
  that query are full, and are not in general.
\<close>

section \<open>The query a program sees\<close>

record table_view =
  tv_spec :: list_spec
  tv_shard :: gomap
  tv_allShards :: bool

definition view_spec :: "go_heap \<Rightarrow> heap_spec \<Rightarrow> list_spec" where
  "view_spec h spec =
     \<lparr>spec_Connection = spec_Connection spec, spec_ShardGroup = spec_ShardGroup spec, spec_Table = spec_Table spec,
      spec_Alias = spec_Alias spec, spec_From = spec_From spec, spec_ModelName = spec_ModelName spec,
      spec_Where = contents (heap_conds h) (spec_Where spec), spec_Select = contents (heap_sels h) (spec_Select spec),
      spec_SelectErr = spec_SelectErr spec, spec_Joins = contents (heap_joins h) (spec_Joins spec),
      spec_Group = contents (heap_strings h) (spec_Group spec), spec_Having = contents (heap_conds h) (spec_Having spec),
      spec_Order = contents (heap_orders h) (spec_Order spec), spec_Limit = spec_Limit spec,
      spec_Offset = spec_Offset spec, spec_Lock = spec_Lock spec, spec_SkipEvents = spec_SkipEvents spec,
      spec_UsePrimary = spec_UsePrimary spec,
      spec_Cache = \<lparr>cache_Enabled = cache_Enabled (spec_Cache spec), cache_TTL = cache_TTL (spec_Cache spec),
        cache_Key = cache_Key (spec_Cache spec), cache_Tags = contents (heap_strings h) (cache_Tags (spec_Cache spec))\<rparr>,
      spec_Timeout = spec_Timeout spec, spec_finalized = spec_finalized spec\<rparr>"

definition view :: "go_heap \<Rightarrow> table_query \<Rightarrow> table_view" where
  "view h query =
     \<lparr>tv_spec = view_spec h (tq_spec query), tv_shard = tq_shard query, tv_allShards = tq_allShards query\<rparr>"

text \<open>The slices of a specification are slices of the store, no two of them over one array.\<close>

definition spec_ok :: "go_heap \<Rightarrow> heap_spec \<Rightarrow> bool" where
  "spec_ok h spec \<longleftrightarrow>
     slice_ok (heap_conds h) (spec_Where spec) \<and> slice_ok (heap_conds h) (spec_Having spec) \<and>
     slice_ok (heap_sels h) (spec_Select spec) \<and> slice_ok (heap_joins h) (spec_Joins spec) \<and>
     slice_ok (heap_orders h) (spec_Order spec) \<and> slice_ok (heap_strings h) (spec_Group spec) \<and>
     slice_ok (heap_strings h) (cache_Tags (spec_Cache spec)) \<and>
     separate (spec_Where spec) (spec_Having spec) \<and> separate (spec_Group spec) (cache_Tags (spec_Cache spec))"

abbreviation query_ok :: "go_heap \<Rightarrow> table_query \<Rightarrow> bool" where
  "query_ok h query \<equiv> spec_ok h (tq_spec query)"

text \<open>Nothing of \<open>r\<close> lies where an append to \<open>q\<close> writes.\<close>

definition below :: "heap_spec \<Rightarrow> heap_spec \<Rightarrow> bool" where
  "below r q \<longleftrightarrow>
     outside (spec_Where r) (spec_Where q) \<and> outside (spec_Having r) (spec_Where q) \<and>
     outside (spec_Where r) (spec_Having q) \<and> outside (spec_Having r) (spec_Having q) \<and>
     outside (spec_Select r) (spec_Select q) \<and> outside (spec_Joins r) (spec_Joins q) \<and>
     outside (spec_Order r) (spec_Order q) \<and>
     outside (spec_Group r) (spec_Group q) \<and> outside (cache_Tags (spec_Cache r)) (spec_Group q) \<and>
     outside (spec_Group r) (cache_Tags (spec_Cache q)) \<and>
     outside (cache_Tags (spec_Cache r)) (cache_Tags (spec_Cache q))"

lemma below_refl: "spec_ok h q \<Longrightarrow> below q q"
  unfolding below_def spec_ok_def by (auto intro: separate_outside simp: separate_sym)

text \<open>A step of the builder implements a function on what the program sees.\<close>

definition implements :: "builder_step \<Rightarrow> (table_view \<Rightarrow> table_view) \<Rightarrow> bool" where
  "implements F f \<longleftrightarrow>
     (\<forall>q h q' h'. query_ok h q \<longrightarrow> F (q, h) = (q', h') \<longrightarrow>
        query_ok h' q' \<and> view h' q' = f (view h q) \<and>
        (\<forall>r. spec_ok h r \<longrightarrow> below r (tq_spec q) \<longrightarrow>
           view_spec h' r = view_spec h r \<and> spec_ok h' r \<and> below r (tq_spec q')))"

definition on_view :: "(list_spec \<Rightarrow> list_spec) \<Rightarrow> table_view \<Rightarrow> table_view" where
  "on_view f v = v\<lparr>tv_spec := f (tv_spec v)\<rparr>"

lemma implements_on_spec:
  assumes "\<And>h spec. view_spec h (g spec) = f (view_spec h spec)"
    and "\<And>spec. spec_Where (g spec) = spec_Where spec" "\<And>spec. spec_Having (g spec) = spec_Having spec"
    "\<And>spec. spec_Select (g spec) = spec_Select spec" "\<And>spec. spec_Joins (g spec) = spec_Joins spec"
    "\<And>spec. spec_Order (g spec) = spec_Order spec" "\<And>spec. spec_Group (g spec) = spec_Group spec"
    "\<And>spec. cache_Tags (spec_Cache (g spec)) = cache_Tags (spec_Cache spec)"
  shows "implements (on_spec g) (on_view f)"
  using assms(1) unfolding implements_def on_spec_def on_view_def
  by (auto simp: spec_ok_def below_def view_def assms(2-))

lemmas implements_defs = implements_def below_def spec_ok_def view_def view_spec_def on_view_def

section \<open>What the builder promises\<close>

text \<open>One constructor for each builder method, and what the method does to the lists of a specification.\<close>

datatype builder_op =
    OpWhere goany "goany list"
  | OpOrWhere goany "goany list"
  | OpWhereGroup where_callback
  | OpOrWhereGroup where_callback
  | OpWhereWhen bool where_callback
  | OpWhereRaw string "goany list"
  | OpWhereColumn string "string list"
  | OpWhereIn string source_ast
  | OpWhereExists source_ast
  | OpSelect "string \<Rightarrow> string option" "goany list"
  | OpAs string
  | OpUsePrimary
  | OpCache int
  | OpCacheKey string
  | OpCacheTags "string list"
  | OpTimeout int
  | OpJoin goany "(join_item \<Rightarrow> join_item) option"
  | OpLeftJoin goany "(join_item \<Rightarrow> join_item) option"
  | OpRightJoin goany "(join_item \<Rightarrow> join_item) option"
  | OpFullJoin goany "(join_item \<Rightarrow> join_item) option"
  | OpCrossJoin string
  | OpJoinRaw string "goany list"
  | OpOrderBy "string list"
  | OpOrderByDesc "string list"
  | OpOrderByRaw string "goany list"
  | OpGroupBy "string list"
  | OpHaving string "goany list"
  | OpHavingColumn string "string list"
  | OpHavingIn string source_ast
  | OpHavingExists source_ast
  | OpHavingRaw string "goany list"
  | OpLimit int
  | OpOffset int
  | OpLockForUpdate "(lock_spec \<Rightarrow> lock_spec) option list"
  | OpLockForShare "(lock_spec \<Rightarrow> lock_spec) option list"
  | OpShard string gomap
  | OpAllShards string

definition set_err :: "go_error \<Rightarrow> table_view \<Rightarrow> table_view" where
  "set_err err = on_view (\<lambda>spec. spec\<lparr>spec_SelectErr := Some err\<rparr>)"

definition add_where :: "condition list \<Rightarrow> table_view \<Rightarrow> table_view" where
  "add_where cs = on_view (\<lambda>spec. spec\<lparr>spec_Where := spec_Where spec @ cs\<rparr>)"

definition add_having :: "condition list \<Rightarrow> table_view \<Rightarrow> table_view" where
  "add_having cs = on_view (\<lambda>spec. spec\<lparr>spec_Having := spec_Having spec @ cs\<rparr>)"

definition add_join :: "join_item \<Rightarrow> table_view \<Rightarrow> table_view" where
  "add_join j = on_view (\<lambda>spec. spec\<lparr>spec_Joins := spec_Joins spec @ [j]\<rparr>)"

definition add_order :: "order_item list \<Rightarrow> table_view \<Rightarrow> table_view" where
  "add_order es = on_view (\<lambda>spec. spec\<lparr>spec_Order := spec_Order spec @ es\<rparr>)"

definition view_where :: "string \<Rightarrow> goany \<Rightarrow> goany list \<Rightarrow> table_view \<Rightarrow> table_view" where
  "view_where boolOp field args =
     (case whereConditions boolOp field args of Inl err \<Rightarrow> set_err err | Inr cs \<Rightarrow> add_where cs)"

definition view_group :: "string \<Rightarrow> where_callback \<Rightarrow> table_view \<Rightarrow> table_view" where
  "view_group boolOp fn =
     (let c = buildWhereGroup boolOp fn in if cond_Op c = ''empty_group'' then id else add_where [c])"

fun view_op :: "builder_op \<Rightarrow> table_view \<Rightarrow> table_view" where
  "view_op (OpWhere f args) = view_where ''and'' f args"
| "view_op (OpOrWhere f args) = view_where ''or'' f args"
| "view_op (OpWhereGroup fn) = view_group ''and'' fn"
| "view_op (OpOrWhereGroup fn) = view_group ''or'' fn"
| "view_op (OpWhereWhen c fn) = (if c then view_group ''and'' fn else id)"
| "view_op (OpWhereRaw sql args) = add_where [withBool ''and'' (RawCondition sql args)]"
| "view_op (OpWhereColumn l args) = add_where [withBool ''and'' (buildColumnCondition l args)]"
| "view_op (OpWhereIn f src) = add_where [withBool ''and'' (buildInCondition f src)]"
| "view_op (OpWhereExists src) = add_where [withBool ''and'' (buildExistsCondition src)]"
| "view_op (OpSelect ra items) =
     (case selectExprs ra items of Inl err \<Rightarrow> set_err err | Inr es \<Rightarrow> on_view (\<lambda>spec. spec\<lparr>spec_Select := spec_Select spec @ es\<rparr>))"
| "view_op (OpAs al) = on_view (\<lambda>spec. spec\<lparr>spec_Alias := al\<rparr>)"
| "view_op OpUsePrimary = on_view (\<lambda>spec. spec\<lparr>spec_UsePrimary := True\<rparr>)"
| "view_op (OpCache ttl) =
     on_view (\<lambda>spec. spec\<lparr>spec_Cache := (spec_Cache spec)\<lparr>cache_Enabled := True, cache_TTL := ttl\<rparr>,
       spec_SelectErr := (if ttl \<le> 0 then Some (mk_error ''cache'' ErrInvalidArgument) else spec_SelectErr spec)\<rparr>)"
| "view_op (OpCacheKey key) =
     on_view (\<lambda>spec. spec\<lparr>spec_Cache := (spec_Cache spec)\<lparr>cache_Key := key\<rparr>\<rparr>)"
| "view_op (OpCacheTags tags) =
     on_view (\<lambda>spec. spec\<lparr>spec_Cache := (spec_Cache spec)\<lparr>cache_Tags := cache_Tags (spec_Cache spec) @ tags\<rparr>\<rparr>)"
| "view_op (OpTimeout t) = on_view (\<lambda>spec. spec\<lparr>spec_Timeout := t\<rparr>)"
| "view_op (OpJoin src fn) = add_join (buildJoin JoinInner src fn)"
| "view_op (OpLeftJoin src fn) = add_join (buildJoin JoinLeft src fn)"
| "view_op (OpRightJoin src fn) = add_join (buildJoin JoinRight src fn)"
| "view_op (OpFullJoin src fn) = add_join (buildJoin JoinFull src fn)"
| "view_op (OpCrossJoin t) = add_join (buildJoin JoinCross (AString t) None)"
| "view_op (OpJoinRaw sql args) =
     add_join (JoinAST (JoinTypeOther 0) [] [] (SourceAST [] [] None None) (Some (RawSpec sql args)) None [])"
| "view_op (OpOrderBy fs) = add_order (map (\<lambda>f. OrderExpr f False False []) fs)"
| "view_op (OpOrderByDesc fs) = add_order (map (\<lambda>f. OrderExpr f True False []) fs)"
| "view_op (OpOrderByRaw sql args) = add_order [OrderExpr sql False True args]"
| "view_op (OpGroupBy fs) = on_view (\<lambda>spec. spec\<lparr>spec_Group := spec_Group spec @ fs\<rparr>)"
| "view_op (OpHaving f args) =
     (case buildConditions (AString f) args of Inl err \<Rightarrow> set_err err | Inr cs \<Rightarrow> add_having (conditionsWithBool ''and'' cs))"
| "view_op (OpHavingColumn l args) = add_having [withBool ''and'' (buildColumnCondition l args)]"
| "view_op (OpHavingIn f src) = add_having [withBool ''and'' (buildInCondition f src)]"
| "view_op (OpHavingExists src) = add_having [withBool ''and'' (buildExistsCondition src)]"
| "view_op (OpHavingRaw sql args) = add_having [withBool ''and'' (RawCondition sql args)]"
| "view_op (OpLimit n) = on_view (\<lambda>spec. spec\<lparr>spec_Limit := Some n\<rparr>)"
| "view_op (OpOffset n) = on_view (\<lambda>spec. spec\<lparr>spec_Offset := Some n\<rparr>)"
| "view_op (OpLockForUpdate opts) =
     on_view (\<lambda>spec. spec\<lparr>spec_Lock := applyLockOptions LockUpdate opts\<rparr>)"
| "view_op (OpLockForShare opts) =
     on_view (\<lambda>spec. spec\<lparr>spec_Lock := applyLockOptions LockShare opts\<rparr>)"
| "view_op (OpShard grp vs) =
     (\<lambda>v. (on_view (\<lambda>spec. spec\<lparr>spec_ShardGroup := grp\<rparr>) v)\<lparr>tv_shard := vs, tv_allShards := False\<rparr>)"
| "view_op (OpAllShards grp) =
     (\<lambda>v. (on_view (\<lambda>spec. spec\<lparr>spec_ShardGroup := grp\<rparr>) v)\<lparr>tv_shard := [], tv_allShards := True\<rparr>)"

fun heap_op :: "growth \<Rightarrow> builder_op \<Rightarrow> builder_step" where
  "heap_op grow (OpWhere f args) = query_Where grow f args"
| "heap_op grow (OpOrWhere f args) = query_OrWhere grow f args"
| "heap_op grow (OpWhereGroup fn) = query_WhereGroup grow fn"
| "heap_op grow (OpOrWhereGroup fn) = query_OrWhereGroup grow fn"
| "heap_op grow (OpWhereWhen c fn) = query_WhereWhen grow c fn"
| "heap_op grow (OpWhereRaw sql args) = query_WhereRaw grow sql args"
| "heap_op grow (OpWhereColumn l args) = query_WhereColumn grow l args"
| "heap_op grow (OpWhereIn f src) = query_WhereIn grow f src"
| "heap_op grow (OpWhereExists src) = query_WhereExists grow src"
| "heap_op grow (OpSelect ra items) = query_Select grow ra items"
| "heap_op grow (OpAs al) = query_As al"
| "heap_op grow OpUsePrimary = query_UsePrimary"
| "heap_op grow (OpCache ttl) = query_Cache ttl"
| "heap_op grow (OpCacheKey key) = query_CacheKey key"
| "heap_op grow (OpCacheTags tags) = query_CacheTags grow tags"
| "heap_op grow (OpTimeout t) = query_Timeout t"
| "heap_op grow (OpJoin src fn) = query_Join grow src fn"
| "heap_op grow (OpLeftJoin src fn) = query_LeftJoin grow src fn"
| "heap_op grow (OpRightJoin src fn) = query_RightJoin grow src fn"
| "heap_op grow (OpFullJoin src fn) = query_FullJoin grow src fn"
| "heap_op grow (OpCrossJoin t) = query_CrossJoin grow t"
| "heap_op grow (OpJoinRaw sql args) = query_JoinRaw grow sql args"
| "heap_op grow (OpOrderBy fs) = query_OrderBy grow fs"
| "heap_op grow (OpOrderByDesc fs) = query_OrderByDesc grow fs"
| "heap_op grow (OpOrderByRaw sql args) = query_OrderByRaw grow sql args"
| "heap_op grow (OpGroupBy fs) = query_GroupBy grow fs"
| "heap_op grow (OpHaving f args) = query_Having grow f args"
| "heap_op grow (OpHavingColumn l args) = query_HavingColumn grow l args"
| "heap_op grow (OpHavingIn f src) = query_HavingIn grow f src"
| "heap_op grow (OpHavingExists src) = query_HavingExists grow src"
| "heap_op grow (OpHavingRaw sql args) = query_HavingRaw grow sql args"
| "heap_op grow (OpLimit n) = query_Limit n"
| "heap_op grow (OpOffset n) = query_Offset n"
| "heap_op grow (OpLockForUpdate opts) = query_LockForUpdate opts"
| "heap_op grow (OpLockForShare opts) = query_LockForShare opts"
| "heap_op grow (OpShard grp vs) = query_Shard grp vs"
| "heap_op grow (OpAllShards grp) = query_AllShards grp"

definition run_builder :: "growth \<Rightarrow> builder_op list \<Rightarrow> builder_step" where
  "run_builder grow ops = fold (heap_op grow) ops"

section \<open>The builder keeps it\<close>

lemma implements_appends:
  assumes "grow_ok grow"
  shows "implements (append_Where grow cs) (add_where cs)"
    and "implements (append_Having grow cs) (add_having cs)"
    and "implements (append_Select grow es) (on_view (\<lambda>spec. spec\<lparr>spec_Select := spec_Select spec @ es\<rparr>))"
    and "implements (append_Joins grow [j]) (add_join j)"
    and "implements (append_Order grow os) (add_order os)"
    and "implements (append_Group grow ss) (on_view (\<lambda>spec. spec\<lparr>spec_Group := spec_Group spec @ ss\<rparr>))"
    and "implements (append_Tags grow ss)
      (on_view (\<lambda>spec. spec\<lparr>spec_Cache := (spec_Cache spec)\<lparr>cache_Tags := cache_Tags (spec_Cache spec) @ ss\<rparr>\<rparr>))"
  using assms
  by (auto simp: implements_defs append_Where_def append_Having_def append_Select_def append_Joins_def
      append_Order_def append_Group_def append_Tags_def add_where_def add_having_def add_join_def add_order_def
      case_prod_unfold slice_simps)

lemma implements_set_err: "implements (set_SelectErr err) (set_err err)"
  unfolding set_SelectErr_def set_err_def by (rule implements_on_spec) (simp_all add: view_spec_def)

lemma implements_id: "implements id id"
  by (simp add: implements_def)

lemmas builder_defs = query_Where_def query_OrWhere_def query_where_def query_WhereGroup_def query_OrWhereGroup_def
  query_whereGroup_def query_WhereWhen_def query_WhereRaw_def query_WhereColumn_def query_WhereIn_def
  query_WhereExists_def query_Select_def query_CacheTags_def query_Join_def query_LeftJoin_def query_RightJoin_def
  query_FullJoin_def query_CrossJoin_def query_JoinRaw_def query_OrderBy_def query_OrderByDesc_def
  query_OrderByRaw_def query_GroupBy_def query_Having_def query_HavingColumn_def query_HavingIn_def
  query_HavingExists_def query_HavingRaw_def

lemmas scalar_defs = query_As_def query_UsePrimary_def query_Cache_def query_CacheKey_def query_Timeout_def
  query_Limit_def query_Offset_def query_LockForUpdate_def query_LockForShare_def

lemma implements_scalars:
  "implements (query_As al) (view_op (OpAs al))"
  "implements query_UsePrimary (view_op OpUsePrimary)"
  "implements (query_Cache ttl) (view_op (OpCache ttl))"
  "implements (query_CacheKey key) (view_op (OpCacheKey key))"
  "implements (query_Timeout t) (view_op (OpTimeout t))"
  "implements (query_Limit n) (view_op (OpLimit n))"
  "implements (query_Offset n) (view_op (OpOffset n))"
  "implements (query_LockForUpdate opts) (view_op (OpLockForUpdate opts))"
  "implements (query_LockForShare opts) (view_op (OpLockForShare opts))"
  unfolding scalar_defs view_op.simps
  by (rule implements_on_spec; simp add: view_spec_def Let_def)+

lemma implements_shards:
  "implements (query_Shard grp vs) (view_op (OpShard grp vs))"
  "implements (query_AllShards grp) (view_op (OpAllShards grp))"
  by (auto simp: implements_defs query_Shard_def query_AllShards_def on_spec_def)

lemma implements_heap_op:
  assumes "grow_ok grow"
  shows "implements (heap_op grow opn) (view_op opn)"
  using implements_scalars implements_shards implements_appends [OF assms] implements_set_err implements_id
  by (cases opn)
    (simp_all add: builder_defs orderExprs_def view_where_def view_group_def Let_def del: view_op.simps(11-14,16) split: sum.split)

lemma implementsD:
  assumes "implements F f" and "query_ok h q" and "F (q, h) = (q', h')"
  shows "query_ok h' q'" and "view h' q' = f (view h q)"
    and "spec_ok h r \<Longrightarrow> below r (tq_spec q) \<Longrightarrow> view_spec h' r = view_spec h r"
    and "spec_ok h r \<Longrightarrow> below r (tq_spec q) \<Longrightarrow> spec_ok h' r"
    and "spec_ok h r \<Longrightarrow> below r (tq_spec q) \<Longrightarrow> below r (tq_spec q')"
  using assms unfolding implements_def by blast+

lemma implements_comp:
  assumes "implements F f" and "implements G g"
  shows "implements (G \<circ> F) (g \<circ> f)"
  unfolding implements_def
proof (intro allI impI)
  fix q h q' h' assume ok: "query_ok h q" and run: "(G \<circ> F) (q, h) = (q', h')"
  obtain q1 h1 where F: "F (q, h) = (q1, h1)" by fastforce
  with run have G: "G (q1, h1) = (q', h')" by simp
  note F' = implementsD [OF assms(1) ok F]
  note G' = implementsD [OF assms(2) F'(1) G]
  show "query_ok h' q' \<and> view h' q' = (g \<circ> f) (view h q) \<and>
        (\<forall>r. spec_ok h r \<longrightarrow> below r (tq_spec q) \<longrightarrow>
           view_spec h' r = view_spec h r \<and> spec_ok h' r \<and> below r (tq_spec q'))"
    using F' G' by simp
qed

lemma implements_run:
  assumes "grow_ok grow"
  shows "implements (run_builder grow ops) (fold view_op ops)"
  unfolding run_builder_def
proof (induction ops)
  case Nil
  then show ?case using implements_id by (simp add: id_def)
next
  case (Cons opn ops)
  then show ?case using implements_comp [OF implements_heap_op [OF assms]] by (simp add: comp_def)
qed

section \<open>Chains from a common query\<close>

text \<open>Every slice of the specification is full, or lies in an array that the store \<open>h0\<close> did not have.\<close>

definition owns :: "go_heap \<Rightarrow> heap_spec \<Rightarrow> bool" where
  "owns h0 spec \<longleftrightarrow>
     own (length (heap_conds h0)) (spec_Where spec) \<and> own (length (heap_conds h0)) (spec_Having spec) \<and>
     own (length (heap_sels h0)) (spec_Select spec) \<and> own (length (heap_joins h0)) (spec_Joins spec) \<and>
     own (length (heap_orders h0)) (spec_Order spec) \<and> own (length (heap_strings h0)) (spec_Group spec) \<and>
     own (length (heap_strings h0)) (cache_Tags (spec_Cache spec))"

definition extends :: "'a arrays \<Rightarrow> 'a arrays \<Rightarrow> bool" where
  "extends a b \<longleftrightarrow> length a \<le> length b \<and> (\<forall>i < length a. b ! i = a ! i)"

definition heap_extends :: "go_heap \<Rightarrow> go_heap \<Rightarrow> bool" where
  "heap_extends h0 h \<longleftrightarrow>
     extends (heap_conds h0) (heap_conds h) \<and> extends (heap_sels h0) (heap_sels h) \<and>
     extends (heap_joins h0) (heap_joins h) \<and> extends (heap_orders h0) (heap_orders h) \<and>
     extends (heap_strings h0) (heap_strings h)"

definition contained :: "go_heap \<Rightarrow> builder_step \<Rightarrow> bool" where
  "contained h0 F \<longleftrightarrow>
     (\<forall>q h q' h'. query_ok h q \<longrightarrow> heap_extends h0 h \<longrightarrow> owns h0 (tq_spec q) \<longrightarrow> F (q, h) = (q', h') \<longrightarrow>
        heap_extends h0 h' \<and> owns h0 (tq_spec q'))"

text \<open>The slices of a query have no spare capacity.\<close>

definition full_spec :: "heap_spec \<Rightarrow> bool" where
  "full_spec spec \<longleftrightarrow>
     sl_cap (spec_Where spec) = sl_len (spec_Where spec) \<and> sl_cap (spec_Having spec) = sl_len (spec_Having spec) \<and>
     sl_cap (spec_Select spec) = sl_len (spec_Select spec) \<and> sl_cap (spec_Joins spec) = sl_len (spec_Joins spec) \<and>
     sl_cap (spec_Order spec) = sl_len (spec_Order spec) \<and> sl_cap (spec_Group spec) = sl_len (spec_Group spec) \<and>
     sl_cap (cache_Tags (spec_Cache spec)) = sl_len (cache_Tags (spec_Cache spec))"

lemma full_owns: "full_spec spec \<Longrightarrow> owns h0 spec"
  by (simp add: full_spec_def owns_def own_def)

lemma heap_extends_refl: "heap_extends h h"
  by (simp add: heap_extends_def extends_def)

lemma append_extends [slice_simps]:
  assumes "extends a0 a" and "own (length a0) s" and "slice_ok a s"
  shows "extends a0 (snd (go_append grow s xs a))" and "own (length a0) (fst (go_append grow s xs a))"
proof -
  note facts = append_own [OF append_pair [of grow s xs a] assms(2) _ assms(3)]
  show "extends a0 (snd (go_append grow s xs a))"
    using assms(1) facts(2) append_length [OF append_pair [of grow s xs a]] unfolding extends_def by auto
  show "own (length a0) (fst (go_append grow s xs a))"
    using assms(1) facts(1) unfolding extends_def by auto
qed

lemma contained_appends:
  "contained h0 (append_Where grow cs)" "contained h0 (append_Having grow cs)" "contained h0 (append_Select grow es)"
  "contained h0 (append_Joins grow js)" "contained h0 (append_Order grow os)" "contained h0 (append_Group grow ss)"
  "contained h0 (append_Tags grow ss)"
  by (auto simp: contained_def owns_def heap_extends_def spec_ok_def append_Where_def append_Having_def append_Select_def
      append_Joins_def append_Order_def append_Group_def append_Tags_def case_prod_unfold slice_simps)

lemma contained_on_spec:
  assumes "\<And>spec. owns h0 spec \<Longrightarrow> owns h0 (g spec)"
  shows "contained h0 (on_spec g)"
  using assms by (auto simp: contained_def on_spec_def)

lemma contained_others:
  "contained h0 id" "contained h0 (set_SelectErr err)" "contained h0 (query_As al)" "contained h0 query_UsePrimary"
  "contained h0 (query_Cache ttl)" "contained h0 (query_CacheKey key)" "contained h0 (query_Timeout t)"
  "contained h0 (query_Limit n)" "contained h0 (query_Offset n)" "contained h0 (query_LockForUpdate opts)"
  "contained h0 (query_LockForShare opts)" "contained h0 (query_Shard grp vs)" "contained h0 (query_AllShards grp)"
  by (auto simp: contained_def set_SelectErr_def scalar_defs query_Shard_def query_AllShards_def on_spec_def owns_def
      Let_def)

lemma contained_heap_op: "contained h0 (heap_op grow opn)"
  by (cases opn) (simp_all add: builder_defs Let_def contained_appends contained_others split: sum.split)

lemma contained_run:
  assumes "grow_ok grow" and "query_ok h q" and "heap_extends h0 h" and "owns h0 (tq_spec q)"
    and "run_builder grow ops (q, h) = (q', h')"
  shows "heap_extends h0 h'"
  using assms
proof (induction ops arbitrary: q h)
  case Nil
  then show ?case by (simp add: run_builder_def)
next
  case (Cons opn ops)
  obtain q1 h1 where step: "heap_op grow opn (q, h) = (q1, h1)" by fastforce
  have rest: "run_builder grow ops (q1, h1) = (q', h')"
    using Cons.prems(5) step by (simp add: run_builder_def)
  have "query_ok h1 q1"
    using implementsD(1) [OF implements_heap_op [OF Cons.prems(1)] Cons.prems(2) step] .
  moreover have "heap_extends h0 h1" and "owns h0 (tq_spec q1)"
    using contained_heap_op [of h0 grow opn] Cons.prems step unfolding contained_def by blast+
  ultimately show ?case using Cons.IH [OF Cons.prems(1) _ _ _ rest] by blast
qed

lemma extends_contents: "extends a b \<Longrightarrow> slice_ok a s \<Longrightarrow> contents b s = contents a s"
  by (rule contents_cong) (simp_all add: extends_def)

lemma heap_extends_view: "heap_extends h h' \<Longrightarrow> spec_ok h r \<Longrightarrow> view_spec h' r = view_spec h r"
  by (simp add: heap_extends_def spec_ok_def view_spec_def extends_contents)

lemma fresh_query_ok: "query_ok h (db_Table connection name)" and fresh_query_full: "full_spec (tq_spec (db_Table connection name))"
  by (simp_all add: db_Table_def zero_spec_def spec_ok_def full_spec_def)

section \<open>Properties\<close>

text \<open>
  C11. A chain of builder calls on a query whose slices are in order yields a query whose slices
  are in order again and whose visible specification is what the calls describe, applied to the
  specification at the start; and the query the chain started from is still what it was, although
  its arrays are shared with every query of the chain. This holds for every choice of capacities
  the run time may make.
\<close>

theorem builder_chain_refines:
  assumes "grow_ok grow" and "query_ok h q" and "run_builder grow ops (q, h) = (q', h')"
  shows "query_ok h' q' \<and> view h' q' = fold view_op ops (view h q) \<and> view h' q = view h q"
proof -
  note facts = implementsD [OF implements_run [OF assms(1)] assms(2,3)]
  have "view_spec h' (tq_spec q) = view_spec h (tq_spec q)"
    using facts(3) [OF assms(2) below_refl [OF assms(2)]] .
  then show ?thesis using facts(1,2) by (simp add: view_def)
qed

theorem builder_chain_refines_witness:
  "case run_builder doubling [OpWhere (AString ''a'') [AString ''x''], OpOrderBy [''id''], OpLimit 5] (db_Table [] ''t'', empty_heap)
     of (q', h') \<Rightarrow>
       BuildSelect (tv_spec (view h' q')) =
         StmtSelect (SelectAST ''t'' [] (SourceAST [] [] None None) []
           [Condition ''and'' ''a'' ''='' (AString ''x'') [] []] [] [] [] [OrderExpr ''id'' False False []] (Some 5) None
           \<lparr>lock_Mode = LockNone, lock_NoWait = False, lock_SkipLocked = False\<rparr>)"
proof -
  let ?ops = "[OpWhere (AString ''a'') [AString ''x''], OpOrderBy [''id''], OpLimit 5]"
  obtain q' h' where run: "run_builder doubling ?ops (db_Table [] ''t'', empty_heap) = (q', h')" by fastforce
  have "view h' q' = fold view_op ?ops (view empty_heap (db_Table [] ''t''))"
    using builder_chain_refines [OF doubling_ok fresh_query_ok run] by blast
  then show ?thesis
    unfolding run
    by (simp add: view_where_def whereConditions_def buildConditionFromRawOrCondition_def buildSingleCondition_def
        field_conditions_def add_where_def add_order_def on_view_def BuildSelect_def view_def view_spec_def
        db_Table_def zero_spec_def withBool_def mk_cond_def)
qed

text \<open>
  C34. Two chains of builder calls from one query without spare capacity (a new table query, for
  one) do not disturb each other: after both, either query is what its own calls describe.
\<close>

theorem forks_of_full_query_independent:
  assumes "grow_ok grow" and "query_ok h q" and "full_spec (tq_spec q)"
    and "run_builder grow ops1 (q, h) = (q1, h1)" and "run_builder grow ops2 (q, h1) = (q2, h2)"
  shows "view h2 q1 = fold view_op ops1 (view h q) \<and> view h2 q2 = fold view_op ops2 (view h q)"
proof -
  note first = implementsD [OF implements_run [OF assms(1)] assms(2,4)]
  have base: "query_ok h1 q" and same: "view h1 q = view h q"
    using first(3,4) [OF assms(2) below_refl [OF assms(2)]] by (simp_all add: view_def)
  have "heap_extends h1 h2"
    by (rule contained_run [OF assms(1) base heap_extends_refl full_owns [OF assms(3)] assms(5)])
  then have "view h2 q1 = view h1 q1"
    using heap_extends_view [OF _ first(1)] by (simp add: view_def)
  moreover have "view h2 q2 = fold view_op ops2 (view h1 q)"
    using implementsD(2) [OF implements_run [OF assms(1)] base assms(5)] .
  ultimately show ?thesis using first(2) same by simp
qed

theorem forks_of_full_query_independent_witness:
  "case run_builder doubling [OpLimit 1] (db_Table [] ''t'', empty_heap) of (q1, h1) \<Rightarrow>
     case run_builder doubling [OpLimit 2] (db_Table [] ''t'', h1) of (q2, h2) \<Rightarrow>
       spec_Limit (tv_spec (view h2 q1)) = Some 1 \<and> spec_Limit (tv_spec (view h2 q2)) = Some 2"
proof -
  obtain q1 h1 where run1: "run_builder doubling [OpLimit 1] (db_Table [] ''t'', empty_heap) = (q1, h1)" by fastforce
  obtain q2 h2 where run2: "run_builder doubling [OpLimit 2] (db_Table [] ''t'', h1) = (q2, h2)" by fastforce
  show ?thesis
    using forks_of_full_query_independent [OF doubling_ok fresh_query_ok fresh_query_full run1 run2]
    by (simp add: run1 run2 on_view_def)
qed

text \<open>
  C38. With spare capacity this promise fails: when the slice of conditions has room for one
  more, the query made by a first \<open>WhereRaw\<close> on it shows the condition of a second \<open>WhereRaw\<close> on the
  same query, and its own condition is gone.
\<close>

theorem sibling_condition_overwritten:
  assumes "query_ok h q" and "sl_len (spec_Where (tq_spec q)) < sl_cap (spec_Where (tq_spec q))"
    and "query_WhereRaw grow sql1 args1 (q, h) = (q1, h1)" and "query_WhereRaw grow sql2 args2 (q, h1) = (q2, h2)"
  shows "spec_Where (tv_spec (view h2 q1)) =
    spec_Where (tv_spec (view h q)) @ [withBool ''and'' (RawCondition sql2 args2)]"
proof -
  have "contents (heap_conds h2) (spec_Where (tq_spec q1)) =
      contents (heap_conds h) (spec_Where (tq_spec q)) @ [withBool ''and'' (RawCondition sql2 args2)]"
  proof (rule append_twice)
    show "go_append grow (spec_Where (tq_spec q)) [withBool ''and'' (RawCondition sql1 args1)] (heap_conds h) =
        (spec_Where (tq_spec q1), heap_conds h1)"
      using assms(3) by (auto simp: query_WhereRaw_def append_Where_def split: prod.splits)
    show "go_append grow (spec_Where (tq_spec q)) [withBool ''and'' (RawCondition sql2 args2)] (heap_conds h1) =
        (spec_Where (tq_spec q2), heap_conds h2)"
      using assms(4) by (auto simp: query_WhereRaw_def append_Where_def split: prod.splits)
  qed (use assms in \<open>simp_all add: spec_ok_def\<close>)
  then show ?thesis by (simp add: view_def view_spec_def)
qed

text \<open>Three conditions on a new query leave room for a fourth.\<close>

theorem sibling_condition_overwritten_witness:
  "case run_builder doubling [OpWhereRaw ''a'' [], OpWhereRaw ''b'' [], OpWhereRaw ''c'' []] (db_Table [] ''t'', empty_heap)
     of (q, h) \<Rightarrow>
       case query_WhereRaw doubling ''tenant = 1'' [] (q, h) of (q1, h1) \<Rightarrow>
         case query_WhereRaw doubling ''tenant = 2'' [] (q, h1) of (q2, h2) \<Rightarrow>
           map cond_Field (spec_Where (tv_spec (view h2 q1))) = [''a'', ''b'', ''c'', ''tenant = 2'']"
proof -
  let ?st = "(db_Table [] ''t'', empty_heap)"
  let ?ops = "[OpWhereRaw ''a'' [], OpWhereRaw ''b'' [], OpWhereRaw ''c'' []]"
  obtain q h where run: "run_builder doubling ?ops ?st = (q, h)" by fastforce
  obtain q1 h1 where step1: "query_WhereRaw doubling ''tenant = 1'' [] (q, h) = (q1, h1)" by fastforce
  obtain q2 h2 where step2: "query_WhereRaw doubling ''tenant = 2'' [] (q, h1) = (q2, h2)" by fastforce
  have ok: "query_ok h q"
    using implementsD(1) [OF implements_run [OF doubling_ok] fresh_query_ok run] .
  have slice: "spec_Where (tq_spec q) = Slice 2 3 4" and conds: "map cond_Field (contents (heap_conds h) (Slice 2 3 4)) = [''a'', ''b'', ''c'']"
    using run unfolding run_builder_def
    by (auto simp: query_WhereRaw_def append_Where_def go_append_def doubling_def db_Table_def zero_spec_def nil_slice_def
        empty_heap_def contents_def RawCondition_def mk_cond_def withBool_def)
  show ?thesis
    using sibling_condition_overwritten [OF ok _ step1 step2] slice conds
    by (simp add: run step1 step2 view_def view_spec_def RawCondition_def mk_cond_def withBool_def)
qed

end
