(* ===== verification/Event_Bus.thy ===== *)
theory Event_Bus
  imports Oro_Prelude "HOL-Library.Word"
begin

text \<open>
  The event bus: internal/eventbus/bus.go and its wrapper in event.go. A bus maps a name to the
  entries subscribed to it. Each operation holds the mutex while it looks at the map, so each is
  one step; \<open>Emit\<close> copies the entries under the lock and calls the handlers afterwards.

  A handler is a value of type \<open>'h\<close>; \<open>call handler event w\<close> says what calling it does to the rest of the
  program's state \<open>w\<close> and what it returns, a panic being the error \<open>GoPanic\<close>. As \<open>w\<close> is arbitrary it
  may include the bus itself, and a handler may subscribe and unsubscribe.
\<close>

section \<open>The bus (internal/eventbus/bus.go)\<close>

record ('n, 'h) event_bus =
  bus_nextID :: "64 word"
  bus_handlers :: "'n \<rightharpoonup> (64 word \<times> 'h) list"

definition bus_New :: "('n, 'h) event_bus" where
  "bus_New = \<lparr>bus_nextID = 0, bus_handlers = Map.empty\<rparr>"

text \<open>Reading a missing key of a map of slices gives nil.\<close>

definition bus_entries :: "('n, 'h) event_bus \<Rightarrow> 'n \<Rightarrow> (64 word \<times> 'h) list" where
  "bus_entries bus name = (case bus_handlers bus name of None \<Rightarrow> [] | Some entries \<Rightarrow> entries)"

text \<open>\<open>On\<close>: the new bus, and the identifier that the returned function passes to \<open>off\<close>.\<close>

definition bus_On :: "'n \<Rightarrow> 'h \<Rightarrow> ('n, 'h) event_bus \<Rightarrow> 64 word \<times> ('n, 'h) event_bus" where
  "bus_On name handler bus =
     (let next = bus_nextID bus + 1 in
      (next, \<lparr>bus_nextID = next,
              bus_handlers = (bus_handlers bus)(name \<mapsto> bus_entries bus name @ [(next, handler)])\<rparr>))"

fun drop_entry :: "64 word \<Rightarrow> (64 word \<times> 'h) list \<Rightarrow> (64 word \<times> 'h) list" where
  "drop_entry i [] = []"
| "drop_entry i (entry # entries) = (if fst entry = i then entries else entry # drop_entry i entries)"

definition bus_off :: "'n \<Rightarrow> 64 word \<Rightarrow> ('n, 'h) event_bus \<Rightarrow> ('n, 'h) event_bus" where
  "bus_off name i bus =
     (let entries = drop_entry i (bus_entries bus name) in
      if entries = [] then bus\<lparr>bus_handlers := (bus_handlers bus)(name := None)\<rparr>
      else bus\<lparr>bus_handlers := (bus_handlers bus)(name \<mapsto> entries)\<rparr>)"

type_synonym ('h, 'e, 'w) handler_call = "'h \<Rightarrow> 'e \<Rightarrow> 'w \<Rightarrow> go_error option \<times> 'w"

definition callHandler :: "('h, 'e, 'w) handler_call \<Rightarrow> 'h \<Rightarrow> 'e \<Rightarrow> 'w \<Rightarrow> go_error option \<times> 'w" where
  "callHandler call handler event w =
     (case call handler event w of
        (Some (GoPanic m), w') \<Rightarrow> (Some (GoError (''event handler panic: '' @ m)), w')
      | other \<Rightarrow> other)"

fun emit_entries :: "('h, 'e, 'w) handler_call \<Rightarrow> (64 word \<times> 'h) list \<Rightarrow> 'e \<Rightarrow> 'w \<Rightarrow> go_error option \<times> 'w" where
  "emit_entries call [] event w = (None, w)"
| "emit_entries call (entry # entries) event w =
     (case callHandler call (snd entry) event w of
        (Some err, w') \<Rightarrow> (Some err, w')
      | (None, w') \<Rightarrow> emit_entries call entries event w')"

definition bus_Emit ::
  "('h, 'e, 'w) handler_call \<Rightarrow> 'n \<Rightarrow> 'e \<Rightarrow> ('n, 'h) event_bus \<Rightarrow> 'w \<Rightarrow> go_error option \<times> 'w" where
  "bus_Emit call name event bus w = emit_entries call (bus_entries bus name) event w"

definition bus_Has :: "'n \<Rightarrow> ('n, 'h) event_bus \<Rightarrow> bool" where
  "bus_Has name bus \<longleftrightarrow> 0 < length (bus_entries bus name)"

section \<open>The wrapper (event.go)\<close>

datatype event_name =
    BeforeCreate | AfterCreate | BeforeUpdate | AfterUpdate | BeforeDelete | AfterDelete | BeforeRestore | AfterRestore
  | AfterFind | BeforeSQL | AfterSQL | AfterCacheHit | AfterCacheMiss | AfterCommit | AfterRollback | EventNameOther string

text \<open>
  A bus pointer or event pointer that is nil is \<open>None\<close>; \<open>EventBus.inner\<close> is never nil for a bus made
  by \<open>NewEventBus\<close>.
\<close>

definition events_Emit ::
  "('h, 'e, 'w) handler_call \<Rightarrow> event_name \<Rightarrow> 'e option \<Rightarrow> (event_name, 'h) event_bus option \<Rightarrow> 'w \<Rightarrow>
     go_error option \<times> 'w" where
  "events_Emit call name event bus w =
     (case (bus, event) of
        (Some b, Some e) \<Rightarrow>
          (case bus_Emit call name e b w of
             (Some err, w') \<Rightarrow> (Some (OroError ''event'' ErrEvent [] [] (Some err)), w')
           | (None, w') \<Rightarrow> (None, w'))
      | _ \<Rightarrow> (None, w))"

definition emitEvent ::
  "('h, 'e, 'w) handler_call \<Rightarrow> event_name \<Rightarrow> 'e option \<Rightarrow> (event_name, 'h) event_bus option \<Rightarrow> 'w \<Rightarrow>
     go_error option \<times> 'w" where
  "emitEvent call name event bus w =
     (if bus = None \<or> event = None \<or> name = EventNameOther [] then (None, w)
      else events_Emit call name event bus w)"

definition shouldEmitEvent :: "(event_name, 'h) event_bus option \<Rightarrow> bool \<Rightarrow> event_name list \<Rightarrow> bool" where
  "shouldEmitEvent bus skip names =
     (if skip then False else case bus of None \<Rightarrow> False | Some b \<Rightarrow> list_ex (\<lambda>name. bus_Has name b) names)"

section \<open>Subscriptions\<close>

text \<open>
  The contract: a bus is the list of live subscriptions in the order they were made. Subscribing
  adds one at the end, unsubscribing removes it, and the entries of a name are its subscriptions.
\<close>

datatype ('n, 'h) bus_op = Subscribe 'n 'h | Unsubscribe 'n "64 word"

type_synonym ('n, 'h) subscriptions = "(64 word \<times> 'n \<times> 'h) list"

fun run_bus :: "('n, 'h) bus_op list \<Rightarrow> ('n, 'h) event_bus \<Rightarrow> ('n, 'h) event_bus" where
  "run_bus [] bus = bus"
| "run_bus (Subscribe name handler # ops) bus = run_bus ops (snd (bus_On name handler bus))"
| "run_bus (Unsubscribe name i # ops) bus = run_bus ops (bus_off name i bus)"

fun run_subscriptions :: "nat \<Rightarrow> ('n, 'h) bus_op list \<Rightarrow> ('n, 'h) subscriptions \<Rightarrow> ('n, 'h) subscriptions" where
  "run_subscriptions n [] subs = subs"
| "run_subscriptions n (Subscribe name handler # ops) subs =
     run_subscriptions (Suc n) ops (subs @ [(word_of_nat (Suc n), name, handler)])"
| "run_subscriptions n (Unsubscribe name i # ops) subs =
     run_subscriptions n ops (filter (\<lambda>(j, name', _). j = i \<longrightarrow> name' \<noteq> name) subs)"

definition subscribed :: "('n, 'h) subscriptions \<Rightarrow> 'n \<Rightarrow> (64 word \<times> 'h) list" where
  "subscribed subs name = [(i, h). (i, name', h) \<leftarrow> subs, name' = name]"

definition handlers_of :: "('n, 'h) bus_op list \<Rightarrow> 'n \<Rightarrow> 'h list" where
  "handlers_of ops name = map snd (subscribed (run_subscriptions 0 ops []) name)"

definition bus_abs :: "nat \<Rightarrow> ('n, 'h) subscriptions \<Rightarrow> ('n, 'h) event_bus \<Rightarrow> bool" where
  "bus_abs n subs bus \<longleftrightarrow>
     bus_nextID bus = word_of_nat n \<and> (\<forall>name. bus_entries bus name = subscribed subs name) \<and>
     distinct (map fst subs) \<and> (\<forall>(i, _) \<in> set subs. unat i \<le> n)"

lemma subscribed_simps [simp]:
  "subscribed [] name = []"
  "subscribed (subs @ [(i, name', h)]) name = subscribed subs name @ (if name' = name then [(i, h)] else [])"
  by (simp_all add: subscribed_def)

lemma subscribed_ids: "(i, h) \<in> set (subscribed subs name) \<Longrightarrow> i \<in> set (map fst subs)"
  by (force simp: subscribed_def)

lemma drop_entry_filter: "distinct (map fst entries) \<Longrightarrow> drop_entry i entries = filter (\<lambda>(j, _). j \<noteq> i) entries"
proof (induction i entries rule: drop_entry.induct)
  case (2 i entry entries)
  have "fst entry = i \<Longrightarrow> filter (\<lambda>(j, _). j \<noteq> i) entries = entries"
    using "2.prems" by (intro filter_True) (auto simp: image_iff)
  with 2 show ?case by (auto simp: case_prod_unfold)
qed simp

lemma distinct_subscribed: "distinct (map fst subs) \<Longrightarrow> distinct (map fst (subscribed subs name))"
proof (induction subs)
  case (Cons sub subs)
  obtain i name' h where "sub = (i, name', h)" by (cases sub)
  with Cons subscribed_ids [of _ _ subs name] show ?case
    by (auto simp: subscribed_def)
qed simp

lemma subscribed_filter:
  "subscribed (filter (\<lambda>(j, name', _). j = i \<longrightarrow> name' \<noteq> name) subs) name' =
     (if name' = name then filter (\<lambda>(j, _). j \<noteq> i) (subscribed subs name') else subscribed subs name')"
  by (induction subs) (auto simp: subscribed_def)

lemma bus_entries_On: "bus_entries (snd (bus_On name h bus)) name' =
    bus_entries bus name' @ (if name' = name then [(bus_nextID bus + 1, h)] else [])"
  by (simp add: bus_On_def bus_entries_def Let_def)

lemma bus_entries_off: "bus_entries (bus_off name i bus) name' =
    (if name' = name then drop_entry i (bus_entries bus name) else bus_entries bus name')"
  by (simp add: bus_off_def bus_entries_def Let_def)

lemma bus_abs_On:
  assumes "bus_abs n subs bus" and "Suc n < 2 ^ 64"
  shows "bus_abs (Suc n) (subs @ [(word_of_nat (Suc n), name, h)]) (snd (bus_On name h bus))"
proof -
  have id: "bus_nextID bus + 1 = word_of_nat (Suc n)" and unat: "unat (word_of_nat (Suc n) :: 64 word) = Suc n"
    using assms by (simp_all add: bus_abs_def unsigned_of_nat take_bit_nat_eq_self del: of_nat_Suc) (simp add: add.commute)
  have "word_of_nat (Suc n) \<notin> fst ` set subs"
    using assms(1) unat by (force simp: bus_abs_def)
  moreover have "bus_nextID (snd (bus_On name h bus)) = word_of_nat (Suc n)"
    by (simp only: bus_On_def Let_def snd_conv event_bus.select_convs id)
  moreover have "\<forall>(i, _) \<in> set subs. unat i \<le> Suc n"
    using assms(1) by (force simp: bus_abs_def)
  ultimately show ?thesis
    using assms(1) id unat unfolding bus_abs_def by (auto simp: bus_entries_On simp del: of_nat_Suc)
qed

lemma bus_abs_off:
  assumes "bus_abs n subs bus"
  shows "bus_abs n (filter (\<lambda>(j, name', _). j = i \<longrightarrow> name' \<noteq> name) subs) (bus_off name i bus)"
proof -
  have "bus_entries (bus_off name i bus) name' =
      subscribed (filter (\<lambda>(j, name', _). j = i \<longrightarrow> name' \<noteq> name) subs) name'" for name'
    using assms drop_entry_filter [OF distinct_subscribed, of subs i name]
    unfolding bus_abs_def by (simp add: bus_entries_off subscribed_filter)
  moreover have "bus_nextID (bus_off name i bus) = bus_nextID bus"
    by (simp add: bus_off_def Let_def)
  ultimately show ?thesis
    using assms unfolding bus_abs_def by (auto simp: distinct_map inj_on_def)
qed

lemma run_bus_abs:
  "bus_abs n subs bus \<Longrightarrow> n + length ops < 2 ^ 64 \<Longrightarrow>
     \<exists>m. bus_abs m (run_subscriptions n ops subs) (run_bus ops bus)"
proof (induction ops bus arbitrary: n subs rule: run_bus.induct)
  case (1 bus)
  then show ?case by auto
next
  case (2 name handler ops bus)
  have "bus_abs (Suc n) (subs @ [(word_of_nat (Suc n), name, handler)]) (snd (bus_On name handler bus))"
    by (rule bus_abs_On) (use "2.prems" in auto)
  then show ?case using "2.IH" "2.prems"(2) by (simp del: of_nat_Suc)
next
  case (3 name i ops bus)
  then show ?case using bus_abs_off [OF "3.prems"(1)] by simp
qed

text \<open>
  Calling handlers in turn up to the first one that fails: what \<open>Emit\<close> does with the subscriptions.
\<close>

lemma emit_entries_all:
  "emit_entries call entries event w = (None, w') \<Longrightarrow>
     w' = fold (\<lambda>entry w. snd (callHandler call (snd entry) event w)) entries w"
  by (induction call entries event w rule: emit_entries.induct) (auto split: prod.splits option.splits)

lemma emit_entries_first_error:
  assumes "emit_entries call entries event w = (Some err, w')"
  shows "\<exists>before entry after w1. entries = before @ entry # after \<and> emit_entries call before event w = (None, w1) \<and>
           callHandler call (snd entry) event w1 = (Some err, w')"
  using assms
proof (induction call entries event w rule: emit_entries.induct)
  case (1 call event w)
  then show ?case by simp
next
  case (2 call entry entries event w)
  obtain r w1 where call: "callHandler call (snd entry) event w = (r, w1)" by fastforce
  show ?case
  proof (cases r)
    case None
    with "2.prems" call have "emit_entries call entries event w1 = (Some err, w')" by simp
    with "2.IH" [OF call [symmetric] None] obtain before e after w2 where
      "entries = before @ e # after" "emit_entries call before event w1 = (None, w2)"
      "callHandler call (snd e) event w2 = (Some err, w')" by blast
    with call None show ?thesis by (intro exI [of _ "entry # before"]) auto
  next
    case (Some e)
    with "2.prems" call show ?thesis by (intro exI [of _ "[]"]) auto
  qed
qed



end
