(* ===== verification/Transactions.thy ===== *)
theory Transactions
  imports Event_Bus
begin

text \<open>
  Transactions: transaction.go, with the transaction state of runtime.go and \<open>connectionForQuery\<close> of
  query\_helpers.go. A \<open>*txState\<close> is the index of an object in a store, because \<open>Commit\<close> and
  \<open>Rollback\<close> close the object that every copy of the database handle points to, while a nested
  \<open>Begin\<close> copies it. A \<open>*sql.Tx\<close> is a number.

  What is outside the program is the environment: the answer of database/sql to a call, given the calls
  made before; the connections and their drivers' \<open>TranslateError\<close>; what an event handler does; and the
  outcome of waiting for a duration or for the context, whichever comes first. The context is
  otherwise only handed on to those. A database handle is \<open>None\<close> when it is nil or has no runtime. The
  function run inside a transaction maps the state to a new state and an error, a panic being the
  error \<open>GoPanic\<close>. A sentinel error that is returned bare is represented by an \<open>OroError\<close> of that kind
  without operation and cause, from which \<open>errors.Is\<close> cannot tell it.
\<close>

section \<open>State\<close>

record tx_state =
  txs_connection :: string
  txs_tx :: "nat option"
  txs_depth :: int
  txs_closed :: bool

record sql_options =
  sqo_Isolation :: int
  sqo_ReadOnly :: bool

record tx_options =
  txo_sqlOptions :: sql_options
  txo_attempts :: int
  txo_timeout :: int

datatype sql_call =
    CallBegin string sql_options
  | CallExec nat string
  | CallCommit nat
  | CallRollback nat

record ('h, 'w) tx_world =
  tw_states :: "tx_state list"
  tw_calls :: "sql_call list"
  tw_bus :: "(event_name, 'h) event_bus option"
  tw_rest :: 'w

record tx_db =
  ses_connection :: string
  ses_tx :: "nat option"

record ('h, 'w) tx_env =
  env_answer :: "sql_call list \<Rightarrow> sql_call \<Rightarrow> go_error option"
  env_conns :: "string list"
  env_translate :: "string \<Rightarrow> go_error \<Rightarrow> go_error"
  env_call :: "('h, event_name, ('h, 'w) tx_world) handler_call"
  env_TxDeadlockAttempts :: int
  env_Backoff :: "(int \<Rightarrow> int) option"
  env_wait :: "int \<Rightarrow> ('h, 'w) tx_world \<Rightarrow> go_error option"

type_synonym ('h, 'w) tx_fn = "tx_db \<Rightarrow> ('h, 'w) tx_world \<Rightarrow> go_error option \<times> ('h, 'w) tx_world"

text \<open>A call to the database, and an event.\<close>

definition sql_call :: "('h, 'w) tx_env \<Rightarrow> sql_call \<Rightarrow> ('h, 'w) tx_world \<Rightarrow> go_error option \<times> ('h, 'w) tx_world" where
  "sql_call env c w = (env_answer env (tw_calls w) c, w\<lparr>tw_calls := tw_calls w @ [c]\<rparr>)"

definition tx_emit :: "('h, 'w) tx_env \<Rightarrow> event_name \<Rightarrow> ('h, 'w) tx_world \<Rightarrow> go_error option \<times> ('h, 'w) tx_world" where
  "tx_emit env name w = emitEvent (env_call env) name (Some name) (tw_bus w) w"

section \<open>Options\<close>

definition zero_tx_options :: tx_options where
  "zero_tx_options =
     \<lparr>txo_sqlOptions = \<lparr>sqo_Isolation = 0, sqo_ReadOnly = False\<rparr>, txo_attempts = 0, txo_timeout = 0\<rparr>"

definition TxIsolation :: "int \<Rightarrow> tx_options \<Rightarrow> tx_options" where
  "TxIsolation level options = options\<lparr>txo_sqlOptions := (txo_sqlOptions options)\<lparr>sqo_Isolation := level\<rparr>\<rparr>"

definition TxReadOnly :: "tx_options \<Rightarrow> tx_options" where
  "TxReadOnly options = options\<lparr>txo_sqlOptions := (txo_sqlOptions options)\<lparr>sqo_ReadOnly := True\<rparr>\<rparr>"

definition TxAttempts :: "int \<Rightarrow> tx_options \<Rightarrow> tx_options" where
  "TxAttempts attempts options = options\<lparr>txo_attempts := attempts\<rparr>"

definition TxTimeout :: "int \<Rightarrow> tx_options \<Rightarrow> tx_options" where
  "TxTimeout timeout options = options\<lparr>txo_timeout := timeout\<rparr>"

definition txOptionsAsOption :: "sql_options \<Rightarrow> tx_options \<Rightarrow> tx_options" where
  "txOptionsAsOption sqlOptions options = options\<lparr>txo_sqlOptions := sqlOptions\<rparr>"

type_synonym tx_option = "(tx_options \<Rightarrow> tx_options) option"

definition applyTxOptions :: "tx_option list \<Rightarrow> tx_options" where
  "applyTxOptions options =
     fold (\<lambda>option resolved. case option of None \<Rightarrow> resolved | Some f \<Rightarrow> f resolved) options zero_tx_options"

definition savepointName :: "int \<Rightarrow> string" where
  "savepointName depth = ''oro_sp_'' @ itoa depth"

fun errors_Is :: "go_error \<Rightarrow> error_kind \<Rightarrow> bool" where
  "errors_Is (OroError op kind table field cause) target =
     (kind = target \<or> (case cause of None \<Rightarrow> False | Some c \<Rightarrow> errors_Is c target))"
| "errors_Is (GoError m) target = False"
| "errors_Is (GoPanic m) target = False"

definition isRetryableTransactionError :: "go_error \<Rightarrow> bool" where
  "isRetryableTransactionError err \<longleftrightarrow> errors_Is err ErrDeadlock \<or> errors_Is err ErrSerializationFailure"

section \<open>Begin, commit, rollback\<close>

definition conns_Get :: "('h, 'w) tx_env \<Rightarrow> string \<Rightarrow> string result" where
  "conns_Get env name =
     (if name \<in> set (env_conns env) then Inr name
      else Inl (mk_field_error ''connection'' ErrUnknownConnection name))"

definition connectionForQuery :: "('h, 'w) tx_env \<Rightarrow> tx_db \<Rightarrow> string \<Rightarrow> ('h, 'w) tx_world \<Rightarrow> string result" where
  "connectionForQuery env db connectionName w =
     (let name = (if connectionName = [] then ses_connection db else connectionName) in
      case ses_tx db of
        None \<Rightarrow> conns_Get env name
      | Some a \<Rightarrow>
          if txs_closed (tw_states w ! a) then Inl (mk_error ''connection'' ErrClosed)
          else if name \<noteq> txs_connection (tw_states w ! a)
          then Inl (mk_field_error ''connection'' ErrTransactionConnection name)
          else conns_Get env name)"

definition txState :: "tx_db option \<Rightarrow> nat option" where
  "txState db = (case db of None \<Rightarrow> None | Some d \<Rightarrow> ses_tx d)"

definition translateTxError :: "('h, 'w) tx_env \<Rightarrow> tx_db \<Rightarrow> go_error \<Rightarrow> ('h, 'w) tx_world \<Rightarrow> go_error" where
  "translateTxError env db err w =
     (case ses_tx db of
        None \<Rightarrow> err
      | Some a \<Rightarrow>
          if txs_connection (tw_states w ! a) = [] then err
          else (case connectionForQuery env db (txs_connection (tw_states w ! a)) w of
                  Inl _ \<Rightarrow> err
                | Inr name \<Rightarrow> env_translate env name err))"

definition beginNested :: "('h, 'w) tx_env \<Rightarrow> tx_db \<Rightarrow> nat \<Rightarrow> ('h, 'w) tx_world \<Rightarrow> tx_db result \<times> ('h, 'w) tx_world" where
  "beginNested env db a w =
     (let state = tw_states w ! a in
      case txs_tx state of
        None \<Rightarrow> (Inl (mk_error ''begin'' ErrTransactionRequired), w)
      | Some tx \<Rightarrow>
          if txs_closed state then (Inl (mk_error ''begin'' ErrTransactionRequired), w)
          else
            (let nextDepth = txs_depth state + 1 in
             case sql_call env (CallExec tx (''savepoint '' @ savepointName nextDepth)) w of
               (Some err, w1) \<Rightarrow> (Inl (translateTxError env db err w1), w1)
             | (None, w1) \<Rightarrow>
                 (Inr (db\<lparr>ses_tx := Some (length (tw_states w1))\<rparr>),
                  w1\<lparr>tw_states := tw_states w1 @ [state\<lparr>txs_depth := nextDepth\<rparr>]\<rparr>)))"

definition db_Begin ::
  "('h, 'w) tx_env \<Rightarrow> tx_option list \<Rightarrow> tx_db option \<Rightarrow> ('h, 'w) tx_world \<Rightarrow> tx_db result \<times> ('h, 'w) tx_world" where
  "db_Begin env opts dbo w =
     (let options = applyTxOptions opts in
      case dbo of
        None \<Rightarrow> (Inl (mk_error ''begin'' ErrInvalidArgument), w)
      | Some db \<Rightarrow>
          (case ses_tx db of
             Some a \<Rightarrow> beginNested env db a w
           | None \<Rightarrow>
               (case connectionForQuery env db (ses_connection db) w of
                  Inl err \<Rightarrow> (Inl err, w)
                | Inr name \<Rightarrow>
                    (case sql_call env (CallBegin name (txo_sqlOptions options)) w of
                       (Some err, w1) \<Rightarrow> (Inl (env_translate env name err), w1)
                     | (None, w1) \<Rightarrow>
                         (Inr (db\<lparr>ses_tx := Some (length (tw_states w1)), ses_connection := name\<rparr>),
                          w1\<lparr>tw_states := tw_states w1 @
                            [\<lparr>txs_connection = name, txs_tx = Some (length (tw_calls w)), txs_depth = 0,
                              txs_closed = False\<rparr>]\<rparr>)))))"

definition close_state :: "nat \<Rightarrow> ('h, 'w) tx_world \<Rightarrow> ('h, 'w) tx_world" where
  "close_state a w = w\<lparr>tw_states := (tw_states w)[a := (tw_states w ! a)\<lparr>txs_closed := True\<rparr>]\<rparr>"

text \<open>Using a nil \<open>*sql.Tx\<close> panics; a state with one is never made by this package.\<close>

definition finish_call ::
  "('h, 'w) tx_env \<Rightarrow> tx_db \<Rightarrow> nat \<Rightarrow> (nat \<Rightarrow> sql_call) \<Rightarrow> event_name \<Rightarrow> ('h, 'w) tx_world \<Rightarrow>
     go_error option \<times> ('h, 'w) tx_world" where
  "finish_call env db a c event w =
     (case txs_tx (tw_states w ! a) of
        None \<Rightarrow> (Some (GoPanic ''nil pointer dereference''), w)
      | Some tx \<Rightarrow>
          (case sql_call env (c tx) w of
             (Some err, w1) \<Rightarrow> (Some (translateTxError env db err w1), w1)
           | (None, w1) \<Rightarrow> tx_emit env event (close_state a w1)))"

definition db_Commit :: "('h, 'w) tx_env \<Rightarrow> tx_db option \<Rightarrow> ('h, 'w) tx_world \<Rightarrow> go_error option \<times> ('h, 'w) tx_world" where
  "db_Commit env dbo w =
     (case dbo of
        None \<Rightarrow> (Some (mk_error ''commit'' ErrTransactionRequired), w)
      | Some db \<Rightarrow>
          (case ses_tx db of
             None \<Rightarrow> (Some (mk_error ''commit'' ErrTransactionRequired), w)
           | Some a \<Rightarrow>
               (let state = tw_states w ! a in
                if txs_closed state then (Some (mk_error ''commit'' ErrClosed), w)
                else if 0 < txs_depth state
                then finish_call env db a (\<lambda>tx. CallExec tx (''release savepoint '' @ savepointName (txs_depth state)))
                       AfterCommit w
                else finish_call env db a CallCommit AfterCommit w)))"

definition db_Rollback :: "('h, 'w) tx_env \<Rightarrow> tx_db option \<Rightarrow> ('h, 'w) tx_world \<Rightarrow> go_error option \<times> ('h, 'w) tx_world" where
  "db_Rollback env dbo w =
     (case dbo of
        None \<Rightarrow> (None, w)
      | Some db \<Rightarrow>
          (case ses_tx db of
             None \<Rightarrow> (None, w)
           | Some a \<Rightarrow>
               (let state = tw_states w ! a in
                if txs_closed state then (None, w)
                else if 0 < txs_depth state
                then finish_call env db a
                       (\<lambda>tx. CallExec tx (''rollback to savepoint '' @ savepointName (txs_depth state))) AfterRollback w
                else finish_call env db a CallRollback AfterRollback w)))"

section \<open>Savepoints\<close>

record savepoint =
  sp_db :: "tx_db option"
  sp_name :: string
  sp_closed :: bool

text \<open>The open transaction of a handle: \<open>state == nil || state.tx == nil || state.closed\<close> gives none.\<close>

definition open_tx :: "tx_db option \<Rightarrow> ('h, 'w) tx_world \<Rightarrow> (tx_state \<times> nat) option" where
  "open_tx dbo w =
     (case txState dbo of
        None \<Rightarrow> None
      | Some a \<Rightarrow>
          (let state = tw_states w ! a in
           case txs_tx state of
             None \<Rightarrow> None
           | Some tx \<Rightarrow> if txs_closed state then None else Some (state, tx)))"

definition db_Savepoint ::
  "('h, 'w) tx_env \<Rightarrow> tx_db option \<Rightarrow> ('h, 'w) tx_world \<Rightarrow> savepoint result \<times> ('h, 'w) tx_world" where
  "db_Savepoint env dbo w =
     (case (dbo, open_tx dbo w) of
        (Some db, Some (state, tx)) \<Rightarrow>
          (let name = savepointName (txs_depth state + 1) in
           case sql_call env (CallExec tx (''savepoint '' @ name)) w of
             (Some err, w1) \<Rightarrow> (Inl (translateTxError env db err w1), w1)
           | (None, w1) \<Rightarrow> (Inr \<lparr>sp_db = Some db, sp_name = name, sp_closed = False\<rparr>, w1))
      | _ \<Rightarrow> (Inl (mk_error ''savepoint'' ErrTransactionRequired), w))"

definition savepoint_end ::
  "string \<Rightarrow> string \<Rightarrow> ('h, 'w) tx_env \<Rightarrow> savepoint option \<Rightarrow> ('h, 'w) tx_world \<Rightarrow>
     go_error option \<times> savepoint option \<times> ('h, 'w) tx_world" where
  "savepoint_end sql op env spo w =
     (case spo of
        None \<Rightarrow> (None, spo, w)
      | Some sp \<Rightarrow>
          (case sp_db sp of
             None \<Rightarrow> (None, spo, w)
           | Some db \<Rightarrow>
               if sp_closed sp then (None, spo, w)
               else (case open_tx (sp_db sp) w of
                       None \<Rightarrow> (Some (mk_error op ErrTransactionRequired), spo, w)
                     | Some (state, tx) \<Rightarrow>
                         (case sql_call env (CallExec tx (sql @ sp_name sp)) w of
                            (Some err, w1) \<Rightarrow> (Some (translateTxError env db err w1), spo, w1)
                          | (None, w1) \<Rightarrow> (None, Some (sp\<lparr>sp_closed := True\<rparr>), w1)))))"

definition savepoint_Rollback ::
  "('h, 'w) tx_env \<Rightarrow> savepoint option \<Rightarrow> ('h, 'w) tx_world \<Rightarrow> go_error option \<times> savepoint option \<times> ('h, 'w) tx_world" where
  "savepoint_Rollback = savepoint_end ''rollback to savepoint '' ''savepoint.rollback''"

definition savepoint_Release ::
  "('h, 'w) tx_env \<Rightarrow> savepoint option \<Rightarrow> ('h, 'w) tx_world \<Rightarrow> go_error option \<times> savepoint option \<times> ('h, 'w) tx_world" where
  "savepoint_Release = savepoint_end ''release savepoint '' ''savepoint.release''"

section \<open>Running a function in a transaction\<close>

definition transactionOnce ::
  "('h, 'w) tx_env \<Rightarrow> ('h, 'w) tx_fn \<Rightarrow> sql_options \<Rightarrow> tx_db option \<Rightarrow> ('h, 'w) tx_world \<Rightarrow>
     go_error option \<times> ('h, 'w) tx_world" where
  "transactionOnce env fn sqlOptions db w =
     (case db_Begin env [Some (txOptionsAsOption sqlOptions)] db w of
        (Inl err, w1) \<Rightarrow> (Some err, w1)
      | (Inr txDB, w1) \<Rightarrow>
          (case fn txDB w1 of
             (Some err, w2) \<Rightarrow> (Some err, snd (db_Rollback env (Some txDB) w2))
           | (None, w2) \<Rightarrow> db_Commit env (Some txDB) w2))"

definition waitRetryBackoff :: "('h, 'w) tx_env \<Rightarrow> tx_db option \<Rightarrow> int \<Rightarrow> ('h, 'w) tx_world \<Rightarrow> go_error option" where
  "waitRetryBackoff env db attempt w =
     (case (db, env_Backoff env) of
        (Some _, Some backoff) \<Rightarrow>
          (let duration = backoff attempt in if duration \<le> 0 then None else env_wait env duration w)
      | _ \<Rightarrow> None)"

function attempt_loop ::
  "('h, 'w) tx_env \<Rightarrow> ('h, 'w) tx_fn \<Rightarrow> sql_options \<Rightarrow> tx_db option \<Rightarrow> int \<Rightarrow> int \<Rightarrow> go_error option \<Rightarrow>
     ('h, 'w) tx_world \<Rightarrow> go_error option \<times> ('h, 'w) tx_world" where
  "attempt_loop env fn sqlOptions db attempts attempt lastErr w =
     (if \<not> attempt < attempts then (lastErr, w)
      else (case transactionOnce env fn sqlOptions db w of
              (None, w1) \<Rightarrow> (None, w1)
            | (Some err, w1) \<Rightarrow>
                if \<not> isRetryableTransactionError err then (Some err, w1)
                else if attempt < attempts - 1
                then (case waitRetryBackoff env db (attempt + 1) w1 of
                        Some err' \<Rightarrow> (Some err', w1)
                      | None \<Rightarrow> attempt_loop env fn sqlOptions db attempts (attempt + 1) (Some err) w1)
                else attempt_loop env fn sqlOptions db attempts (attempt + 1) (Some err) w1))"
  by pat_completeness auto
termination
  by (relation "measure (\<lambda>(env, fn, sqlOptions, db, attempts, attempt, lastErr, w). nat (attempts - attempt))") auto

declare attempt_loop.simps [simp del]

definition resolve_attempts :: "('h, 'w) tx_env \<Rightarrow> tx_options \<Rightarrow> tx_db option \<Rightarrow> int" where
  "resolve_attempts env options db =
     (let attempts = (if txo_attempts options \<le> 0 \<and> db \<noteq> None then env_TxDeadlockAttempts env else txo_attempts options)
      in if attempts \<le> 0 then 1 else attempts)"

definition db_Transaction ::
  "('h, 'w) tx_env \<Rightarrow> ('h, 'w) tx_fn option \<Rightarrow> tx_option list \<Rightarrow> tx_db option \<Rightarrow> ('h, 'w) tx_world \<Rightarrow>
     go_error option \<times> ('h, 'w) tx_world" where
  "db_Transaction env fno opts db w =
     (case fno of
        None \<Rightarrow> (Some (mk_error ''transaction'' ErrInvalidArgument), w)
      | Some fn \<Rightarrow>
          (let options = applyTxOptions opts in
           attempt_loop env fn (txo_sqlOptions options) db (resolve_attempts env options db) 0 None w))"

end
