(* ===== verification/Transactions_Correct.thy ===== *)
theory Transactions_Correct
  imports Transactions
begin

text \<open>
  Properties of transactions: the retry loop ends and succeeds when an attempt does; a
  transaction is committed exactly when its function succeeds; and nested transactions, which the code
  builds from savepoints named by depth, give all-or-nothing behaviour at every level on a server
  that implements savepoints.
\<close>

section \<open>The retry loop\<close>

text \<open>\<open>n\<close> attempts failed with a retryable error, and each wait after them ended by its timer.\<close>

inductive retried ::
  "('h, 'w) tx_env \<Rightarrow> ('h, 'w) tx_fn \<Rightarrow> sql_options \<Rightarrow> tx_db option \<Rightarrow> nat \<Rightarrow> ('h, 'w) tx_world \<Rightarrow>
     ('h, 'w) tx_world \<Rightarrow> bool"
  for env fn sqlOptions db where
  retried_0: "retried env fn sqlOptions db 0 w w"
| retried_Suc: "retried env fn sqlOptions db n w w1 \<Longrightarrow> transactionOnce env fn sqlOptions db w1 = (Some err, w2) \<Longrightarrow>
    isRetryableTransactionError err \<Longrightarrow> waitRetryBackoff env db (int n + 1) w2 = None \<Longrightarrow>
    retried env fn sqlOptions db (Suc n) w w2"

inductive_cases retried_0E: "retried env fn sqlOptions db 0 w w'"

lemma attempt_loop_retried:
  assumes "retried env fn sqlOptions db n w w1" and "int n < attempts"
  shows "\<exists>lastErr. attempt_loop env fn sqlOptions db attempts 0 None w =
    attempt_loop env fn sqlOptions db attempts (int n) lastErr w1"
  using assms
proof (induction rule: retried.induct)
  case (retried_0 w)
  then show ?case by auto
next
  case (retried_Suc n w w1 err w2)
  then obtain lastErr where "attempt_loop env fn sqlOptions db attempts 0 None w =
      attempt_loop env fn sqlOptions db attempts (int n) lastErr w1" by auto
  also have "\<dots> = attempt_loop env fn sqlOptions db attempts (int (Suc n)) (Some err) w2"
    using retried_Suc.hyps retried_Suc.prems
    by (subst attempt_loop.simps) (simp add: add.commute)
  finally show ?case by blast
qed

text \<open>How the attempt numbered \<open>n\<close>, made in state \<open>w1\<close>, may end the loop.\<close>

definition final_attempt ::
  "('h, 'w) tx_env \<Rightarrow> ('h, 'w) tx_fn \<Rightarrow> sql_options \<Rightarrow> tx_db option \<Rightarrow> int \<Rightarrow> nat \<Rightarrow> ('h, 'w) tx_world \<Rightarrow>
     go_error option \<times> ('h, 'w) tx_world \<Rightarrow> bool" where
  "final_attempt env fn sqlOptions db attempts n w1 result \<longleftrightarrow>
     (case transactionOnce env fn sqlOptions db w1 of
        (None, w2) \<Rightarrow> result = (None, w2)
      | (Some err, w2) \<Rightarrow>
          if isRetryableTransactionError err \<and> int n < attempts - 1
          then (\<exists>e. waitRetryBackoff env db (int n + 1) w2 = Some e \<and> result = (Some e, w2))
          else result = (Some err, w2))"

lemma attempt_loop_ends:
  assumes "retried env fn sqlOptions db n w w1" and "int n < attempts"
  shows "\<exists>m w2. int m < attempts \<and> retried env fn sqlOptions db m w w2 \<and>
    final_attempt env fn sqlOptions db attempts m w2
      (attempt_loop env fn sqlOptions db attempts (int n) lastErr w1)"
  using assms
proof (induction "nat (attempts - int n)" arbitrary: n w1 lastErr rule: less_induct)
  case less
  obtain r w2 where once: "transactionOnce env fn sqlOptions db w1 = (r, w2)" by fastforce
  note unfold = attempt_loop.simps [of env fn sqlOptions db attempts "int n" lastErr w1]
  show ?case
  proof (cases "\<exists>err. r = Some err \<and> isRetryableTransactionError err \<and> int n < attempts - 1 \<and>
      waitRetryBackoff env db (int n + 1) w2 = None")
    case True
    then obtain err where err: "r = Some err" "isRetryableTransactionError err" "int n < attempts - 1"
      "waitRetryBackoff env db (int n + 1) w2 = None" by blast
    then have "retried env fn sqlOptions db (Suc n) w w2"
      using less.prems(1) once by (auto intro: retried_Suc)
    moreover have "attempt_loop env fn sqlOptions db attempts (int n) lastErr w1 =
        attempt_loop env fn sqlOptions db attempts (int (Suc n)) (Some err) w2"
      using err once less.prems(2) unfold by (simp add: add.commute)
    ultimately show ?thesis
      using less.hyps [of "Suc n" w2 "Some err"] err(3) by simp
  next
    case False
    have "final_attempt env fn sqlOptions db attempts n w1
        (attempt_loop env fn sqlOptions db attempts (int n) lastErr w1)"
    proof (cases r)
      case None
      then show ?thesis using once less.prems(2) unfold by (simp add: final_attempt_def)
    next
      case (Some err)
      have exhausted: "attempt_loop env fn sqlOptions db attempts (int n + 1) (Some err) w2 = (Some err, w2)"
        if "\<not> int n < attempts - 1"
        using that by (subst attempt_loop.simps) simp
      show ?thesis
        using False Some once less.prems(2) unfold exhausted
        by (cases "waitRetryBackoff env db (int n + 1) w2") (auto simp: final_attempt_def)
    qed
    with less.prems show ?thesis by blast
  qed
qed

section \<open>Commit or rollback\<close>

text \<open>The function does not close the transaction it is given.\<close>

definition leaves_open :: "('h, 'w) tx_fn \<Rightarrow> bool" where
  "leaves_open fn \<longleftrightarrow>
     (\<forall>db a w r w'. fn db w = (r, w') \<longrightarrow> ses_tx db = Some a \<longrightarrow> a < length (tw_states w) \<longrightarrow>
        tw_states w' ! a = tw_states w ! a)"

lemma begin_outer:
  assumes "ses_tx db = None" and "db_Begin env opts (Some db) w = (Inr txDB, w1)"
  shows "ses_tx txDB = Some (length (tw_states w))" and "length (tw_states w1) = Suc (length (tw_states w))"
    and "tw_states w1 ! length (tw_states w) =
      \<lparr>txs_connection = ses_connection txDB, txs_tx = Some (length (tw_calls w)), txs_depth = 0, txs_closed = False\<rparr>"
    and "tw_calls w1 = tw_calls w @ [CallBegin (ses_connection txDB) (txo_sqlOptions (applyTxOptions opts))]"
  using assms by (auto simp: db_Begin_def sql_call_def Let_def split: sum.splits option.splits prod.splits)

lemma finish_call_result:
  assumes "txs_tx (tw_states w ! a) = Some tx" and "finish_call env db a c event w = (r, w')"
  shows "(case env_answer env (tw_calls w) (c tx) of
      Some err \<Rightarrow> r \<noteq> None \<and> w' = w\<lparr>tw_calls := tw_calls w @ [c tx]\<rparr>
    | None \<Rightarrow> (r, w') = tx_emit env event (close_state a (w\<lparr>tw_calls := tw_calls w @ [c tx]\<rparr>)))"
  using assms by (auto simp: finish_call_def sql_call_def split: option.splits)

section \<open>A server with savepoints\<close>

text \<open>
  The documented behaviour of savepoints: \<open>savepoint n\<close> marks the current data, \<open>release savepoint n\<close>
  forgets the latest mark of that name and the marks after it, \<open>rollback to savepoint n\<close> restores the
  data of the latest mark of that name and forgets the marks after it. What any other statement does is the
  parameter \<open>effect\<close>. Data is durable once committed.
\<close>

record 'd server =
  sv_committed :: 'd
  sv_working :: 'd
  sv_stack :: "(string \<times> 'd) list"

definition after_prefix :: "string \<Rightarrow> string \<Rightarrow> string option" where
  "after_prefix p s = (if has_prefix s p then Some (drop (length p) s) else None)"

definition server_exec :: "(string \<Rightarrow> 'd \<Rightarrow> 'd) \<Rightarrow> string \<Rightarrow> 'd server \<Rightarrow> 'd server" where
  "server_exec effect s sv =
     (case after_prefix ''savepoint '' s of
        Some name \<Rightarrow> sv\<lparr>sv_stack := (name, sv_working sv) # sv_stack sv\<rparr>
      | None \<Rightarrow>
          (case after_prefix ''release savepoint '' s of
             Some name \<Rightarrow> sv\<lparr>sv_stack := tl (dropWhile (\<lambda>m. fst m \<noteq> name) (sv_stack sv))\<rparr>
           | None \<Rightarrow>
               (case after_prefix ''rollback to savepoint '' s of
                  Some name \<Rightarrow>
                    (case dropWhile (\<lambda>m. fst m \<noteq> name) (sv_stack sv) of
                       [] \<Rightarrow> sv
                     | m # marks \<Rightarrow> sv\<lparr>sv_working := snd m, sv_stack := m # marks\<rparr>)
                | None \<Rightarrow> sv\<lparr>sv_working := effect s (sv_working sv)\<rparr>)))"

fun server_step :: "(string \<Rightarrow> 'd \<Rightarrow> 'd) \<Rightarrow> sql_call \<Rightarrow> 'd server \<Rightarrow> 'd server" where
  "server_step effect (CallBegin name options) sv = sv\<lparr>sv_working := sv_committed sv, sv_stack := []\<rparr>"
| "server_step effect (CallExec tx s) sv = server_exec effect s sv"
| "server_step effect (CallCommit tx) sv = sv\<lparr>sv_committed := sv_working sv, sv_stack := []\<rparr>"
| "server_step effect (CallRollback tx) sv = sv\<lparr>sv_working := sv_committed sv, sv_stack := []\<rparr>"

definition server_after :: "(string \<Rightarrow> 'd \<Rightarrow> 'd) \<Rightarrow> 'd \<Rightarrow> sql_call list \<Rightarrow> 'd server" where
  "server_after effect d calls =
     fold (server_step effect) calls \<lparr>sv_committed = d, sv_working = d, sv_stack = []\<rparr>"

lemma server_after_snoc [simp]: "server_after effect d (calls @ [c]) = server_step effect c (server_after effect d calls)"
  by (simp add: server_after_def)

lemma server_after_append: "server_after effect d (calls @ cs) = fold (server_step effect) cs (server_after effect d calls)"
  by (simp add: server_after_def)

definition control_statement :: "string \<Rightarrow> bool" where
  "control_statement s \<longleftrightarrow>
     has_prefix s ''savepoint '' \<or> has_prefix s ''release savepoint '' \<or> has_prefix s ''rollback to savepoint ''"

lemma server_exec_control:
  "server_exec effect (''savepoint '' @ name) sv = sv\<lparr>sv_stack := (name, sv_working sv) # sv_stack sv\<rparr>"
  "server_exec effect (''release savepoint '' @ name) sv = sv\<lparr>sv_stack := tl (dropWhile (\<lambda>m. fst m \<noteq> name) (sv_stack sv))\<rparr>"
  "server_exec effect (''rollback to savepoint '' @ name) sv =
     (case dropWhile (\<lambda>m. fst m \<noteq> name) (sv_stack sv) of
        [] \<Rightarrow> sv | m # marks \<Rightarrow> sv\<lparr>sv_working := snd m, sv_stack := m # marks\<rparr>)"
  by (simp_all add: server_exec_def after_prefix_def has_prefix_def)

lemmas server_exec_marks = server_exec_control [unfolded append_Cons append_Nil]

lemma server_exec_plain: "\<not> control_statement s \<Longrightarrow> server_exec effect s sv = sv\<lparr>sv_working := effect s (sv_working sv)\<rparr>"
  by (simp add: server_exec_def after_prefix_def control_statement_def)

lemma savepointName_inject [simp]: "savepointName j = savepointName k \<longleftrightarrow> j = k"
  using itoa_inject by (auto simp: savepointName_def)

section \<open>Programs of nested transactions\<close>

text \<open>
  A program run in a transaction: statements, failure, and inner transactions whose error is returned
  or ignored. \<open>all_or_nothing\<close> says what it should do to the data: an inner transaction that
  fails leaves the data as it found it.
\<close>

datatype tx_prog = Stmt string | Fail string | Nested "tx_prog list" | Catch "tx_prog list"

definition exec_stmt ::
  "('h, 'w) tx_env \<Rightarrow> string \<Rightarrow> ('h, 'w) tx_fn" where
  "exec_stmt env s db w =
     (case open_tx (Some db) w of
        None \<Rightarrow> (Some (GoError ''no transaction''), w)
      | Some (state, tx) \<Rightarrow> sql_call env (CallExec tx s) w)"

fun run_prog :: "('h, 'w) tx_env \<Rightarrow> tx_prog list \<Rightarrow> ('h, 'w) tx_fn" where
  "run_prog env [] db w = (None, w)"
| "run_prog env (Stmt s # ps) db w =
     (case exec_stmt env s db w of (Some err, w1) \<Rightarrow> (Some err, w1) | (None, w1) \<Rightarrow> run_prog env ps db w1)"
| "run_prog env (Fail m # ps) db w = (Some (GoError m), w)"
| "run_prog env (Nested body # ps) db w =
     (case db_Transaction env (Some (\<lambda>db w. run_prog env body db w)) [] (Some db) w of
        (Some err, w1) \<Rightarrow> (Some err, w1)
      | (None, w1) \<Rightarrow> run_prog env ps db w1)"
| "run_prog env (Catch body # ps) db w =
     (case db_Transaction env (Some (\<lambda>db w. run_prog env body db w)) [] (Some db) w of
        (_, w1) \<Rightarrow> run_prog env ps db w1)"

fun all_or_nothing :: "(string \<Rightarrow> 'd \<Rightarrow> 'd) \<Rightarrow> tx_prog list \<Rightarrow> 'd \<Rightarrow> 'd option" where
  "all_or_nothing effect [] d = Some d"
| "all_or_nothing effect (Stmt s # ps) d = all_or_nothing effect ps (effect s d)"
| "all_or_nothing effect (Fail m # ps) d = None"
| "all_or_nothing effect (Nested body # ps) d =
     (case all_or_nothing effect body d of None \<Rightarrow> None | Some d' \<Rightarrow> all_or_nothing effect ps d')"
| "all_or_nothing effect (Catch body # ps) d =
     (case all_or_nothing effect body d of
        None \<Rightarrow> all_or_nothing effect ps d
      | Some d' \<Rightarrow> all_or_nothing effect ps d')"

fun plain_prog :: "tx_prog \<Rightarrow> bool" where
  "plain_prog (Stmt s) \<longleftrightarrow> \<not> control_statement s"
| "plain_prog (Fail m) \<longleftrightarrow> True"
| "plain_prog (Nested body) \<longleftrightarrow> list_all plain_prog body"
| "plain_prog (Catch body) \<longleftrightarrow> list_all plain_prog body"

text \<open>The handle is inside an open transaction at a depth.\<close>

definition at_depth :: "('h, 'w) tx_world \<Rightarrow> tx_db \<Rightarrow> int \<Rightarrow> bool" where
  "at_depth w db k \<longleftrightarrow>
     (\<exists>a tx conn. ses_tx db = Some a \<and> a < length (tw_states w) \<and>
        tw_states w ! a = \<lparr>txs_connection = conn, txs_tx = Some tx, txs_depth = k, txs_closed = False\<rparr>)"

text \<open>
  What a piece of a transaction at depth \<open>k\<close> leaves alone: the transaction states there were, the
  committed data, and the marks of the server up to more marks of deeper levels.
\<close>

definition within :: "(string \<Rightarrow> 'd \<Rightarrow> 'd) \<Rightarrow> 'd \<Rightarrow> int \<Rightarrow> ('h, 'w) tx_world \<Rightarrow> ('h, 'w) tx_world \<Rightarrow> bool" where
  "within effect d k w w' \<longleftrightarrow>
     tw_bus w' = tw_bus w \<and> length (tw_states w) \<le> length (tw_states w') \<and>
     (\<forall>a < length (tw_states w). tw_states w' ! a = tw_states w ! a) \<and>
     sv_committed (server_after effect d (tw_calls w')) = sv_committed (server_after effect d (tw_calls w)) \<and>
     (\<exists>extra. sv_stack (server_after effect d (tw_calls w')) = extra @ sv_stack (server_after effect d (tw_calls w)) \<and>
        (\<forall>m \<in> set extra. \<exists>j > k. fst m = savepointName j))"

lemma within_refl: "within effect d k w w"
  by (simp add: within_def)

lemma within_trans:
  assumes "within effect d k w w1" and "within effect d k w1 w2"
  shows "within effect d k w w2"
proof -
  obtain e1 e2 where "sv_stack (server_after effect d (tw_calls w1)) = e1 @ sv_stack (server_after effect d (tw_calls w))"
    and "sv_stack (server_after effect d (tw_calls w2)) = e2 @ sv_stack (server_after effect d (tw_calls w1))"
    and "\<forall>m \<in> set e1. \<exists>j > k. fst m = savepointName j" and "\<forall>m \<in> set e2. \<exists>j > k. fst m = savepointName j"
    using assms unfolding within_def by blast
  then have "\<exists>extra. sv_stack (server_after effect d (tw_calls w2)) =
      extra @ sv_stack (server_after effect d (tw_calls w)) \<and> (\<forall>m \<in> set extra. \<exists>j > k. fst m = savepointName j)"
    by (intro exI [of _ "e2 @ e1"]) auto
  with assms show ?thesis unfolding within_def by auto
qed

lemma within_at_depth: "within effect d k w w' \<Longrightarrow> at_depth w db j \<Longrightarrow> at_depth w' db j"
  unfolding within_def at_depth_def by (metis order_less_le_trans)

text \<open>A function that does to the data what a result of \<open>all_or_nothing\<close> says.\<close>

definition carries_out :: "(string \<Rightarrow> 'd \<Rightarrow> 'd) \<Rightarrow> 'd \<Rightarrow> ('h, 'w) tx_fn \<Rightarrow> ('d \<Rightarrow> 'd option) \<Rightarrow> bool" where
  "carries_out effect d fn f \<longleftrightarrow>
     (\<forall>db k w r w'. at_depth w db k \<longrightarrow> 0 \<le> k \<longrightarrow> tw_bus w = None \<longrightarrow> fn db w = (r, w') \<longrightarrow>
        within effect d k w w' \<and>
        (case f (sv_working (server_after effect d (tw_calls w))) of
           Some d' \<Rightarrow> r = None \<and> sv_working (server_after effect d (tw_calls w')) = d'
         | None \<Rightarrow> (\<exists>m. r = Some (GoError m))))"

lemma carries_outD:
  assumes "carries_out effect d fn f" and "at_depth w db k" and "0 \<le> k" and "tw_bus w = None" and "fn db w = (r, w')"
  shows "within effect d k w w'"
    and "case f (sv_working (server_after effect d (tw_calls w))) of
        Some d' \<Rightarrow> r = None \<and> sv_working (server_after effect d (tw_calls w')) = d'
      | None \<Rightarrow> (\<exists>m. r = Some (GoError m))"
  using assms unfolding carries_out_def by blast+

section \<open>Nested transactions\<close>

text \<open>A server that answers every call without an error.\<close>

definition no_errors :: "('h, 'w) tx_env \<Rightarrow> bool" where
  "no_errors env \<longleftrightarrow> (\<forall>calls c. env_answer env calls c = None)"

lemma tx_emit_no_bus: "tw_bus w = None \<Longrightarrow> tx_emit env name w = (None, w)"
  by (simp add: tx_emit_def emitEvent_def)

lemma resolve_attempts_pos: "1 \<le> resolve_attempts env options db"
  by (simp add: resolve_attempts_def Let_def)

lemma transaction_single_attempt:
  assumes "transactionOnce env fn (txo_sqlOptions (applyTxOptions opts)) db w = (r, w')"
    and "r = None \<or> (\<exists>m. r = Some (GoError m))"
  shows "db_Transaction env (Some fn) opts db w = (r, w')"
  using assms resolve_attempts_pos [of env "applyTxOptions opts" db]
  by (auto simp: db_Transaction_def Let_def attempt_loop.simps isRetryableTransactionError_def)

lemma begin_nested:
  assumes "no_errors env" and "at_depth w db k"
  obtains a tx conn where
    "ses_tx db = Some a" "a < length (tw_states w)"
    "tw_states w ! a = \<lparr>txs_connection = conn, txs_tx = Some tx, txs_depth = k, txs_closed = False\<rparr>"
    "db_Begin env opts (Some db) w =
       (Inr (db\<lparr>ses_tx := Some (length (tw_states w))\<rparr>),
        w\<lparr>tw_calls := tw_calls w @ [CallExec tx (''savepoint '' @ savepointName (k + 1))],
          tw_states := tw_states w @ [\<lparr>txs_connection = conn, txs_tx = Some tx, txs_depth = k + 1, txs_closed = False\<rparr>]\<rparr>)"
proof -
  obtain a tx conn where state: "ses_tx db = Some a" "a < length (tw_states w)"
    "tw_states w ! a = \<lparr>txs_connection = conn, txs_tx = Some tx, txs_depth = k, txs_closed = False\<rparr>"
    using assms(2) unfolding at_depth_def by blast
  then show ?thesis
    using that [OF state] assms(1)
    by (simp add: db_Begin_def beginNested_def sql_call_def no_errors_def Let_def)
qed

text \<open>The end of a nested transaction: a release or a rollback to the savepoint of its depth.\<close>

lemma finish_nested:
  assumes "no_errors env" and "ses_tx db = Some a" and "a < length (tw_states w)" and "tw_bus w = None" and "0 < k"
    and "tw_states w ! a = \<lparr>txs_connection = conn, txs_tx = Some tx, txs_depth = k, txs_closed = False\<rparr>"
  shows "db_Commit env (Some db) w =
      (None, close_state a (w\<lparr>tw_calls := tw_calls w @ [CallExec tx (''release savepoint '' @ savepointName k)]\<rparr>))"
    and "db_Rollback env (Some db) w =
      (None, close_state a (w\<lparr>tw_calls := tw_calls w @ [CallExec tx (''rollback to savepoint '' @ savepointName k)]\<rparr>))"
  using assms
  by (simp_all add: db_Commit_def db_Rollback_def finish_call_def sql_call_def no_errors_def Let_def close_state_def
      tx_emit_no_bus)

lemma drop_to_mark:
  assumes "\<forall>m \<in> set extra. \<exists>j > k. fst m = savepointName j"
  shows "dropWhile (\<lambda>m. fst m \<noteq> savepointName k) (extra @ (savepointName k, dw) # marks) = (savepointName k, dw) # marks"
  using assms by (induction extra) auto

text \<open>Between the savepoint of a nested transaction and its end, seen from the enclosing level.\<close>

lemma within_nested:
  assumes "within effect d (k + 1) w1 w2" and "tw_bus w1 = tw_bus w"
    and "tw_states w1 = tw_states w @ [state]"
    and "server_after effect d (tw_calls w1) =
      (server_after effect d (tw_calls w))\<lparr>sv_stack := (savepointName (k + 1), dw) # sv_stack (server_after effect d (tw_calls w))\<rparr>"
    and "w3 = close_state (length (tw_states w)) (w2\<lparr>tw_calls := tw_calls w2 @ [c]\<rparr>)"
    and "c = CallExec tx (''release savepoint '' @ savepointName (k + 1)) \<or>
      c = CallExec tx (''rollback to savepoint '' @ savepointName (k + 1))"
  shows "within effect d k w w3"
    and "c = CallExec tx (''release savepoint '' @ savepointName (k + 1)) \<Longrightarrow>
      sv_working (server_after effect d (tw_calls w3)) = sv_working (server_after effect d (tw_calls w2))"
    and "c = CallExec tx (''rollback to savepoint '' @ savepointName (k + 1)) \<Longrightarrow>
      sv_working (server_after effect d (tw_calls w3)) = dw"
proof -
  let ?S = "\<lambda>w. server_after effect d (tw_calls w)"
  obtain extra where stack: "sv_stack (?S w2) = extra @ (savepointName (k + 1), dw) # sv_stack (?S w)"
    and deeper: "\<forall>m \<in> set extra. \<exists>j > k + 1. fst m = savepointName j"
    using assms(1,4) unfolding within_def by auto
  note mark = drop_to_mark [OF deeper, of dw "sv_stack (?S w)"]
  have calls: "tw_calls w3 = tw_calls w2 @ [c]" by (simp add: assms(5) close_state_def)
  have committed: "sv_committed (?S w2) = sv_committed (?S w)"
    using assms(1,4) by (simp add: within_def)
  have states: "\<forall>a < length (tw_states w). tw_states w3 ! a = tw_states w ! a"
    and len: "length (tw_states w) \<le> length (tw_states w3)" and bus: "tw_bus w3 = tw_bus w"
    using assms(1,2,3,5) by (auto simp: within_def close_state_def nth_append)
  have "sv_stack (?S w3) = sv_stack (?S w) \<and> sv_committed (?S w3) = sv_committed (?S w2) \<and> sv_working (?S w3) = sv_working (?S w2)"
    if "c = CallExec tx (''release savepoint '' @ savepointName (k + 1))"
    using that mark by (simp add: calls server_exec_marks stack)
  moreover have "sv_stack (?S w3) = [(savepointName (k + 1), dw)] @ sv_stack (?S w) \<and>
      sv_committed (?S w3) = sv_committed (?S w2) \<and> sv_working (?S w3) = dw"
    if "c = CallExec tx (''rollback to savepoint '' @ savepointName (k + 1))"
    using that mark by (simp add: calls server_exec_marks stack)
  ultimately show "within effect d k w w3"
    and "c = CallExec tx (''release savepoint '' @ savepointName (k + 1)) \<Longrightarrow> sv_working (?S w3) = sv_working (?S w2)"
    and "c = CallExec tx (''rollback to savepoint '' @ savepointName (k + 1)) \<Longrightarrow> sv_working (?S w3) = dw"
    using assms(6) states len bus committed unfolding within_def
    by (auto intro: exI [of _ "[]"] exI [of _ "[(savepointName (k + 1), dw)]"])
qed

lemma nested_transaction:
  assumes quiet: "no_errors env" and fn: "carries_out effect d fn f" and depth: "at_depth w db k" "0 \<le> k"
    and bus: "tw_bus w = None" and run: "db_Transaction env (Some fn) [] (Some db) w = (r, w')"
  defines "S \<equiv> \<lambda>w :: ('h, 'w) tx_world. server_after effect d (tw_calls w)"
  shows "within effect d k w w' \<and>
    (case f (sv_working (S w)) of
       Some d' \<Rightarrow> r = None \<and> sv_working (S w') = d'
     | None \<Rightarrow> (\<exists>m. r = Some (GoError m)) \<and> sv_working (S w') = sv_working (S w))"
proof -
  let ?opts = "[Some (txOptionsAsOption (txo_sqlOptions (applyTxOptions [])))]"
  let ?b = "length (tw_states w)"
  obtain a tx conn where start: "db_Begin env ?opts (Some db) w =
      (Inr (db\<lparr>ses_tx := Some ?b\<rparr>),
       w\<lparr>tw_calls := tw_calls w @ [CallExec tx (''savepoint '' @ savepointName (k + 1))],
         tw_states := tw_states w @ [\<lparr>txs_connection = conn, txs_tx = Some tx, txs_depth = k + 1, txs_closed = False\<rparr>]\<rparr>)"
    by (rule begin_nested [OF quiet depth(1)])
  define db1 where "db1 = db\<lparr>ses_tx := Some ?b\<rparr>"
  define st1 where "st1 = \<lparr>txs_connection = conn, txs_tx = Some tx, txs_depth = k + 1, txs_closed = False\<rparr>"
  define w1 where "w1 = w\<lparr>tw_calls := tw_calls w @ [CallExec tx (''savepoint '' @ savepointName (k + 1))],
    tw_states := tw_states w @ [st1]\<rparr>"
  have S1: "S w1 = (S w)\<lparr>sv_stack := (savepointName (k + 1), sv_working (S w)) # sv_stack (S w)\<rparr>"
    by (simp add: S_def w1_def server_exec_marks)
  obtain rf w2 where body: "fn db1 w1 = (rf, w2)" by fastforce
  have "at_depth w1 db1 (k + 1)" by (simp add: at_depth_def db1_def w1_def st1_def)
  note body_effect = carries_outD [OF fn this _ _ body]
  have inner: "within effect d (k + 1) w1 w2"
    using body_effect(1) bus depth(2) by (simp add: w1_def)
  have result: "case f (sv_working (S w)) of
        Some d' \<Rightarrow> rf = None \<and> sv_working (S w2) = d' | None \<Rightarrow> (\<exists>m. rf = Some (GoError m))"
    using body_effect(2) bus depth(2) S1 by (simp add: w1_def S_def split: option.splits)
  have at2: "?b < length (tw_states w2)" "tw_states w2 ! ?b = st1" "tw_bus w2 = None"
    using inner bus by (auto simp: within_def w1_def nth_append)
  have w1: "tw_bus w1 = tw_bus w" "tw_states w1 = tw_states w @ [st1]" by (simp_all add: w1_def)
  note finish = finish_nested [OF quiet, of db1 ?b w2 "k + 1" conn tx]
    and nested = within_nested [OF inner w1 S1 [unfolded S_def]]
  show ?thesis
  proof (cases "f (sv_working (S w))")
    case None
    then obtain m where m: "rf = Some (GoError m)" using result by auto
    define w3 where "w3 = close_state ?b (w2\<lparr>tw_calls := tw_calls w2 @
      [CallExec tx (''rollback to savepoint '' @ savepointName (k + 1))]\<rparr>)"
    have "transactionOnce env fn (txo_sqlOptions (applyTxOptions [])) (Some db) w = (Some (GoError m), w3)"
      using start body m finish(2) at2 depth(2) unfolding transactionOnce_def db1_def w1_def st1_def w3_def by simp
    then have "(r, w') = (Some (GoError m), w3)"
      using transaction_single_attempt run by fastforce
    moreover have "within effect d k w w3 \<and> sv_working (S w3) = sv_working (S w)"
      using nested(1,3) [OF w3_def] by (simp add: S_def)
    ultimately show ?thesis using None by simp
  next
    case (Some d')
    then have ok: "rf = None" "sv_working (S w2) = d'" using result by auto
    define w3 where "w3 = close_state ?b (w2\<lparr>tw_calls := tw_calls w2 @
      [CallExec tx (''release savepoint '' @ savepointName (k + 1))]\<rparr>)"
    have "transactionOnce env fn (txo_sqlOptions (applyTxOptions [])) (Some db) w = (None, w3)"
      using start body ok finish(1) at2 depth(2) unfolding transactionOnce_def db1_def w1_def st1_def w3_def by simp
    then have "(r, w') = (None, w3)"
      using transaction_single_attempt run by fastforce
    moreover have "within effect d k w w3 \<and> sv_working (S w3) = sv_working (S w2)"
      using nested(1,2) [OF w3_def] by (simp add: S_def)
    ultimately show ?thesis using Some ok by simp
  qed
qed

lemma carries_out_seq:
  assumes "carries_out effect d fn1 f1" and "carries_out effect d fn2 f2"
  shows "carries_out effect d
    (\<lambda>db w. case fn1 db w of (Some err, w1) \<Rightarrow> (Some err, w1) | (None, w1) \<Rightarrow> fn2 db w1)
    (\<lambda>x. case f1 x of None \<Rightarrow> None | Some x' \<Rightarrow> f2 x')"
  unfolding carries_out_def
proof (intro allI impI)
  fix db k w r w'
  assume depth: "at_depth w db k" "0 \<le> k" and bus: "tw_bus w = None"
    and run: "(case fn1 db w of (Some err, w1) \<Rightarrow> (Some err, w1) | (None, w1) \<Rightarrow> fn2 db w1) = (r, w')"
  let ?S = "\<lambda>w. server_after effect d (tw_calls w)"
  let ?f = "\<lambda>x. case f1 x of None \<Rightarrow> None | Some x' \<Rightarrow> f2 x'"
  obtain r1 w1 where first: "fn1 db w = (r1, w1)" by fastforce
  note one = carries_outD [OF assms(1) depth bus first]
  show "within effect d k w w' \<and>
    (case ?f (sv_working (?S w)) of
       Some d' \<Rightarrow> r = None \<and> sv_working (?S w') = d' | None \<Rightarrow> (\<exists>m. r = Some (GoError m)))"
  proof (cases "f1 (sv_working (?S w))")
    case None
    with one first run show ?thesis by auto
  next
    case (Some x)
    then have mid: "r1 = None" "sv_working (?S w1) = x" using one(2) by auto
    then have second: "fn2 db w1 = (r, w')" using first run by simp
    have "tw_bus w1 = None" using one(1) bus by (simp add: within_def)
    note two = carries_outD [OF assms(2) within_at_depth [OF one(1) depth(1)] depth(2) this second]
    then show ?thesis using within_trans [OF one(1)] mid Some by simp
  qed
qed

lemma carries_out_stmt:
  assumes "no_errors env" and "\<not> control_statement s"
  shows "carries_out effect d (exec_stmt env s) (\<lambda>x. Some (effect s x))"
  using assms unfolding carries_out_def
  by (auto simp: exec_stmt_def open_tx_def txState_def at_depth_def sql_call_def no_errors_def within_def Let_def
      server_exec_plain)

lemma carries_out_nested:
  assumes "no_errors env" and "carries_out effect d fn f"
  shows "carries_out effect d (\<lambda>db w. db_Transaction env (Some fn) [] (Some db) w) f"
  unfolding carries_out_def
proof (intro allI impI)
  fix db k w r w'
  assume "at_depth w db k" "0 \<le> k" "tw_bus w = None" "db_Transaction env (Some fn) [] (Some db) w = (r, w')"
  from nested_transaction [OF assms this]
  show "within effect d k w w' \<and>
    (case f (sv_working (server_after effect d (tw_calls w))) of
       Some d' \<Rightarrow> r = None \<and> sv_working (server_after effect d (tw_calls w')) = d'
     | None \<Rightarrow> (\<exists>m. r = Some (GoError m)))"
    by (auto split: option.splits)
qed

lemma carries_out_catch:
  assumes "no_errors env" and "carries_out effect d fn f"
  shows "carries_out effect d (\<lambda>db w. (None, snd (db_Transaction env (Some fn) [] (Some db) w)))
    (\<lambda>x. case f x of None \<Rightarrow> Some x | Some x' \<Rightarrow> Some x')"
  unfolding carries_out_def
proof (intro allI impI)
  fix db k w w' and r :: "go_error option"
  assume depth: "at_depth w db k" "0 \<le> k" "tw_bus w = None"
    and run: "(None, snd (db_Transaction env (Some fn) [] (Some db) w)) = (r, w')"
  obtain r' where "db_Transaction env (Some fn) [] (Some db) w = (r', w')"
    using run by (cases "db_Transaction env (Some fn) [] (Some db) w") auto
  from nested_transaction [OF assms depth this] run
  show "within effect d k w w' \<and>
    (case (case f (sv_working (server_after effect d (tw_calls w))) of
             None \<Rightarrow> Some (sv_working (server_after effect d (tw_calls w))) | Some x' \<Rightarrow> Some x') of
       Some d' \<Rightarrow> r = None \<and> sv_working (server_after effect d (tw_calls w')) = d'
     | None \<Rightarrow> (\<exists>m. r = Some (GoError m)))"
    by (auto split: option.splits)
qed

lemma run_prog_Cons:
  "run_prog env (Stmt s # ps) =
     (\<lambda>db w. case exec_stmt env s db w of (Some err, w1) \<Rightarrow> (Some err, w1) | (None, w1) \<Rightarrow> run_prog env ps db w1)"
  "run_prog env (Nested body # ps) =
     (\<lambda>db w. case db_Transaction env (Some (run_prog env body)) [] (Some db) w of
        (Some err, w1) \<Rightarrow> (Some err, w1) | (None, w1) \<Rightarrow> run_prog env ps db w1)"
  "run_prog env (Catch body # ps) =
     (\<lambda>db w. case (None, snd (db_Transaction env (Some (run_prog env body)) [] (Some db) w)) of
        (Some err, w1) \<Rightarrow> (Some err, w1) | (None, w1) \<Rightarrow> run_prog env ps db w1)"
  by (auto simp: fun_eq_iff split: prod.splits option.splits)

lemma run_prog_carries_out:
  assumes "no_errors env" and "list_all plain_prog ps"
  shows "carries_out effect d (run_prog env ps) (all_or_nothing effect ps)"
  using assms(2)
proof (induction ps rule: measure_induct_rule [where f = "size_list size"])
  case (less ps)
  show ?case
  proof (cases ps)
    case Nil
    then show ?thesis by (auto simp: carries_out_def within_refl)
  next
    case (Cons p qs)
    have rest: "carries_out effect d (run_prog env qs) (all_or_nothing effect qs)"
      using less Cons by simp
    have inner: "carries_out effect d (run_prog env body) (all_or_nothing effect body)" if "p = Nested body \<or> p = Catch body" for body
      using less.IH [of body] less.prems Cons that by auto
    show ?thesis
    proof (cases p)
      case (Stmt s)
      then have "\<not> control_statement s" using less.prems Cons by simp
      from carries_out_seq [OF carries_out_stmt [OF assms(1) this] rest] show ?thesis
        unfolding Cons Stmt run_prog_Cons by (simp add: fun_eq_iff cong: option.case_cong)
    next
      case (Fail m)
      then show ?thesis using Cons by (auto simp: carries_out_def within_refl)
    next
      case (Nested body)
      from carries_out_seq [OF carries_out_nested [OF assms(1) inner] rest] Nested show ?thesis
        unfolding Cons Nested run_prog_Cons by simp
    next
      case (Catch body)
      have "(\<lambda>x. case (case all_or_nothing effect body x of None \<Rightarrow> Some x | Some x' \<Rightarrow> Some x') of
          None \<Rightarrow> None | Some x' \<Rightarrow> all_or_nothing effect qs x') = all_or_nothing effect (Catch body # qs)"
        by (auto simp: fun_eq_iff split: option.splits)
      with carries_out_seq [OF carries_out_catch [OF assms(1) inner] rest] Catch show ?thesis
        unfolding Cons Catch run_prog_Cons by (simp del: all_or_nothing.simps)
    qed
  qed
qed

section \<open>A small environment\<close>

text \<open>
  For the witnesses: one connection, a server without errors, three attempts, and a handler that reports a deadlock when
  it is called for the first time.
\<close>

definition sample_env :: "(unit, nat) tx_env" where
  "sample_env =
     \<lparr>env_answer = \<lambda>_ _. None, env_conns = [''main''], env_translate = \<lambda>_ err. err,
      env_call = \<lambda>_ _ w. if tw_rest w = 0 then (Some (mk_error ''update'' ErrDeadlock), w\<lparr>tw_rest := 1\<rparr>) else (None, w),
      env_TxDeadlockAttempts = 3, env_Backoff = None, env_wait = \<lambda>_ _. None\<rparr>"

definition sample_db :: tx_db where
  "sample_db = \<lparr>ses_connection = ''main'', ses_tx = None\<rparr>"

definition sample_world :: "(event_name, unit) event_bus option \<Rightarrow> (unit, nat) tx_world" where
  "sample_world bus = \<lparr>tw_states = [], tw_calls = [], tw_bus = bus, tw_rest = 0\<rparr>"

text \<open>A function that fails with a deadlock when it is run for the first time.\<close>

definition fails_once :: "(unit, nat) tx_fn" where
  "fails_once db w =
     (if tw_rest w = 0 then (Some (mk_error ''update'' ErrDeadlock), w\<lparr>tw_rest := 1\<rparr>) else (None, w))"

lemma sample_no_errors: "no_errors sample_env"
  by (simp add: no_errors_def sample_env_def)

section \<open>Properties\<close>

text \<open>
  C25. \<open>Transaction\<close> always returns, after at most as many attempts as configured: after some number of attempts that
  failed with a deadlock or a serialization failure, a last attempt succeeds, or fails with another error, or is the last
  one allowed, or the wait after it is cut short by the context; what it returns is the outcome of that attempt.
\<close>

theorem transaction_ends:
  "\<exists>n w1. int n < resolve_attempts env (applyTxOptions opts) db \<and>
     retried env fn (txo_sqlOptions (applyTxOptions opts)) db n w w1 \<and>
     final_attempt env fn (txo_sqlOptions (applyTxOptions opts)) db (resolve_attempts env (applyTxOptions opts) db) n w1
       (db_Transaction env (Some fn) opts db w)"
proof -
  have "int 0 < resolve_attempts env (applyTxOptions opts) db"
    using resolve_attempts_pos [of env "applyTxOptions opts" db] by simp
  from attempt_loop_ends [OF retried_0 this, where fn = fn and sqlOptions = "txo_sqlOptions (applyTxOptions opts)"
      and w = w and lastErr = None] show ?thesis
    by (simp add: db_Transaction_def Let_def)
qed

text \<open>
  C26. When an attempt within the limit succeeds after earlier attempts failed with a retryable error and no wait was
  cut short, \<open>Transaction\<close> succeeds, with the state that attempt left.
\<close>

theorem transaction_succeeds:
  assumes "retried env fn (txo_sqlOptions (applyTxOptions opts)) db n w w1"
    and "int n < resolve_attempts env (applyTxOptions opts) db"
    and "transactionOnce env fn (txo_sqlOptions (applyTxOptions opts)) db w1 = (None, w2)"
  shows "db_Transaction env (Some fn) opts db w = (None, w2)"
proof -
  obtain lastErr where "db_Transaction env (Some fn) opts db w =
      attempt_loop env fn (txo_sqlOptions (applyTxOptions opts)) db (resolve_attempts env (applyTxOptions opts) db)
        (int n) lastErr w1"
    using attempt_loop_retried [OF assms(1,2)] by (auto simp: db_Transaction_def Let_def)
  then show ?thesis using assms(2,3) by (simp add: attempt_loop.simps)
qed

theorem transaction_succeeds_witness:
  "fst (db_Transaction sample_env (Some fails_once) [] (Some sample_db) (sample_world None)) = None"
proof -
  let ?o = "txo_sqlOptions (applyTxOptions [])"
  have "fst (transactionOnce sample_env fails_once ?o (Some sample_db) (sample_world None)) =
      Some (mk_error ''update'' ErrDeadlock)"
    by code_simp
  moreover have "fst (transactionOnce sample_env fails_once ?o (Some sample_db)
      (snd (transactionOnce sample_env fails_once ?o (Some sample_db) (sample_world None)))) = None"
    by code_simp
  ultimately obtain w1 w2 where first: "transactionOnce sample_env fails_once ?o (Some sample_db) (sample_world None) =
      (Some (mk_error ''update'' ErrDeadlock), w1)"
    and second: "transactionOnce sample_env fails_once ?o (Some sample_db) w1 = (None, w2)"
    by (metis prod.collapse)
  have "isRetryableTransactionError (mk_error ''update'' ErrDeadlock)"
    and "waitRetryBackoff sample_env (Some sample_db) (int 0 + 1) w1 = None"
    by (simp_all add: isRetryableTransactionError_def mk_error_def waitRetryBackoff_def sample_env_def)
  from retried_Suc [OF retried_0 first this] have "retried sample_env fails_once ?o (Some sample_db) (Suc 0) (sample_world None) w1" .
  moreover have "int (Suc 0) < resolve_attempts sample_env (applyTxOptions []) (Some sample_db)"
    by code_simp
  ultimately have "db_Transaction sample_env (Some fails_once) [] (Some sample_db) (sample_world None) = (None, w2)"
    using transaction_succeeds second by blast
  then show ?thesis by simp
qed

text \<open>
  C7. A transaction that is not nested, run for a function that does not end it by itself, is committed exactly when
  the function returns nil and rolled back otherwise, an error or a panic being passed on; it reports success only when
  the database has confirmed the commit.
\<close>

theorem commit_exactly_on_success:
  assumes "leaves_open fn" and "ses_tx db = None" and "transactionOnce env fn sqlOptions (Some db) w = (r, w')"
    and "db_Begin env [Some (txOptionsAsOption sqlOptions)] (Some db) w = (Inr txDB, w1)" and "fn txDB w1 = (rf, w2)"
  shows "let tx = length (tw_calls w);
             c = (if rf = None then CallCommit tx else CallRollback tx);
             w3 = w2\<lparr>tw_calls := tw_calls w2 @ [c]\<rparr>
         in (rf \<noteq> None \<longrightarrow> r = rf) \<and> (r = None \<longrightarrow> rf = None \<and> env_answer env (tw_calls w2) c = None) \<and>
            w' = (if env_answer env (tw_calls w2) c = None
                  then snd (tx_emit env (if rf = None then AfterCommit else AfterRollback)
                              (close_state (length (tw_states w)) w3))
                  else w3)"
proof -
  note start = begin_outer [OF assms(2,4)]
  have "tw_states w2 ! length (tw_states w) = tw_states w1 ! length (tw_states w)"
    using assms(1,5) start(1,2) unfolding leaves_open_def by (metis lessI)
  then have state: "tw_states w2 ! length (tw_states w) =
      \<lparr>txs_connection = ses_connection txDB, txs_tx = Some (length (tw_calls w)), txs_depth = 0, txs_closed = False\<rparr>"
    using start(3) by simp
  obtain re we where finish: "finish_call env txDB (length (tw_states w)) (if rf = None then CallCommit else CallRollback)
      (if rf = None then AfterCommit else AfterRollback) w2 = (re, we)" by fastforce
  have out: "w' = we" "rf \<noteq> None \<Longrightarrow> r = rf" "rf = None \<Longrightarrow> r = re"
    using assms(3-5) start(1) state finish
    by (auto simp: transactionOnce_def db_Commit_def db_Rollback_def Let_def split: option.splits)
  from finish_call_result [OF _ finish, of "length (tw_calls w)"] state out show ?thesis
    by (cases rf) (auto simp: Let_def prod_eq_iff split: option.splits)
qed

theorem commit_exactly_on_success_witness:
  "CallRollback 0 \<in> set (tw_calls (snd (transactionOnce sample_env fails_once (txo_sqlOptions zero_tx_options)
     (Some sample_db) (sample_world None))))"
proof -
  let ?o = "txo_sqlOptions zero_tx_options"
  have opens: "leaves_open fails_once"
    by (auto simp: leaves_open_def fails_once_def split: if_splits)
  obtain r w' where run: "transactionOnce sample_env fails_once ?o (Some sample_db) (sample_world None) = (r, w')" by fastforce
  obtain txDB w1 where start: "db_Begin sample_env [Some (txOptionsAsOption ?o)] (Some sample_db) (sample_world None) = (Inr txDB, w1)"
    and rest: "tw_rest w1 = 0" "tw_bus w1 = None"
    by (auto simp: db_Begin_def connectionForQuery_def conns_Get_def sql_call_def sample_env_def sample_db_def
        sample_world_def Let_def)
  have "fails_once txDB w1 = (Some (mk_error ''update'' ErrDeadlock), w1\<lparr>tw_rest := 1\<rparr>)"
    using rest by (simp add: fails_once_def)
  from commit_exactly_on_success [OF opens _ run start this] rest sample_no_errors
  have "CallRollback 0 \<in> set (tw_calls w')"
    by (simp add: Let_def no_errors_def sample_db_def sample_world_def tx_emit_no_bus close_state_def)
  then show ?thesis by (simp add: run)
qed




text \<open>
  Two savepoints made on one transaction have the same name, so that rolling back to the first undoes only what
  came after the second: the statement executed between the two stays in effect.
\<close>

theorem savepoint_rollback_keeps_later_work:
  assumes "no_errors env" and "at_depth w db k" and "\<not> control_statement s"
    and "db_Savepoint env (Some db) w = (Inr first, w1)" and "exec_stmt env s db w1 = (r2, w2)"
    and "db_Savepoint env (Some db) w2 = (Inr second, w3)" and "savepoint_Rollback env (Some first) w3 = (r4, first', w4)"
  shows "sp_name second = sp_name first \<and> r4 = None \<and>
    sv_working (server_after effect d (tw_calls w4)) = effect s (sv_working (server_after effect d (tw_calls w)))"
proof -
  obtain a tx conn where state: "ses_tx db = Some a" "a < length (tw_states w)"
    "tw_states w ! a = \<lparr>txs_connection = conn, txs_tx = Some tx, txs_depth = k, txs_closed = False\<rparr>"
    using assms(2) unfolding at_depth_def by blast
  have one: "first = \<lparr>sp_db = Some db, sp_name = savepointName (k + 1), sp_closed = False\<rparr>"
    "w1 = w\<lparr>tw_calls := tw_calls w @ [CallExec tx (''savepoint '' @ savepointName (k + 1))]\<rparr>"
    using assms(1,4) state by (auto simp: db_Savepoint_def open_tx_def txState_def sql_call_def no_errors_def Let_def)
  have two: "w2 = w1\<lparr>tw_calls := tw_calls w1 @ [CallExec tx s]\<rparr>"
    using assms(1,5) state one by (auto simp: exec_stmt_def open_tx_def txState_def sql_call_def Let_def)
  have three: "second = \<lparr>sp_db = Some db, sp_name = savepointName (k + 1), sp_closed = False\<rparr>"
    "w3 = w2\<lparr>tw_calls := tw_calls w2 @ [CallExec tx (''savepoint '' @ savepointName (k + 1))]\<rparr>"
    using assms(1,6) state one two
    by (auto simp: db_Savepoint_def open_tx_def txState_def sql_call_def no_errors_def Let_def)
  have four: "r4 = None" "w4 = w3\<lparr>tw_calls := tw_calls w3 @ [CallExec tx (''rollback to savepoint '' @ savepointName (k + 1))]\<rparr>"
    using assms(1,7) state one two three
    by (auto simp: savepoint_Rollback_def savepoint_end_def open_tx_def txState_def sql_call_def no_errors_def Let_def)
  show ?thesis
    using assms(3) one(1) three(1) four(1)
    by (simp add: four(2) three(2) two one(2) server_after_append server_exec_marks server_exec_plain)
qed

theorem savepoint_rollback_keeps_later_work_witness:
  "case db_Begin sample_env [] (Some sample_db) (sample_world None) of (Inr db, w) \<Rightarrow>
     (case db_Savepoint sample_env (Some db) w of (Inr first, w1) \<Rightarrow>
       (case exec_stmt sample_env ''insert'' db w1 of (r2, w2) \<Rightarrow>
         (case db_Savepoint sample_env (Some db) w2 of (Inr second, w3) \<Rightarrow>
           (case savepoint_Rollback sample_env (Some first) w3 of (r4, first', w4) \<Rightarrow>
              sv_working (server_after (\<lambda>s d. d @ [s]) [] (tw_calls w4)) = [''insert'']))))"
proof -
  obtain db w where start: "db_Begin sample_env [] (Some sample_db) (sample_world None) = (Inr db, w)"
    and data: "sv_working (server_after (\<lambda>s d. d @ [s]) [] (tw_calls w)) = ([] :: string list)"
    by (auto simp: db_Begin_def connectionForQuery_def conns_Get_def sql_call_def sample_env_def sample_db_def
        sample_world_def Let_def server_after_def)
  have depth: "at_depth w db 0"
    using begin_outer [OF _ start] by (auto simp: at_depth_def sample_db_def sample_world_def)
  obtain a tx conn where state: "ses_tx db = Some a" "a < length (tw_states w)"
    "tw_states w ! a = \<lparr>txs_connection = conn, txs_tx = Some tx, txs_depth = 0, txs_closed = False\<rparr>"
    using depth unfolding at_depth_def by blast
  have savepoint: "\<exists>sp w'. db_Savepoint sample_env (Some db) v = (Inr sp, w') \<and> tw_states w' = tw_states v"
    if "tw_states v = tw_states w" for v
    using that state sample_no_errors
    by (simp add: db_Savepoint_def open_tx_def txState_def sql_call_def no_errors_def Let_def)
  obtain first w1 where one: "db_Savepoint sample_env (Some db) w = (Inr first, w1)" "tw_states w1 = tw_states w"
    using savepoint by blast
  obtain r2 w2 where two: "exec_stmt sample_env ''insert'' db w1 = (r2, w2)" "tw_states w2 = tw_states w"
    using one(2) state by (fastforce simp: exec_stmt_def open_tx_def txState_def sql_call_def Let_def)
  obtain second w3 where three: "db_Savepoint sample_env (Some db) w2 = (Inr second, w3)"
    using savepoint two(2) by blast
  obtain r4 first' w4 where four: "savepoint_Rollback sample_env (Some first) w3 = (r4, first', w4)"
    by (cases "savepoint_Rollback sample_env (Some first) w3") auto
  have "\<not> control_statement ''insert''" by (simp add: control_statement_def has_prefix_def)
  from savepoint_rollback_keeps_later_work [OF sample_no_errors depth this one(1) two(1) three four, of "\<lambda>s d. d @ [s]" "[]"]
  show ?thesis using data by (simp add: start one(1) two(1) three four)
qed

end
