(* ===== verification/Shard_Strategy.thy ===== *)
theory Shard_Strategy
  imports Query_AST
begin

unbundle bit_operations_syntax

text \<open>
  The shard strategies of internal/shardstrategy/strategy.go: a strategy picks a connection name
  for the values of a query. The two errors of an \<open>ErrorSet\<close> are arguments. \<open>sprint\<close> is
  \<open>fmt.Sprint\<close>; the hash is the 64-bit FNV-1a of Go's hash/fnv.
\<close>

record error_set =
  es_Required :: go_error
  es_NotFound :: go_error

type_synonym strategy = "gomap \<Rightarrow> string list \<Rightarrow> string result"

definition nonneg_int :: "'a::len word \<Rightarrow> go_error \<Rightarrow> (64 word) result" where
  "nonneg_int typed notFound = (if sint typed < 0 then Inl notFound else Inr (word_of_int (sint typed)))"

definition shard_Uint :: "goany \<Rightarrow> go_error \<Rightarrow> (64 word) result" where
  "shard_Uint value notFound =
     (case value of
        AUint v \<Rightarrow> Inr v
      | AUint8 v \<Rightarrow> Inr (ucast v)
      | AUint16 v \<Rightarrow> Inr (ucast v)
      | AUint32 v \<Rightarrow> Inr (ucast v)
      | AUint64 v \<Rightarrow> Inr v
      | AInt v \<Rightarrow> nonneg_int v notFound
      | AInt8 v \<Rightarrow> nonneg_int v notFound
      | AInt16 v \<Rightarrow> nonneg_int v notFound
      | AInt32 v \<Rightarrow> nonneg_int v notFound
      | AInt64 v \<Rightarrow> nonneg_int v notFound
      | _ \<Rightarrow> Inl notFound)"

text \<open>An \<open>int64\<close> is its value as an integer; the largest is \<open>^uint64(0)>>1\<close>.\<close>

definition shard_Int :: "goany \<Rightarrow> go_error \<Rightarrow> int result" where
  "shard_Int value notFound =
     (case value of
        AInt v \<Rightarrow> Inr (sint v)
      | AInt8 v \<Rightarrow> Inr (sint v)
      | AInt16 v \<Rightarrow> Inr (sint v)
      | AInt32 v \<Rightarrow> Inr (sint v)
      | AInt64 v \<Rightarrow> Inr (sint v)
      | AUint v \<Rightarrow> (if drop_bit 1 (- 1) < v then Inl notFound else Inr (uint v))
      | AUint8 v \<Rightarrow> Inr (uint v)
      | AUint16 v \<Rightarrow> Inr (uint v)
      | AUint32 v \<Rightarrow> Inr (uint v)
      | AUint64 v \<Rightarrow> (if drop_bit 1 (- 1) < v then Inl notFound else Inr (uint v))
      | _ \<Rightarrow> Inl notFound)"

text \<open>\<open>value, ok := values[field]; !ok || value == nil\<close>.\<close>

definition required_value :: "error_set \<Rightarrow> string \<Rightarrow> gomap \<Rightarrow> goany result" where
  "required_value errs field values =
     (case map_of values field of
        None \<Rightarrow> Inl (es_Required errs)
      | Some v \<Rightarrow> if v = ANil then Inl (es_Required errs) else Inr v)"

definition Mod_Pick :: "string \<Rightarrow> error_set \<Rightarrow> strategy" where
  "Mod_Pick field errs values shards =
     bind_res (required_value errs field values) (\<lambda>v.
       if length shards = 0 then Inl (es_NotFound errs)
       else bind_res (shard_Uint v (es_NotFound errs)) (\<lambda>integer.
         Inr (shards ! unat (integer mod word_of_nat (length shards)))))"

definition fnv64a :: "string \<Rightarrow> 64 word" where
  "fnv64a s = fold (\<lambda>c h. (h XOR of_char c) * 1099511628211) s 14695981039346656037"

definition Hash_Pick :: "(goany \<Rightarrow> string) \<Rightarrow> string \<Rightarrow> error_set \<Rightarrow> strategy" where
  "Hash_Pick sprint field errs values shards =
     bind_res (required_value errs field values) (\<lambda>v.
       if length shards = 0 then Inl (es_NotFound errs)
       else Inr (shards ! unat (fnv64a (sprint v) mod word_of_nat (length shards))))"

record shard_range =
  rng_Min :: int
  rng_Max :: int
  rng_Connection :: string

fun pick_range :: "error_set \<Rightarrow> string list \<Rightarrow> int \<Rightarrow> shard_range list \<Rightarrow> string result" where
  "pick_range errs shards integer [] = Inl (es_NotFound errs)"
| "pick_range errs shards integer (item # items) =
     (if integer < rng_Min item \<or> rng_Max item < integer then pick_range errs shards integer items
      else if rng_Connection item \<notin> set shards then Inl (es_NotFound errs)
      else Inr (rng_Connection item))"

definition Range_Pick :: "string \<Rightarrow> shard_range list \<Rightarrow> error_set \<Rightarrow> strategy" where
  "Range_Pick field ranges errs values shards =
     bind_res (required_value errs field values) (\<lambda>v.
     bind_res (shard_Int v (es_NotFound errs)) (\<lambda>integer. pick_range errs shards integer ranges))"

section \<open>What a strategy promises\<close>

text \<open>
  The contract the router relies on: a strategy picks one of the connections it was given, and the
  pick depends on the value of its field only.
\<close>

locale shard_strategy =
  fixes pick :: strategy and field :: string
  assumes pick_member: "pick row shards = Inr c \<Longrightarrow> length shards < 2 ^ 63 \<Longrightarrow> c \<in> set shards"
    and pick_field: "map_of row field = map_of row' field \<Longrightarrow> pick row shards = pick row' shards"
begin

lemma pick_no_shards: "pick row [] \<noteq> Inr c"
  using pick_member [of row "[]" c] by auto

text \<open>Two rows with the same value in the field are on the same shard.\<close>

lemma pick_same_shard:
  assumes "map_of row field = map_of row' field" and "pick row shards = Inr c" and "pick row' shards = Inr c'"
  shows "c = c'"
  using pick_field [OF assms(1), of shards] assms(2,3) by simp

end

section \<open>Integers of any width\<close>

text \<open>The number a Go integer stands for.\<close>

definition int_value :: "goany \<Rightarrow> int option" where
  "int_value value =
     (case value of
        AInt v \<Rightarrow> Some (sint v) | AInt8 v \<Rightarrow> Some (sint v) | AInt16 v \<Rightarrow> Some (sint v) | AInt32 v \<Rightarrow> Some (sint v)
      | AInt64 v \<Rightarrow> Some (sint v) | AUint v \<Rightarrow> Some (uint v) | AUint8 v \<Rightarrow> Some (uint v) | AUint16 v \<Rightarrow> Some (uint v)
      | AUint32 v \<Rightarrow> Some (uint v) | AUint64 v \<Rightarrow> Some (uint v) | _ \<Rightarrow> None)"

lemma nonneg_int_value: "nonneg_int v e = (if sint v < 0 then Inl e else Inr (word_of_int (sint v)))"
  by (simp add: nonneg_int_def)

lemma shard_Uint_value:
  "shard_Uint value e =
     (case int_value value of None \<Rightarrow> Inl e | Some n \<Rightarrow> if n < 0 then Inl e else Inr (word_of_int n))"
  by (simp add: shard_Uint_def int_value_def nonneg_int_value uint_ge_0 not_less split: goany.split)

lemma sint_below: "LENGTH('a) \<le> Suc k \<Longrightarrow> sint (v :: 'a::len word) < 2 ^ k"
  by (rule order.strict_trans2 [OF sint_lt [of v]]) (simp add: power_increasing)

lemma uint_below: "LENGTH('a) \<le> k \<Longrightarrow> uint (v :: 'a::len word) < 2 ^ k"
  by (rule order.strict_trans2 [OF uint_bounded [of v]]) (simp add: power_increasing)

lemma half_word: "mask 63 < (v :: 64 word) \<longleftrightarrow> 2 ^ 63 \<le> uint v" and half_word_le: "v \<le> mask 63 \<longleftrightarrow> \<not> 2 ^ 63 \<le> uint v"
proof -
  have "uint (mask 63 :: 64 word) = 2 ^ 63 - 1" by code_simp
  then show "mask 63 < v \<longleftrightarrow> 2 ^ 63 \<le> uint v" and "v \<le> mask 63 \<longleftrightarrow> \<not> 2 ^ 63 \<le> uint v"
    by (simp_all add: word_less_def word_le_def) arith+
qed

lemma shard_Int_value:
  "shard_Int value e = (case int_value value of None \<Rightarrow> Inl e | Some n \<Rightarrow> if 2 ^ 63 \<le> n then Inl e else Inr n)"
proof -
  note bounds = sint_below [of 63, where 'a = 64] sint_below [of 63, where 'a = 8] sint_below [of 63, where 'a = 16]
    sint_below [of 63, where 'a = 32] uint_below [of 63, where 'a = 8] uint_below [of 63, where 'a = 16]
    uint_below [of 63, where 'a = 32]
  show ?thesis
    using bounds by (simp add: shard_Int_def int_value_def half_word half_word_le not_le [symmetric] split: goany.split)
qed

lemma word_index:
  assumes "shards \<noteq> []" and "length shards < 2 ^ 63"
  shows "unat ((x :: 64 word) mod word_of_nat (length shards)) = unat x mod length shards"
proof -
  have "unat (word_of_nat (length shards) :: 64 word) = length shards"
    using assms(2) by (simp add: unsigned_of_nat take_bit_nat_eq_self)
  then show ?thesis by (simp add: unat_mod_distrib)
qed

lemma pick_range_member: "pick_range errs shards n ranges = Inr c \<Longrightarrow> c \<in> set shards"
  by (induction errs shards n ranges rule: pick_range.induct) (auto split: if_splits)

interpretation mod_shard: shard_strategy "Mod_Pick field errs" field for field errs
proof
  show "c \<in> set shards" if "Mod_Pick field errs row shards = Inr c" "length shards < 2 ^ 63" for row shards c
    using that word_index [of shards] by (auto simp: Mod_Pick_def bind_res_Inr_iff split: if_splits)
qed (simp add: Mod_Pick_def required_value_def)

interpretation hash_shard: shard_strategy "Hash_Pick sprint field errs" field for sprint field errs
proof
  show "c \<in> set shards" if "Hash_Pick sprint field errs row shards = Inr c" "length shards < 2 ^ 63" for row shards c
    using that word_index [of shards] by (auto simp: Hash_Pick_def bind_res_Inr_iff split: if_splits)
qed (simp add: Hash_Pick_def required_value_def)

interpretation range_shard: shard_strategy "Range_Pick field ranges errs" field for field ranges errs
  by unfold_locales (auto simp: Range_Pick_def required_value_def bind_res_Inr_iff intro: pick_range_member)

section \<open>Properties\<close>



end
