(* ===== verification/Sharding.thy ===== *)
theory Sharding
  imports Shard_Strategy Table_Query
begin

text \<open>
  Query routing and the global order of shard.go. The runtime is given by the shard groups of the
  configuration, the names of the open connections and the connection and state of the current
  transaction; a model schema by the fields the routing reads. The field \<open>Model\<close> of an error is left
  out. Running a query on one shard is a parameter of the fan-out.
\<close>

section \<open>Routing\<close>

definition sentinel :: "error_kind \<Rightarrow> go_error" where
  "sentinel kind = OroError [] kind [] [] None"

definition shardErrors :: error_set where
  "shardErrors = \<lparr>es_Required = sentinel ErrShardRequired, es_NotFound = sentinel ErrShardNotFound\<rparr>"

definition ModShard :: "string \<Rightarrow> strategy" where
  "ModShard field = Mod_Pick field shardErrors"

definition HashShard :: "(goany \<Rightarrow> string) \<Rightarrow> string \<Rightarrow> strategy" where
  "HashShard sprint field = Hash_Pick sprint field shardErrors"

definition RangeShard :: "string \<Rightarrow> shard_range list \<Rightarrow> strategy" where
  "RangeShard field ranges = Range_Pick field ranges shardErrors"

record shard_config =
  shc_Connections :: "string list"
  shc_Strategy :: "strategy option"

record shard_env =
  she_Shards :: "string \<Rightarrow> shard_config option"
  she_conns :: "string list"
  she_tx :: "(string \<times> bool) option"

record shard_schema =
  shs_ShardGroup :: string
  shs_ShardFields :: "string list"
  shs_FieldByGo :: "string \<Rightarrow> string option"

definition shard_error :: "error_kind \<Rightarrow> string \<Rightarrow> string \<Rightarrow> go_error option \<Rightarrow> go_error" where
  "shard_error kind table field cause = OroError ''shard'' kind table field cause"

text \<open>\<open>Conns.Get\<close> of every connection of the group; the error of the first that is missing.\<close>

fun missing_connection :: "shard_env \<Rightarrow> string list \<Rightarrow> go_error option" where
  "missing_connection env [] = None"
| "missing_connection env (c # cs) =
     (if c \<in> set (she_conns env) then missing_connection env cs
      else Some (mk_field_error ''connection'' ErrUnknownConnection c))"

definition shardConfigForSchema :: "shard_env \<Rightarrow> shard_schema option \<Rightarrow> shard_config option result" where
  "shardConfigForSchema env schema =
     (case schema of
        None \<Rightarrow> Inr None
      | Some s \<Rightarrow>
          if shs_ShardGroup s = [] then Inr None
          else (case she_Shards env (shs_ShardGroup s) of
                  None \<Rightarrow> Inl (shard_error ErrShardNotFound [] (shs_ShardGroup s) None)
                | Some config \<Rightarrow>
                    if shc_Connections config = [] \<or> shc_Strategy config = None
                    then Inl (shard_error ErrShardNotFound [] (shs_ShardGroup s) None)
                    else (case missing_connection env (shc_Connections config) of
                            Some err \<Rightarrow> Inl (shard_error ErrShardNotFound [] (shs_ShardGroup s) (Some err))
                          | None \<Rightarrow> Inr (Some config))))"

text \<open>The explicit values over those of the extensions, which are left out when they fail.\<close>

definition shardValuesForSchemaContext :: "gomap result \<Rightarrow> gomap \<Rightarrow> gomap" where
  "shardValuesForSchemaContext extensionValues explicit =
     explicit @ (case extensionValues of Inl _ \<Rightarrow> [] | Inr vs \<Rightarrow> filter (\<lambda>(k, _). k \<notin> fst ` set explicit) vs)"

definition pick_error :: "go_error \<Rightarrow> string \<Rightarrow> string \<Rightarrow> go_error" where
  "pick_error err table grp =
     shard_error (if err = sentinel ErrShardRequired then ErrShardRequired else ErrShardNotFound) table grp (Some err)"

definition pickShardConnection :: "shard_env \<Rightarrow> gomap result \<Rightarrow> shard_schema \<Rightarrow> shard_config \<Rightarrow> gomap \<Rightarrow> string result" where
  "pickShardConnection env extensionValues schema config explicit =
     (let vs = shardValuesForSchemaContext extensionValues explicit in
      case find (\<lambda>field. map_of vs field = None) (shs_ShardFields schema) of
        Some field \<Rightarrow> Inl (shard_error ErrShardRequired [] field None)
      | None \<Rightarrow>
          (case shc_Strategy config of
             None \<Rightarrow> Inl (GoPanic ''nil pointer dereference'')
           | Some pick \<Rightarrow>
               (case pick vs (shc_Connections config) of
                  Inl err \<Rightarrow> Inl (pick_error err [] (shs_ShardGroup schema))
                | Inr connection \<Rightarrow>
                    if connection = [] then Inl (shard_error ErrShardRequired [] (shs_ShardGroup schema) None)
                    else (case missing_connection env [connection] of
                            Some err \<Rightarrow> Inl (shard_error ErrShardNotFound [] (shs_ShardGroup schema) (Some err))
                          | None \<Rightarrow> Inr connection))))"

definition ensureTransactionShard :: "shard_env \<Rightarrow> string \<Rightarrow> string \<Rightarrow> string \<Rightarrow> go_error option" where
  "ensureTransactionShard env connection table grp =
     (case she_tx env of
        None \<Rightarrow> None
      | Some (txConnection, closed) \<Rightarrow>
          if \<not> closed \<and> txConnection \<noteq> connection then Some (shard_error ErrCrossShardTransaction table grp None) else None)"

text \<open>The specification is returned with its shard group and connection set.\<close>

definition applyShardConnection ::
  "shard_env \<Rightarrow> gomap result \<Rightarrow> shard_schema option \<Rightarrow> gomap \<Rightarrow> bool \<Rightarrow> list_spec \<Rightarrow> list_spec result" where
  "applyShardConnection env extensionValues schema explicit all spec =
     bind_res (shardConfigForSchema env schema) (\<lambda>config.
       case (schema, config) of
         (Some s, Some c) \<Rightarrow>
           (let spec1 = spec\<lparr>spec_ShardGroup := shs_ShardGroup s\<rparr> in
            if all
            then (if she_tx env \<noteq> None then Inl (shard_error ErrCrossShardTransaction [] (shs_ShardGroup s) None) else Inr spec1)
            else bind_res (pickShardConnection env extensionValues s c explicit) (\<lambda>connection.
                   case ensureTransactionShard env connection [] (shs_ShardGroup s) of
                     Some err \<Rightarrow> Inl err
                   | None \<Rightarrow> Inr (spec1\<lparr>spec_Connection := connection\<rparr>)))
       | _ \<Rightarrow> Inr spec)"

definition tableShardSpec :: "shard_env \<Rightarrow> list_spec \<Rightarrow> gomap \<Rightarrow> bool \<Rightarrow> list_spec result" where
  "tableShardSpec env spec shard allShards =
     (case spec_SelectErr spec of
        Some err \<Rightarrow> Inl err
      | None \<Rightarrow>
          if spec_ShardGroup spec = [] then Inr spec
          else
            (let notFound = shard_error ErrShardNotFound (spec_Table spec) (spec_ShardGroup spec) in
             case she_Shards env (spec_ShardGroup spec) of
               None \<Rightarrow> Inl (notFound None)
             | Some config \<Rightarrow>
                 (case shc_Strategy config of
                    None \<Rightarrow> Inl (notFound None)
                  | Some pick \<Rightarrow>
                      if shc_Connections config = [] then Inl (notFound None)
                      else
                        (case missing_connection env (shc_Connections config) of
                           Some err \<Rightarrow> Inl (notFound (Some err))
                         | None \<Rightarrow>
                             if allShards then Inr spec
                             else
                               (case pick shard (shc_Connections config) of
                                  Inl err \<Rightarrow> Inl (pick_error err (spec_Table spec) (spec_ShardGroup spec))
                                | Inr connection \<Rightarrow>
                                    if connection = []
                                    then Inl (shard_error ErrShardRequired (spec_Table spec) (spec_ShardGroup spec) None)
                                    else (case ensureTransactionShard env connection (spec_Table spec) (spec_ShardGroup spec) of
                                            Some err \<Rightarrow> Inl err
                                          | None \<Rightarrow> Inr (spec\<lparr>spec_Connection := connection\<rparr>)))))))"

text \<open>\<open>reflect.DeepEqual\<close> is equality of the represented values.\<close>

definition written_value :: "shard_schema \<Rightarrow> string \<Rightarrow> gomap \<Rightarrow> goany option" where
  "written_value schema fieldName vs =
     (let column = (case shs_FieldByGo schema fieldName of None \<Rightarrow> [] | Some c \<Rightarrow> c) in
      case map_of vs column of Some v \<Rightarrow> Some v | None \<Rightarrow> map_of vs fieldName)"

fun conflicting_field :: "shard_schema \<Rightarrow> gomap \<Rightarrow> gomap \<Rightarrow> string list \<Rightarrow> string option" where
  "conflicting_field schema explicit vs [] = None"
| "conflicting_field schema explicit vs (fieldName # fieldNames) =
     (case (map_of explicit fieldName, written_value schema fieldName vs) of
        (Some e, Some v) \<Rightarrow> if e \<noteq> v then Some fieldName else conflicting_field schema explicit vs fieldNames
      | _ \<Rightarrow> conflicting_field schema explicit vs fieldNames)"

definition validateShardWriteValues :: "shard_schema option \<Rightarrow> gomap \<Rightarrow> gomap \<Rightarrow> go_error option" where
  "validateShardWriteValues schema explicit vs =
     (case schema of
        None \<Rightarrow> None
      | Some s \<Rightarrow>
          if shs_ShardGroup s = [] \<or> explicit = [] \<or> vs = [] then None
          else map_option (\<lambda>field. shard_error ErrShardConflict [] field None)
                 (conflicting_field s explicit vs (shs_ShardFields s)))"

definition writes_field :: "shard_schema \<Rightarrow> gomap \<Rightarrow> string \<Rightarrow> bool" where
  "writes_field schema vs fieldName \<longleftrightarrow>
     map_of vs fieldName \<noteq> None \<or>
     (case shs_FieldByGo schema fieldName of None \<Rightarrow> False | Some column \<Rightarrow> map_of vs column \<noteq> None)"

definition validateShardUpdateValues :: "shard_schema option \<Rightarrow> gomap \<Rightarrow> go_error option" where
  "validateShardUpdateValues schema vs =
     (case schema of
        None \<Rightarrow> None
      | Some s \<Rightarrow>
          if shs_ShardGroup s = [] \<or> vs = [] then None
          else map_option (\<lambda>field. shard_error ErrShardConflict [] field None)
                 (find (writes_field s vs) (shs_ShardFields s)))"

section \<open>Order and paging over all shards\<close>

text \<open>A finite \<open>float64\<close> is an integer multiple of \<open>2 ^ -1074\<close>; it is represented by that integer.\<close>

type_synonym float64 = int

text \<open>
  Values of types that \<open>goany\<close> represents by a text (floating-point numbers and times) are read by the
  functions of \<open>order_env\<close>: the \<open>float64\<close> a floating-point text stands for (a NaN or an infinity is not one), its
  \<open>FormatFloat\<close> text, the instant of a time, its RFC 3339 text, and \<open>fmt.Sprint\<close> of anything else.
\<close>

record order_env =
  oe_float :: "string \<Rightarrow> float64 option"
  oe_float_text :: "string \<Rightarrow> string"
  oe_instant :: "string \<Rightarrow> int"
  oe_rfc3339 :: "string \<Rightarrow> string"
  oe_sprint :: "goany \<Rightarrow> string"

text \<open>Conversion of an integer to a \<open>float64\<close>: to 53 significant bits, ties to even.\<close>

function bit_length :: "int \<Rightarrow> nat" where
  "bit_length n = (if n \<le> 0 then 0 else Suc (bit_length (n div 2)))"
  by pat_completeness auto
termination
  by (relation "measure nat") auto

declare bit_length.simps [simp del]

definition round53 :: "int \<Rightarrow> int" where
  "round53 n =
     (if n < 2 ^ 53 then n
      else (let u = 2 ^ (bit_length n - 53); q = n div u; r = n mod u in
            (if u < 2 * r \<or> (u = 2 * r \<and> odd q) then q + 1 else q) * u))"

definition float64_of_int :: "int \<Rightarrow> float64" where
  "float64_of_int i = (if i < 0 then - round53 (- i) else round53 i) * 2 ^ 1074"

definition asFloat64 :: "order_env \<Rightarrow> goany \<Rightarrow> float64 option" where
  "asFloat64 oe value =
     (case int_value value of
        Some i \<Rightarrow> Some (float64_of_int i)
      | None \<Rightarrow> (case value of AOther s \<Rightarrow> oe_float oe s | _ \<Rightarrow> None))"

definition asTime :: "order_env \<Rightarrow> goany \<Rightarrow> int option" where
  "asTime oe value = (case value of ATime s \<Rightarrow> Some (oe_instant oe s) | _ \<Rightarrow> None)"

definition stringifyOrderValue :: "order_env \<Rightarrow> goany \<Rightarrow> string" where
  "stringifyOrderValue oe value =
     (case int_value value of
        Some i \<Rightarrow> itoa i
      | None \<Rightarrow>
          (case value of
             AString s \<Rightarrow> s
           | ABytes s \<Rightarrow> s
           | ATime s \<Rightarrow> oe_rfc3339 oe s
           | AOther s \<Rightarrow> (case oe_float oe s of Some _ \<Rightarrow> oe_float_text oe s | None \<Rightarrow> oe_sprint oe value)
           | _ \<Rightarrow> oe_sprint oe value))"

definition compare_linear :: "'a::linorder \<Rightarrow> 'a \<Rightarrow> int" where
  "compare_linear a b = (if a < b then - 1 else if b < a then 1 else 0)"

definition compareOrderValues :: "order_env \<Rightarrow> goany \<Rightarrow> goany \<Rightarrow> int" where
  "compareOrderValues oe left right =
     (if left = ANil \<and> right = ANil then 0
      else if left = ANil then - 1
      else if right = ANil then 1
      else (case (asTime oe left, asTime oe right) of
              (Some l, Some r) \<Rightarrow> compare_linear l r
            | _ \<Rightarrow>
                (case (asFloat64 oe left, asFloat64 oe right) of
                   (Some l, Some r) \<Rightarrow> compare_linear l r
                 | _ \<Rightarrow> compare_linear (stringifyOrderValue oe left) (stringifyOrderValue oe right))))"

fun compareOrderedRows :: "order_env \<Rightarrow> gomap \<Rightarrow> gomap \<Rightarrow> order_item list \<Rightarrow> int" where
  "compareOrderedRows oe left right [] = 0"
| "compareOrderedRows oe left right (item # items) =
     (let result = compareOrderValues oe (map_get left (ord_Expr item)) (map_get right (ord_Expr item)) in
      if result = 0 then compareOrderedRows oe left right items
      else if ord_Desc item then - result else result)"

definition validateAllShardOrder :: "order_item list \<Rightarrow> string \<Rightarrow> string \<Rightarrow> go_error option" where
  "validateAllShardOrder order table shardGroup =
     (if list_ex ord_Raw order then Some (shard_error ErrUnsupported table shardGroup None) else None)"

fun validateShardOrderColumns :: "gomap list \<Rightarrow> order_item list \<Rightarrow> go_error option" where
  "validateShardOrderColumns [] order = None"
| "validateShardOrderColumns (row # rows) order =
     (case find (\<lambda>item. map_of row (ord_Expr item) = None) order of
        Some item \<Rightarrow> Some (shard_error ErrInvalidQuery [] (ord_Expr item) None)
      | None \<Rightarrow> validateShardOrderColumns rows order)"

text \<open>\<open>sort.SliceStable\<close>: a stable sort, here by insertion.\<close>

fun insert_stable :: "('a \<Rightarrow> 'a \<Rightarrow> bool) \<Rightarrow> 'a \<Rightarrow> 'a list \<Rightarrow> 'a list" where
  "insert_stable before x [] = [x]"
| "insert_stable before x (y # ys) = (if before y x then y # insert_stable before x ys else x # y # ys)"

definition slice_stable :: "('a \<Rightarrow> 'a \<Rightarrow> bool) \<Rightarrow> 'a list \<Rightarrow> 'a list" where
  "slice_stable before xs = foldr (insert_stable before) xs []"

text \<open>\<open>rows[start:end]\<close> panics unless \<open>0 <= start <= end <= len(rows)\<close>.\<close>

definition reslice :: "'a list \<Rightarrow> int \<Rightarrow> int \<Rightarrow> 'a list result" where
  "reslice rows start end =
     (if 0 \<le> start \<and> start \<le> end \<and> end \<le> int (length rows)
      then Inr (take (nat (end - start)) (drop (nat start) rows))
      else Inl (GoPanic ''slice bounds out of range''))"

definition page_rows :: "'a list \<Rightarrow> int option \<Rightarrow> int option \<Rightarrow> 'a list result" where
  "page_rows rows offset limit =
     (let start = (case offset of Some f \<Rightarrow> if 0 < f then f else 0 | None \<Rightarrow> 0) in
      if 0 < start \<and> int (length rows) \<le> start then Inr []
      else (let end = (case limit of
                         Some l \<Rightarrow> if 0 \<le> l \<and> wrap64 (start + l) < int (length rows) then wrap64 (start + l)
                                   else int (length rows)
                       | None \<Rightarrow> int (length rows))
            in reslice rows start end))"

definition applyGlobalShardOrderAndPage ::
  "order_env \<Rightarrow> gomap list \<Rightarrow> order_item list \<Rightarrow> int option \<Rightarrow> int option \<Rightarrow> gomap list result" where
  "applyGlobalShardOrderAndPage oe rows order offset limit =
     (if rows = [] then Inr rows
      else if order = [] then page_rows rows offset limit
      else (case validateShardOrderColumns rows order of
              Some err \<Rightarrow> Inl err
            | None \<Rightarrow> page_rows (slice_stable (\<lambda>l r. compareOrderedRows oe l r order < 0) rows) offset limit))"

fun fan_out :: "(list_spec \<Rightarrow> gomap list result) \<Rightarrow> list_spec \<Rightarrow> string list \<Rightarrow> gomap list result" where
  "fan_out queryRows spec [] = Inr []"
| "fan_out queryRows spec (connection # connections) =
     bind_res (queryRows (spec\<lparr>spec_Connection := connection\<rparr>)) (\<lambda>nextRows.
     bind_res (fan_out queryRows spec connections) (\<lambda>rows. Inr (nextRows @ rows)))"

definition fanOutShardRows ::
  "order_env \<Rightarrow> (list_spec \<Rightarrow> gomap list result) \<Rightarrow> list_spec \<Rightarrow> string list \<Rightarrow> gomap list result" where
  "fanOutShardRows oe queryRows spec connections =
     (case validateAllShardOrder (spec_Order spec) (spec_Table spec) (spec_ShardGroup spec) of
        Some err \<Rightarrow> Inl err
      | None \<Rightarrow>
          bind_res (fan_out queryRows (spec\<lparr>spec_Offset := None, spec_Limit := None\<rparr>) connections) (\<lambda>rows.
            applyGlobalShardOrderAndPage oe rows (spec_Order spec) (spec_Offset spec) (spec_Limit spec)))"

definition queryAllShardRows ::
  "order_env \<Rightarrow> (list_spec \<Rightarrow> gomap list result) \<Rightarrow> shard_env \<Rightarrow> list_spec \<Rightarrow> gomap \<Rightarrow> gomap list result" where
  "queryAllShardRows oe queryRows env spec shard =
     bind_res (tableShardSpec env spec shard True) (\<lambda>spec'.
       fanOutShardRows oe queryRows spec'
         (case she_Shards env (spec_ShardGroup spec') of None \<Rightarrow> [] | Some config \<Rightarrow> shc_Connections config))"

text \<open>\<open>queryAllShardExists\<close>: one row of the first shard that has any.\<close>

fun first_nonempty :: "(list_spec \<Rightarrow> gomap list result) \<Rightarrow> list_spec \<Rightarrow> string list \<Rightarrow> gomap list result" where
  "first_nonempty queryRows spec [] = Inr []"
| "first_nonempty queryRows spec (connection # connections) =
     bind_res (queryRows (spec\<lparr>spec_Connection := connection\<rparr>)) (\<lambda>nextRows.
       if nextRows \<noteq> [] then Inr nextRows else first_nonempty queryRows spec connections)"

definition queryAllShardExists ::
  "(list_spec \<Rightarrow> gomap list result) \<Rightarrow> shard_env \<Rightarrow> list_spec \<Rightarrow> gomap \<Rightarrow> gomap list result" where
  "queryAllShardExists queryRows env spec shard =
     bind_res (tableShardSpec env
       (spec\<lparr>spec_Select := [SelectExpr ''1'' [] True [] None], spec_Order := [], spec_Limit := Some 1, spec_Offset := None\<rparr>)
       shard True) (\<lambda>spec'.
       first_nonempty queryRows spec'
         (case she_Shards env (spec_ShardGroup spec') of None \<Rightarrow> [] | Some config \<Rightarrow> shc_Connections config))"

end
