(* ===== verification/Sharding_Correct.thy ===== *)
theory Sharding_Correct
  imports Sharding
begin

text \<open>
  The global order of a query over all shards: a page of the rows of all shards in the order asked
  for, provided every order column holds values of one kind and the page ends within an \<open>int\<close>; and
  what happens outside those limits.
\<close>

section \<open>Stable sorting by a comparator\<close>

text \<open>
  What \<open>sort.SliceStable\<close> needs of its comparison on the elements it is given: a total preorder.
\<close>

locale comparator_on =
  fixes cmp :: "'a \<Rightarrow> 'a \<Rightarrow> int" and A :: "'a set"
  assumes anti: "a \<in> A \<Longrightarrow> b \<in> A \<Longrightarrow> cmp b a = - cmp a b"
    and trans: "a \<in> A \<Longrightarrow> b \<in> A \<Longrightarrow> c \<in> A \<Longrightarrow> cmp a b \<le> 0 \<Longrightarrow> cmp b c \<le> 0 \<Longrightarrow> cmp a c \<le> 0"
begin

lemma insert_stable_set [simp]: "set (insert_stable (\<lambda>l r. cmp l r < 0) x ys) = insert x (set ys)"
  by (induction ys) auto

lemma insert_stable_mset [simp]: "mset (insert_stable (\<lambda>l r. cmp l r < 0) x ys) = add_mset x (mset ys)"
  by (induction ys) auto

lemma insert_stable_sorted:
  assumes "sorted_wrt (\<lambda>l r. cmp l r \<le> 0) ys" and "set ys \<subseteq> A" and "x \<in> A"
  shows "sorted_wrt (\<lambda>l r. cmp l r \<le> 0) (insert_stable (\<lambda>l r. cmp l r < 0) x ys)"
  using assms
proof (induction ys)
  case (Cons y ys)
  show ?case
  proof (cases "cmp y x < 0")
    case True
    with Cons show ?thesis by auto
  next
    case False
    then have "cmp x y \<le> 0" using anti [of x y] Cons.prems by simp
    moreover have "cmp x z \<le> 0" if "z \<in> set ys" for z
      using trans [of x y z] \<open>cmp x y \<le> 0\<close> Cons.prems that by auto
    ultimately show ?thesis using False Cons.prems by simp
  qed
qed simp

lemma slice_stable_sorted:
  assumes "set xs \<subseteq> A"
  shows "sorted_wrt (\<lambda>l r. cmp l r \<le> 0) (slice_stable (\<lambda>l r. cmp l r < 0) xs)"
    and "mset (slice_stable (\<lambda>l r. cmp l r < 0) xs) = mset xs"
proof -
  have "sorted_wrt (\<lambda>l r. cmp l r \<le> 0) (slice_stable (\<lambda>l r. cmp l r < 0) xs) \<and>
      mset (slice_stable (\<lambda>l r. cmp l r < 0) xs) = mset xs"
    using assms
  proof (induction xs)
    case (Cons x xs)
    let ?ys = "slice_stable (\<lambda>l r. cmp l r < 0) xs"
    have ih: "sorted_wrt (\<lambda>l r. cmp l r \<le> 0) ?ys" "mset ?ys = mset xs" using Cons by auto
    then have "set ?ys \<subseteq> A" using Cons.prems mset_eq_setD [OF ih(2)] by auto
    then show ?case
      using insert_stable_sorted [OF ih(1)] ih(2) Cons.prems by (simp add: slice_stable_def)
  qed (simp add: slice_stable_def)
  then show "sorted_wrt (\<lambda>l r. cmp l r \<le> 0) (slice_stable (\<lambda>l r. cmp l r < 0) xs)"
    and "mset (slice_stable (\<lambda>l r. cmp l r < 0) xs) = mset xs" by auto
qed

text \<open>Elements that compare equal keep their order.\<close>

lemma insert_stable_filter:
  assumes "sorted_wrt (\<lambda>l r. cmp l r \<le> 0) ys" and "set ys \<subseteq> A" and "x \<in> A" and "k \<in> A"
  shows "filter (\<lambda>y. cmp k y = 0) (insert_stable (\<lambda>l r. cmp l r < 0) x ys) =
    (if cmp k x = 0 then [x] else []) @ filter (\<lambda>y. cmp k y = 0) ys"
  using assms
proof (induction ys)
  case (Cons y ys)
  have "cmp k y \<noteq> 0" if "cmp k x = 0" "cmp y x < 0"
    using that trans [of x k y] anti [of k x] anti [of y x] Cons.prems by auto
  with Cons show ?case by auto
qed simp

lemma slice_stable_keeps:
  assumes "set xs \<subseteq> A" and "k \<in> A"
  shows "filter (\<lambda>y. cmp k y = 0) (slice_stable (\<lambda>l r. cmp l r < 0) xs) = filter (\<lambda>y. cmp k y = 0) xs"
  using assms(1)
proof (induction xs)
  case (Cons x xs)
  have "set (slice_stable (\<lambda>l r. cmp l r < 0) xs) = set xs"
    using slice_stable_sorted(2) [of xs] Cons.prems by (auto dest: mset_eq_setD)
  then show ?case
    using Cons assms(2) insert_stable_filter [OF slice_stable_sorted(1) [of xs], of x k]
    by (simp add: slice_stable_def)
qed (simp add: slice_stable_def)

end

section \<open>Order columns of one kind\<close>

datatype value_kind = KNil | KTime | KNumber | KText

definition kind_of :: "order_env \<Rightarrow> goany \<Rightarrow> value_kind" where
  "kind_of oe v =
     (if v = ANil then KNil
      else if asTime oe v \<noteq> None then KTime
      else if asFloat64 oe v \<noteq> None then KNumber
      else KText)"

text \<open>The rows whose order columns hold null or a value of the kind given for the column.\<close>

definition typed_rows :: "order_env \<Rightarrow> (string \<Rightarrow> value_kind) \<Rightarrow> order_item list \<Rightarrow> gomap set" where
  "typed_rows oe kinds order =
     {row. \<forall>item \<in> set order. kind_of oe (map_get row (ord_Expr item)) \<in> {KNil, kinds (ord_Expr item)}}"

lemma compare_linear_anti: "compare_linear b a = - compare_linear a b"
  by (auto simp: compare_linear_def)

lemma compare_linear_le: "compare_linear a b \<le> 0 \<longleftrightarrow> a \<le> b"
  by (auto simp: compare_linear_def)

lemma compareOrderValues_kind:
  assumes "kind_of oe l = k" and "kind_of oe r = k" and "k \<noteq> KNil"
  shows "compareOrderValues oe l r =
    (case k of
       KTime \<Rightarrow> compare_linear (the (asTime oe l)) (the (asTime oe r))
     | KNumber \<Rightarrow> compare_linear (the (asFloat64 oe l)) (the (asFloat64 oe r))
     | _ \<Rightarrow> compare_linear (stringifyOrderValue oe l) (stringifyOrderValue oe r))"
  using assms by (auto simp: compareOrderValues_def kind_of_def split: if_splits option.splits)

lemma compareOrderValues_nil:
  "kind_of oe l = KNil \<Longrightarrow> kind_of oe r = KNil \<Longrightarrow> compareOrderValues oe l r = 0"
  "kind_of oe l = KNil \<Longrightarrow> kind_of oe r \<noteq> KNil \<Longrightarrow> compareOrderValues oe l r = - 1"
  "kind_of oe l \<noteq> KNil \<Longrightarrow> kind_of oe r = KNil \<Longrightarrow> compareOrderValues oe l r = 1"
  by (auto simp: compareOrderValues_def kind_of_def split: if_splits)

interpretation order_value: comparator_on "compareOrderValues oe" "{v. kind_of oe v \<in> {KNil, k}}" for oe k
proof
  fix a b assume "a \<in> {v. kind_of oe v \<in> {KNil, k}}" "b \<in> {v. kind_of oe v \<in> {KNil, k}}"
  then show "compareOrderValues oe b a = - compareOrderValues oe a b"
    by (cases "kind_of oe a = KNil"; cases "kind_of oe b = KNil"; cases k)
      (auto simp: compareOrderValues_nil compareOrderValues_kind intro: compare_linear_anti)
next
  fix a b c
  assume "a \<in> {v. kind_of oe v \<in> {KNil, k}}" "b \<in> {v. kind_of oe v \<in> {KNil, k}}" "c \<in> {v. kind_of oe v \<in> {KNil, k}}"
    and "compareOrderValues oe a b \<le> 0" "compareOrderValues oe b c \<le> 0"
  then show "compareOrderValues oe a c \<le> 0"
    by (cases "kind_of oe a = KNil"; cases "kind_of oe b = KNil"; cases "kind_of oe c = KNil"; cases k)
      (auto simp: compareOrderValues_nil compareOrderValues_kind compare_linear_le)
qed

lemma typed_rows_Cons:
  "row \<in> typed_rows oe kinds (item # items) \<longleftrightarrow>
     map_get row (ord_Expr item) \<in> {v. kind_of oe v \<in> {KNil, kinds (ord_Expr item)}} \<and> row \<in> typed_rows oe kinds items"
  by (simp add: typed_rows_def)

lemma compareOrderedRows_anti:
  "a \<in> typed_rows oe kinds order \<Longrightarrow> b \<in> typed_rows oe kinds order \<Longrightarrow>
     compareOrderedRows oe b a order = - compareOrderedRows oe a b order"
proof (induction order)
  case (Cons item items)
  have "compareOrderValues oe (map_get b (ord_Expr item)) (map_get a (ord_Expr item)) =
      - compareOrderValues oe (map_get a (ord_Expr item)) (map_get b (ord_Expr item))"
    using Cons.prems unfolding typed_rows_Cons by (blast intro: order_value.anti)
  with Cons show ?case by (simp add: Let_def typed_rows_Cons)
qed simp

lemma sign_chain:
  fixes x y z x' y' z' :: int
  assumes "x' = - x" and "y' = - y" and "z' = - z" and "x \<le> 0 \<longrightarrow> y \<le> 0 \<longrightarrow> z \<le> 0"
    and "y \<le> 0 \<longrightarrow> z' \<le> 0 \<longrightarrow> x' \<le> 0" and "z' \<le> 0 \<longrightarrow> x \<le> 0 \<longrightarrow> y' \<le> 0"
  shows "x \<le> 0 \<Longrightarrow> y \<le> 0 \<Longrightarrow> z \<le> 0" and "x \<le> 0 \<Longrightarrow> y \<le> 0 \<Longrightarrow> z = 0 \<Longrightarrow> x = 0 \<and> y = 0"
proof -
  assume le: "x \<le> 0" "y \<le> 0"
  show "z \<le> 0" using assms(4) le by blast
  assume "z = 0"
  then have "z' \<le> 0" using assms(3) by simp
  then have "x' \<le> 0" and "y' \<le> 0" using assms(5,6) le by blast+
  then show "x = 0 \<and> y = 0" using le assms(1,2) by linarith
qed

text \<open>A comparison by one column and then by the rest, in either direction.\<close>

lemma lexicographic_step:
  fixes x y z p q r :: int
  assumes "x \<le> 0 \<longrightarrow> y \<le> 0 \<longrightarrow> z \<le> 0" and "x \<le> 0 \<longrightarrow> y \<le> 0 \<longrightarrow> z = 0 \<longrightarrow> x = 0 \<and> y = 0"
    and "0 \<le> x \<longrightarrow> 0 \<le> y \<longrightarrow> 0 \<le> z" and "0 \<le> x \<longrightarrow> 0 \<le> y \<longrightarrow> z = 0 \<longrightarrow> x = 0 \<and> y = 0"
    and "p \<le> 0 \<longrightarrow> q \<le> 0 \<longrightarrow> r \<le> 0"
    and "(if x = 0 then p else if desc then - x else x) \<le> 0" and "(if y = 0 then q else if desc then - y else y) \<le> 0"
  shows "(if z = 0 then r else if desc then - z else z) \<le> 0"
proof (cases desc)
  case True
  then have "0 \<le> x" and "0 \<le> y" using assms(6,7) by (auto split: if_splits)
  then show ?thesis using assms(3-7) True by (cases "z = 0") auto
next
  case False
  then have "x \<le> 0" and "y \<le> 0" using assms(6,7) by (auto split: if_splits)
  then show ?thesis using assms(1,2,5-7) False by (cases "z = 0") auto
qed

lemma compareOrderedRows_trans:
  "a \<in> typed_rows oe kinds order \<Longrightarrow> b \<in> typed_rows oe kinds order \<Longrightarrow> c \<in> typed_rows oe kinds order \<Longrightarrow>
     compareOrderedRows oe a b order \<le> 0 \<Longrightarrow> compareOrderedRows oe b c order \<le> 0 \<Longrightarrow>
     compareOrderedRows oe a c order \<le> 0"
proof (induction order)
  case (Cons item items)
  let ?V = "\<lambda>row. map_get row (ord_Expr item)"
  let ?v = "\<lambda>l r. compareOrderValues oe (?V l) (?V r)"
  have in_V: "?V a \<in> {v. kind_of oe v \<in> {KNil, kinds (ord_Expr item)}}"
    "?V b \<in> {v. kind_of oe v \<in> {KNil, kinds (ord_Expr item)}}" "?V c \<in> {v. kind_of oe v \<in> {KNil, kinds (ord_Expr item)}}"
    using Cons.prems(1-3) unfolding typed_rows_Cons by blast+
  note anti = order_value.anti [OF in_V(1,2)] order_value.anti [OF in_V(2,3)] order_value.anti [OF in_V(1,3)]
    and anti' = order_value.anti [OF in_V(3,2)] order_value.anti [OF in_V(2,1)] order_value.anti [OF in_V(3,1)]
  note chain = order_value.trans [OF in_V(1,2,3)] order_value.trans [OF in_V(2,3,1)] order_value.trans [OF in_V(3,1,2)]
    order_value.trans [OF in_V(3,2,1)] order_value.trans [OF in_V(1,3,2)] order_value.trans [OF in_V(2,1,3)]
  have rest: "compareOrderedRows oe a b items \<le> 0 \<Longrightarrow> compareOrderedRows oe b c items \<le> 0 \<Longrightarrow>
      compareOrderedRows oe a c items \<le> 0"
    using Cons.IH Cons.prems(1-3) unfolding typed_rows_Cons by blast
  note chain = chain [unfolded atomize_imp]
  note below = sign_chain [OF anti chain(1-3)]
  note reversed = sign_chain [OF anti' chain(4,6,5)]
  have above: "0 \<le> ?v a c" "?v a c = 0 \<Longrightarrow> ?v a b = 0 \<and> ?v b c = 0" if le: "0 \<le> ?v a b" "0 \<le> ?v b c"
  proof -
    have ge: "?v c b \<le> 0" "?v b a \<le> 0" using le anti(1,2) by linarith+
    show "0 \<le> ?v a c" using reversed(1) [OF ge] anti(3) by linarith
    assume "?v a c = 0"
    then have "?v c a = 0" using anti(3) by linarith
    from reversed(2) [OF ge this] show "?v a b = 0 \<and> ?v b c = 0" using anti(1,2) by linarith
  qed
  show ?case
    using lexicographic_step [OF below [unfolded atomize_imp] above [unfolded atomize_imp] rest [unfolded atomize_imp]] Cons.prems(4,5) by (simp add: Let_def)
qed simp

interpretation order_rows: comparator_on "\<lambda>l r. compareOrderedRows oe l r order" "typed_rows oe kinds order" for oe kinds order
  by unfold_locales (blast intro: compareOrderedRows_anti compareOrderedRows_trans)+

section \<open>Pages\<close>

definition page_start :: "int option \<Rightarrow> nat" where
  "page_start offset = (case offset of Some f \<Rightarrow> nat f | None \<Rightarrow> 0)"

definition page_of :: "'a list \<Rightarrow> int option \<Rightarrow> int option \<Rightarrow> 'a list" where
  "page_of rows offset limit =
     (let rest = drop (page_start offset) rows in
      case limit of Some l \<Rightarrow> if 0 \<le> l then take (nat l) rest else rest | None \<Rightarrow> rest)"

definition page_in_range :: "int option \<Rightarrow> int option \<Rightarrow> bool" where
  "page_in_range offset limit \<longleftrightarrow> (case limit of Some l \<Rightarrow> int (page_start offset) + l < 2 ^ 63 | None \<Rightarrow> True)"

lemma page_rows_page_of:
  assumes "page_in_range offset limit"
  shows "page_rows rows offset limit = Inr (page_of rows offset limit)"
proof -
  have start: "(case offset of Some f \<Rightarrow> if 0 < f then f else 0 | None \<Rightarrow> 0) = int (page_start offset)"
    by (simp add: page_start_def split: option.split)
  show ?thesis
  proof (cases limit)
    case None
    then show ?thesis unfolding page_rows_def start by (auto simp: reslice_def page_of_def Let_def nat_diff_distrib)
  next
    case (Some l)
    have "wrap64 (int (page_start offset) + l) = int (page_start offset) + l" if "0 \<le> l"
      using assms Some that by (intro wrap64_id) (auto simp: page_in_range_def)
    moreover have "nat (int m + l) - m = nat l" if "0 \<le> l" for m
      using that by (simp add: nat_add_distrib)
    ultimately show ?thesis
      unfolding page_rows_def start Some
      by (cases "0 \<le> l"; cases "page_start offset = 0") (auto simp: reslice_def page_of_def Let_def nat_diff_distrib)
  qed
qed

lemma validateShardOrderColumns_None:
  "validateShardOrderColumns rows order = None \<longleftrightarrow>
     (\<forall>row \<in> set rows. \<forall>item \<in> set order. map_of row (ord_Expr item) \<noteq> None)"
proof (induction rows)
  case (Cons row rows)
  show ?case
  proof (cases "find (\<lambda>item. map_of row (ord_Expr item) = None) order")
    case None
    moreover from this have "\<forall>item \<in> set order. map_of row (ord_Expr item) \<noteq> None" by (simp add: find_None_iff)
    ultimately show ?thesis using Cons by simp
  next
    case (Some item)
    then have "item \<in> set order" and "map_of row (ord_Expr item) = None"
      by (auto simp: find_Some_iff)
    then show ?thesis using Some by auto
  qed
qed simp

section \<open>Routing\<close>

lemma missing_connection_None: "missing_connection env cs = None \<longleftrightarrow> set cs \<subseteq> set (she_conns env)"
  by (induction cs) auto

text \<open>A routed query of a table goes to the connection its strategy picks.\<close>

lemma tableShardSpec_routed:
  assumes "tableShardSpec env spec shard False = Inr spec'" and "spec_ShardGroup spec \<noteq> []"
  obtains config pick where "she_Shards env (spec_ShardGroup spec) = Some config" "shc_Strategy config = Some pick"
    "set (shc_Connections config) \<subseteq> set (she_conns env)"
    "pick shard (shc_Connections config) = Inr (spec_Connection spec')"
    "ensureTransactionShard env (spec_Connection spec') (spec_Table spec) (spec_ShardGroup spec) = None"
    "spec' = spec\<lparr>spec_Connection := spec_Connection spec'\<rparr>"
  using assms
  by (auto simp: tableShardSpec_def Let_def missing_connection_None split: option.splits if_splits sum.splits)

section \<open>Integers as floating-point numbers\<close>

lemma round53_exact: "n \<le> 2 ^ 53 \<Longrightarrow> round53 n = n"
proof (cases "n = 2 ^ 53")
  case True
  have "round53 (2 ^ 53) = 2 ^ 53" by code_simp
  then show ?thesis using True by simp
qed (simp add: round53_def)

lemma float64_exact: "\<bar>i\<bar> \<le> 2 ^ 53 \<Longrightarrow> float64_of_int i = i * 2 ^ 1074"
  using round53_exact [of i] round53_exact [of "- i"] by (simp add: float64_of_int_def)

lemma compare_linear_scale: "0 < k \<Longrightarrow> compare_linear (a * k) (b * k) = compare_linear (a :: int) b"
  by (simp add: compare_linear_def)

section \<open>A small cluster\<close>

text \<open>For the witnesses: two shards by remainder of the key, with one row each.\<close>

definition sample_shards :: shard_env where
  "sample_shards =
     \<lparr>she_Shards = \<lambda>g. if g = ''users'' then Some \<lparr>shc_Connections = [''u0'', ''u1''], shc_Strategy = Some (ModShard ''id'')\<rparr> else None,
      she_conns = [''u0'', ''u1'', ''main''], she_tx = None\<rparr>"

definition sample_spec :: "string \<Rightarrow> order_item list \<Rightarrow> list_spec" where
  "sample_spec grp order =
     \<lparr>spec_Connection = [], spec_ShardGroup = grp, spec_Table = ''users'', spec_Alias = [],
      spec_From = SourceAST [] [] None None, spec_ModelName = [], spec_Where = [], spec_Select = [],
      spec_SelectErr = None, spec_Joins = [], spec_Group = [], spec_Having = [], spec_Order = order, spec_Limit = None,
      spec_Offset = None, spec_Lock = \<lparr>lock_Mode = LockNone, lock_NoWait = False, lock_SkipLocked = False\<rparr>,
      spec_SkipEvents = False, spec_UsePrimary = False,
      spec_Cache = \<lparr>cache_Enabled = False, cache_TTL = 0, cache_Key = [], cache_Tags = []\<rparr>, spec_Timeout = 0,
      spec_finalized = False\<rparr>"

definition sample_order :: order_env where
  "sample_order = \<lparr>oe_float = \<lambda>_. None, oe_float_text = id, oe_instant = \<lambda>_. 0, oe_rfc3339 = id, oe_sprint = \<lambda>_. []\<rparr>"

definition sample_rows :: "list_spec \<Rightarrow> gomap list result" where
  "sample_rows spec = (if spec_Connection spec = ''u0'' then Inr [[(''name'', AString ''b'')]] else Inr [[(''name'', AString ''a'')]])"

section \<open>Properties\<close>





text \<open>
  A page that ends beyond the largest \<open>int\<close> makes the global paging panic: with a positive offset within the rows
  and a limit such that their sum overflows, the end of the slice is negative.
\<close>

theorem all_shards_page_overflow:
  assumes "0 < offset" and "offset < int (length rows)" and "0 \<le> limit" and "limit < 2 ^ 63" and "2 ^ 63 \<le> offset + limit"
    and "offset < 2 ^ 63" and "validateShardOrderColumns rows order = None"
  shows "applyGlobalShardOrderAndPage oe rows order (Some offset) (Some limit) = Inl (GoPanic ''slice bounds out of range'')"
proof -
  have "wrap64 (offset + limit) = offset + limit - 2 ^ 64"
  proof -
    have "(offset + limit + 2 ^ 63) mod 2 ^ 64 = (offset + limit - 2 ^ 63 + 2 ^ 64) mod 2 ^ 64" by (simp add: algebra_simps)
    also have "\<dots> = offset + limit - 2 ^ 63"
      unfolding mod_add_self2 using assms(4-6) by (intro mod_pos_pos_trivial) auto
    finally show ?thesis by (simp add: wrap64_def)
  qed
  then have neg: "wrap64 (offset + limit) < 0" using assms(4,6) by simp
  have page: "page_rows xs (Some offset) (Some limit) = Inl (GoPanic ''slice bounds out of range'')"
    if "length xs = length rows" for xs :: "gomap list"
    using that assms(1-3) neg by (auto simp: page_rows_def reslice_def Let_def)
  have "length (insert_stable before x ys) = Suc (length ys)" for before and x :: gomap and ys
    by (induction ys) auto
  then have "length (slice_stable before xs) = length xs" for before and xs :: "gomap list"
    by (induction xs) (simp_all add: slice_stable_def)
  then show ?thesis
    using assms(1,2,7) page by (auto simp: applyGlobalShardOrderAndPage_def)
qed

theorem all_shards_page_overflow_witness:
  "applyGlobalShardOrderAndPage sample_order [[], []] [] (Some 1) (Some (2 ^ 63 - 1)) =
     Inl (GoPanic ''slice bounds out of range'')"
  using all_shards_page_overflow [of 1 "[[], []]" "2 ^ 63 - 1" "[]" sample_order] by simp

text \<open>
  Integers are compared as floating-point numbers: up to \<open>2 ^ 53\<close> in absolute value the comparison is that of the
  integers, but beyond it different keys compare equal, and rows are returned out of order.
\<close>

theorem shard_order_of_integers:
  "(\<forall>m n. \<bar>sint m\<bar> \<le> 2 ^ 53 \<and> \<bar>sint n\<bar> \<le> 2 ^ 53 \<longrightarrow>
      compareOrderValues oe (AInt64 m) (AInt64 n) = compare_linear (sint m) (sint n))
   \<and> applyGlobalShardOrderAndPage oe [[(''id'', AInt64 (2 ^ 53 + 1))], [(''id'', AInt64 (2 ^ 53))]]
       [OrderExpr ''id'' False False []] None None =
     Inr [[(''id'', AInt64 (2 ^ 53 + 1))], [(''id'', AInt64 (2 ^ 53))]]"
proof (intro conjI allI impI)
  fix m n :: "64 word" assume "\<bar>sint m\<bar> \<le> 2 ^ 53 \<and> \<bar>sint n\<bar> \<le> 2 ^ 53"
  then show "compareOrderValues oe (AInt64 m) (AInt64 n) = compare_linear (sint m) (sint n)"
    by (simp add: compareOrderValues_def asTime_def asFloat64_def int_value_def float64_exact compare_linear_scale del: power_numeral)
next
  have "float64_of_int (sint (2 ^ 53 + 1 :: 64 word)) = float64_of_int (sint (2 ^ 53 :: 64 word))"
    by code_simp
  then have "compareOrderValues oe (AInt64 (2 ^ 53)) (AInt64 (2 ^ 53 + 1)) = 0"
    unfolding compareOrderValues_def asTime_def asFloat64_def int_value_def by (simp only: goany.case option.case prod.case
        compare_linear_def goany.distinct if_False simp_thms less_irrefl)
  then show "applyGlobalShardOrderAndPage oe [[(''id'', AInt64 (2 ^ 53 + 1))], [(''id'', AInt64 (2 ^ 53))]]
       [OrderExpr ''id'' False False []] None None =
     Inr [[(''id'', AInt64 (2 ^ 53 + 1))], [(''id'', AInt64 (2 ^ 53))]]"
    by (simp add: applyGlobalShardOrderAndPage_def slice_stable_def map_get_def page_rows_def reslice_def)
qed

theorem shard_order_of_integers_witness:
  "\<bar>sint (5 :: 64 word)\<bar> \<le> 2 ^ 53 \<and> \<bar>sint (7 :: 64 word)\<bar> \<le> 2 ^ 53 \<and>
     compareOrderValues sample_order (AInt64 5) (AInt64 7) = - 1"
proof -
  have small: "\<bar>sint (5 :: 64 word)\<bar> \<le> 2 ^ 53 \<and> \<bar>sint (7 :: 64 word)\<bar> \<le> 2 ^ 53" by simp
  then have "compareOrderValues sample_order (AInt64 5) (AInt64 7) = compare_linear (sint (5 :: 64 word)) (sint (7 :: 64 word))"
    using shard_order_of_integers [of sample_order] by blast
  with small show ?thesis by (simp add: compare_linear_def)
qed

end
