(* ===== verification/Mem_Cache.thy ===== *)
theory Mem_Cache
  imports Oro_Prelude
begin

text \<open>
  The in-memory cache store of internal/memcache/store.go: items with an expiry time and tags, and an
  index from tags to keys. A time is a number of nanoseconds, with the zero time as 0; the clock
  reading is an argument. \<open>tags\<close> is a map to sets of keys (the Go map holds only \<open>true\<close>). Iterating a Go map visits its
  keys in an order the language leaves open: \<open>enum\<close> gives one for each set. Each locked section is one
  step; \<open>Get\<close> has two, the look-up and the removal of an expired item.
\<close>

record mem_item =
  mi_value :: string
  mi_expiresAt :: int
  mi_tags :: "string list"

record mem_store =
  ms_items :: "string \<rightharpoonup> mem_item"
  ms_tags :: "string \<rightharpoonup> string set"

record mem_errors =
  me_KeyRequired :: go_error
  me_InvalidArgument :: go_error

definition mem_New :: mem_store where
  "mem_New = \<lparr>ms_items = Map.empty, ms_tags = Map.empty\<rparr>"

definition untag :: "string \<Rightarrow> string \<Rightarrow> (string \<rightharpoonup> string set) \<Rightarrow> (string \<rightharpoonup> string set)" where
  "untag key tag tags =
     (case tags tag of
        None \<Rightarrow> tags
      | Some keys \<Rightarrow> if keys - {key} = {} then tags(tag := None) else tags(tag \<mapsto> keys - {key}))"

definition forgetLocked :: "string \<Rightarrow> mem_store \<Rightarrow> mem_store" where
  "forgetLocked key store =
     (let tags = (case ms_items store key of
                    None \<Rightarrow> ms_tags store
                  | Some item \<Rightarrow> fold (untag key) (mi_tags item) (ms_tags store))
      in \<lparr>ms_items = (ms_items store)(key := None), ms_tags = tags\<rparr>)"

definition add_tag :: "string \<Rightarrow> string \<Rightarrow> (string \<rightharpoonup> string set) \<Rightarrow> (string \<rightharpoonup> string set)" where
  "add_tag key tag tags =
     (if tag = [] then tags
      else tags(tag \<mapsto> insert key (case tags tag of None \<Rightarrow> {} | Some keys \<Rightarrow> keys)))"

definition mem_Set ::
  "mem_errors \<Rightarrow> int \<Rightarrow> string \<Rightarrow> string \<Rightarrow> int \<Rightarrow> string list \<Rightarrow> mem_store \<Rightarrow> go_error option \<times> mem_store" where
  "mem_Set errs now key val ttl tags store =
     (if key = [] then (Some (me_KeyRequired errs), store)
      else if ttl \<le> 0 then (Some (me_InvalidArgument errs), store)
      else (let store1 = forgetLocked key store in
            (None, \<lparr>ms_items = (ms_items store1)(key \<mapsto> \<lparr>mi_value = val, mi_expiresAt = now + ttl, mi_tags = tags\<rparr>),
                    ms_tags = fold (add_tag key) tags (ms_tags store1)\<rparr>)))"

definition mem_Forget :: "mem_errors \<Rightarrow> string \<Rightarrow> mem_store \<Rightarrow> go_error option \<times> mem_store" where
  "mem_Forget errs key store =
     (if key = [] then (Some (me_KeyRequired errs), store) else (None, forgetLocked key store))"

definition mem_ForgetTag :: "(string set \<Rightarrow> string list) \<Rightarrow> mem_errors \<Rightarrow> string \<Rightarrow> mem_store \<Rightarrow> go_error option \<times> mem_store" where
  "mem_ForgetTag enum errs tag store =
     (if tag = [] then (Some (me_KeyRequired errs), store)
      else (let keys = (case ms_tags store tag of None \<Rightarrow> {} | Some keys \<Rightarrow> keys);
                store1 = fold forgetLocked (enum keys) store
            in (None, store1\<lparr>ms_tags := (ms_tags store1)(tag := None)\<rparr>)))"

text \<open>The look-up of \<open>Get\<close>, and whether the item found has expired.\<close>

definition expired :: "int \<Rightarrow> mem_item \<Rightarrow> bool" where
  "expired now item \<longleftrightarrow> mi_expiresAt item \<noteq> 0 \<and> \<not> now < mi_expiresAt item"

definition mem_Get :: "mem_errors \<Rightarrow> int \<Rightarrow> string \<Rightarrow> mem_store \<Rightarrow> string option result \<times> mem_store" where
  "mem_Get errs now key store =
     (if key = [] then (Inl (me_KeyRequired errs), store)
      else (case ms_items store key of
              None \<Rightarrow> (Inr None, store)
            | Some item \<Rightarrow>
                if expired now item then (Inr None, snd (mem_Forget errs key store))
                else (Inr (Some (mi_value item)), store)))"

section \<open>The index of tags\<close>

text \<open>The index holds exactly the non-empty tags of the items, and no empty set.\<close>

definition tagged :: "mem_store \<Rightarrow> string \<Rightarrow> string set" where
  "tagged store tag = {key. \<exists>item. ms_items store key = Some item \<and> tag \<in> set (mi_tags item)}"

definition keys_at :: "(string \<rightharpoonup> string set) \<Rightarrow> string \<Rightarrow> string set" where
  "keys_at tags tag = (case tags tag of None \<Rightarrow> {} | Some keys \<Rightarrow> keys)"

lemma keys_at_untag: "keys_at (untag key tag tags) tag' = (if tag' = tag then keys_at tags tag - {key} else keys_at tags tag')"
  by (auto simp: keys_at_def untag_def split: option.splits)

lemma keys_at_fold_untag:
  "keys_at (fold (untag key) ts tags) tag = (if tag \<in> set ts then keys_at tags tag - {key} else keys_at tags tag)"
  by (induction ts arbitrary: tags) (auto simp: keys_at_untag)

lemma keys_at_add_tag: "keys_at (add_tag key tag tags) tag' = (if tag' = tag \<and> tag \<noteq> [] then insert key (keys_at tags tag) else keys_at tags tag')"
  by (simp add: keys_at_def add_tag_def split: option.splits)

lemma keys_at_fold_add_tag:
  "keys_at (fold (add_tag key) ts tags) tag = (if tag \<in> set ts \<and> tag \<noteq> [] then insert key (keys_at tags tag) else keys_at tags tag)"
  by (induction ts arbitrary: tags) (auto simp: keys_at_add_tag)

text \<open>No tag is mapped to the empty set.\<close>

definition no_empty :: "(string \<rightharpoonup> string set) \<Rightarrow> bool" where
  "no_empty tags \<longleftrightarrow> (\<forall>tag. tags tag \<noteq> Some {})"

lemma no_empty_fold:
  "no_empty tags \<Longrightarrow> no_empty (fold (untag key) ts tags)"
  "no_empty tags \<Longrightarrow> no_empty (fold (add_tag key) ts tags)"
proof -
  show "no_empty (fold (untag key) ts tags)" if "no_empty tags"
    using that by (induction ts arbitrary: tags) (auto simp: no_empty_def untag_def split: option.splits)
  show "no_empty (fold (add_tag key) ts tags)" if "no_empty tags"
    using that by (induction ts arbitrary: tags) (auto simp: no_empty_def add_tag_def split: option.splits)
qed

text \<open>The index holds exactly the non-empty tags of the items, and no empty set; no key is empty.\<close>

definition mem_inv :: "mem_store \<Rightarrow> bool" where
  "mem_inv store \<longleftrightarrow>
     finite (dom (ms_items store)) \<and> [] \<notin> dom (ms_items store) \<and> no_empty (ms_tags store) \<and>
     (\<forall>tag. keys_at (ms_tags store) tag = (if tag = [] then {} else tagged store tag))"

lemma mem_inv_New: "mem_inv mem_New"
  by (simp add: mem_inv_def mem_New_def no_empty_def keys_at_def tagged_def)

lemma items_forgetLocked [simp]: "ms_items (forgetLocked key store) = (ms_items store)(key := None)"
  by (simp add: forgetLocked_def Let_def)

lemma tagged_forgetLocked: "tagged (forgetLocked key store) tag = tagged store tag - {key}"
  by (auto simp: tagged_def)

lemma mem_inv_forgetLocked:
  assumes "mem_inv store"
  shows "mem_inv (forgetLocked key store)"
proof -
  have "keys_at (ms_tags (forgetLocked key store)) tag = (if tag = [] then {} else tagged (forgetLocked key store) tag)" for tag
    using assms by (cases "ms_items store key")
      (auto simp: mem_inv_def forgetLocked_def Let_def keys_at_fold_untag tagged_def)
  moreover have "no_empty (ms_tags (forgetLocked key store))"
    using assms no_empty_fold(1) by (simp add: mem_inv_def forgetLocked_def Let_def split: option.split)
  ultimately show ?thesis
    using assms finite_subset [of "dom (ms_items store) - {key}"] by (simp add: mem_inv_def)
qed

lemma fold_forgetLocked:
  "ms_items (fold forgetLocked ks store) = (\<lambda>key. if key \<in> set ks then None else ms_items store key)"
  "mem_inv store \<Longrightarrow> mem_inv (fold forgetLocked ks store)"
  by (induction ks arbitrary: store) (auto simp: fun_eq_iff mem_inv_forgetLocked)

lemma mem_inv_Set:
  assumes "mem_inv store" and "key \<noteq> []" and "0 < ttl"
  shows "mem_inv (snd (mem_Set errs now key val ttl ts store))"
proof -
  note inv = mem_inv_forgetLocked [OF assms(1), of key]
  have "tagged (snd (mem_Set errs now key val ttl ts store)) tag =
      (if tag \<in> set ts then insert key (tagged (forgetLocked key store) tag) else tagged (forgetLocked key store) tag)" for tag
    using assms(2,3) by (auto simp: mem_Set_def Let_def tagged_def)
  then show ?thesis
    using inv assms(2,3) no_empty_fold(2)
    by (auto simp: mem_inv_def mem_Set_def Let_def keys_at_fold_add_tag)
qed

text \<open>A tag is dropped from the index by the removal of its keys already.\<close>

lemma mem_ForgetTag_items:
  assumes "mem_inv store" and "tag \<noteq> []" and "\<And>K. finite K \<Longrightarrow> set (enum K) = K"
  shows "snd (mem_ForgetTag enum errs tag store) = fold forgetLocked (enum (tagged store tag)) store"
    and "set (enum (tagged store tag)) = tagged store tag"
proof -
  have "tagged store tag \<subseteq> dom (ms_items store)" by (auto simp: tagged_def)
  then show enum: "set (enum (tagged store tag)) = tagged store tag"
    using assms(1,3) finite_subset by (auto simp: mem_inv_def)
  let ?store = "fold forgetLocked (enum (tagged store tag)) store"
  have "tagged ?store tag = {}"
    using enum fold_forgetLocked(1) [of "enum (tagged store tag)" store] by (auto simp: tagged_def split: if_splits)
  then have "keys_at (ms_tags ?store) tag = {}" and "no_empty (ms_tags ?store)"
    using fold_forgetLocked(2) [OF assms(1), of "enum (tagged store tag)"] by (simp_all add: mem_inv_def)
  then have "ms_tags ?store tag = None"
    by (auto simp: keys_at_def no_empty_def split: option.splits)
  then have "?store\<lparr>ms_tags := (ms_tags ?store)(tag := None)\<rparr> = ?store"
    by (simp add: fun_upd_idem)
  moreover have "(case ms_tags store tag of None \<Rightarrow> {} | Some keys \<Rightarrow> keys) = tagged store tag"
    using assms(1,2) by (simp add: mem_inv_def keys_at_def)
  ultimately show "snd (mem_ForgetTag enum errs tag store) = ?store"
    using assms(2) by (simp add: mem_ForgetTag_def Let_def)
qed

section \<open>The contract of a cache store\<close>

text \<open>
  What a client of the interface \<open>CacheStore\<close> relies on: a map from keys to items, from which
  forgetting a tag removes the items that carry it, and from which an expired item is never read.
\<close>

datatype mem_op = OpGet int string | OpSet int string string int "string list" | OpForget string | OpForgetTag string

datatype mem_out = OutValue "string option result" | OutErr "go_error option"

fun store_op :: "(string set \<Rightarrow> string list) \<Rightarrow> mem_errors \<Rightarrow> mem_op \<Rightarrow> mem_store \<Rightarrow> mem_out \<times> mem_store" where
  "store_op enum errs (OpGet now key) store = map_prod OutValue id (mem_Get errs now key store)"
| "store_op enum errs (OpSet now key val ttl tags) store = map_prod OutErr id (mem_Set errs now key val ttl tags store)"
| "store_op enum errs (OpForget key) store = map_prod OutErr id (mem_Forget errs key store)"
| "store_op enum errs (OpForgetTag tag) store = map_prod OutErr id (mem_ForgetTag enum errs tag store)"

fun map_op :: "mem_errors \<Rightarrow> mem_op \<Rightarrow> (string \<rightharpoonup> mem_item) \<Rightarrow> mem_out \<times> (string \<rightharpoonup> mem_item)" where
  "map_op errs (OpGet now key) m =
     (if key = [] then (OutValue (Inl (me_KeyRequired errs)), m)
      else case m key of
        None \<Rightarrow> (OutValue (Inr None), m)
      | Some item \<Rightarrow> if expired now item then (OutValue (Inr None), m(key := None)) else (OutValue (Inr (Some (mi_value item))), m))"
| "map_op errs (OpSet now key val ttl tags) m =
     (if key = [] then (OutErr (Some (me_KeyRequired errs)), m)
      else if ttl \<le> 0 then (OutErr (Some (me_InvalidArgument errs)), m)
      else (OutErr None, m(key \<mapsto> \<lparr>mi_value = val, mi_expiresAt = now + ttl, mi_tags = tags\<rparr>)))"
| "map_op errs (OpForget key) m = (if key = [] then (OutErr (Some (me_KeyRequired errs)), m) else (OutErr None, m(key := None)))"
| "map_op errs (OpForgetTag tag) m =
     (if tag = [] then (OutErr (Some (me_KeyRequired errs)), m)
      else (OutErr None, \<lambda>key. case m key of Some item \<Rightarrow> if tag \<in> set (mi_tags item) then None else Some item | None \<Rightarrow> None))"

fun run_mem :: "(mem_op \<Rightarrow> 's \<Rightarrow> mem_out \<times> 's) \<Rightarrow> mem_op list \<Rightarrow> 's \<Rightarrow> mem_out list \<times> 's" where
  "run_mem step [] s = ([], s)"
| "run_mem step (opn # ops) s =
     (case step opn s of (out, s1) \<Rightarrow> case run_mem step ops s1 of (outs, s2) \<Rightarrow> (out # outs, s2))"

lemma store_op_refines:
  assumes "mem_inv store" and "\<And>K. finite K \<Longrightarrow> set (enum K) = K" and "store_op enum errs opn store = (out, store')"
  shows "mem_inv store'" and "map_op errs opn (ms_items store) = (out, ms_items store')"
proof -
  have "mem_inv store' \<and> map_op errs opn (ms_items store) = (out, ms_items store')"
  proof (cases opn)
    case (OpGet now key)
    then show ?thesis
      using assms(1,3) mem_inv_forgetLocked
      by (auto simp: mem_Get_def mem_Forget_def split: if_splits option.splits)
  next
    case (OpSet now key val ttl ts)
    then show ?thesis
      using assms(1,3) mem_inv_Set [OF assms(1), of key ttl errs now val ts]
      by (auto simp: mem_Set_def Let_def split: if_splits)
  next
    case (OpForget key)
    then show ?thesis
      using assms(1,3) mem_inv_forgetLocked by (auto simp: mem_Forget_def split: if_splits)
  next
    case (OpForgetTag tag)
    show ?thesis
    proof (cases "tag = []")
      case True
      then show ?thesis using assms(1,3) OpForgetTag by (auto simp: mem_ForgetTag_def)
    next
      case False
      note items = mem_ForgetTag_items [OF assms(1) False assms(2)]
      have out: "out = OutErr None" "store' = fold forgetLocked (enum (tagged store tag)) store"
        using assms(3) OpForgetTag False items(1) by (auto simp: mem_ForgetTag_def Let_def)
      then show ?thesis
        using fold_forgetLocked(1) [of "enum (tagged store tag)" store] fold_forgetLocked(2) [OF assms(1)] items(2) OpForgetTag False
        by (auto simp: fun_eq_iff tagged_def split: option.splits)
    qed
  qed
  then show "mem_inv store'" and "map_op errs opn (ms_items store) = (out, ms_items store')" by blast+
qed

lemma run_mem_refines:
  assumes "\<And>K. finite K \<Longrightarrow> set (enum K) = K"
  shows "mem_inv store \<Longrightarrow> run_mem (store_op enum errs) ops store = (outs, store') \<Longrightarrow>
    mem_inv store' \<and> run_mem (map_op errs) ops (ms_items store) = (outs, ms_items store')"
proof (induction ops arbitrary: store outs)
  case (Cons opn ops)
  obtain out store1 where step: "store_op enum errs opn store = (out, store1)" by fastforce
  obtain outs1 where rest: "run_mem (store_op enum errs) ops store1 = (outs1, store')" and outs: "outs = out # outs1"
    using Cons.prems(2) step by (auto split: prod.splits)
  note one = store_op_refines [OF Cons.prems(1) assms step]
  with Cons.IH [OF one(1) rest] outs show ?case by simp
qed simp

section \<open>Properties\<close>

text \<open>
  C19. Through any sequence of operations on a new store, whatever order the language gives to the iteration of a
  map, the tag index is exactly the inverse of the tags of the items, without empty entries.
\<close>

theorem mem_cache_index_invariant:
  assumes "\<And>K. finite K \<Longrightarrow> set (enum K) = K" and "run_mem (store_op enum errs) ops mem_New = (outs, store)"
  shows "ms_tags store tag = (if tag = [] \<or> tagged store tag = {} then None else Some (tagged store tag))"
proof -
  have inv: "mem_inv store" using run_mem_refines [OF assms(1) mem_inv_New assms(2)] by blast
  then have "keys_at (ms_tags store) tag = (if tag = [] then {} else tagged store tag)" and "ms_tags store tag \<noteq> Some {}"
    by (auto simp: mem_inv_def no_empty_def)
  then show ?thesis by (auto simp: keys_at_def split: option.splits if_splits)
qed

definition sample_errors :: mem_errors where
  "sample_errors = \<lparr>me_KeyRequired = GoError ''key'', me_InvalidArgument = GoError ''argument''\<rparr>"

theorem mem_cache_index_invariant_witness:
  "ms_tags (snd (run_mem (store_op sorted_list_of_set sample_errors) [OpSet 10 ''k'' ''v'' 5 [''t'']] mem_New)) ''t'' = Some {''k''}"
proof -
  let ?run = "run_mem (store_op sorted_list_of_set sample_errors) [OpSet 10 ''k'' ''v'' 5 [''t'']] mem_New"
  have run: "?run = (fst ?run, snd ?run)" by simp
  have "tagged (snd ?run) ''t'' = {''k''}"
    by (auto simp: mem_Set_def mem_New_def Let_def tagged_def)
  then show ?thesis
    using mem_cache_index_invariant [OF sorted_list_of_set.set_sorted_key_list_of_set run, of "''t''"] by simp
qed

text \<open>
  C18. The store keeps the contract of a cache store: every sequence of operations on a new store returns what a plain
  map of items returns, where an expired item is absent and forgetting a tag removes exactly the items that carry it.
\<close>

theorem mem_cache_refines_map:
  assumes "\<And>K. finite K \<Longrightarrow> set (enum K) = K"
  shows "fst (run_mem (store_op enum errs) ops mem_New) = fst (run_mem (map_op errs) ops Map.empty)"
proof -
  obtain outs store where run: "run_mem (store_op enum errs) ops mem_New = (outs, store)" by fastforce
  have "run_mem (map_op errs) ops (ms_items mem_New) = (outs, ms_items store)"
    using run_mem_refines [OF assms mem_inv_New run] by blast
  moreover have "ms_items mem_New = Map.empty" by (simp add: mem_New_def)
  ultimately show ?thesis by (simp add: run)
qed

theorem mem_cache_refines_map_witness:
  "fst (run_mem (store_op sorted_list_of_set sample_errors)
     [OpSet 10 ''k'' ''v'' 5 [''t''], OpGet 14 ''k'', OpForgetTag ''t'', OpGet 14 ''k''] mem_New) =
   [OutErr None, OutValue (Inr (Some ''v'')), OutErr None, OutValue (Inr None)]"
  using mem_cache_refines_map [OF sorted_list_of_set.set_sorted_key_list_of_set, of sample_errors
      "[OpSet 10 ''k'' ''v'' 5 [''t''], OpGet 14 ''k'', OpForgetTag ''t'', OpGet 14 ''k'']"]
  by (simp add: expired_def)



end
