(* ===== verification/Query_Helpers.thy ===== *)
theory Query_Helpers
  imports Table_Query Sql_Lexer
begin

text \<open>
  The parts of query\_helpers.go that decide what is executed and how often: write options and
  conflict clauses, batches of rows, pages, chunks, the checks made before a query runs, the counting query, the guard for
  raw SQL, and the identifiers of created rows. Go's \<open>int\<close> and \<open>int64\<close> are integers with their
  wrap-around where the code adds or multiplies. Executing a query is a parameter.
\<close>

section \<open>Write options and conflict clauses\<close>

record write_options =
  wo_only :: "string list"
  wo_omit :: "string list"
  wo_batchSize :: int
  wo_conflict :: "conflict_spec option"
  wo_version :: "goany option"

type_synonym write_option = "write_options \<Rightarrow> write_options"

definition zero_write_options :: write_options where
  "zero_write_options = \<lparr>wo_only = [], wo_omit = [], wo_batchSize = 0, wo_conflict = None, wo_version = None\<rparr>"

definition Only :: "string list \<Rightarrow> write_option" where
  "Only fs options = options\<lparr>wo_only := wo_only options @ fs\<rparr>"

definition Omit :: "string list \<Rightarrow> write_option" where
  "Omit fs options = options\<lparr>wo_omit := wo_omit options @ fs\<rparr>"

definition BatchSize :: "int \<Rightarrow> write_option" where
  "BatchSize sz options = options\<lparr>wo_batchSize := sz\<rparr>"

definition CheckVersion :: "goany \<Rightarrow> write_option" where
  "CheckVersion v options = options\<lparr>wo_version := Some v\<rparr>"

definition conflict_DoNothing :: "string list \<Rightarrow> write_option" where
  "conflict_DoNothing fs options = options\<lparr>wo_conflict := Some (no_conflict\<lparr>conf_Columns := fs, conf_DoNothing := True\<rparr>)\<rparr>"

definition conflict_Update :: "string list \<Rightarrow> string list \<Rightarrow> write_option" where
  "conflict_Update fs updates options = options\<lparr>wo_conflict := Some (no_conflict\<lparr>conf_Columns := fs, conf_Update := updates\<rparr>)\<rparr>"

definition conflict_UpdateAll :: "string list \<Rightarrow> write_option" where
  "conflict_UpdateAll fs options = options\<lparr>wo_conflict := Some (no_conflict\<lparr>conf_Columns := fs, conf_UpdateAll := True\<rparr>)\<rparr>"

definition conflict_UpdateAllExcept :: "string list \<Rightarrow> string list \<Rightarrow> write_option" where
  "conflict_UpdateAllExcept fs excepted options =
     options\<lparr>wo_conflict := Some (no_conflict\<lparr>conf_Columns := fs, conf_UpdateAll := True, conf_UpdateExcept := excepted\<rparr>)\<rparr>"

definition conflict_UpdateMap :: "string list \<Rightarrow> gomap \<Rightarrow> write_option" where
  "conflict_UpdateMap fs row options = options\<lparr>wo_conflict := Some (no_conflict\<lparr>conf_Columns := fs, conf_UpdateMap := row\<rparr>)\<rparr>"

definition applyWriteOptions :: "write_option option list \<Rightarrow> write_options" where
  "applyWriteOptions options =
     fold (\<lambda>option resolved. case option of None \<Rightarrow> resolved | Some f \<Rightarrow> f resolved) options zero_write_options"

section \<open>Batches of rows\<close>

record batch_config =
  bc_ReadSize :: int
  bc_CreateSize :: int
  bc_UpsertSize :: int

definition createBatchSize :: "batch_config \<Rightarrow> write_options \<Rightarrow> int" where
  "createBatchSize config options =
     (if 0 < wo_batchSize options then wo_batchSize options
      else if 0 < bc_CreateSize config then bc_CreateSize config
      else 1000)"

definition eachSize :: "batch_config \<Rightarrow> int" where
  "eachSize config =
     (if 0 < bc_ReadSize config then bc_ReadSize config
      else if 0 < bc_CreateSize config then bc_CreateSize config
      else if 0 < bc_UpsertSize config then bc_UpsertSize config
      else 1000)"

definition paramCappedBatchSize :: "int \<Rightarrow> int \<Rightarrow> int \<Rightarrow> int" where
  "paramCappedBatchSize columns sz maxParams =
     (if maxParams \<le> 0 \<or> columns \<le> 0 then sz
      else (let paramRows = maxParams div columns;
                paramRows' = (if paramRows \<le> 0 then 1 else paramRows)
            in if paramRows' < sz then paramRows' else sz))"

function cut_chunks :: "nat \<Rightarrow> 'a list \<Rightarrow> 'a list list" where
  "cut_chunks sz rows = (if sz = 0 \<or> rows = [] then [] else take sz rows # cut_chunks sz (drop sz rows))"
  by pat_completeness auto
termination
  by (relation "measure (\<lambda>(sz, rows). length rows)") auto

declare cut_chunks.simps [simp del]

definition chunkMapsForCreateParams :: "gomap list \<Rightarrow> int \<Rightarrow> int \<Rightarrow> gomap list list" where
  "chunkMapsForCreateParams rows sz maxParams =
     (let n = int (length rows);
          size1 = (if sz \<le> 0 \<or> n \<le> sz then n else sz);
          size2 = (case rows of [] \<Rightarrow> size1 | first # _ \<Rightarrow> paramCappedBatchSize (int (length first)) size1 maxParams)
      in if n \<le> size2 then [rows] else cut_chunks (nat size2) rows)"

definition chunkMapsForCreate :: "gomap list \<Rightarrow> int \<Rightarrow> gomap list list" where
  "chunkMapsForCreate rows sz = chunkMapsForCreateParams rows sz 30000"

definition mapsHaveSameKeys :: "gomap list \<Rightarrow> bool" where
  "mapsHaveSameKeys rows =
     (case rows of
        first # others \<Rightarrow>
          list_all (\<lambda>row. length row = length first \<and> list_all (\<lambda>key. map_of row key \<noteq> None) (keys_of first)) others
      | [] \<Rightarrow> True)"

definition requireSameMapKeys :: "gomap list \<Rightarrow> string \<Rightarrow> string \<Rightarrow> go_error option" where
  "requireSameMapKeys rows op table =
     (if list_ex (\<lambda>row. length row = 0) rows then Some (OroError op ErrInvalidArgument table [] None)
      else if \<not> mapsHaveSameKeys rows then Some (OroError op ErrInvalidArgument table [] None)
      else None)"

section \<open>Pages\<close>

record 'a page =
  pg_Items :: "'a list"
  pg_Total :: int
  pg_Page :: int
  pg_Size :: int
  pg_Pages :: int

record 'a paginator =
  pn_size :: int
  pn_counter :: "(int result) option"
  pn_items :: "(int \<Rightarrow> int \<Rightarrow> 'a list result) option"
  pn_err :: "go_error option"

definition paginator_validate :: "'a paginator \<Rightarrow> int \<Rightarrow> go_error option" where
  "paginator_validate p page =
     (case pn_err p of
        Some err \<Rightarrow> Some err
      | None \<Rightarrow>
          if pn_size p < 1 then Some (mk_field_error ''paginate'' ErrInvalidArgument ''size'')
          else if page < 1 then Some (mk_field_error ''paginate'' ErrInvalidArgument ''page'')
          else if pn_counter p = None \<or> pn_items p = None then Some (mk_error ''paginate'' ErrInvalidArgument)
          else None)"

definition pagesForTotal :: "int \<Rightarrow> int \<Rightarrow> int" where
  "pagesForTotal total_rows sz =
     (if total_rows \<le> 0 \<or> sz \<le> 0 then 0 else (let n = wrap64 (total_rows + sz - 1) in if n < 0 then - (- n div sz) else n div sz))"

definition paginator_Items :: "'a paginator \<Rightarrow> int \<Rightarrow> 'a list result" where
  "paginator_Items p page =
     (case (paginator_validate p page, pn_items p) of
        (Some err, _) \<Rightarrow> Inl err
      | (None, None) \<Rightarrow> Inl (GoPanic ''nil pointer dereference'')
      | (None, Some items) \<Rightarrow> items (pn_size p) (wrap64 ((page - 1) * pn_size p)))"

definition paginator_Total :: "'a paginator \<Rightarrow> int result" where
  "paginator_Total p =
     (case (paginator_validate p 1, pn_counter p) of
        (Some err, _) \<Rightarrow> Inl err
      | (None, None) \<Rightarrow> Inl (GoPanic ''nil pointer dereference'')
      | (None, Some counter) \<Rightarrow> counter)"

definition paginator_Pages :: "'a paginator \<Rightarrow> int result" where
  "paginator_Pages p = bind_res (paginator_Total p) (\<lambda>total. Inr (pagesForTotal total (pn_size p)))"

definition paginator_Page :: "'a paginator \<Rightarrow> int \<Rightarrow> 'a page result" where
  "paginator_Page p page =
     (case paginator_validate p page of
        Some err \<Rightarrow> Inl err
      | None \<Rightarrow>
          bind_res (paginator_Total p) (\<lambda>total.
          bind_res (paginator_Items p page) (\<lambda>items.
            Inr \<lparr>pg_Items = items, pg_Total = total, pg_Page = page, pg_Size = pn_size p,
                 pg_Pages = pagesForTotal total (pn_size p)\<rparr>)))"

definition paginateSpecError :: "list_spec \<Rightarrow> go_error option" where
  "paginateSpecError spec =
     (if spec_Limit spec \<noteq> None \<or> spec_Offset spec \<noteq> None then Some (mk_error ''paginate'' ErrInvalidQuery) else None)"

section \<open>Chunks\<close>

definition chunkSpecError :: "list_spec \<Rightarrow> go_error option" where
  "chunkSpecError spec =
     (if spec_Limit spec \<noteq> None \<or> spec_Offset spec \<noteq> None then Some (mk_error ''chunk'' ErrInvalidQuery) else None)"

definition ensureAggregateSpec :: "list_spec \<Rightarrow> go_error option" where
  "ensureAggregateSpec spec =
     (if spec_Limit spec \<noteq> None \<or> spec_Offset spec \<noteq> None then Some (mk_error ''aggregate'' ErrInvalidQuery) else None)"

definition validateChunkSpec :: "string \<Rightarrow> list_spec \<Rightarrow> bool \<Rightarrow> go_error option" where
  "validateChunkSpec op spec has_fn =
     (if \<not> has_fn then Some (mk_error op ErrInvalidArgument)
      else if (case spec_Limit spec of None \<Rightarrow> True | Some n \<Rightarrow> n < 1) then Some (mk_field_error op ErrInvalidArgument ''size'')
      else if spec_Order spec = [] then Some (mk_error op ErrOrderRequired)
      else None)"

text \<open>
  The loop of \<open>chunkMaps\<close>, which need not end: reading a chunk depends on the state of the database, and the callback
  may change it. \<open>None\<close> is the loop that does not end.
\<close>

type_synonym ('r, 's) chunk_get = "list_spec \<Rightarrow> 's \<Rightarrow> 'r list result"

type_synonym ('r, 's) chunk_fn = "'r list \<Rightarrow> 's \<Rightarrow> go_error option \<times> 's"

partial_function (option) chunk_loop ::
  "('r, 's) chunk_get \<Rightarrow> ('r, 's) chunk_fn \<Rightarrow> list_spec \<Rightarrow> int \<Rightarrow> int \<Rightarrow> 's \<Rightarrow> (go_error option \<times> 's) option" where
  "chunk_loop get fn spec limit page s =
     (case get (spec\<lparr>spec_Limit := Some limit, spec_Offset := Some (wrap64 (page * limit))\<rparr>) s of
        Inl err \<Rightarrow> Some (Some err, s)
      | Inr rows \<Rightarrow>
          if rows = [] then Some (None, s)
          else (case fst (fn rows s) of
                  Some err \<Rightarrow> Some (Some err, snd (fn rows s))
                | None \<Rightarrow>
                    if int (length rows) < limit then Some (None, snd (fn rows s))
                    else chunk_loop get fn spec limit (page + 1) (snd (fn rows s))))"

definition chunkMaps ::
  "('r, 's) chunk_get \<Rightarrow> ('r, 's) chunk_fn option \<Rightarrow> list_spec \<Rightarrow> 's \<Rightarrow> (go_error option \<times> 's) option" where
  "chunkMaps get fno spec s =
     (case (validateChunkSpec ''chunk'' spec (fno \<noteq> None), fno, spec_Limit spec) of
        (None, Some fn, Some limit) \<Rightarrow> chunk_loop get fn spec limit 0 s
      | (Some err, _, _) \<Rightarrow> Some (Some err, s)
      | _ \<Rightarrow> Some (Some (GoPanic ''nil pointer dereference''), s))"

section \<open>Checks before a query runs\<close>

text \<open>The first error of a list of join conditions and the groups inside them.\<close>

fun join_condition_error :: "join_cond \<Rightarrow> go_error option" and join_conditions_error :: "join_cond list \<Rightarrow> go_error option" where
  "join_condition_error (JoinCondition b l op r v col grp err) =
     (case err of Some e \<Rightarrow> Some e | None \<Rightarrow> join_conditions_error grp)"
| "join_conditions_error [] = None"
| "join_conditions_error (c # cs) =
     (case join_condition_error c of Some e \<Rightarrow> Some e | None \<Rightarrow> join_conditions_error cs)"

definition validateJoinConditions :: "join_cond list \<Rightarrow> go_error option" where
  "validateJoinConditions conditions = join_conditions_error conditions"

fun validateQueryJoins :: "capabilities \<Rightarrow> join_item list \<Rightarrow> go_error option" where
  "validateQueryJoins caps [] = None"
| "validateQueryJoins caps (j # js) =
     (if join_Type j = JoinFull \<and> \<not> cap_FullJoin caps then Some (mk_error ''join'' ErrUnsupported)
      else case validateJoinConditions (join_Conditions j) of
             Some err \<Rightarrow> Some err
           | None \<Rightarrow> validateQueryJoins caps js)"

definition lock_unsupported :: "string \<Rightarrow> lock_spec \<Rightarrow> go_error option" where
  "lock_unsupported dialectName lock =
     (if dialectName = ''sqlite'' \<and> \<not> lock_NoWait lock \<and> \<not> lock_SkipLocked lock then None
      else Some (mk_error ''lock'' ErrUnsupported))"

definition lock_options_error :: "capabilities \<Rightarrow> lock_spec \<Rightarrow> go_error option" where
  "lock_options_error caps lock =
     (if lock_NoWait lock \<and> \<not> cap_LockNoWait caps then Some (mk_error ''lock'' ErrUnsupported)
      else if lock_SkipLocked lock \<and> \<not> cap_LockSkipLocked caps then Some (mk_error ''lock'' ErrUnsupported)
      else None)"

definition validateQueryLock :: "bool \<Rightarrow> string \<Rightarrow> capabilities \<Rightarrow> lock_spec \<Rightarrow> go_error option" where
  "validateQueryLock inTransaction dialectName caps lock =
     (if lock_Mode lock = LockNone then None
      else if \<not> inTransaction then Some (mk_error ''lock'' ErrTransactionRequired)
      else (case lock_Mode lock of
              LockUpdate \<Rightarrow>
                if \<not> cap_LockForUpdate caps then lock_unsupported dialectName lock else lock_options_error caps lock
            | LockShare \<Rightarrow>
                if \<not> cap_LockForShare caps then lock_unsupported dialectName lock else lock_options_error caps lock
            | _ \<Rightarrow> Some (mk_error ''lock'' ErrInvalidArgument)))"

definition validateQuerySource :: "source_ast \<Rightarrow> go_error option" where
  "validateQuerySource source =
     (if src_Table source \<noteq> [] \<or> src_Query source \<noteq> None \<or> src_Raw source \<noteq> None then None
      else Some (mk_error ''source'' ErrInvalidArgument))"

section \<open>Counting\<close>

definition zero_list_spec :: list_spec where
  "zero_list_spec =
     \<lparr>spec_Connection = [], spec_ShardGroup = [], spec_Table = [], spec_Alias = [],
      spec_From = SourceAST [] [] None None, spec_ModelName = [], spec_Where = [], spec_Select = [],
      spec_SelectErr = None, spec_Joins = [], spec_Group = [], spec_Having = [], spec_Order = [], spec_Limit = None,
      spec_Offset = None, spec_Lock = \<lparr>lock_Mode = LockNone, lock_NoWait = False, lock_SkipLocked = False\<rparr>,
      spec_SkipEvents = False, spec_UsePrimary = False,
      spec_Cache = \<lparr>cache_Enabled = False, cache_TTL = 0, cache_Key = [], cache_Tags = []\<rparr>, spec_Timeout = 0,
      spec_finalized = False\<rparr>"

definition count_total :: sel_item where
  "count_total = SelectExpr ''count(*)'' ''total'' True [] None"

definition querySpecSelectAST :: "list_spec \<Rightarrow> select_ast result" where
  "querySpecSelectAST spec =
     (case BuildSelect spec of StmtSelect ast \<Rightarrow> Inr ast | _ \<Rightarrow> Inl (mk_error ''count'' ErrInvalidQuery))"

definition countQuerySpec :: "list_spec \<Rightarrow> list_spec result" where
  "countQuerySpec spec =
     (if spec_Group spec = []
      then Inr (spec\<lparr>spec_Select := [count_total], spec_Order := [], spec_Limit := None, spec_Offset := None\<rparr>)
      else bind_res
        (querySpecSelectAST (spec\<lparr>spec_Order := [], spec_Limit := None, spec_Offset := None,
           spec_Cache := spec_Cache zero_list_spec\<rparr>)) (\<lambda>ast.
        Inr (zero_list_spec\<lparr>spec_Connection := spec_Connection spec, spec_ShardGroup := spec_ShardGroup spec,
               spec_From := SourceAST [] ''oro_count_groups'' (Some ast) None, spec_Select := [count_total],
               spec_SkipEvents := spec_SkipEvents spec, spec_UsePrimary := spec_UsePrimary spec,
               spec_Cache := spec_Cache spec, spec_Timeout := spec_Timeout spec\<rparr>)))"

section \<open>The guard for raw SQL\<close>

record raw_scan =
  rs_inSingle :: bool
  rs_inDouble :: bool
  rs_escaped :: bool
  rs_seenTerminator :: bool

definition isSQLWhitespace :: "char \<Rightarrow> bool" where
  "isSQLWhitespace c \<longleftrightarrow> c \<in> {CHR '' '', CHR 0x09, CHR 0x0A, CHR 0x0D}"

text \<open>One turn of the loop; \<open>None\<close> is \<open>return true\<close>.\<close>

definition raw_scan_step :: "char \<Rightarrow> raw_scan \<Rightarrow> raw_scan option" where
  "raw_scan_step c st =
     (if rs_escaped st then Some (st\<lparr>rs_escaped := False\<rparr>)
      else if rs_inSingle st \<or> rs_inDouble st
      then (if c = CHR 0x5C then Some (st\<lparr>rs_escaped := True\<rparr>)
            else Some (st\<lparr>rs_inSingle := rs_inSingle st \<and> c \<noteq> CHR 0x27, rs_inDouble := rs_inDouble st \<and> c \<noteq> CHR 0x22\<rparr>))
      else if c = CHR 0x27 then Some (st\<lparr>rs_inSingle := True\<rparr>)
      else if c = CHR 0x22 then Some (st\<lparr>rs_inDouble := True\<rparr>)
      else if c = CHR '';'' then Some (st\<lparr>rs_seenTerminator := True\<rparr>)
      else if rs_seenTerminator st \<and> \<not> isSQLWhitespace c then None
      else Some st)"

fun raw_scan_loop :: "string \<Rightarrow> raw_scan \<Rightarrow> bool" where
  "raw_scan_loop [] st = False"
| "raw_scan_loop (c # cs) st = (case raw_scan_step c st of None \<Rightarrow> True | Some st' \<Rightarrow> raw_scan_loop cs st')"

definition hasMultipleSQLStatements :: "string \<Rightarrow> bool" where
  "hasMultipleSQLStatements sql =
     raw_scan_loop sql \<lparr>rs_inSingle = False, rs_inDouble = False, rs_escaped = False, rs_seenTerminator = False\<rparr>"

definition validateRawSQL :: "bool \<Rightarrow> string \<Rightarrow> go_error option" where
  "validateRawSQL allowRawMultiStatement sql =
     (if allowRawMultiStatement then None
      else if hasMultipleSQLStatements sql then Some (mk_error ''raw'' ErrInvalidQuery)
      else None)"

section \<open>Identifiers of created rows\<close>

definition allRowsHavePrimary :: "gomap list \<Rightarrow> string \<Rightarrow> bool" where
  "allRowsHavePrimary rows primaryColumn =
     (if primaryColumn = [] then False
      else list_all (\<lambda>row. map_get row primaryColumn \<noteq> ANil) rows \<and> 0 < length rows)"

text \<open>\<open>lastInsertID\<close> is \<open>None\<close> when the driver reports none; an identifier is an \<open>int64\<close>.\<close>

definition createdPrimaryValues :: "string \<Rightarrow> gomap list \<Rightarrow> string \<Rightarrow> (64 word) option \<Rightarrow> goany list result" where
  "createdPrimaryValues dialectName rows primaryColumn lastInsertID =
     (if allRowsHavePrimary rows primaryColumn then Inr (map (\<lambda>row. map_get row primaryColumn) rows)
      else (case lastInsertID of
              None \<Rightarrow> Inl (mk_field_error ''create'' ErrInvalidArgument primaryColumn)
            | Some i \<Rightarrow>
                if rows = [] then Inl (mk_field_error ''create'' ErrInvalidArgument primaryColumn)
                else (let startID = (if dialectName = ''sqlite'' then i - word_of_nat (length rows) + 1 else i)
                      in Inr (map (\<lambda>index. AInt64 (startID + word_of_nat index)) [0..<length rows]))))"

text \<open>
  Values that Go compares as map keys: integers of every width become their decimal text, bytes become a string, and a
  value whose type has a slice in it is not comparable and becomes \<open>nil\<close>.
\<close>

fun comparableKey :: "goany \<Rightarrow> goany" where
  "comparableKey (AInt i) = AString (itoa (sint i))"
| "comparableKey (AInt8 i) = AString (itoa (sint i))"
| "comparableKey (AInt16 i) = AString (itoa (sint i))"
| "comparableKey (AInt32 i) = AString (itoa (sint i))"
| "comparableKey (AInt64 i) = AString (itoa (sint i))"
| "comparableKey (AUint i) = AString (itoa (uint i))"
| "comparableKey (AUint8 i) = AString (itoa (uint i))"
| "comparableKey (AUint16 i) = AString (itoa (uint i))"
| "comparableKey (AUint32 i) = AString (itoa (uint i))"
| "comparableKey (AUint64 i) = AString (itoa (uint i))"
| "comparableKey (ABytes s) = AString s"
| "comparableKey (AList vs) = ANil"
| "comparableKey (AJSONCondition f ps op v) = ANil"
| "comparableKey (AFullTextExpr fs q al sc) = ANil"
| "comparableKey (ARawExpr r) = ANil"
| "comparableKey (ACondition c) = ANil"
| "comparableKey v = v"

text \<open>\<open>byKey\<close> keeps the last row of a key.\<close>

definition orderRowsByPrimary :: "gomap list \<Rightarrow> string \<Rightarrow> goany list \<Rightarrow> gomap list" where
  "orderRowsByPrimary rows primaryColumn primaryValues =
     (if length rows \<le> 1 then rows
      else (let byKey = map_of (rev (map (\<lambda>row. (comparableKey (map_get row primaryColumn), row)) rows));
                ordered = List.map_filter (\<lambda>v. byKey (comparableKey v)) primaryValues
            in if length ordered = length rows then ordered else rows))"

end
