(* ===== verification/Query_Helpers_Correct.thy ===== *)
theory Query_Helpers_Correct
  imports Query_Helpers
begin

text \<open>
  What the helpers promise: the guard for raw SQL against a reading of the text by the database, batches that keep every
  row within the limit of parameters, the loop over chunks and the pages of a table, and the order of created rows.
\<close>

section \<open>The guard for raw SQL\<close>

text \<open>
  The reference: the characters of a text that the database reads outside every quote, and whether one of them, after a
  semicolon, begins another statement.
\<close>

fun plain_chars :: "lex_config \<Rightarrow> lex_mode \<Rightarrow> string \<Rightarrow> string" where
  "plain_chars cfg m [] = []"
| "plain_chars cfg m (c # cs) = (if m = Plain then [c] else []) @ plain_chars cfg (lex_next cfg m c) cs"

definition begins_statement :: "char \<Rightarrow> bool" where
  "begins_statement c \<longleftrightarrow> \<not> isSQLWhitespace c \<and> c \<notin> {CHR '';'', CHR 0x27, CHR 0x22}"

definition second_statement :: "lex_config \<Rightarrow> string \<Rightarrow> bool" where
  "second_statement cfg sql =
     list_ex begins_statement (dropWhile (\<lambda>c. c \<noteq> CHR '';'') (plain_chars cfg Plain sql))"

text \<open>Texts on which the guard and the database agree about quotes.\<close>

definition guard_reads :: "lex_config \<Rightarrow> char \<Rightarrow> bool" where
  "guard_reads cfg c \<longleftrightarrow> (if lx_backslash cfg then c \<noteq> CHR 0x60 else c \<noteq> CHR 0x5C)"

text \<open>The mode of the database that a state of the guard stands for.\<close>

definition scan_mode :: "lex_config \<Rightarrow> raw_scan \<Rightarrow> lex_mode \<Rightarrow> bool" where
  "scan_mode cfg st m =
     (case m of
        Plain \<Rightarrow> \<not> rs_inSingle st \<and> \<not> rs_inDouble st \<and> \<not> rs_escaped st
      | InIdent \<Rightarrow> \<not> lx_backslash cfg \<and> \<not> rs_inSingle st \<and> rs_inDouble st \<and> \<not> rs_escaped st
      | InString q \<Rightarrow>
          (q = CHR 0x27 \<and> rs_inSingle st \<and> \<not> rs_inDouble st \<or>
           q = CHR 0x22 \<and> lx_dquote_strings cfg \<and> rs_inDouble st \<and> \<not> rs_inSingle st) \<and> \<not> rs_escaped st
      | InEscape q \<Rightarrow>
          lx_backslash cfg \<and>
          (q = CHR 0x27 \<and> rs_inSingle st \<and> \<not> rs_inDouble st \<or>
           q = CHR 0x22 \<and> rs_inDouble st \<and> \<not> rs_inSingle st) \<and> rs_escaped st)"

lemmas scan_simps = scan_mode_def raw_scan_step_def guard_reads_def sqlite_lex_def mysql_lex_def

lemma scan_step_quoted:
  assumes "cfg \<in> {sqlite_lex, mysql_lex}" and "guard_reads cfg c" and "scan_mode cfg st m" and "m \<noteq> Plain"
  shows "\<exists>st'. raw_scan_step c st = Some st' \<and> scan_mode cfg st' (lex_next cfg m c) \<and>
           rs_seenTerminator st' = rs_seenTerminator st"
  using assms by (cases m) (auto simp: scan_simps)

lemma scan_step_plain:
  assumes "cfg \<in> {sqlite_lex, mysql_lex}" and "guard_reads cfg c" and "scan_mode cfg st Plain"
  shows "if rs_seenTerminator st \<and> begins_statement c then raw_scan_step c st = None
         else \<exists>st'. raw_scan_step c st = Some st' \<and> scan_mode cfg st' (lex_next cfg Plain c) \<and>
           rs_seenTerminator st' = (rs_seenTerminator st \<or> c = CHR '';'')"
  using assms by (auto simp: scan_simps begins_statement_def split: if_splits)

lemma raw_scan_loop_plain_chars:
  assumes "cfg \<in> {sqlite_lex, mysql_lex}" and "list_all (guard_reads cfg) sql" and "scan_mode cfg st m"
  shows "raw_scan_loop sql st =
    list_ex begins_statement
      ((if rs_seenTerminator st then id else dropWhile (\<lambda>c. c \<noteq> CHR '';'')) (plain_chars cfg m sql))"
  using assms(2,3)
proof (induction sql arbitrary: st m)
  case Nil
  then show ?case by simp
next
  case (Cons c cs)
  from Cons.prems have reads: "guard_reads cfg c" and rest: "list_all (guard_reads cfg) cs" by simp_all
  note IH = Cons.IH [OF rest]
  show ?case
  proof (cases "m = Plain")
    case False
    from scan_step_quoted [OF assms(1) reads Cons.prems(2) False] obtain st'
      where "raw_scan_step c st = Some st'" "scan_mode cfg st' (lex_next cfg m c)"
        "rs_seenTerminator st' = rs_seenTerminator st" by blast
    with False IH show ?thesis by simp
  next
    case True
    note step = scan_step_plain [OF assms(1) reads Cons.prems(2) [unfolded True]]
    show ?thesis
    proof (cases "rs_seenTerminator st \<and> begins_statement c")
      case stop: True
      with step True show ?thesis by simp
    next
      case go: False
      with step obtain st' where st': "raw_scan_step c st = Some st'" "scan_mode cfg st' (lex_next cfg Plain c)"
        "rs_seenTerminator st' = (rs_seenTerminator st \<or> c = CHR '';'')" by auto
      have "\<not> begins_statement CHR '';''" by (simp add: begins_statement_def)
      with go True st'(1,3) IH [OF st'(2)] show ?thesis by (cases "rs_seenTerminator st") auto
    qed
  qed
qed


definition quoted_example :: string where
  "quoted_example =
     ''select '' @ [CHR 0x27] @ ''a; b'' @ [CHR 0x5C, CHR 0x27] @ ''; c'' @ [CHR 0x27] @ '';''"


definition sqlite_bypass :: string where
  "sqlite_bypass =
     ''select '' @ [CHR 0x27, CHR 0x5C, CHR 0x27] @ ''; delete from t; --'' @ [CHR 0x27]"

definition mysql_bypass :: string where
  "mysql_bypass =
     ''select '' @ [CHR 0x60, CHR 0x27, CHR 0x60] @ ''; delete from t; --'' @ [CHR 0x27]"

text \<open>
  Outside those texts the guard can be passed. SQLite reads a backslash in a string as an ordinary character, while the
  guard takes it for an escape; MySQL reads a quote inside backticks as part of a name, while the guard opens a string. Both
  texts below hold a second statement and are accepted.
\<close>

theorem raw_guard_bypassed:
  "second_statement sqlite_lex sqlite_bypass \<and> validateRawSQL False sqlite_bypass = None \<and>
   second_statement mysql_lex mysql_bypass \<and> validateRawSQL False mysql_bypass = None"
proof (intro conjI)
  show "second_statement sqlite_lex sqlite_bypass" "second_statement mysql_lex mysql_bypass"
    by code_simp+
  have "\<not> hasMultipleSQLStatements sqlite_bypass" "\<not> hasMultipleSQLStatements mysql_bypass"
    by code_simp+
  then show "validateRawSQL False sqlite_bypass = None" "validateRawSQL False mysql_bypass = None"
    by (simp_all add: validateRawSQL_def)
qed

section \<open>Chunks\<close>

lemma cut_chunks_Nil [simp]: "cut_chunks n [] = []"
  by (simp add: cut_chunks.simps)

lemma cut_chunks_step: "0 < n \<Longrightarrow> rows \<noteq> [] \<Longrightarrow> cut_chunks n rows = take n rows # cut_chunks n (drop n rows)"
  by (subst cut_chunks.simps) simp

lemma concat_cut_chunks: "0 < n \<Longrightarrow> concat (cut_chunks n rows) = rows"
proof (induction n rows rule: cut_chunks.induct)
  case (1 n rows)
  then show ?case by (cases "rows = []") (auto simp: cut_chunks_step)
qed

lemma cut_chunks_sizes: "chunk \<in> set (cut_chunks n rows) \<Longrightarrow> chunk \<noteq> [] \<and> length chunk \<le> n \<and> set chunk \<subseteq> set rows"
proof (induction n rows rule: cut_chunks.induct)
  case (1 n rows)
  show ?case
  proof (cases "n = 0 \<or> rows = []")
    case True
    with "1.prems" show ?thesis by (simp add: cut_chunks.simps [of n rows])
  next
    case False
    with "1.prems" have "chunk = take n rows \<or> chunk \<in> set (cut_chunks n (drop n rows))" by (simp add: cut_chunks_step)
    with "1.IH" False show ?thesis by (auto dest: in_set_dropD in_set_takeD)
  qed
qed

text \<open>What a callback sees of a list of chunks: all of them in order, up to the first it refuses.\<close>

fun run_chunks :: "('r, 's) chunk_fn \<Rightarrow> 'r list list \<Rightarrow> 's \<Rightarrow> go_error option \<times> 's" where
  "run_chunks fn [] s = (None, s)"
| "run_chunks fn (chunk # chunks) s =
     (case fst (fn chunk s) of
        Some err \<Rightarrow> (Some err, snd (fn chunk s))
      | None \<Rightarrow> run_chunks fn chunks (snd (fn chunk s)))"

text \<open>The rows of an unchanging table that a specification asks for.\<close>

definition limited_rows :: "list_spec \<Rightarrow> 'r list \<Rightarrow> 'r list" where
  "limited_rows spec rows =
     (let from_offset = (case spec_Offset spec of None \<Rightarrow> rows | Some i \<Rightarrow> drop (nat i) rows)
      in case spec_Limit spec of None \<Rightarrow> from_offset | Some n \<Rightarrow> take (nat n) from_offset)"

lemma chunk_loop_table:
  assumes "0 < limit" and "0 \<le> page" and "page * limit \<le> int (length rows)" and "int (length rows) < 2 ^ 63"
    and table: "\<And>sp s. get sp s = Inr (limited_rows sp rows)"
  shows "chunk_loop get fn spec limit page s =
    Some (run_chunks fn (cut_chunks (nat limit) (drop (nat (page * limit)) rows)) s)"
  using assms(2,3)
proof (induction "length rows - nat (page * limit)" arbitrary: page s rule: less_induct)
  case less
  let ?rest = "drop (nat (page * limit)) rows"
  have offset: "wrap64 (page * limit) = page * limit"
  proof (rule wrap64_id)
    have "0 \<le> page * limit" using less.prems(1) assms(1) by simp
    then show "- (2 ^ 63) \<le> page * limit" by (rule order_trans [rotated]) simp
    show "page * limit < 2 ^ 63" using less.prems(2) assms(4) by linarith
  qed
  define chunk where "chunk = take (nat limit) ?rest"
  have get: "get (spec\<lparr>spec_Limit := Some limit, spec_Offset := Some (wrap64 (page * limit))\<rparr>) s = Inr chunk"
    by (simp add: table limited_rows_def offset chunk_def)
  show ?case
  proof (cases "?rest = []")
    case True
    then show ?thesis by (subst chunk_loop.simps) (simp add: get chunk_def)
  next
    case False
    then have chunks: "cut_chunks (nat limit) ?rest = chunk # cut_chunks (nat limit) (drop (nat ((page + 1) * limit)) rows)"
      using assms(1) less.prems
      by (simp add: cut_chunks_step nat_add_distrib distrib_right add.commute chunk_def)
    have nonempty: "chunk \<noteq> []" using False assms(1) by (simp add: chunk_def)
    show ?thesis
    proof (cases "int (length chunk) < limit")
      case True
      then have "drop (nat ((page + 1) * limit)) rows = []"
        using assms(1) less.prems by (simp add: nat_add_distrib distrib_right chunk_def)
      then have "cut_chunks (nat limit) ?rest = [chunk]" using chunks by simp
      with True nonempty show ?thesis
        by (subst chunk_loop.simps) (simp add: get split: option.splits)
    next
      case full: False
      then have bound: "(page + 1) * limit \<le> int (length rows)"
        using assms(1) less.prems by (simp add: distrib_right chunk_def)
      have "length rows - nat ((page + 1) * limit) < length rows - nat (page * limit)"
        using assms(1) less.prems(1) False by (simp add: distrib_right nat_add_distrib)
      from less.hyps [OF this] bound less.prems
      have "\<And>s. chunk_loop get fn spec limit (page + 1) s =
          Some (run_chunks fn (cut_chunks (nat limit) (drop (nat ((page + 1) * limit)) rows)) s)" by simp
      with full nonempty show ?thesis
        by (subst chunk_loop.simps) (simp add: get chunks split: option.splits)
    qed
  qed
qed

text \<open>
  C28. Reading a table in chunks ends, whatever the callback does, as long as the table stays the same: the callback sees
  consecutive, non-empty pieces of at most the requested length, which together are the table, and the first error it
  returns ends the loop and is the result.
\<close>

theorem chunkMaps_visits_table:
  assumes "validateChunkSpec ''chunk'' spec True = None" and "int (length rows) < 2 ^ 63"
    and "\<And>sp s. get sp s = Inr (limited_rows sp rows)"
  shows "chunkMaps get (Some fn) spec s = Some (run_chunks fn (cut_chunks (nat (the (spec_Limit spec))) rows) s) \<and>
    concat (cut_chunks (nat (the (spec_Limit spec))) rows) = rows \<and>
    (\<forall>chunk. chunk \<in> set (cut_chunks (nat (the (spec_Limit spec))) rows) \<longrightarrow>
       chunk \<noteq> [] \<and> int (length chunk) \<le> the (spec_Limit spec))"
proof -
  from assms(1) obtain limit where limit: "spec_Limit spec = Some limit" "1 \<le> limit"
    by (auto simp: validateChunkSpec_def split: option.splits if_splits)
  then have "chunkMaps get (Some fn) spec s = chunk_loop get fn spec limit 0 s"
    using assms(1) by (simp add: chunkMaps_def)
  also have "\<dots> = Some (run_chunks fn (cut_chunks (nat limit) rows) s)"
    using chunk_loop_table [of limit 0 rows get fn spec s] limit assms(2,3) by simp
  finally show ?thesis
    using limit concat_cut_chunks [of "nat limit" rows] cut_chunks_sizes [of _ "nat limit" rows] by fastforce
qed

definition chunk_example :: list_spec where
  "chunk_example = zero_list_spec\<lparr>spec_Limit := Some 2, spec_Order := [OrderExpr ''id'' False False []]\<rparr>"

definition record_chunk :: "nat list \<Rightarrow> nat list list \<Rightarrow> go_error option \<times> nat list list" where
  "record_chunk chunk seen = (None, seen @ [chunk])"

theorem chunkMaps_visits_table_witness:
  "chunkMaps (\<lambda>sp s. Inr (limited_rows sp [1, 2, 3])) (Some record_chunk) chunk_example [] = Some (None, [[1, 2], [3]])"
proof -
  have "validateChunkSpec ''chunk'' chunk_example True = None"
    by (simp add: validateChunkSpec_def chunk_example_def zero_list_spec_def)
  from chunkMaps_visits_table [OF this, of "[1, 2, 3]" "\<lambda>sp s. Inr (limited_rows sp [1, 2, 3])" record_chunk "[]"]
  show ?thesis
    by (simp add: chunk_example_def zero_list_spec_def cut_chunks.simps record_chunk_def)
qed

section \<open>Batches\<close>

lemma paramCappedBatchSize_positive: "0 < n \<Longrightarrow> 0 < paramCappedBatchSize columns n maxParams"
  by (simp add: paramCappedBatchSize_def Let_def)

lemma paramCappedBatchSize_params:
  assumes "0 < columns" and "columns \<le> maxParams" and "k \<le> paramCappedBatchSize columns n maxParams"
  shows "k * columns \<le> maxParams"
proof -
  have "0 < maxParams div columns" using assms(1,2) by (simp add: pos_imp_zdiv_pos_iff)
  then have "k \<le> maxParams div columns"
    using assms by (auto simp: paramCappedBatchSize_def Let_def split: if_splits)
  then have "k * columns \<le> maxParams div columns * columns" using assms(1) by (intro mult_right_mono) auto
  also have "\<dots> \<le> maxParams" using assms(1) by (simp add: minus_mod_eq_div_mult [symmetric])
  finally show ?thesis .
qed

lemma requireSameMapKeys_widths:
  "requireSameMapKeys rows op table = None \<Longrightarrow> row \<in> set rows \<Longrightarrow>
     length row = length (hd rows) \<and> 0 < length row"
  by (cases rows) (auto simp: requireSameMapKeys_def mapsHaveSameKeys_def list_all_iff list_ex_iff split: if_splits)

definition batch_size :: "gomap list \<Rightarrow> int \<Rightarrow> int \<Rightarrow> int" where
  "batch_size rows n maxParams =
     paramCappedBatchSize (int (length (hd rows))) (if n \<le> 0 \<or> int (length rows) \<le> n then int (length rows) else n) maxParams"

lemma chunkMapsForCreateParams_cases:
  assumes "rows \<noteq> []"
  shows "chunkMapsForCreateParams rows n maxParams =
    (if int (length rows) \<le> batch_size rows n maxParams then [rows] else cut_chunks (nat (batch_size rows n maxParams)) rows)"
  using assms by (cases rows) (auto simp: chunkMapsForCreateParams_def batch_size_def Let_def)

lemma batch_size_positive: "rows \<noteq> [] \<Longrightarrow> 0 < batch_size rows n maxParams"
  by (auto simp: batch_size_def intro: paramCappedBatchSize_positive)

lemma batch_length:
  assumes "rows \<noteq> []" and "chunk \<in> set (chunkMapsForCreateParams rows n maxParams)"
  shows "int (length chunk) \<le> batch_size rows n maxParams" "set chunk \<subseteq> set rows"
  using assms(2) cut_chunks_sizes [of chunk "nat (batch_size rows n maxParams)" rows] batch_size_positive [OF assms(1), of n maxParams]
  by (auto simp: chunkMapsForCreateParams_cases [OF assms(1)] split: if_splits)

lemma sum_list_equal_lengths: "\<forall>row \<in> set rows. length row = k \<Longrightarrow> sum_list (map length rows) = length rows * k"
  by (induction rows) auto

lemma batch_params:
  assumes "rows \<noteq> []" and "requireSameMapKeys rows op table = None" and "int (length (hd rows)) \<le> maxParams"
    and "chunk \<in> set (chunkMapsForCreateParams rows n maxParams)"
  shows "int (sum_list (map length chunk)) \<le> maxParams"
proof -
  have columns: "\<forall>row \<in> set rows. length row = length (hd rows)"
    using requireSameMapKeys_widths [OF assms(2)] by blast
  have width: "0 < length (hd rows)"
    using requireSameMapKeys_widths [OF assms(2) hd_in_set [OF assms(1)]] by simp
  have "sum_list (map length chunk) = length chunk * length (hd rows)"
    using columns batch_length(2) [OF assms(1,4)] by (intro sum_list_equal_lengths) blast
  moreover have "int (length chunk) * int (length (hd rows)) \<le> maxParams"
    using width assms(3) batch_length(1) [OF assms(1,4)]
    by (intro paramCappedBatchSize_params) (auto simp: batch_size_def)
  ultimately show ?thesis by simp
qed


definition batch_example :: "gomap list" where
  "batch_example = map (\<lambda>i. [(''id'', AInt64 i), (''name'', AString ''x'')]) [1, 2, 3]"


section \<open>Pages\<close>

lemma length_cut_chunks: "0 < n \<Longrightarrow> length (cut_chunks n rows) = (length rows + n - 1) div n"
proof (induction n rows rule: cut_chunks.induct)
  case (1 n rows)
  show ?case
  proof (cases "rows = []")
    case False
    with 1 have "length (cut_chunks n rows) = Suc ((length rows - n + n - 1) div n)" by (simp add: cut_chunks_step)
    also have "\<dots> = (length rows + n - 1) div n"
    proof (cases "n \<le> length rows")
      case True
      then have "length rows + n - 1 = (length rows - n + n - 1) + n" using "1.prems" by simp
      then have "(length rows + n - 1) div n = (length rows - n + n - 1) div n + 1"
        using "1.prems" div_add_self2 [of n "length rows - n + n - 1"] by (simp only:)
      then show ?thesis by simp
    next
      case short: False
      have "(length rows + n - 1) div n = 1"
        using short \<open>rows \<noteq> []\<close> "1.prems" by (intro div_nat_eqI) (cases rows; simp)+
      then show ?thesis using short "1.prems" by simp
    qed
    finally show ?thesis .
  qed (use "1.prems" in simp)
qed

lemma nth_cut_chunks: "0 < n \<Longrightarrow> i < length (cut_chunks n rows) \<Longrightarrow> cut_chunks n rows ! i = take n (drop (i * n) rows)"
proof (induction i arbitrary: rows)
  case 0
  then have "rows \<noteq> []" by auto
  with 0 show ?case by (simp add: cut_chunks_step)
next
  case (Suc i)
  then have "rows \<noteq> []" by auto
  with Suc show ?case by (simp add: cut_chunks_step add.commute)
qed

text \<open>The paginator of a table that does not change.\<close>

definition table_paginator :: "int \<Rightarrow> 'a list \<Rightarrow> 'a paginator" where
  "table_paginator n rows =
     \<lparr>pn_size = n, pn_counter = Some (Inr (int (length rows))),
      pn_items = Some (\<lambda>limit offset. Inr (take (nat limit) (drop (nat offset) rows))), pn_err = None\<rparr>"

lemma pagesForTotal_chunks:
  assumes "1 \<le> n" and "int (length rows) + n < 2 ^ 63"
  shows "pagesForTotal (int (length rows)) n = int (length (cut_chunks (nat n) rows))"
proof (cases "rows = []")
  case False
  then have rows: "1 \<le> length rows" by (cases rows) auto
  have wrap: "wrap64 (int (length rows) + n - 1) = int (length rows) + n - 1"
    using assms by (intro wrap64_id) (auto intro: order_trans [of _ 0])
  have "int (length (cut_chunks (nat n) rows)) = int ((length rows + nat n - 1) div nat n)"
    using assms by (simp add: length_cut_chunks)
  also have "\<dots> = (int (length rows) + n - 1) div n"
    using assms(1) rows by (simp add: zdiv_int of_nat_diff)
  finally show ?thesis using assms(1) rows by (simp add: pagesForTotal_def wrap Let_def)
qed (simp add: pagesForTotal_def)

lemma paginator_item_page:
  assumes "1 \<le> n" and "int (length rows) + n < 2 ^ 63" and "i < length (cut_chunks (nat n) rows)"
  shows "paginator_Items (table_paginator n rows) (int i + 1) = Inr (cut_chunks (nat n) rows ! i)"
proof -
  have nth: "cut_chunks (nat n) rows ! i = take (nat n) (drop (i * nat n) rows)"
    using assms(1,3) by (intro nth_cut_chunks) auto
  have "cut_chunks (nat n) rows ! i \<noteq> []"
    using cut_chunks_sizes nth_mem [OF assms(3)] by blast
  then have "i * nat n < length rows" by (simp add: nth)
  then have "int (i * nat n) < int (length rows)" by (simp only: of_nat_less_iff)
  then have bound: "int i * n < int (length rows)" using assms(1) by simp
  have "wrap64 (int i * n) = int i * n"
    using bound assms(1,2) by (intro wrap64_id) (auto intro: order_trans [of _ 0])
  with nth assms(1) show ?thesis
    by (simp add: paginator_Items_def paginator_validate_def table_paginator_def nat_mult_distrib)
qed

text \<open>
  C30. The pages of a table are its chunks: the number of pages is the number of pieces of the page size, page \<open>k\<close> is the
  \<open>k\<close>-th piece with the right totals, and the pages together are the table. The page arithmetic does not overflow as long
  as the number of rows and the page size together fit an \<open>int64\<close>.
\<close>

theorem paginator_pages_are_chunks:
  assumes "1 \<le> n" and "int (length rows) + n < 2 ^ 63"
  shows "paginator_Pages (table_paginator n rows) = Inr (int (length (cut_chunks (nat n) rows))) \<and>
    concat (cut_chunks (nat n) rows) = rows \<and>
    (\<forall>i. i < length (cut_chunks (nat n) rows) \<longrightarrow>
       paginator_Page (table_paginator n rows) (int i + 1) =
         Inr \<lparr>pg_Items = cut_chunks (nat n) rows ! i, pg_Total = int (length rows), pg_Page = int i + 1, pg_Size = n,
              pg_Pages = int (length (cut_chunks (nat n) rows))\<rparr>)"
proof (intro conjI allI impI)
  let ?p = "table_paginator n rows"
  have count: "paginator_Total ?p = Inr (int (length rows))"
    using assms(1) by (simp add: paginator_Total_def paginator_validate_def table_paginator_def)
  note pages = pagesForTotal_chunks [OF assms]
  have sz: "pn_size ?p = n" by (simp add: table_paginator_def)
  show "paginator_Pages ?p = Inr (int (length (cut_chunks (nat n) rows)))"
    by (simp add: paginator_Pages_def count sz pages)
  show "concat (cut_chunks (nat n) rows) = rows"
    using assms(1) by (simp add: concat_cut_chunks)
  fix i
  assume "i < length (cut_chunks (nat n) rows)"
  moreover have "paginator_validate ?p (int i + 1) = None"
    using assms(1) by (simp add: paginator_validate_def table_paginator_def)
  ultimately show "paginator_Page ?p (int i + 1) =
      Inr \<lparr>pg_Items = cut_chunks (nat n) rows ! i, pg_Total = int (length rows), pg_Page = int i + 1, pg_Size = n,
           pg_Pages = int (length (cut_chunks (nat n) rows))\<rparr>"
    by (simp add: paginator_Page_def count paginator_item_page [OF assms] pages sz)
qed

theorem paginator_pages_are_chunks_witness:
  "paginator_Pages (table_paginator 2 [10, 20, 30 :: nat]) = Inr 2 \<and>
   paginator_Items (table_paginator 2 [10, 20, 30 :: nat]) 2 = Inr [30]"
proof -
  have cut: "cut_chunks 2 [10, 20, 30 :: nat] = [[10, 20], [30]]" by (simp add: cut_chunks.simps)
  show ?thesis
    using paginator_pages_are_chunks [of 2 "[10, 20, 30 :: nat]"]
    by (simp add: cut paginator_Items_def paginator_validate_def table_paginator_def wrap64_def)
qed

section \<open>Created rows\<close>

lemma map_filter_all_Some: "(\<And>x. x \<in> set xs \<Longrightarrow> f x = Some (g x)) \<Longrightarrow> List.map_filter f xs = map g xs"
  by (induction xs) (auto simp: List.map_filter_simps)

text \<open>
  Rows read back after an insert are returned in the order of the identifiers they were created with: when the rows
  found have the created identifiers, each once, the result is a rearrangement of them whose identifiers are the created
  ones in order, integers of different widths and signs compared by their value.
\<close>

theorem created_rows_in_order:
  assumes "distinct (map (\<lambda>row. comparableKey (map_get row primaryColumn)) rows)"
    and "mset (map (\<lambda>row. comparableKey (map_get row primaryColumn)) rows) = mset (map comparableKey primaryValues)"
  shows "map (\<lambda>row. comparableKey (map_get row primaryColumn)) (orderRowsByPrimary rows primaryColumn primaryValues)
           = map comparableKey primaryValues \<and>
         mset (orderRowsByPrimary rows primaryColumn primaryValues) = mset rows"
proof -
  define key where "key = (\<lambda>row. comparableKey (map_get row primaryColumn))"
  have dist: "distinct (map key rows)" and keys: "mset (map key rows) = mset (map comparableKey primaryValues)"
    using assms by (simp_all add: key_def)
  let ?byKey = "map_of (rev (map (\<lambda>row. (key row, row)) rows))"
  have found: "?byKey (key row) = Some row" if "row \<in> set rows" for row
    using that dist by (intro map_of_is_SomeI) (auto simp: rev_map [symmetric] o_def)
  define pick where "pick v = the (?byKey (comparableKey v))" for v
  have set_eq: "comparableKey ` set primaryValues = key ` set rows"
    using mset_eq_setD [OF keys] by simp
  have pick: "?byKey (comparableKey v) = Some (pick v) \<and> pick v \<in> set rows \<and> key (pick v) = comparableKey v"
    if "v \<in> set primaryValues" for v
  proof -
    from that set_eq obtain row where "row \<in> set rows" "comparableKey v = key row" by (metis imageE imageI)
    with found show ?thesis by (simp add: pick_def)
  qed
  let ?ordered = "map pick primaryValues"
  have ordered: "List.map_filter (\<lambda>v. ?byKey (comparableKey v)) primaryValues = ?ordered"
    using pick by (intro map_filter_all_Some) blast
  have key_ordered: "map key ?ordered = map comparableKey primaryValues"
    using pick by simp
  have len: "length primaryValues = length rows"
    using keys by (metis length_map size_mset)
  have "distinct (map key ?ordered)" using key_ordered dist keys by (metis mset_eq_imp_distinct_iff)
  then have "distinct ?ordered" "distinct rows" using dist by (auto simp: distinct_map dest: inj_on_imageI2)
  moreover have "set ?ordered = set rows"
  proof (rule card_subset_eq)
    show "set ?ordered \<subseteq> set rows" using pick by auto
    show "card (set ?ordered) = card (set rows)"
      by (simp only: distinct_card [OF \<open>distinct ?ordered\<close>] distinct_card [OF \<open>distinct rows\<close>] length_map len)
  qed simp
  ultimately have perm: "mset ?ordered = mset rows" by (simp only: set_eq_iff_mset_eq_distinct)
  show ?thesis
  proof (cases "length rows \<le> 1")
    case True
    have "map key rows = map comparableKey primaryValues"
      using True keys len by (cases rows; cases primaryValues) auto
    with True show ?thesis by (simp add: orderRowsByPrimary_def key_def)
  next
    case False
    then have "orderRowsByPrimary rows primaryColumn primaryValues = ?ordered"
      using ordered len by (simp add: orderRowsByPrimary_def key_def Let_def)
    with key_ordered perm show ?thesis by (simp add: key_def)
  qed
qed

definition created_example :: "gomap list" where
  "created_example = [[(''id'', AInt32 2)], [(''id'', AInt64 1)]]"

theorem created_rows_in_order_witness:
  "orderRowsByPrimary created_example ''id'' [AInt64 1, AUint8 2] = [[(''id'', AInt64 1)], [(''id'', AInt32 2)]]"
proof -
  have "distinct (map (\<lambda>row. comparableKey (map_get row ''id'')) created_example)"
    "mset (map (\<lambda>row. comparableKey (map_get row ''id'')) created_example) = mset (map comparableKey [AInt64 1, AUint8 2])"
    by (simp_all add: created_example_def map_get_def itoa_def itoa_nat.simps digit_char_def)
  from created_rows_in_order [OF this] show ?thesis
    by (simp add: created_example_def orderRowsByPrimary_def map_get_def itoa_def itoa_nat.simps digit_char_def List.map_filter_simps)
qed

end
