(* ===== verification/Nested_Set.thy ===== *)
theory Nested_Set
  imports Query_AST
begin

text \<open>
  The nested-set extension: trees kept in a table by interval bounds. The state is the table, a list of rows of which
  the tree operations see those that match the configured scope; the statements the extension issues through the query
  builder act on it by their SQL meaning, and each may fail instead, as the list of faults says. A model is the row it
  stands for: its identifier, parent, bounds and depth, and its other columns, the scope columns among them. Writes run
  in \<open>DB.Transaction\<close>, which restores the table when they fail. Bounds and depths are integers without a width, since a
  tree that overflows them has more than \<open>2 ^ 62\<close> rows.
\<close>

section \<open>Configuration and rows\<close>

record nested_config =
  nc_ParentField :: string
  nc_LeftField :: string
  nc_RightField :: string
  nc_DepthField :: string
  nc_Scope :: gomap

type_synonym nested_option = "nested_config \<Rightarrow> nested_config"

definition nested_Scope :: "gomap \<Rightarrow> nested_option" where
  "nested_Scope vs config = config\<lparr>nc_Scope := vs\<rparr>"

definition nested_FieldNames :: "string \<Rightarrow> string \<Rightarrow> string \<Rightarrow> string \<Rightarrow> nested_option" where
  "nested_FieldNames parent left right depth config =
     config\<lparr>nc_ParentField := parent, nc_LeftField := left, nc_RightField := right, nc_DepthField := depth\<rparr>"

definition default_config :: nested_config where
  "default_config =
     \<lparr>nc_ParentField = ''ParentID'', nc_LeftField = ''Lft'', nc_RightField = ''Rgt'', nc_DepthField = ''Depth'', nc_Scope = []\<rparr>"

definition resolveConfig :: "nested_option option list \<Rightarrow> nested_config" where
  "resolveConfig options =
     (let config = fold (\<lambda>opt config. case opt of None \<Rightarrow> config | Some f \<Rightarrow> f config) options default_config;
          named = (\<lambda>field default_name. if field = [] then default_name else field)
      in config\<lparr>nc_ParentField := named (nc_ParentField config) ''ParentID'',
                nc_LeftField := named (nc_LeftField config) ''Lft'',
                nc_RightField := named (nc_RightField config) ''Rgt'',
                nc_DepthField := named (nc_DepthField config) ''Depth''\<rparr>)"

record node =
  nd_ID :: "64 word"
  nd_ParentID :: "(64 word) option"
  nd_Lft :: int
  nd_Rgt :: int
  nd_Depth :: int
  nd_values :: gomap

text \<open>The conditions \<open>tree.query\<close> adds.\<close>

definition in_scope :: "nested_config \<Rightarrow> node \<Rightarrow> bool" where
  "in_scope config r \<longleftrightarrow> list_all (\<lambda>(field, v). map_of (nd_values r) field = Some v) (nc_Scope config)"

section \<open>Statements and transactions\<close>

record tree_db =
  td_rows :: "node list"
  td_faults :: "go_error option list"

type_synonym 'a tree_op = "tree_db \<Rightarrow> 'a result \<times> tree_db"

definition tree_return :: "'a \<Rightarrow> 'a tree_op" where
  "tree_return x db = (Inr x, db)"

definition tree_fail :: "go_error \<Rightarrow> 'a tree_op" where
  "tree_fail err db = (Inl err, db)"

definition tree_bind :: "'a tree_op \<Rightarrow> ('a \<Rightarrow> 'b tree_op) \<Rightarrow> 'b tree_op" where
  "tree_bind run f db = (case run db of (Inl err, db') \<Rightarrow> (Inl err, db') | (Inr x, db') \<Rightarrow> f x db')"

definition statement :: "(node list \<Rightarrow> 'a \<times> node list) \<Rightarrow> 'a tree_op" where
  "statement run db =
     (case td_faults db of
        Some err # faults \<Rightarrow> (Inl err, db\<lparr>td_faults := faults\<rparr>)
      | faults \<Rightarrow> (Inr (fst (run (td_rows db))), db\<lparr>td_rows := snd (run (td_rows db)), td_faults := tl faults\<rparr>))"

definition tree_select :: "nested_config \<Rightarrow> (node \<Rightarrow> bool) \<Rightarrow> (node list) tree_op" where
  "tree_select config P = statement (\<lambda>rows. (filter (\<lambda>r. in_scope config r \<and> P r) rows, rows))"

definition tree_first :: "nested_config \<Rightarrow> (node \<Rightarrow> bool) \<Rightarrow> (node option) tree_op" where
  "tree_first config P = statement (\<lambda>rows. (find (\<lambda>r. in_scope config r \<and> P r) rows, rows))"

definition tree_update :: "nested_config \<Rightarrow> (node \<Rightarrow> bool) \<Rightarrow> (node \<Rightarrow> node) \<Rightarrow> unit tree_op" where
  "tree_update config P f =
     statement (\<lambda>rows. ((), map (\<lambda>r. if in_scope config r \<and> P r then f r else r) rows))"

definition tree_delete :: "nested_config \<Rightarrow> (node \<Rightarrow> bool) \<Rightarrow> nat tree_op" where
  "tree_delete config P =
     statement (\<lambda>rows. (length (filter (\<lambda>r. in_scope config r \<and> P r) rows), filter (\<lambda>r. \<not> (in_scope config r \<and> P r)) rows))"

text \<open>
  An insert uses the identifier of the model, or one the database chooses when that is zero; a second row of the same
  identifier is refused by the primary key.
\<close>

definition tree_insert :: "(node list \<Rightarrow> 64 word) \<Rightarrow> node \<Rightarrow> node tree_op" where
  "tree_insert fresh model =
     tree_bind (statement (\<lambda>rows.
       (let created = model\<lparr>nd_ID := (if nd_ID model = 0 then fresh rows else nd_ID model)\<rparr>
        in if nd_ID created \<in> nd_ID ` set rows then (None, rows) else (Some created, rows @ [created]))))
     (\<lambda>created. case created of None \<Rightarrow> tree_fail (mk_error ''create'' ErrConflict) | Some row \<Rightarrow> tree_return row)"

definition tree_write :: "'a tree_op \<Rightarrow> 'a tree_op" where
  "tree_write body db =
     (case tree_bind (statement (\<lambda>rows. ((), rows))) (\<lambda>_.
             tree_bind body (\<lambda>x. tree_bind (statement (\<lambda>rows. ((), rows))) (\<lambda>_. tree_return x))) db of
        (Inl err, db') \<Rightarrow> (Inl err, db'\<lparr>td_rows := td_rows db\<rparr>)
      | (Inr x, db') \<Rightarrow> (Inr x, db'))"

section \<open>Creating nodes\<close>

definition nodeForUpdate :: "nested_config \<Rightarrow> 64 word \<Rightarrow> (node option) tree_op" where
  "nodeForUpdate config i = tree_first config (\<lambda>r. nd_ID r = i)"

definition makeGap :: "nested_config \<Rightarrow> int \<Rightarrow> int \<Rightarrow> unit tree_op" where
  "makeGap config from width =
     tree_bind (tree_update config (\<lambda>r. from \<le> nd_Rgt r) (\<lambda>r. r\<lparr>nd_Rgt := nd_Rgt r + width\<rparr>)) (\<lambda>_.
       tree_update config (\<lambda>r. from \<le> nd_Lft r) (\<lambda>r. r\<lparr>nd_Lft := nd_Lft r + width\<rparr>))"

definition maxRight :: "nested_config \<Rightarrow> int tree_op" where
  "maxRight config =
     tree_bind (tree_select config (\<lambda>r. True)) (\<lambda>rows.
       tree_return (if rows = [] then 0 else Max (nd_Rgt ` set rows)))"

definition set_scope :: "nested_config \<Rightarrow> gomap \<Rightarrow> gomap" where
  "set_scope config vs = nc_Scope config @ filter (\<lambda>(k, _). k \<notin> fst ` set (nc_Scope config)) vs"

definition prepareModel :: "nested_config \<Rightarrow> node \<Rightarrow> (64 word) option \<Rightarrow> int \<Rightarrow> int \<Rightarrow> int \<Rightarrow> node" where
  "prepareModel config model parent left right depth =
     model\<lparr>nd_ParentID := parent, nd_Lft := left, nd_Rgt := right, nd_Depth := depth,
           nd_values := set_scope config (nd_values model)\<rparr>"

definition createRoot :: "(node list \<Rightarrow> 64 word) \<Rightarrow> nested_config \<Rightarrow> node \<Rightarrow> node tree_op" where
  "createRoot fresh config model =
     tree_write (tree_bind (maxRight config) (\<lambda>right.
       tree_insert fresh (prepareModel config model None (right + 1) (right + 2) 0)))"

datatype create_mode = childLast | childFirst | siblingBefore | siblingAfter

definition create_place :: "create_mode \<Rightarrow> node \<Rightarrow> int \<times> (64 word) option \<times> int" where
  "create_place mode target =
     (case mode of
        childLast \<Rightarrow> (nd_Rgt target, Some (nd_ID target), nd_Depth target + 1)
      | childFirst \<Rightarrow> (nd_Lft target + 1, Some (nd_ID target), nd_Depth target + 1)
      | siblingBefore \<Rightarrow> (nd_Lft target, nd_ParentID target, nd_Depth target)
      | siblingAfter \<Rightarrow> (nd_Rgt target + 1, nd_ParentID target, nd_Depth target))"

definition createAtNode ::
  "(node list \<Rightarrow> 64 word) \<Rightarrow> nested_config \<Rightarrow> 64 word \<Rightarrow> node \<Rightarrow> create_mode \<Rightarrow> (node option) tree_op" where
  "createAtNode fresh config targetID model mode =
     tree_write (tree_bind (nodeForUpdate config targetID) (\<lambda>found.
       case found of
         None \<Rightarrow> tree_return None
       | Some target \<Rightarrow>
           (let (insertAt, parentID, depth) = create_place mode target in
            tree_bind (makeGap config insertAt 2) (\<lambda>_.
            tree_bind (tree_insert fresh (prepareModel config model parentID insertAt (insertAt + 1) depth)) (\<lambda>created.
              tree_return (Some created))))))"

definition nested_Create :: "(node list \<Rightarrow> 64 word) \<Rightarrow> nested_config \<Rightarrow> node \<Rightarrow> (node option) tree_op" where
  "nested_Create fresh config model =
     (case nd_ParentID model of
        None \<Rightarrow> tree_bind (createRoot fresh config model) (\<lambda>created. tree_return (Some created))
      | Some parent \<Rightarrow> createAtNode fresh config parent model childLast)"

section \<open>Moving and deleting\<close>

datatype move_mode = moveRoot | moveLastChild | moveFirstChild | moveBefore | moveAfter

definition move_place :: "move_mode \<Rightarrow> int \<Rightarrow> node \<Rightarrow> int \<times> (64 word) option \<times> int" where
  "move_place mode right target =
     (case mode of
        moveRoot \<Rightarrow> (right + 1, None, 0)
      | moveLastChild \<Rightarrow> (nd_Rgt target, Some (nd_ID target), nd_Depth target + 1)
      | moveFirstChild \<Rightarrow> (nd_Lft target + 1, Some (nd_ID target), nd_Depth target + 1)
      | moveBefore \<Rightarrow> (nd_Lft target, nd_ParentID target, nd_Depth target)
      | moveAfter \<Rightarrow> (nd_Rgt target + 1, nd_ParentID target, nd_Depth target))"

text \<open>The row of a subtree as \<open>moveSubtree\<close> computes it.\<close>

definition moved_row :: "node \<Rightarrow> int \<Rightarrow> (64 word) option \<Rightarrow> int \<Rightarrow> node \<Rightarrow> node" where
  "moved_row nd insertAt newParent newDepth r =
     r\<lparr>nd_Lft := insertAt + (nd_Lft r - nd_Lft nd), nd_Rgt := insertAt + (nd_Rgt r - nd_Lft nd),
       nd_Depth := nd_Depth r + (newDepth - nd_Depth nd),
       nd_ParentID := (if nd_ID r = nd_ID nd then newParent else nd_ParentID r)\<rparr>"

fun write_moved :: "nested_config \<Rightarrow> node \<Rightarrow> node list \<Rightarrow> unit tree_op" where
  "write_moved config nd [] = tree_return ()"
| "write_moved config nd (u # us) =
     tree_bind (tree_update config (\<lambda>r. nd_ID r = nd_ID u) (\<lambda>r.
       r\<lparr>nd_Lft := nd_Lft u, nd_Rgt := nd_Rgt u, nd_Depth := nd_Depth u,
         nd_ParentID := (if nd_ID u = nd_ID nd then nd_ParentID u else nd_ParentID r)\<rparr>)) (\<lambda>_.
     write_moved config nd us)"

definition moveSubtree :: "nested_config \<Rightarrow> node \<Rightarrow> int \<Rightarrow> (64 word) option \<Rightarrow> int \<Rightarrow> unit tree_op" where
  "moveSubtree config nd insertAt newParent newDepth =
     tree_bind (tree_select config (\<lambda>r. nd_Lft nd \<le> nd_Lft r \<and> nd_Rgt r \<le> nd_Rgt nd)) (\<lambda>models.
       if models = [] then tree_return ()
       else
         (let width = nd_Rgt nd - nd_Lft nd + 1;
              updates = map (moved_row nd insertAt newParent newDepth) (sort_key nd_Lft models)
          in tree_bind (tree_update config (\<lambda>r. nd_Rgt nd < nd_Lft r) (\<lambda>r. r\<lparr>nd_Lft := nd_Lft r - width\<rparr>)) (\<lambda>_.
             tree_bind (tree_update config (\<lambda>r. nd_Rgt nd < nd_Rgt r) (\<lambda>r. r\<lparr>nd_Rgt := nd_Rgt r - width\<rparr>)) (\<lambda>_.
             tree_bind (tree_update config (\<lambda>r. insertAt \<le> nd_Lft r) (\<lambda>r. r\<lparr>nd_Lft := nd_Lft r + width\<rparr>)) (\<lambda>_.
             tree_bind (tree_update config (\<lambda>r. insertAt \<le> nd_Rgt r) (\<lambda>r. r\<lparr>nd_Rgt := nd_Rgt r + width\<rparr>)) (\<lambda>_.
               write_moved config nd updates))))))"

definition move_to :: "nested_config \<Rightarrow> node \<Rightarrow> int \<times> (64 word) option \<times> int \<Rightarrow> unit tree_op" where
  "move_to config nd place =
     (let (at, newParent, newDepth) = place;
          width = nd_Rgt nd - nd_Lft nd + 1;
          insertAt = (if nd_Rgt nd < at then at - width else at)
      in if insertAt = nd_Lft nd then tree_return () else moveSubtree config nd insertAt newParent newDepth)"

definition move_in_tx :: "nested_config \<Rightarrow> 64 word \<Rightarrow> 64 word \<Rightarrow> move_mode \<Rightarrow> unit tree_op" where
  "move_in_tx config nodeID targetID mode =
     tree_bind (nodeForUpdate config nodeID) (\<lambda>found.
       case found of
         None \<Rightarrow> tree_return ()
       | Some nd \<Rightarrow>
           if mode = moveRoot
           then tree_bind (maxRight config) (\<lambda>right. move_to config nd (move_place moveRoot right nd))
           else tree_bind (nodeForUpdate config targetID) (\<lambda>found_target.
             case found_target of
               None \<Rightarrow> tree_return ()
             | Some target \<Rightarrow>
                 if nd_Lft nd \<le> nd_Lft target \<and> nd_Rgt target \<le> nd_Rgt nd
                 then tree_fail (mk_error ''nestedset.move'' ErrInvalidArgument)
                 else move_to config nd (move_place mode 0 target)))"

definition nested_move :: "nested_config \<Rightarrow> 64 word \<Rightarrow> 64 word \<Rightarrow> move_mode \<Rightarrow> unit tree_op" where
  "nested_move config nodeID targetID mode = tree_write (move_in_tx config nodeID targetID mode)"

definition DeleteSubtree :: "nested_config \<Rightarrow> 64 word \<Rightarrow> nat tree_op" where
  "DeleteSubtree config nodeID =
     tree_write (tree_bind (nodeForUpdate config nodeID) (\<lambda>found.
       case found of
         None \<Rightarrow> tree_return 0
       | Some nd \<Rightarrow>
           (let width = nd_Rgt nd - nd_Lft nd + 1 in
            tree_bind (tree_delete config (\<lambda>r. nd_Lft nd \<le> nd_Lft r \<and> nd_Rgt r \<le> nd_Rgt nd)) (\<lambda>deleted.
            tree_bind (tree_update config (\<lambda>r. nd_Rgt nd < nd_Lft r) (\<lambda>r. r\<lparr>nd_Lft := nd_Lft r - width\<rparr>)) (\<lambda>_.
            tree_bind (tree_update config (\<lambda>r. nd_Rgt nd < nd_Rgt r) (\<lambda>r. r\<lparr>nd_Rgt := nd_Rgt r - width\<rparr>)) (\<lambda>_.
              tree_return deleted))))))"

definition uint64FromAny :: "goany \<Rightarrow> (64 word) result" where
  "uint64FromAny v =
     (let negative = Inl (mk_error ''nestedset'' ErrInvalidArgument);
          signed = (\<lambda>i. if i < 0 then negative else Inr (word_of_int i))
      in case v of
           ANil \<Rightarrow> Inr 0
         | AInt i \<Rightarrow> signed (sint i) | AInt8 i \<Rightarrow> signed (sint i) | AInt16 i \<Rightarrow> signed (sint i)
         | AInt32 i \<Rightarrow> signed (sint i) | AInt64 i \<Rightarrow> signed (sint i)
         | AUint i \<Rightarrow> Inr i | AUint8 i \<Rightarrow> Inr (word_of_int (uint i)) | AUint16 i \<Rightarrow> Inr (word_of_int (uint i))
         | AUint32 i \<Rightarrow> Inr (word_of_int (uint i)) | AUint64 i \<Rightarrow> Inr i
         | _ \<Rightarrow> Inl (mk_error ''nestedset'' ErrInvalidArgument))"

definition UpdateValues_parent :: "nested_config \<Rightarrow> gomap \<Rightarrow> node \<Rightarrow> (64 word) option result" where
  "UpdateValues_parent config vs current =
     (case map_of vs (nc_ParentField config) of
        None \<Rightarrow> Inr (nd_ParentID current)
      | Some v \<Rightarrow> bind_res (uint64FromAny v) (\<lambda>parent. Inr (if v = ANil then None else Some parent)))"

definition cleanUpdateValues :: "nested_config \<Rightarrow> gomap \<Rightarrow> gomap" where
  "cleanUpdateValues config vs =
     filter (\<lambda>(k, _). k \<notin> {nc_ParentField config, nc_LeftField config, nc_RightField config, nc_DepthField config} \<and>
        k \<notin> fst ` set (nc_Scope config)) vs"

text \<open>An update of other columns; the column of a field is the field.\<close>

definition set_values :: "gomap \<Rightarrow> node \<Rightarrow> node" where
  "set_values vs r = r\<lparr>nd_values := vs @ filter (\<lambda>(k, _). k \<notin> fst ` set vs) (nd_values r)\<rparr>"

definition nested_UpdateValues :: "nested_config \<Rightarrow> 64 word \<Rightarrow> gomap \<Rightarrow> unit tree_op" where
  "nested_UpdateValues config nodeID vs =
     tree_write (tree_bind (nodeForUpdate config nodeID) (\<lambda>found.
       case found of
         None \<Rightarrow> tree_return ()
       | Some current \<Rightarrow>
           (case UpdateValues_parent config vs current of
              Inl err \<Rightarrow> tree_fail err
            | Inr nextParent \<Rightarrow>
                tree_bind
                  (if cleanUpdateValues config vs = [] then tree_return ()
                   else tree_update config (\<lambda>r. nd_ID r = nodeID) (set_values (cleanUpdateValues config vs))) (\<lambda>_.
                if nd_ParentID current = nextParent then tree_return ()
                else (case nextParent of
                        Some parent \<Rightarrow> nested_move config nodeID parent moveLastChild
                      | None \<Rightarrow> nested_move config nodeID 0 moveRoot)))))"

section \<open>Reading the tree\<close>

definition tree_sorted :: "nested_config \<Rightarrow> (node \<Rightarrow> bool) \<Rightarrow> (node list) tree_op" where
  "tree_sorted config P = tree_bind (tree_select config P) (\<lambda>rows. tree_return (sort_key nd_Lft rows))"

definition with_node :: "nested_config \<Rightarrow> 64 word \<Rightarrow> 'a \<Rightarrow> (node \<Rightarrow> 'a tree_op) \<Rightarrow> 'a tree_op" where
  "with_node config i missing f =
     tree_bind (tree_first config (\<lambda>r. nd_ID r = i)) (\<lambda>found. case found of None \<Rightarrow> tree_return missing | Some nd \<Rightarrow> f nd)"

definition nested_Roots :: "nested_config \<Rightarrow> (node list) tree_op" where
  "nested_Roots config = tree_sorted config (\<lambda>r. nd_ParentID r = None)"

definition nested_All :: "nested_config \<Rightarrow> (node list) tree_op" where
  "nested_All config = tree_sorted config (\<lambda>r. True)"

definition nested_Children :: "nested_config \<Rightarrow> 64 word \<Rightarrow> (node list) tree_op" where
  "nested_Children config i = tree_sorted config (\<lambda>r. nd_ParentID r = Some i)"

definition nested_Ancestors :: "nested_config \<Rightarrow> 64 word \<Rightarrow> (node list) tree_op" where
  "nested_Ancestors config i =
     with_node config i [] (\<lambda>nd. tree_sorted config (\<lambda>r. nd_Lft r < nd_Lft nd \<and> nd_Rgt nd < nd_Rgt r))"

definition nested_AncestorsAndSelf :: "nested_config \<Rightarrow> 64 word \<Rightarrow> (node list) tree_op" where
  "nested_AncestorsAndSelf config i =
     with_node config i [] (\<lambda>nd. tree_sorted config (\<lambda>r. nd_Lft r \<le> nd_Lft nd \<and> nd_Rgt nd \<le> nd_Rgt r))"

definition nested_Descendants :: "nested_config \<Rightarrow> 64 word \<Rightarrow> (node list) tree_op" where
  "nested_Descendants config i =
     with_node config i [] (\<lambda>nd. tree_sorted config (\<lambda>r. nd_Lft nd < nd_Lft r \<and> nd_Rgt r < nd_Rgt nd))"

definition FlatSubtree :: "nested_config \<Rightarrow> 64 word \<Rightarrow> (node list) tree_op" where
  "FlatSubtree config i =
     with_node config i [] (\<lambda>nd. tree_sorted config (\<lambda>r. nd_Lft nd \<le> nd_Lft r \<and> nd_Rgt r \<le> nd_Rgt nd))"

definition nested_Siblings :: "nested_config \<Rightarrow> 64 word \<Rightarrow> (node list) tree_op" where
  "nested_Siblings config i =
     with_node config i [] (\<lambda>nd. tree_sorted config (\<lambda>r. nd_ID r \<noteq> nd_ID nd \<and> nd_ParentID r = nd_ParentID nd))"

definition descendantsWithinDepth :: "nested_config \<Rightarrow> 64 word \<Rightarrow> int \<Rightarrow> bool \<Rightarrow> (node list) tree_op" where
  "descendantsWithinDepth config i maxDepth includeSelf =
     (if maxDepth < 0 then tree_fail (mk_field_error ''nestedset.descendants'' ErrInvalidArgument ''depth'')
      else with_node config i [] (\<lambda>nd.
        if includeSelf
        then tree_sorted config (\<lambda>r. nd_Lft nd \<le> nd_Lft r \<and> nd_Rgt r \<le> nd_Rgt nd \<and> nd_Depth nd \<le> nd_Depth r \<and>
               nd_Depth r \<le> nd_Depth nd + maxDepth)
        else tree_sorted config (\<lambda>r. nd_Lft nd < nd_Lft r \<and> nd_Rgt r < nd_Rgt nd \<and> nd_Depth nd + 1 \<le> nd_Depth r \<and>
               nd_Depth r \<le> nd_Depth nd + maxDepth)))"

definition descendantsAtDepth :: "nested_config \<Rightarrow> 64 word \<Rightarrow> int \<Rightarrow> bool \<Rightarrow> (node list) tree_op" where
  "descendantsAtDepth config i depth includeSelf =
     (if depth < 0 then tree_fail (mk_field_error ''nestedset.descendants'' ErrInvalidArgument ''depth'')
      else with_node config i [] (\<lambda>nd.
        if depth = 0 \<and> \<not> includeSelf then tree_return []
        else if includeSelf
        then tree_sorted config (\<lambda>r. nd_Lft nd \<le> nd_Lft r \<and> nd_Rgt r \<le> nd_Rgt nd \<and> nd_Depth r = nd_Depth nd + depth)
        else tree_sorted config (\<lambda>r. nd_Lft nd < nd_Lft r \<and> nd_Rgt r < nd_Rgt nd \<and> nd_Depth r = nd_Depth nd + depth)))"

definition PrevSibling :: "nested_config \<Rightarrow> 64 word \<Rightarrow> (node option) tree_op" where
  "PrevSibling config i =
     with_node config i None (\<lambda>nd.
       tree_bind (tree_select config (\<lambda>r. nd_ID r \<noteq> nd_ID nd \<and> nd_Rgt r < nd_Lft nd \<and> nd_ParentID r = nd_ParentID nd)) (\<lambda>rows.
         tree_return (case rev (sort_key nd_Rgt rows) of [] \<Rightarrow> None | r # _ \<Rightarrow> Some r)))"

definition NextSibling :: "nested_config \<Rightarrow> 64 word \<Rightarrow> (node option) tree_op" where
  "NextSibling config i =
     with_node config i None (\<lambda>nd.
       tree_bind (tree_select config (\<lambda>r. nd_ID r \<noteq> nd_ID nd \<and> nd_Rgt nd < nd_Lft r \<and> nd_ParentID r = nd_ParentID nd)) (\<lambda>rows.
         tree_return (case sort_key nd_Lft rows of [] \<Rightarrow> None | r # _ \<Rightarrow> Some r)))"

definition MoveUp :: "nested_config \<Rightarrow> 64 word \<Rightarrow> unit tree_op" where
  "MoveUp config i =
     tree_bind (PrevSibling config i) (\<lambda>prev.
       case prev of None \<Rightarrow> tree_return () | Some r \<Rightarrow> nested_move config i (nd_ID r) moveBefore)"

definition MoveDown :: "nested_config \<Rightarrow> 64 word \<Rightarrow> unit tree_op" where
  "MoveDown config i =
     tree_bind (NextSibling config i) (\<lambda>found.
       case found of None \<Rightarrow> tree_return () | Some r \<Rightarrow> nested_move config i (nd_ID r) moveAfter)"

definition nested_IsRoot :: "nested_config \<Rightarrow> 64 word \<Rightarrow> bool tree_op" where
  "nested_IsRoot config i = with_node config i False (\<lambda>nd. tree_return (nd_ParentID nd = None))"

definition nested_IsLeaf :: "nested_config \<Rightarrow> 64 word \<Rightarrow> bool tree_op" where
  "nested_IsLeaf config i = with_node config i False (\<lambda>nd. tree_return (nd_Rgt nd - nd_Lft nd = 1))"

definition IsAncestorOf :: "nested_config \<Rightarrow> 64 word \<Rightarrow> 64 word \<Rightarrow> bool tree_op" where
  "IsAncestorOf config ancestorID nodeID =
     with_node config ancestorID False (\<lambda>a. with_node config nodeID False (\<lambda>nd.
       tree_return (nd_Lft a < nd_Lft nd \<and> nd_Rgt nd < nd_Rgt a)))"

text \<open>
  \<open>DescendantsWithDepth\<close> reads the depth of the node it found; \<open>descendants\<close> returns a nil node and no error for an
  unknown identifier, and the field access then panics.
\<close>

definition DescendantsWithDepth :: "nested_config \<Rightarrow> 64 word \<Rightarrow> bool \<Rightarrow> ((node \<times> int) list) tree_op" where
  "DescendantsWithDepth config i includeSelf =
     tree_bind (tree_first config (\<lambda>r. nd_ID r = i)) (\<lambda>found.
       case found of
         None \<Rightarrow> tree_fail (GoPanic ''nil pointer dereference'')
       | Some nd \<Rightarrow>
           tree_bind (if includeSelf then tree_sorted config (\<lambda>r. nd_Lft nd \<le> nd_Lft r \<and> nd_Rgt r \<le> nd_Rgt nd)
                      else tree_sorted config (\<lambda>r. nd_Lft nd < nd_Lft r \<and> nd_Rgt r < nd_Rgt nd)) (\<lambda>models.
             tree_return (map (\<lambda>r. (r, nd_Depth r - nd_Depth nd)) models)))"

section \<open>Checking the tree\<close>

record check_result =
  cr_Valid :: bool
  cr_Errors :: "string list"
  cr_NodeCount :: int
  cr_RootCount :: int
  cr_MaxRight :: int
  cr_Missing :: "int list"
  cr_Duplicated :: "int list"
  cr_InvalidRows :: int

definition invalid_row :: "node \<Rightarrow> bool" where
  "invalid_row r \<longleftrightarrow> nd_Lft r \<le> 0 \<or> nd_Rgt r \<le> 0 \<or> nd_Rgt r \<le> nd_Lft r \<or> even (nd_Rgt r - nd_Lft r)"

definition seen_count :: "node list \<Rightarrow> int \<Rightarrow> nat" where
  "seen_count rows v = length (filter (\<lambda>r. nd_Lft r = v) rows) + length (filter (\<lambda>r. nd_Rgt r = v) rows)"

text \<open>The complaint about the parent of a row.\<close>

definition parent_error :: "node list \<Rightarrow> node \<Rightarrow> string list" where
  "parent_error rows r =
     (case nd_ParentID r of
        None \<Rightarrow> []
      | Some p \<Rightarrow>
          (case find (\<lambda>b. nd_ID b = p) rows of
             None \<Rightarrow> [''node '' @ itoa (uint (nd_ID r)) @ '' parent '' @ itoa (uint p) @ '' missing'']
           | Some b \<Rightarrow>
               if nd_Lft b < nd_Lft r \<and> nd_Rgt r < nd_Rgt b \<and> nd_Depth b + 1 = nd_Depth r then []
               else [''node '' @ itoa (uint (nd_ID r)) @ '' parent bounds invalid'']))"

definition check_rows :: "node list \<Rightarrow> check_result" where
  "check_rows rows =
     (let n = int (length rows);
          right = fold (\<lambda>r m. if m < nd_Rgt r then nd_Rgt r else m) rows 0;
          invalid = length (filter invalid_row rows);
          missing = filter (\<lambda>v. seen_count rows v = 0) [1..2 * n];
          duplicated = filter (\<lambda>v. 1 < seen_count rows v) [1..2 * n];
          errors = concat (map (parent_error rows) rows) @
            (if 0 < n \<and> right \<noteq> 2 * n then [''max right does not match node count''] else [])
      in \<lparr>cr_Valid = (invalid = 0 \<and> missing = [] \<and> duplicated = [] \<and> errors = []), cr_Errors = errors, cr_NodeCount = n,
          cr_RootCount = int (length (filter (\<lambda>r. nd_ParentID r = None) rows)), cr_MaxRight = right,
          cr_Missing = missing, cr_Duplicated = duplicated, cr_InvalidRows = int invalid\<rparr>)"

definition nested_Check :: "nested_config \<Rightarrow> check_result tree_op" where
  "nested_Check config = tree_bind (nested_All config) (\<lambda>models. tree_return (check_rows models))"

end
