(* ===== verification/Nested_Intervals.thy ===== *)
theory Nested_Intervals
  imports Nested_Set
begin

text \<open>
  The geometry of nested sets, apart from statements and tables: what it means for the bounds of a set of rows to
  describe a forest, and that the three movements of the extension keep it: renumbering by a monotone function, taking a
  subtree out and closing the gap, and opening a gap and putting a block into it.
\<close>

section \<open>Forests by bounds\<close>

definition encloses :: "node \<Rightarrow> node \<Rightarrow> bool" where
  "encloses a b \<longleftrightarrow> nd_Lft a < nd_Lft b \<and> nd_Rgt b < nd_Rgt a"

definition apart :: "node \<Rightarrow> node \<Rightarrow> bool" where
  "apart a b \<longleftrightarrow> nd_Rgt a < nd_Lft b \<or> nd_Rgt b < nd_Lft a"

definition endpoints :: "node set \<Rightarrow> int set" where
  "endpoints N = (\<Union>a \<in> N. {nd_Lft a, nd_Rgt a})"

text \<open>Rows with distinct identifiers whose intervals are disjoint or strictly nested.\<close>

definition intervals :: "node set \<Rightarrow> bool" where
  "intervals N \<longleftrightarrow> finite N \<and> inj_on nd_ID N \<and> (\<forall>a \<in> N. nd_Lft a < nd_Rgt a) \<and>
     (\<forall>a \<in> N. \<forall>b \<in> N. a \<noteq> b \<longrightarrow> apart a b \<or> encloses a b \<or> encloses b a)"

text \<open>The smallest interval around \<open>a\<close> is that of \<open>b\<close>.\<close>

definition innermost :: "node set \<Rightarrow> node \<Rightarrow> node \<Rightarrow> bool" where
  "innermost N b a \<longleftrightarrow> b \<in> N \<and> encloses b a \<and> (\<forall>c \<in> N. encloses c a \<longrightarrow> c = b \<or> encloses c b)"

definition sits_under :: "node \<Rightarrow> node \<Rightarrow> bool" where
  "sits_under a b \<longleftrightarrow> nd_ParentID a = Some (nd_ID b) \<and> nd_Depth a = nd_Depth b + 1"

text \<open>The parent and the depth of a row are those its bounds say.\<close>

definition placed :: "node set \<Rightarrow> node \<Rightarrow> bool" where
  "placed N a \<longleftrightarrow>
     (nd_ParentID a = None \<and> nd_Depth a = 0 \<and> (\<forall>c \<in> N. \<not> encloses c a)) \<or> (\<exists>b. innermost N b a \<and> sits_under a b)"

definition nested :: "node set \<Rightarrow> bool" where
  "nested N \<longleftrightarrow> intervals N \<and> (\<forall>a \<in> N. placed N a) \<and> endpoints N = {1..2 * int (card N)}"

lemma intervalsD:
  assumes "intervals N"
  shows "finite N" "inj_on nd_ID N" "\<And>a. a \<in> N \<Longrightarrow> nd_Lft a < nd_Rgt a"
    "\<And>a b. a \<in> N \<Longrightarrow> b \<in> N \<Longrightarrow> a = b \<or> apart a b \<or> encloses a b \<or> encloses b a"
  using assms by (auto simp: intervals_def)

lemma intervals_subset: "intervals N \<Longrightarrow> M \<subseteq> N \<Longrightarrow> intervals M"
  by (auto simp: intervals_def subset_iff intro: finite_subset inj_on_subset)

lemma encloses_trans: "encloses a b \<Longrightarrow> encloses b c \<Longrightarrow> encloses a c"
  by (auto simp: encloses_def)

lemma endpoints_distinct:
  assumes "intervals N" and "a \<in> N" and "b \<in> N" and "a \<noteq> b"
  shows "nd_Lft a \<noteq> nd_Lft b" "nd_Rgt a \<noteq> nd_Rgt b" "nd_Lft a \<noteq> nd_Rgt b" "nd_Rgt a \<noteq> nd_Lft b"
  using intervalsD(3) [OF assms(1,2)] intervalsD(3) [OF assms(1,3)] intervalsD(4) [OF assms(1-3)] assms(4)
  unfolding apart_def encloses_def by linarith+

lemma apart_sym: "apart a b \<Longrightarrow> apart b a"
  by (auto simp: apart_def)

lemma card_endpoints:
  assumes "intervals N"
  shows "card (endpoints N) = 2 * card N"
proof -
  have "card (endpoints N) = (\<Sum>a \<in> N. card {nd_Lft a, nd_Rgt a})"
    unfolding endpoints_def
  proof (rule card_UN_disjoint)
    show "\<forall>a \<in> N. \<forall>b \<in> N. a \<noteq> b \<longrightarrow> {nd_Lft a, nd_Rgt a} \<inter> {nd_Lft b, nd_Rgt b} = {}"
      using endpoints_distinct [OF assms] by blast
  qed (use intervalsD(1) [OF assms] in auto)
  also have "\<dots> = (\<Sum>a \<in> N. 2)"
    using intervalsD(3) [OF assms] by (intro sum.cong) fastforce+
  finally show ?thesis by simp
qed

lemma endpoints_Un: "endpoints (M \<union> N) = endpoints M \<union> endpoints N"
  by (auto simp: endpoints_def)

section \<open>Renumbering\<close>

definition relabel :: "(int \<Rightarrow> int) \<Rightarrow> node \<Rightarrow> node" where
  "relabel f a = a\<lparr>nd_Lft := f (nd_Lft a), nd_Rgt := f (nd_Rgt a)\<rparr>"

lemma relabel_simps [simp]:
  "nd_ID (relabel f a) = nd_ID a" "nd_ParentID (relabel f a) = nd_ParentID a" "nd_Depth (relabel f a) = nd_Depth a"
  "nd_Lft (relabel f a) = f (nd_Lft a)" "nd_Rgt (relabel f a) = f (nd_Rgt a)" "nd_values (relabel f a) = nd_values a"
  by (simp_all add: relabel_def)

definition monotone_at :: "(int \<Rightarrow> int) \<Rightarrow> int set \<Rightarrow> bool" where
  "monotone_at f X \<longleftrightarrow> (\<forall>x \<in> X. \<forall>y \<in> X. x < y \<longleftrightarrow> f x < f y)"

lemma relabel_encloses:
  assumes "monotone_at f (endpoints N)" and "a \<in> N" and "b \<in> N"
  shows "encloses (relabel f a) (relabel f b) \<longleftrightarrow> encloses a b" "apart (relabel f a) (relabel f b) \<longleftrightarrow> apart a b"
  using assms by (auto simp: encloses_def apart_def monotone_at_def endpoints_def)

lemma relabel_inj: "inj_on nd_ID N \<Longrightarrow> inj_on (relabel f) N"
  by (rule inj_on_imageI2 [of nd_ID]) (simp add: inj_on_def)

lemma relabel_intervals:
  assumes "intervals N" and "monotone_at f (endpoints N)"
  shows "intervals (relabel f ` N)"
  unfolding intervals_def
proof (intro conjI ballI impI)
  show "inj_on nd_ID (relabel f ` N)" using intervalsD(2) [OF assms(1)] by (auto simp: inj_on_def)
  fix a assume "a \<in> relabel f ` N"
  then show "nd_Lft a < nd_Rgt a"
    using intervalsD(3) [OF assms(1)] assms(2) by (fastforce simp: monotone_at_def endpoints_def)
next
  fix a b assume "a \<in> relabel f ` N" "b \<in> relabel f ` N" "a \<noteq> b"
  then obtain a' b' where "a = relabel f a'" "b = relabel f b'" "a' \<in> N" "b' \<in> N" "a' \<noteq> b'" by auto
  then show "apart a b \<or> encloses a b \<or> encloses b a"
    using intervalsD(4) [OF assms(1), of a' b'] relabel_encloses [OF assms(2)] by simp
qed (use intervalsD(1) [OF assms(1)] in simp)

lemma relabel_placed:
  assumes "monotone_at f (endpoints N)" and "a \<in> N" and "placed N a"
  shows "placed (relabel f ` N) (relabel f a)"
proof -
  have inner: "innermost (relabel f ` N) (relabel f b) (relabel f a)" if "innermost N b a" for b
    using that assms(1,2) relabel_encloses(1) [OF assms(1)] by (auto simp: innermost_def)
  from assms(3) show ?thesis
    unfolding placed_def
  proof (elim disjE exE conjE)
    fix b assume "innermost N b a" "sits_under a b"
    with inner show "(nd_ParentID (relabel f a) = None \<and> nd_Depth (relabel f a) = 0 \<and> (\<forall>c \<in> relabel f ` N. \<not> encloses c (relabel f a))) \<or>
        (\<exists>b. innermost (relabel f ` N) b (relabel f a) \<and> sits_under (relabel f a) b)"
      by (intro disjI2 exI [of _ "relabel f b"]) (simp add: sits_under_def)
  qed (use assms(1,2) relabel_encloses(1) [OF assms(1)] in auto)
qed

lemma relabel_endpoints: "endpoints (relabel f ` N) = f ` endpoints N"
  by (auto simp: endpoints_def)

section \<open>Subtrees\<close>

definition subtree :: "node set \<Rightarrow> node \<Rightarrow> node set" where
  "subtree N nd = {a \<in> N. nd_Lft nd \<le> nd_Lft a \<and> nd_Rgt a \<le> nd_Rgt nd}"

definition outside :: "node set \<Rightarrow> node \<Rightarrow> node set" where
  "outside N nd = N - subtree N nd"

lemma subtree_iff:
  assumes "intervals N" and "nd \<in> N" and "a \<in> N"
  shows "a \<in> subtree N nd \<longleftrightarrow> a = nd \<or> encloses nd a"
proof (cases "a = nd")
  case False
  with endpoints_distinct [OF assms(1,3,2)] show ?thesis
    using assms(3) by (auto simp: subtree_def encloses_def order_le_less)
qed (use assms in \<open>simp add: subtree_def\<close>)

lemma subtree_self: "nd \<in> N \<Longrightarrow> nd \<in> subtree N nd"
  by (simp add: subtree_def)

lemma outside_cases:
  assumes "intervals N" and "nd \<in> N" and "a \<in> outside N nd"
  shows "apart a nd \<or> encloses a nd"
  using assms subtree_iff [OF assms(1,2), of a] intervalsD(4) [OF assms(1), of a nd] by (auto simp: outside_def)

lemma outside_endpoints:
  assumes "intervals N" and "nd \<in> N" and "x \<in> endpoints (outside N nd)"
  shows "x < nd_Lft nd \<or> nd_Rgt nd < x"
proof -
  from assms(3) obtain a where a: "a \<in> outside N nd" "x = nd_Lft a \<or> x = nd_Rgt a" by (auto simp: endpoints_def)
  then have "a \<in> N" by (simp add: outside_def)
  with outside_cases [OF assms(1,2) a(1)] intervalsD(3) [OF assms(1)] assms(2) a(2) show ?thesis
    unfolding apart_def encloses_def by (smt (verit))
qed

lemma split_subtree: "nd \<in> N \<Longrightarrow> N = outside N nd \<union> subtree N nd" "outside N nd \<inter> subtree N nd = {}"
  by (auto simp: outside_def subtree_def)

lemma subtree_endpoints:
  assumes "nested N" and "nd \<in> N"
  shows "endpoints (subtree N nd) = {nd_Lft nd..nd_Rgt nd}"
proof
  note iv = assms(1) [unfolded nested_def, THEN conjunct1]
  show "endpoints (subtree N nd) \<subseteq> {nd_Lft nd..nd_Rgt nd}"
  proof
    fix x assume "x \<in> endpoints (subtree N nd)"
    then obtain a where "a \<in> subtree N nd" "x = nd_Lft a \<or> x = nd_Rgt a" by (auto simp: endpoints_def)
    with intervalsD(3) [OF iv, of a] show "x \<in> {nd_Lft nd..nd_Rgt nd}" by (auto simp: subtree_def)
  qed
  have "{nd_Lft nd, nd_Rgt nd} \<subseteq> endpoints N" using assms(2) by (auto simp: endpoints_def)
  then have "{nd_Lft nd..nd_Rgt nd} \<subseteq> endpoints N" using assms(1) by (auto simp: nested_def)
  also have "\<dots> = endpoints (outside N nd) \<union> endpoints (subtree N nd)"
    using split_subtree(1) [OF assms(2)] endpoints_Un by metis
  finally show "{nd_Lft nd..nd_Rgt nd} \<subseteq> endpoints (subtree N nd)"
    using outside_endpoints [OF iv assms(2)] by fastforce
qed

lemma subtree_width:
  assumes "nested N" and "nd \<in> N"
  shows "nd_Rgt nd - nd_Lft nd + 1 = 2 * int (card (subtree N nd))"
proof -
  have iv: "intervals N" using assms(1) by (simp add: nested_def)
  have "card (endpoints (subtree N nd)) = 2 * card (subtree N nd)"
    by (rule card_endpoints [OF intervals_subset [OF iv]]) (auto simp: subtree_def)
  moreover have "card {nd_Lft nd..nd_Rgt nd} = nat (nd_Rgt nd - nd_Lft nd + 1)" by simp
  ultimately show ?thesis
    using subtree_endpoints [OF assms] intervalsD(3) [OF iv assms(2)] by simp
qed

text \<open>
  A block: a tree that stands by itself from a given position on. The place of its root is left open.
\<close>

definition block :: "node set \<Rightarrow> node \<Rightarrow> int \<Rightarrow> bool" where
  "block B rt pos \<longleftrightarrow> intervals B \<and> rt \<in> B \<and> nd_Lft rt = pos \<and> endpoints B = {pos..nd_Rgt rt} \<and>
     (\<forall>a \<in> B. a \<noteq> rt \<longrightarrow> encloses rt a \<and> (\<exists>b. innermost B b a \<and> sits_under a b))"

lemma placed_subtree:
  assumes "nested N" and "nd \<in> N" and "a \<in> subtree N nd" and "a \<noteq> nd"
  shows "encloses nd a \<and> (\<exists>b. innermost (subtree N nd) b a \<and> sits_under a b)"
proof -
  have iv: "intervals N" using assms(1) by (simp add: nested_def)
  have a: "a \<in> N" using assms(3) by (simp add: subtree_def)
  with assms subtree_iff [OF iv assms(2) a] have enc: "encloses nd a" by simp
  have "placed N a" using assms(1) a by (simp add: nested_def)
  with enc assms(2) obtain b where b: "innermost N b a" "sits_under a b" by (auto simp: placed_def)
  then have "b = nd \<or> encloses nd b" using enc assms(2) by (auto simp: innermost_def)
  with subtree_iff [OF iv assms(2)] b(1) have "b \<in> subtree N nd" by (auto simp: innermost_def)
  with b have "innermost (subtree N nd) b a" by (auto simp: innermost_def subtree_def)
  with enc b(2) show ?thesis by blast
qed

lemma subtree_block: "nested N \<Longrightarrow> nd \<in> N \<Longrightarrow> block (subtree N nd) nd (nd_Lft nd)"
  using placed_subtree [of N nd] subtree_endpoints [of N nd] subtree_self [of nd N]
  by (auto simp: block_def nested_def subtree_def intro: intervals_subset)

section \<open>Taking a subtree out\<close>

definition close_gap :: "node \<Rightarrow> int \<Rightarrow> int" where
  "close_gap nd x = (if nd_Rgt nd < x then x - (nd_Rgt nd - nd_Lft nd + 1) else x)"

lemma placed_outside:
  assumes "nested N" and "nd \<in> N" and "a \<in> outside N nd"
  shows "placed (outside N nd) a"
proof -
  have iv: "intervals N" using assms(1) by (simp add: nested_def)
  have a: "a \<in> N" and not_in: "a \<notin> subtree N nd" using assms(3) by (simp_all add: outside_def)
  have "placed N a" using assms(1) a by (simp add: nested_def)
  then show ?thesis
    unfolding placed_def
  proof (elim disjE exE conjE)
    fix b assume b: "innermost N b a" "sits_under a b"
    have "b \<notin> subtree N nd"
    proof
      assume "b \<in> subtree N nd"
      with subtree_iff [OF iv assms(2)] b(1) have "b = nd \<or> encloses nd b" by (auto simp: innermost_def)
      with b(1) have "encloses nd a" by (auto simp: innermost_def intro: encloses_trans)
      with not_in subtree_iff [OF iv assms(2) a] show False by simp
    qed
    with b have "innermost (outside N nd) b a" by (auto simp: innermost_def outside_def)
    with b(2) show "(nd_ParentID a = None \<and> nd_Depth a = 0 \<and> (\<forall>c \<in> outside N nd. \<not> encloses c a)) \<or>
      (\<exists>b. innermost (outside N nd) b a \<and> sits_under a b)" by blast
  qed (auto simp: outside_def)
qed

lemma close_gap_monotone:
  assumes "intervals N" and "nd \<in> N"
  shows "monotone_at (close_gap nd) (endpoints (outside N nd))"
  unfolding monotone_at_def
proof (intro ballI)
  fix x y assume "x \<in> endpoints (outside N nd)" "y \<in> endpoints (outside N nd)"
  then have "x < nd_Lft nd \<or> nd_Rgt nd < x" "y < nd_Lft nd \<or> nd_Rgt nd < y"
    using outside_endpoints [OF assms] by blast+
  with intervalsD(3) [OF assms] show "x < y \<longleftrightarrow> close_gap nd x < close_gap nd y"
    by (auto simp: close_gap_def)
qed

lemma close_gap_image:
  assumes "1 \<le> nd_Lft nd" and "nd_Lft nd \<le> nd_Rgt nd" and "nd_Rgt nd \<le> m"
  shows "close_gap nd ` ({1..m} - {nd_Lft nd..nd_Rgt nd}) = {1..m - (nd_Rgt nd - nd_Lft nd + 1)}"
proof
  show "close_gap nd ` ({1..m} - {nd_Lft nd..nd_Rgt nd}) \<subseteq> {1..m - (nd_Rgt nd - nd_Lft nd + 1)}"
    using assms by (auto simp: close_gap_def)
  show "{1..m - (nd_Rgt nd - nd_Lft nd + 1)} \<subseteq> close_gap nd ` ({1..m} - {nd_Lft nd..nd_Rgt nd})"
  proof
    fix x assume x: "x \<in> {1..m - (nd_Rgt nd - nd_Lft nd + 1)}"
    show "x \<in> close_gap nd ` ({1..m} - {nd_Lft nd..nd_Rgt nd})"
    proof (cases "x < nd_Lft nd")
      case True
      then show ?thesis using x assms by (intro image_eqI [of _ _ x]) (auto simp: close_gap_def)
    next
      case False
      then show ?thesis using x assms
        by (intro image_eqI [of _ _ "x + (nd_Rgt nd - nd_Lft nd + 1)"]) (auto simp: close_gap_def)
    qed
  qed
qed

lemma outside_endpoints_eq:
  assumes "nested N" and "nd \<in> N"
  shows "endpoints (outside N nd) = {1..2 * int (card N)} - {nd_Lft nd..nd_Rgt nd}"
proof -
  have iv: "intervals N" using assms(1) by (simp add: nested_def)
  have "endpoints N = endpoints (outside N nd) \<union> endpoints (subtree N nd)"
    using split_subtree(1) [OF assms(2)] endpoints_Un by metis
  then have "{1..2 * int (card N)} = endpoints (outside N nd) \<union> {nd_Lft nd..nd_Rgt nd}"
    using assms(1) subtree_endpoints [OF assms] by (simp add: nested_def)
  moreover have "endpoints (outside N nd) \<inter> {nd_Lft nd..nd_Rgt nd} = {}"
    using outside_endpoints [OF iv assms(2)] by fastforce
  ultimately show ?thesis by blast
qed

lemma card_outside:
  assumes "nested N" and "nd \<in> N"
  shows "int (card N) = int (card (outside N nd)) + int (card (subtree N nd))"
proof -
  have "finite N" using assms(1) by (simp add: nested_def intervals_def)
  then have "card N = card (outside N nd) + card (subtree N nd)"
    using split_subtree(1) [OF assms(2)] split_subtree(2) [of N nd] card_Un_disjoint by (metis finite_Un)
  then show ?thesis by simp
qed

lemma remove_nested:
  assumes "nested N" and "nd \<in> N"
  shows "nested (relabel (close_gap nd) ` outside N nd)"
proof -
  have iv: "intervals N" using assms(1) by (simp add: nested_def)
  have out: "intervals (outside N nd)" by (rule intervals_subset [OF iv]) (auto simp: outside_def)
  note mono = close_gap_monotone [OF iv assms(2)]
  have bounds: "{nd_Lft nd, nd_Rgt nd} \<subseteq> {1..2 * int (card N)}"
    using assms by (auto simp: nested_def endpoints_def)
  have inj: "inj_on (relabel (close_gap nd)) (outside N nd)"
    by (rule relabel_inj [OF intervalsD(2) [OF out]])
  have "endpoints (relabel (close_gap nd) ` outside N nd) = {1..2 * int (card (relabel (close_gap nd) ` outside N nd))}"
    using close_gap_image [of nd "2 * int (card N)"] bounds intervalsD(3) [OF iv assms(2)] subtree_width [OF assms]
      card_outside [OF assms]
    by (simp add: relabel_endpoints outside_endpoints_eq [OF assms] card_image [OF inj])
  then show ?thesis
    using relabel_intervals [OF out mono] relabel_placed [OF mono] placed_outside [OF assms]
    by (auto simp: nested_def)
qed

section \<open>Putting a block in\<close>

definition open_gap :: "int \<Rightarrow> int \<Rightarrow> int \<Rightarrow> int" where
  "open_gap pos width x = (if pos \<le> x then x + width else x)"

definition spans :: "node \<Rightarrow> int \<Rightarrow> bool" where
  "spans c pos \<longleftrightarrow> nd_Lft c < pos \<and> pos \<le> nd_Rgt c"

text \<open>The parent and depth of the root of a block are those of the position it is put at.\<close>

definition fits :: "node set \<Rightarrow> node \<Rightarrow> int \<Rightarrow> bool" where
  "fits N rt pos \<longleftrightarrow>
     (nd_ParentID rt = None \<and> nd_Depth rt = 0 \<and> (\<forall>c \<in> N. \<not> spans c pos)) \<or>
     (\<exists>q \<in> N. spans q pos \<and> (\<forall>c \<in> N. spans c pos \<longrightarrow> c = q \<or> encloses c q) \<and> sits_under rt q)"

lemma open_gap_monotone: "0 \<le> width \<Longrightarrow> monotone_at (open_gap pos width) X"
  by (auto simp: monotone_at_def open_gap_def)

lemma open_gap_image:
  assumes "0 \<le> width" and "1 \<le> pos" and "pos \<le> m + 1"
  shows "open_gap pos width ` {1..m} \<union> {pos..pos + width - 1} = {1..m + width}"
proof
  show "open_gap pos width ` {1..m} \<union> {pos..pos + width - 1} \<subseteq> {1..m + width}"
    using assms by (auto simp: open_gap_def)
  show "{1..m + width} \<subseteq> open_gap pos width ` {1..m} \<union> {pos..pos + width - 1}"
  proof
    fix x assume x: "x \<in> {1..m + width}"
    consider "x < pos" | "pos \<le> x" "x \<le> pos + width - 1" | "pos + width \<le> x" by linarith
    then show "x \<in> open_gap pos width ` {1..m} \<union> {pos..pos + width - 1}"
    proof cases
      case 1
      then show ?thesis using x assms by (intro UnI1 image_eqI [of _ _ x]) (auto simp: open_gap_def)
    next
      case 3
      then show ?thesis using x assms by (intro UnI1 image_eqI [of _ _ "x - width"]) (auto simp: open_gap_def)
    qed simp
  qed
qed

text \<open>A block that may be put in a gap among the rows, and the two against each other once it is there.\<close>

definition block_in_gap :: "node set \<Rightarrow> node set \<Rightarrow> node \<Rightarrow> int \<Rightarrow> int \<Rightarrow> bool" where
  "block_in_gap N B rt pos width \<longleftrightarrow>
     nested N \<and> block B rt pos \<and> fits N rt pos \<and> 1 \<le> pos \<and> pos \<le> 2 * int (card N) + 1 \<and>
     width = nd_Rgt rt - pos + 1 \<and> nd_ID ` N \<inter> nd_ID ` B = {}"

lemma block_in_gapD:
  assumes "block_in_gap N B rt pos width"
  shows "nested N" "intervals N" "block B rt pos" "intervals B" "rt \<in> B" "fits N rt pos" "1 \<le> pos"
    "pos \<le> 2 * int (card N) + 1" "width = nd_Rgt rt - pos + 1" "nd_ID ` N \<inter> nd_ID ` B = {}" "0 < width"
    "monotone_at (open_gap pos width) X"
  using assms intervalsD(3) [of B rt] open_gap_monotone [of width pos X]
  by (auto simp: block_in_gap_def block_def nested_def)

lemma block_bounds:
  assumes "block_in_gap N B rt pos width" and "b \<in> B"
  shows "pos \<le> nd_Lft b" "nd_Lft b < nd_Rgt b" "nd_Rgt b < pos + width"
proof -
  note D = block_in_gapD [OF assms(1)]
  have "{nd_Lft b, nd_Rgt b} \<subseteq> {pos..nd_Rgt rt}"
    using assms(2) D(3) unfolding block_def endpoints_def by blast
  then show "pos \<le> nd_Lft b" "nd_Rgt b < pos + width" by (simp_all add: D(9))
  show "nd_Lft b < nd_Rgt b" by (rule intervalsD(3) [OF D(4) assms(2)])
qed

lemma row_and_block:
  assumes "block_in_gap N B rt pos width" and "c \<in> N" and "b \<in> B"
  defines "c' \<equiv> relabel (open_gap pos width) c"
  shows "encloses c' b \<longleftrightarrow> spans c pos" "\<not> encloses b c'" "apart c' b \<or> encloses c' b"
  using block_bounds [OF assms(1,3)] block_in_gapD(11) [OF assms(1)]
    intervalsD(3) [OF block_in_gapD(2) [OF assms(1)] assms(2)]
  by (auto simp: c'_def encloses_def apart_def spans_def open_gap_def)

lemma union_intervals:
  assumes "block_in_gap N B rt pos width"
  shows "intervals (relabel (open_gap pos width) ` N \<union> B)"
proof -
  note D = block_in_gapD [OF assms]
  have rows: "intervals (relabel (open_gap pos width) ` N)" by (rule relabel_intervals [OF D(2,12)])
  show ?thesis
    unfolding intervals_def
  proof (intro conjI ballI impI)
    show "inj_on nd_ID (relabel (open_gap pos width) ` N \<union> B)"
      using intervalsD(2) [OF rows] intervalsD(2) [OF D(4)] D(10) by (subst inj_on_Un) (auto simp: image_image)
    fix a b assume "a \<in> relabel (open_gap pos width) ` N \<union> B" "b \<in> relabel (open_gap pos width) ` N \<union> B" "a \<noteq> b"
    moreover have "apart c b \<or> encloses c b" if "c \<in> relabel (open_gap pos width) ` N" "b \<in> B" for c b
      using that row_and_block(3) [OF assms] by blast
    ultimately show "apart a b \<or> encloses a b \<or> encloses b a"
      using intervalsD(4) [OF rows, of a b] intervalsD(4) [OF D(4), of a b] apart_sym by blast
  qed (use intervalsD(1,3) [OF rows] intervalsD(1,3) [OF D(4)] in auto)
qed

lemma row_placed:
  assumes "block_in_gap N B rt pos width" and "a \<in> N"
  shows "placed (relabel (open_gap pos width) ` N \<union> B) (relabel (open_gap pos width) a)"
proof -
  note D = block_in_gapD [OF assms(1)]
  have "placed N a" using D(1) assms(2) by (simp add: nested_def)
  then have "placed (relabel (open_gap pos width) ` N) (relabel (open_gap pos width) a)"
    by (rule relabel_placed [OF D(12) assms(2)])
  then show ?thesis
    using row_and_block(2) [OF assms] by (auto simp: placed_def innermost_def)
qed

lemma root_placed:
  assumes "block_in_gap N B rt pos width"
  shows "placed (relabel (open_gap pos width) ` N \<union> B) rt"
proof -
  note D = block_in_gapD [OF assms] and cross = row_and_block(1) [OF assms _ block_in_gapD(5) [OF assms]]
  have top_most: "\<not> encloses b rt" if "b \<in> B" for b
    using block_bounds [OF assms that] D(3) by (auto simp: encloses_def block_def)
  from D(6) show ?thesis
    unfolding fits_def
  proof (elim disjE bexE conjE)
    fix q assume q: "q \<in> N" "spans q pos" "\<forall>c \<in> N. spans c pos \<longrightarrow> c = q \<or> encloses c q" "sits_under rt q"
    then have "innermost (relabel (open_gap pos width) ` N \<union> B) (relabel (open_gap pos width) q) rt"
      using top_most cross relabel_encloses(1) [OF D(12)] by (auto simp: innermost_def)
    moreover have "sits_under rt (relabel (open_gap pos width) q)" using q(4) by (simp add: sits_under_def)
    ultimately show ?thesis by (auto simp: placed_def)
  next
    assume "nd_ParentID rt = None" "nd_Depth rt = 0" "\<forall>c \<in> N. \<not> spans c pos"
    then show ?thesis using top_most cross by (auto simp: placed_def)
  qed
qed

lemma block_placed:
  assumes "block_in_gap N B rt pos width" and "a \<in> B" and "a \<noteq> rt"
  shows "placed (relabel (open_gap pos width) ` N \<union> B) a"
proof -
  from block_in_gapD(3) [OF assms(1)] assms(2,3) obtain b where b: "innermost B b a" "sits_under a b"
    by (auto simp: block_def)
  then have "b \<in> B" by (simp add: innermost_def)
  with b(1) have "innermost (relabel (open_gap pos width) ` N \<union> B) b a"
    using row_and_block(1) [OF assms(1) _ assms(2)] row_and_block(1) [OF assms(1) _ \<open>b \<in> B\<close>] by (auto simp: innermost_def)
  with b(2) show ?thesis by (auto simp: placed_def)
qed

lemma union_endpoints:
  assumes "block_in_gap N B rt pos width"
  shows "endpoints (relabel (open_gap pos width) ` N \<union> B) = {1..2 * int (card (relabel (open_gap pos width) ` N \<union> B))}"
proof -
  note D = block_in_gapD [OF assms]
  have finite: "finite (relabel (open_gap pos width) ` N)" "finite B"
    using intervalsD(1) [OF D(2)] intervalsD(1) [OF D(4)] by simp_all
  have "relabel (open_gap pos width) ` N \<inter> B = {}"
  proof (rule ccontr)
    assume "relabel (open_gap pos width) ` N \<inter> B \<noteq> {}"
    then obtain c where "c \<in> N" "relabel (open_gap pos width) c \<in> B" by blast
    then have "nd_ID c \<in> nd_ID ` N \<inter> nd_ID ` B" using relabel_simps(1) by (metis IntI image_eqI)
    with D(10) show False by simp
  qed
  then have "card (relabel (open_gap pos width) ` N \<union> B) = card N + card B"
    using card_Un_disjoint [OF finite] card_image [OF relabel_inj [OF intervalsD(2) [OF D(2)]]] by simp
  moreover have "width = 2 * int (card B)"
  proof -
    have "endpoints B = {pos..pos + width - 1}" using D(3) by (simp add: block_def D(9))
    then have "card {pos..pos + width - 1} = 2 * card B" using card_endpoints [OF D(4)] by simp
    then show ?thesis using D(11) by simp
  qed
  moreover have "endpoints (relabel (open_gap pos width) ` N \<union> B)
      = open_gap pos width ` {1..2 * int (card N)} \<union> {pos..pos + width - 1}"
    using D(1,3) by (simp add: endpoints_Un relabel_endpoints nested_def block_def D(9))
  ultimately show ?thesis
    using open_gap_image [of width pos "2 * int (card N)"] D(7,8,11) by simp
qed

lemma insert_nested:
  assumes "block_in_gap N B rt pos width"
  shows "nested (relabel (open_gap pos width) ` N \<union> B)"
  using union_intervals [OF assms] union_endpoints [OF assms] row_placed [OF assms] root_placed [OF assms]
    block_placed [OF assms]
  unfolding nested_def by blast

section \<open>Positions\<close>

text \<open>A block at a new position, its root sits_under a new parent.\<close>

lemma moved_row_simps [simp]:
  "nd_ID (moved_row nd pos parent depth r) = nd_ID r"
  "nd_values (moved_row nd pos parent depth r) = nd_values r"
  "nd_Lft (moved_row nd pos parent depth r) = pos + (nd_Lft r - nd_Lft nd)"
  "nd_Rgt (moved_row nd pos parent depth r) = pos + (nd_Rgt r - nd_Lft nd)"
  "nd_Depth (moved_row nd pos parent depth r) = nd_Depth r + (depth - nd_Depth nd)"
  "nd_ParentID (moved_row nd pos parent depth r) = (if nd_ID r = nd_ID nd then parent else nd_ParentID r)"
  by (simp_all add: moved_row_def)

lemma moved_row_encloses [simp]:
  "encloses (moved_row nd pos parent depth a) (moved_row nd pos parent depth b) \<longleftrightarrow> encloses a b"
  "apart (moved_row nd pos parent depth a) (moved_row nd pos parent depth b) \<longleftrightarrow> apart a b"
  by (auto simp: encloses_def apart_def)

lemma moved_intervals:
  assumes "intervals B"
  shows "intervals (moved_row nd pos parent depth ` B)"
  using intervalsD [OF assms] by (fastforce simp: intervals_def inj_on_def)

lemma shift_image: "(\<lambda>x. pos + (x - l)) ` {l..r} = {pos..pos + (r - l :: int)}"
proof
  show "{pos..pos + (r - l)} \<subseteq> (\<lambda>x. pos + (x - l)) ` {l..r}"
  proof
    fix x assume "x \<in> {pos..pos + (r - l)}"
    then show "x \<in> (\<lambda>x. pos + (x - l)) ` {l..r}" by (intro image_eqI [of _ _ "x - pos + l"]) auto
  qed
qed auto

lemma moved_block:
  assumes "block B nd p"
  shows "block (moved_row nd pos parent depth ` B) (moved_row nd pos parent depth nd) pos"
proof -
  let ?m = "moved_row nd pos parent depth"
  have B: "intervals B" "nd \<in> B" "endpoints B = {nd_Lft nd..nd_Rgt nd}" using assms by (simp_all add: block_def)
  have "endpoints (?m ` B) = (\<lambda>x. pos + (x - nd_Lft nd)) ` endpoints B" by (auto simp: endpoints_def)
  then have "endpoints (?m ` B) = {pos..nd_Rgt (?m nd)}" using shift_image B(3) by simp
  moreover have "encloses (?m nd) (?m a) \<and> (\<exists>b. innermost (?m ` B) b (?m a) \<and> sits_under (?m a) b)"
    if "a \<in> B" "?m a \<noteq> ?m nd" for a
  proof -
    from that have "a \<noteq> nd" by auto
    with that(1) B(2) intervalsD(2) [OF B(1)] have "nd_ID a \<noteq> nd_ID nd" by (auto simp: inj_on_def)
    from assms that(1) \<open>a \<noteq> nd\<close> obtain b where b: "encloses nd a" "innermost B b a" "sits_under a b"
      by (auto simp: block_def)
    then have "innermost (?m ` B) (?m b) (?m a)" by (auto simp: innermost_def)
    moreover have "sits_under (?m a) (?m b)" using b(3) \<open>nd_ID a \<noteq> nd_ID nd\<close> by (simp add: sits_under_def)
    ultimately show ?thesis using b(1) by auto
  qed
  ultimately show ?thesis using moved_intervals [OF B(1)] B(2) by (auto simp: block_def)
qed

text \<open>The positions of children and siblings of a target.\<close>

lemma spans_child:
  assumes "intervals N" and "target \<in> N" and "c \<in> N" and "pos = nd_Rgt target \<or> pos = nd_Lft target + 1"
  shows "spans c pos \<longleftrightarrow> c = target \<or> encloses c target"
proof (cases "c = target")
  case True
  then show ?thesis using intervalsD(3) [OF assms(1,2)] assms(4) by (auto simp: spans_def)
next
  case False
  with endpoints_distinct [OF assms(1,3,2)] intervalsD(3) [OF assms(1,2)] intervalsD(3) [OF assms(1,3)]
    intervalsD(4) [OF assms(1,3,2)] assms(4)
  show ?thesis by (auto simp: spans_def apart_def encloses_def)
qed

lemma spans_sibling:
  assumes "intervals N" and "target \<in> N" and "c \<in> N" and "pos = nd_Lft target \<or> pos = nd_Rgt target + 1"
  shows "spans c pos \<longleftrightarrow> encloses c target"
proof (cases "c = target")
  case True
  then show ?thesis using intervalsD(3) [OF assms(1,2)] assms(4) by (auto simp: spans_def encloses_def)
next
  case False
  with endpoints_distinct [OF assms(1,3,2)] intervalsD(3) [OF assms(1,2)] intervalsD(3) [OF assms(1,3)]
    intervalsD(4) [OF assms(1,3,2)] assms(4)
  show ?thesis by (auto simp: spans_def apart_def encloses_def)
qed

lemma fits_child:
  assumes "intervals N" and "target \<in> N" and "pos = nd_Rgt target \<or> pos = nd_Lft target + 1"
    and "nd_ParentID rt = Some (nd_ID target)" and "nd_Depth rt = nd_Depth target + 1"
  shows "fits N rt pos"
  using spans_child [OF assms(1,2) _ assms(3)] assms(2,4,5) by (auto simp: fits_def sits_under_def)

lemma fits_sibling:
  assumes "intervals N" and "target \<in> N" and "pos = nd_Lft target \<or> pos = nd_Rgt target + 1"
    and "nd_ParentID rt = nd_ParentID target" and "nd_Depth rt = nd_Depth target" and "placed N target"
  shows "fits N rt pos"
  using spans_sibling [OF assms(1,2) _ assms(3)] assms(4-6)
  by (auto simp: fits_def sits_under_def placed_def innermost_def)

lemma fits_end:
  assumes "nested N" and "nd_ParentID rt = None" and "nd_Depth rt = 0"
  shows "fits N rt (2 * int (card N) + 1)"
proof -
  have "nd_Rgt c \<le> 2 * int (card N)" if "c \<in> N" for c
  proof -
    have "nd_Rgt c \<in> endpoints N" using that by (auto simp: endpoints_def)
    then show ?thesis using assms(1) by (simp add: nested_def)
  qed
  then show ?thesis using assms(2,3) by (fastforce simp: fits_def spans_def)
qed

lemma bounds_in_range:
  assumes "nested N" and "a \<in> N"
  shows "1 \<le> nd_Lft a" "nd_Lft a < nd_Rgt a" "nd_Rgt a \<le> 2 * int (card N)"
proof -
  have "{nd_Lft a, nd_Rgt a} \<subseteq> endpoints N" using assms(2) by (auto simp: endpoints_def)
  then show "1 \<le> nd_Lft a" "nd_Rgt a \<le> 2 * int (card N)" using assms(1) by (auto simp: nested_def)
  show "nd_Lft a < nd_Rgt a" using assms by (auto simp: nested_def intervals_def)
qed

lemma fits_create_place:
  assumes "nested N" and "target \<in> N" and "create_place mode target = (pos, nd_ParentID rt, nd_Depth rt)"
  shows "fits N rt pos" "1 \<le> pos" "pos \<le> 2 * int (card N) + 1"
proof -
  have N: "intervals N" "placed N target" using assms(1,2) by (simp_all add: nested_def)
  show "fits N rt pos"
    using assms(3) fits_child [OF N(1) assms(2)] fits_sibling [OF N(1) assms(2) _ _ _ N(2)]
    by (cases mode) (auto simp: create_place_def)
  show "1 \<le> pos" "pos \<le> 2 * int (card N) + 1"
    using bounds_in_range [OF assms(1,2)] assms(3) by (cases mode; simp add: create_place_def)+
qed

lemma fits_move_place:
  assumes "nested N" and "target \<in> N" and "mode \<noteq> moveRoot"
    and "move_place mode right target = (pos, nd_ParentID rt, nd_Depth rt)"
  shows "fits N rt pos" "1 \<le> pos" "pos \<le> 2 * int (card N) + 1"
proof -
  have N: "intervals N" "placed N target" using assms(1,2) by (simp_all add: nested_def)
  show "fits N rt pos"
    using assms(3,4) fits_child [OF N(1) assms(2)] fits_sibling [OF N(1) assms(2) _ _ _ N(2)]
    by (cases mode) (auto simp: move_place_def)
  show "1 \<le> pos" "pos \<le> 2 * int (card N) + 1"
    using bounds_in_range [OF assms(1,2)] assms(3,4) by (cases mode; simp add: move_place_def)+
qed

section \<open>Moving a subtree\<close>

lemma move_block_in_gap:
  assumes "nested N" and "nd \<in> N" and "M = relabel (close_gap nd) ` outside N nd"
    and "fits M (moved_row nd pos parent depth nd) pos" and "1 \<le> pos" and "pos \<le> 2 * int (card M) + 1"
  shows "block_in_gap M (moved_row nd pos parent depth ` subtree N nd) (moved_row nd pos parent depth nd) pos
           (nd_Rgt nd - nd_Lft nd + 1)"
proof -
  have "inj_on nd_ID N" using assms(1) by (simp add: nested_def intervals_def)
  then have "nd_ID ` outside N nd \<inter> nd_ID ` subtree N nd = {}"
    using split_subtree(1) [OF assms(2)] split_subtree(2) [of N nd] by (metis Un_upper1 Un_upper2 image_empty inj_on_image_Int)
  then have "nd_ID ` M \<inter> nd_ID ` moved_row nd pos parent depth ` subtree N nd = {}"
    by (simp add: assms(3) image_image)
  with remove_nested [OF assms(1,2)] moved_block [OF subtree_block [OF assms(1,2)]] assms(3-6)
  show ?thesis by (simp add: block_in_gap_def)
qed

lemma close_gap_place:
  assumes "intervals N" and "nd \<in> N" and "target \<in> outside N nd" and "mode \<noteq> moveRoot"
    and "move_place mode right target = (pos, parent, depth)"
  shows "move_place mode right (relabel (close_gap nd) target) = (close_gap nd pos, parent, depth)"
proof -
  have "nd_Lft target \<in> endpoints (outside N nd)" "nd_Rgt target \<in> endpoints (outside N nd)"
    using assms(3) by (auto simp: endpoints_def)
  then have "nd_Lft target < nd_Lft nd \<or> nd_Rgt nd < nd_Lft target" "nd_Rgt target < nd_Lft nd \<or> nd_Rgt nd < nd_Rgt target"
    using outside_endpoints [OF assms(1,2)] by blast+
  with assms(4,5) intervalsD(3) [OF assms(1,2)] show ?thesis
    by (cases mode) (auto simp: move_place_def close_gap_def)
qed

definition after_move :: "node set \<Rightarrow> node \<Rightarrow> int \<Rightarrow> (64 word) option \<Rightarrow> int \<Rightarrow> node set" where
  "after_move N nd pos parent depth =
     relabel (open_gap pos (nd_Rgt nd - nd_Lft nd + 1)) ` relabel (close_gap nd) ` outside N nd \<union>
     moved_row nd pos parent depth ` subtree N nd"

lemma move_fits:
  assumes "nested N" and "nd \<in> N" and "target \<in> outside N nd" and "mode \<noteq> moveRoot"
    and "move_place mode right target = (pos, parent, depth)"
  defines "M \<equiv> relabel (close_gap nd) ` outside N nd" and "rt \<equiv> moved_row nd (close_gap nd pos) parent depth nd"
  shows "fits M rt (close_gap nd pos)" "1 \<le> close_gap nd pos" "close_gap nd pos \<le> 2 * int (card M) + 1"
proof -
  have iv: "intervals N" using assms(1) by (simp add: nested_def)
  have place: "move_place mode right (relabel (close_gap nd) target) = (close_gap nd pos, nd_ParentID rt, nd_Depth rt)"
    using close_gap_place [OF iv assms(2-5)] by (simp add: rt_def)
  have target: "relabel (close_gap nd) target \<in> M" using assms(3) by (auto simp: M_def)
  show "fits M rt (close_gap nd pos)" "1 \<le> close_gap nd pos" "close_gap nd pos \<le> 2 * int (card M) + 1"
    using fits_move_place [OF remove_nested [OF assms(1,2), folded M_def] target assms(4) place] .
qed

lemma move_nested:
  assumes "nested N" and "nd \<in> N" and "target \<in> outside N nd" and "mode \<noteq> moveRoot"
    and "move_place mode right target = (pos, parent, depth)"
  shows "nested (after_move N nd (close_gap nd pos) parent depth)"
  unfolding after_move_def by (rule insert_nested [OF move_block_in_gap [OF assms(1,2) refl move_fits [OF assms]]])

lemma move_root_fits:
  assumes "nested N" and "nd \<in> N"
  defines "M \<equiv> relabel (close_gap nd) ` outside N nd" and "pos \<equiv> close_gap nd (2 * int (card N) + 1)"
  shows "fits M (moved_row nd pos None 0 nd) pos" "1 \<le> pos" "pos \<le> 2 * int (card M) + 1"
proof -
  have M: "nested M" unfolding M_def by (rule remove_nested [OF assms(1,2)])
  have "inj_on nd_ID (outside N nd)"
    using assms(1) by (auto simp: nested_def intervals_def outside_def intro: inj_on_subset)
  then have "card M = card (outside N nd)" unfolding M_def using card_image [OF relabel_inj] by blast
  then have pos: "pos = 2 * int (card M) + 1"
    using card_outside [OF assms(1,2)] subtree_width [OF assms(1,2)] bounds_in_range [OF assms(1,2)]
    by (simp add: close_gap_def pos_def)
  show "fits M (moved_row nd pos None 0 nd) pos" using fits_end [OF M] pos by simp
  show "1 \<le> pos" "pos \<le> 2 * int (card M) + 1" using pos by simp_all
qed

lemma move_root_nested:
  assumes "nested N" and "nd \<in> N"
  shows "nested (after_move N nd (close_gap nd (2 * int (card N) + 1)) None 0)"
  unfolding after_move_def by (rule insert_nested [OF move_block_in_gap [OF assms refl move_root_fits [OF assms]]])

end
