(* ===== verification/Nested_Set_Correct.thy ===== *)
theory Nested_Set_Correct
  imports Nested_Intervals
begin

text \<open>
  The nested-set operations keep the tree: whatever statement fails, the rows of the scope describe a forest by their
  bounds, parents and depths, and rows of other scopes are not touched.
\<close>

section \<open>Statements\<close>

definition scope_set :: "nested_config \<Rightarrow> node list \<Rightarrow> node set" where
  "scope_set config rows = {r \<in> set rows. in_scope config r}"

definition others :: "nested_config \<Rightarrow> node list \<Rightarrow> node list" where
  "others config rows = filter (\<lambda>r. \<not> in_scope config r) rows"

definition tree_inv :: "nested_config \<Rightarrow> node list \<Rightarrow> bool" where
  "tree_inv config rows \<longleftrightarrow> distinct (map nd_ID rows) \<and> nested (scope_set config rows)"

definition upd :: "nested_config \<Rightarrow> (node \<Rightarrow> bool) \<Rightarrow> (node \<Rightarrow> node) \<Rightarrow> node \<Rightarrow> node" where
  "upd config P f r = (if in_scope config r \<and> P r then f r else r)"

lemma bind_success:
  "tree_bind m f db = (Inr y, db') \<longleftrightarrow> (\<exists>x db1. m db = (Inr x, db1) \<and> f x db1 = (Inr y, db'))"
  by (auto simp: tree_bind_def split: prod.splits sum.splits)

lemma return_success: "tree_return x db = (Inr y, db') \<longleftrightarrow> y = x \<and> db' = db"
  by (auto simp: tree_return_def)

lemma fail_success: "\<not> tree_fail err db = (Inr y, db')"
  by (simp add: tree_fail_def)

lemmas success_simps = bind_success return_success fail_success

lemma statement_success:
  "statement run db = (Inr x, db') \<Longrightarrow> x = fst (run (td_rows db)) \<and> td_rows db' = snd (run (td_rows db))"
  by (auto simp: statement_def split: list.splits option.splits)

lemma update_success:
  "tree_update config P f db = (Inr x, db') \<Longrightarrow> td_rows db' = map (upd config P f) (td_rows db)"
  using statement_success by (fastforce simp: tree_update_def upd_def)

lemma select_success:
  "tree_select config P db = (Inr rows, db') \<Longrightarrow>
     rows = filter (\<lambda>r. in_scope config r \<and> P r) (td_rows db) \<and> td_rows db' = td_rows db"
  using statement_success by (fastforce simp: tree_select_def)

lemma delete_success:
  "tree_delete config P db = (Inr n, db') \<Longrightarrow>
     n = length (filter (\<lambda>r. in_scope config r \<and> P r) (td_rows db)) \<and>
     td_rows db' = filter (\<lambda>r. \<not> (in_scope config r \<and> P r)) (td_rows db)"
  using statement_success by (fastforce simp: tree_delete_def)

lemma nodeForUpdate_success:
  "nodeForUpdate config i db = (Inr found, db') \<Longrightarrow>
     td_rows db' = td_rows db \<and>
     (case found of Some nd \<Rightarrow> nd \<in> scope_set config (td_rows db) \<and> nd_ID nd = i
      | None \<Rightarrow> \<forall>r \<in> scope_set config (td_rows db). nd_ID r \<noteq> i)"
  using statement_success [of "\<lambda>rows. (find (\<lambda>r. in_scope config r \<and> nd_ID r = i) rows, rows)" db found db']
  by (auto simp: nodeForUpdate_def tree_first_def scope_set_def find_None_iff find_Some_iff split: option.splits)

lemma insert_success:
  assumes "tree_insert fresh model db = (Inr created, db')"
  shows "td_rows db' = td_rows db @ [created]" "nd_ID created \<notin> nd_ID ` set (td_rows db)"
    "created = model\<lparr>nd_ID := nd_ID created\<rparr>"
proof -
  let ?new = "model\<lparr>nd_ID := if nd_ID model = 0 then fresh (td_rows db) else nd_ID model\<rparr>"
  from assms obtain found db1 where
    step: "statement (\<lambda>rows. let created = model\<lparr>nd_ID := if nd_ID model = 0 then fresh rows else nd_ID model\<rparr>
       in if nd_ID created \<in> nd_ID ` set rows then (None, rows) else (Some created, rows @ [created])) db = (Inr found, db1)"
    and found: "(case found of None \<Rightarrow> tree_fail (mk_error ''create'' ErrConflict) | Some row \<Rightarrow> tree_return row) db1 = (Inr created, db')"
    unfolding tree_insert_def bind_success by blast
  from found have "found = Some created" "db' = db1"
    by (auto simp: success_simps split: option.splits)
  with statement_success [OF step]
  have "created = ?new" "td_rows db' = td_rows db @ [?new]" "nd_ID ?new \<notin> nd_ID ` set (td_rows db)"
    by (simp_all add: Let_def split: if_splits)
  then show "td_rows db' = td_rows db @ [created]" "nd_ID created \<notin> nd_ID ` set (td_rows db)"
    "created = model\<lparr>nd_ID := nd_ID created\<rparr>" by simp_all
qed

lemma write_success:
  assumes "tree_write body db = (res, db')"
  shows "(\<exists>err. res = Inl err \<and> td_rows db' = td_rows db) \<or>
    (\<exists>x db1 db2. res = Inr x \<and> td_rows db1 = td_rows db \<and> body db1 = (Inr x, db2) \<and> td_rows db' = td_rows db2)"
proof (cases res)
  case (Inl err)
  then show ?thesis using assms by (auto simp: tree_write_def split: prod.splits sum.splits)
next
  case (Inr x)
  then have "tree_bind (statement (\<lambda>rows. ((), rows))) (\<lambda>_.
      tree_bind body (\<lambda>x. tree_bind (statement (\<lambda>rows. ((), rows))) (\<lambda>_. tree_return x))) db = (Inr x, db')"
    using assms by (auto simp: tree_write_def split: prod.splits sum.splits)
  then show ?thesis
    unfolding bind_success return_success Inr by (fastforce dest!: statement_success)
qed

text \<open>Updates that leave identifiers, other columns and the rows outside the scope alone.\<close>

definition keeps :: "nested_config \<Rightarrow> (node \<Rightarrow> node) \<Rightarrow> bool" where
  "keeps config g \<longleftrightarrow>
     (\<forall>r. nd_ID (g r) = nd_ID r \<and> nd_values (g r) = nd_values r \<and> (\<not> in_scope config r \<longrightarrow> g r = r))"

lemma keeps_comp:
  assumes "keeps config f" and "keeps config g"
  shows "keeps config (\<lambda>r. f (g r))"
  using assms by (simp add: keeps_def)

lemma keeps_id [simp]: "keeps config (\<lambda>r. r)"
  by (simp add: keeps_def)

lemma keeps_map:
  assumes "keeps config g"
  shows "scope_set config (map g rows) = g ` scope_set config rows" "map nd_ID (map g rows) = map nd_ID rows"
    "others config (map g rows) = others config rows"
proof -
  have scope: "in_scope config (g r) = in_scope config r" for r
    using assms by (simp add: keeps_def in_scope_def)
  show "scope_set config (map g rows) = g ` scope_set config rows" by (auto simp: scope_set_def scope)
  show "map nd_ID (map g rows) = map nd_ID rows" using assms by (simp add: keeps_def)
  show "others config (map g rows) = others config rows"
    using assms by (induction rows) (auto simp: others_def scope keeps_def)
qed

lemma keeps_upd_bounds [simp]:
  "keeps config (upd config P (\<lambda>r. r\<lparr>nd_Lft := f r\<rparr>))" "keeps config (upd config P (\<lambda>r. r\<lparr>nd_Rgt := f r\<rparr>))"
  by (simp_all add: keeps_def upd_def)

lemma in_scope_update [simp]:
  "in_scope config (r\<lparr>nd_Lft := x\<rparr>) = in_scope config r" "in_scope config (r\<lparr>nd_Rgt := x\<rparr>) = in_scope config r"
  "in_scope config (r\<lparr>nd_ID := i\<rparr>) = in_scope config r"
  by (simp_all add: in_scope_def)

section \<open>Creating and deleting\<close>

lemma makeGap_success:
  assumes "makeGap config pos width db = (Inr x, db')"
  obtains g where "td_rows db' = map g (td_rows db)" "keeps config g"
    "\<And>r. in_scope config r \<Longrightarrow> g r = relabel (open_gap pos width) r"
proof -
  let ?right = "upd config (\<lambda>r. pos \<le> nd_Rgt r) (\<lambda>r. r\<lparr>nd_Rgt := nd_Rgt r + width\<rparr>)"
  let ?left = "upd config (\<lambda>r. pos \<le> nd_Lft r) (\<lambda>r. r\<lparr>nd_Lft := nd_Lft r + width\<rparr>)"
  have "td_rows db' = map (\<lambda>r. ?left (?right r)) (td_rows db)"
    using assms by (auto simp: makeGap_def success_simps dest!: update_success)
  moreover have "keeps config (\<lambda>r. ?left (?right r))" by (rule keeps_comp) simp_all
  moreover have "in_scope config r \<Longrightarrow> ?left (?right r) = relabel (open_gap pos width) r" for r
    by (simp add: upd_def relabel_def open_gap_def)
  ultimately show ?thesis by (rule that)
qed

lemma single_block: "nd_Rgt a = nd_Lft a + 1 \<Longrightarrow> block {a} a (nd_Lft a)"
  by (auto simp: block_def intervals_def endpoints_def)

lemma prepareModel_in_scope:
  assumes "distinct (map fst (nc_Scope config))"
  shows "in_scope config (prepareModel config model parent l r depth)"
  using assms by (auto simp: in_scope_def prepareModel_def set_scope_def list_all_iff map_add_def)

lemma maxRight_success:
  assumes "maxRight config db = (Inr right, db')" and "nested (scope_set config (td_rows db))"
  shows "td_rows db' = td_rows db \<and> right = 2 * int (card (scope_set config (td_rows db)))"
proof -
  let ?N = "scope_set config (td_rows db)"
  obtain rows where rows: "rows = filter (\<lambda>r. in_scope config r) (td_rows db)" "td_rows db' = td_rows db"
    "right = (if rows = [] then 0 else Max (nd_Rgt ` set rows))"
    using assms(1) by (auto simp: maxRight_def success_simps dest!: select_success)
  have set: "set rows = ?N" by (auto simp: rows(1) scope_set_def)
  show ?thesis
  proof (cases "?N = {}")
    case True
    then show ?thesis using rows set by simp
  next
    case False
    let ?m = "2 * int (card ?N)"
    have fin: "finite ?N" by (simp add: scope_set_def)
    then have "0 < card ?N" using False by (simp add: card_gt_0_iff)
    then have "1 \<le> ?m" by linarith
    then have "?m \<in> endpoints ?N" using assms(2) by (simp add: nested_def)
    then obtain a where a: "a \<in> ?N" "?m = nd_Lft a \<or> ?m = nd_Rgt a" by (auto simp: endpoints_def)
    with bounds_in_range [OF assms(2) a(1)] have "?m = nd_Rgt a" by auto
    then have "Max (nd_Rgt ` ?N) = ?m"
      using fin a(1) bounds_in_range(3) [OF assms(2)] by (intro Max_eqI) auto
    moreover have "rows \<noteq> []" using False set by auto
    ultimately show ?thesis using rows set by simp
  qed
qed

lemma insert_row_inv:
  assumes "tree_inv config rows" and "keeps config g"
    and g: "\<And>r. r \<in> scope_set config rows \<Longrightarrow> g r = relabel (open_gap pos 2) r"
    and new: "nd_ID a \<notin> nd_ID ` set rows" "in_scope config a" "nd_Lft a = pos" "nd_Rgt a = pos + 1"
    and fits: "fits (scope_set config rows) a pos" "1 \<le> pos" "pos \<le> 2 * int (card (scope_set config rows)) + 1"
  shows "tree_inv config (map g rows @ [a]) \<and> others config (map g rows @ [a]) = others config rows"
proof -
  let ?N = "scope_set config rows"
  have ids: "map nd_ID (map g rows) = map nd_ID rows" by (rule keeps_map(2) [OF assms(2)])
  have "nd_ID ` ?N \<inter> nd_ID ` {a} = {}" using new(1) by (auto simp: scope_set_def)
  then have "block_in_gap ?N {a} a pos 2"
    using assms(1) single_block [of a] new(3,4) fits by (simp add: block_in_gap_def tree_inv_def)
  then have "nested (relabel (open_gap pos 2) ` ?N \<union> {a})" by (rule insert_nested)
  moreover have "scope_set config (map g rows @ [a]) = relabel (open_gap pos 2) ` ?N \<union> {a}"
  proof -
    have "scope_set config (map g rows @ [a]) = scope_set config (map g rows) \<union> {a}"
      using new(2) by (auto simp: scope_set_def)
    also have "\<dots> = g ` ?N \<union> {a}" by (simp only: keeps_map(1) [OF assms(2)])
    also have "g ` ?N = relabel (open_gap pos 2) ` ?N" using g by (intro image_cong) auto
    finally show ?thesis .
  qed
  moreover have "distinct (map nd_ID (map g rows @ [a]))"
    using assms(1) new(1) ids by (simp only: map_append distinct_append) (auto simp: tree_inv_def)
  moreover have "others config (map g rows @ [a]) = others config (map g rows)"
    using new(2) by (simp add: others_def)
  ultimately show ?thesis using keeps_map(3) [OF assms(2)] by (simp add: tree_inv_def)
qed

definition op_keeps :: "nested_config \<Rightarrow> 'a tree_op \<Rightarrow> bool" where
  "op_keeps config run \<longleftrightarrow>
     (\<forall>db res db'. run db = (res, db') \<longrightarrow> tree_inv config (td_rows db) \<longrightarrow>
        tree_inv config (td_rows db') \<and> others config (td_rows db') = others config (td_rows db))"

text \<open>A transaction keeps the tree when its body does whenever it succeeds.\<close>

lemma write_keeps:
  assumes "\<And>db x db'. body db = (Inr x, db') \<Longrightarrow> tree_inv config (td_rows db) \<Longrightarrow>
     tree_inv config (td_rows db') \<and> others config (td_rows db') = others config (td_rows db)"
  shows "op_keeps config (tree_write body)"
  unfolding op_keeps_def
proof (intro allI impI)
  fix db res db'
  assume run: "tree_write body db = (res, db')" and inv: "tree_inv config (td_rows db)"
  from write_success [OF run]
  show "tree_inv config (td_rows db') \<and> others config (td_rows db') = others config (td_rows db)"
  proof (elim disjE exE conjE)
    fix x db1 db2
    assume "td_rows db1 = td_rows db" "body db1 = (Inr x, db2)" "td_rows db' = td_rows db2"
    with assms [of db1 x db2] inv show ?thesis by simp
  qed (use inv in simp)
qed

lemma prepared_row:
  assumes "created = prepareModel config model parent l r depth\<lparr>nd_ID := i\<rparr>" and "distinct (map fst (nc_Scope config))"
  shows "in_scope config created" "nd_Lft created = l" "nd_Rgt created = r" "nd_ParentID created = parent"
    "nd_Depth created = depth"
  using assms prepareModel_in_scope [OF assms(2)] by (simp_all add: prepareModel_def)

lemma createRoot_keeps:
  assumes "distinct (map fst (nc_Scope config))"
  shows "op_keeps config (createRoot fresh config model)"
  unfolding createRoot_def
proof (rule write_keeps)
  fix db created db'
  assume "tree_bind (maxRight config) (\<lambda>right.
      tree_insert fresh (prepareModel config model None (right + 1) (right + 2) 0)) db = (Inr created, db')"
    and inv: "tree_inv config (td_rows db)"
  then obtain right db1 where right: "maxRight config db = (Inr right, db1)"
    and ins: "tree_insert fresh (prepareModel config model None (right + 1) (right + 2) 0) db1 = (Inr created, db')"
    by (auto simp: success_simps)
  let ?N = "scope_set config (td_rows db)"
  have N: "nested ?N" using inv by (simp add: tree_inv_def)
  note r = maxRight_success [OF right N]
  note ins = insert_success [OF ins]
  note row = prepared_row [OF ins(3) assms]
  have "r = relabel (open_gap (right + 1) 2) r" if "r \<in> ?N" for r
    using bounds_in_range [OF N that] r by (simp add: relabel_def open_gap_def)
  moreover have "fits ?N created (right + 1)" using fits_end [OF N] row(4,5) r by simp
  ultimately show "tree_inv config (td_rows db') \<and> others config (td_rows db') = others config (td_rows db)"
    using insert_row_inv [OF inv keeps_id, of "right + 1" created] ins(1,2) row r by simp
qed

lemma createAtNode_keeps:
  assumes "distinct (map fst (nc_Scope config))"
  shows "op_keeps config (createAtNode fresh config targetID model mode)"
  unfolding createAtNode_def
proof (rule write_keeps)
  fix db res db'
  assume run: "tree_bind (nodeForUpdate config targetID) (\<lambda>found.
       case found of
         None \<Rightarrow> tree_return None
       | Some target \<Rightarrow>
           (let (insertAt, parentID, depth) = create_place mode target in
            tree_bind (makeGap config insertAt 2) (\<lambda>_.
            tree_bind (tree_insert fresh (prepareModel config model parentID insertAt (insertAt + 1) depth)) (\<lambda>created.
              tree_return (Some created))))) db = (Inr res, db')"
    and inv: "tree_inv config (td_rows db)"
  then obtain found db1 where find: "nodeForUpdate config targetID db = (Inr found, db1)" by (auto simp: success_simps)
  note find' = nodeForUpdate_success [OF find]
  show "tree_inv config (td_rows db') \<and> others config (td_rows db') = others config (td_rows db)"
  proof (cases found)
    case None
    then show ?thesis using run find find' inv by (auto simp: success_simps)
  next
    case (Some target)
    obtain pos parent depth where place: "create_place mode target = (pos, parent, depth)" by (metis prod_cases3)
    from run find Some place obtain x db2 created where
      gap: "makeGap config pos 2 db1 = (Inr x, db2)"
      and ins: "tree_insert fresh (prepareModel config model parent pos (pos + 1) depth) db2 = (Inr created, db')"
      by (auto simp: success_simps)
    from gap obtain g where g: "td_rows db2 = map g (td_rows db1)" "keeps config g"
      "\<And>r. in_scope config r \<Longrightarrow> g r = relabel (open_gap pos 2) r" by (rule makeGap_success) blast
    note ins = insert_success [OF ins]
    note row = prepared_row [OF ins(3) assms]
    let ?N = "scope_set config (td_rows db)"
    have N: "nested ?N" and target: "target \<in> ?N" using inv find' Some by (simp_all add: tree_inv_def)
    note fits = fits_create_place [OF N target, of mode pos created, unfolded row(4,5), OF place]
    have "nd_ID created \<notin> nd_ID ` set (td_rows db)"
      using ins(2) g(1) keeps_map(2) [OF g(2), of "td_rows db1"] find' by (metis list.set_map)
    then show ?thesis
      using insert_row_inv [OF inv g(2) _ _ row(1-3)] g(3) fits ins(1) g(1) find' by (simp add: scope_set_def)
  qed
qed

text \<open>The two updates that close the gap of a subtree.\<close>

definition close_left :: "nested_config \<Rightarrow> node \<Rightarrow> node \<Rightarrow> node" where
  "close_left config nd =
     upd config (\<lambda>r. nd_Rgt nd < nd_Lft r) (\<lambda>r. r\<lparr>nd_Lft := nd_Lft r - (nd_Rgt nd - nd_Lft nd + 1)\<rparr>)"

definition close_right :: "nested_config \<Rightarrow> node \<Rightarrow> node \<Rightarrow> node" where
  "close_right config nd =
     upd config (\<lambda>r. nd_Rgt nd < nd_Rgt r) (\<lambda>r. r\<lparr>nd_Rgt := nd_Rgt r - (nd_Rgt nd - nd_Lft nd + 1)\<rparr>)"

lemma close_keeps: "keeps config (\<lambda>r. close_right config nd (close_left config nd r))"
  by (rule keeps_comp) (simp_all add: close_left_def close_right_def)

lemma close_in_scope:
  "in_scope config r \<Longrightarrow> close_right config nd (close_left config nd r) = relabel (close_gap nd) r"
  by (simp add: close_left_def close_right_def upd_def relabel_def close_gap_def)

lemma scope_outside:
  "scope_set config (filter (\<lambda>r. \<not> (in_scope config r \<and> nd_Lft nd \<le> nd_Lft r \<and> nd_Rgt r \<le> nd_Rgt nd)) rows) =
     outside (scope_set config rows) nd"
  by (auto simp: scope_set_def outside_def subtree_def)

lemma others_filter: "others config (filter (\<lambda>r. \<not> (in_scope config r \<and> P r)) rows) = others config rows"
  by (auto simp: others_def intro: filter_cong)

lemma DeleteSubtree_keeps: "op_keeps config (DeleteSubtree config nodeID)"
  unfolding DeleteSubtree_def
proof (rule write_keeps)
  fix db res db'
  assume run: "tree_bind (nodeForUpdate config nodeID) (\<lambda>found.
       case found of
         None \<Rightarrow> tree_return 0
       | Some nd \<Rightarrow>
           (let width = nd_Rgt nd - nd_Lft nd + 1 in
            tree_bind (tree_delete config (\<lambda>r. nd_Lft nd \<le> nd_Lft r \<and> nd_Rgt r \<le> nd_Rgt nd)) (\<lambda>deleted.
            tree_bind (tree_update config (\<lambda>r. nd_Rgt nd < nd_Lft r) (\<lambda>r. r\<lparr>nd_Lft := nd_Lft r - width\<rparr>)) (\<lambda>_.
            tree_bind (tree_update config (\<lambda>r. nd_Rgt nd < nd_Rgt r) (\<lambda>r. r\<lparr>nd_Rgt := nd_Rgt r - width\<rparr>)) (\<lambda>_.
              tree_return deleted))))) db = (Inr res, db')"
    and inv: "tree_inv config (td_rows db)"
  then obtain found db1 where find: "nodeForUpdate config nodeID db = (Inr found, db1)" by (auto simp: success_simps)
  note find' = nodeForUpdate_success [OF find]
  show "tree_inv config (td_rows db') \<and> others config (td_rows db') = others config (td_rows db)"
  proof (cases found)
    case None
    then show ?thesis using run find find' inv by (auto simp: success_simps)
  next
    case (Some nd)
    let ?rest = "filter (\<lambda>r. \<not> (in_scope config r \<and> nd_Lft nd \<le> nd_Lft r \<and> nd_Rgt r \<le> nd_Rgt nd)) (td_rows db)"
    let ?g = "\<lambda>r. close_right config nd (close_left config nd r)"
    from run find Some find' have rows: "td_rows db' = map ?g ?rest"
      by (auto simp: success_simps Let_def close_left_def close_right_def dest!: delete_success update_success)
    have N: "nested (scope_set config (td_rows db))" "nd \<in> scope_set config (td_rows db)" "distinct (map nd_ID (td_rows db))"
      using inv find' Some by (simp_all add: tree_inv_def)
    have "scope_set config (map ?g ?rest) = ?g ` outside (scope_set config (td_rows db)) nd"
      by (simp only: keeps_map(1) [OF close_keeps] scope_outside)
    also have "\<dots> = relabel (close_gap nd) ` outside (scope_set config (td_rows db)) nd"
      using close_in_scope by (intro image_cong) (auto simp: outside_def scope_set_def)
    finally have "nested (scope_set config (map ?g ?rest))" using remove_nested [OF N(1,2)] by simp
    moreover have "distinct (map nd_ID (map ?g ?rest))"
      using N(3) by (simp only: keeps_map(2) [OF close_keeps] distinct_map_filter)
    ultimately show ?thesis
      by (simp only: rows tree_inv_def keeps_map(3) [OF close_keeps] others_filter simp_thms)
  qed
qed

section \<open>Moving\<close>

definition overwrite :: "nested_config \<Rightarrow> node \<Rightarrow> node \<Rightarrow> node \<Rightarrow> node" where
  "overwrite config nd u = upd config (\<lambda>r. nd_ID r = nd_ID u) (\<lambda>r.
     r\<lparr>nd_Lft := nd_Lft u, nd_Rgt := nd_Rgt u, nd_Depth := nd_Depth u,
       nd_ParentID := (if nd_ID u = nd_ID nd then nd_ParentID u else nd_ParentID r)\<rparr>)"

lemma overwrite_keeps: "keeps config (overwrite config nd u)"
  by (simp add: keeps_def overwrite_def upd_def)

lemma write_moved_success:
  "write_moved config nd us db = (Inr x, db') \<Longrightarrow> td_rows db' = map (fold (overwrite config nd) us) (td_rows db)"
proof (induction us arbitrary: db)
  case (Cons u us)
  then obtain y db1 where "tree_update config (\<lambda>r. nd_ID r = nd_ID u) (\<lambda>r.
       r\<lparr>nd_Lft := nd_Lft u, nd_Rgt := nd_Rgt u, nd_Depth := nd_Depth u,
         nd_ParentID := (if nd_ID u = nd_ID nd then nd_ParentID u else nd_ParentID r)\<rparr>) db = (Inr y, db1)"
    "write_moved config nd us db1 = (Inr x, db')" by (auto simp: success_simps)
  from Cons.IH [OF this(2)] update_success [OF this(1)] show ?case by (simp add: overwrite_def [symmetric])
qed (simp add: success_simps)

lemma fold_keeps: "keeps config (fold (overwrite config nd) us)"
proof (induction us)
  case (Cons u us)
  then show ?case using keeps_comp [OF Cons.IH overwrite_keeps] by (simp add: comp_def)
qed (simp add: keeps_def)

lemma fold_overwrite_other:
  "nd_ID r \<notin> nd_ID ` set us \<Longrightarrow> fold (overwrite config nd) us r = r"
  by (induction us) (auto simp: overwrite_def upd_def)

lemma fold_overwrite_hit:
  assumes "distinct (map nd_ID us)" and "u \<in> set us" and "nd_ID r = nd_ID u" and "in_scope config r"
  shows "fold (overwrite config nd) us r = overwrite config nd u r"
  using assms
proof (induction us arbitrary: r)
  case (Cons v vs)
  show ?case
  proof (cases "u = v")
    case True
    have "nd_ID (overwrite config nd v r) = nd_ID r" using overwrite_keeps by (simp add: keeps_def)
    with True Cons.prems show ?thesis by (simp add: fold_overwrite_other)
  next
    case False
    with Cons.prems have "u \<in> set vs" by auto
    then have "nd_ID u \<in> nd_ID ` set vs" by (rule imageI)
    then have "nd_ID r \<noteq> nd_ID v" using Cons.prems by auto
    then have "overwrite config nd v r = r" by (simp add: overwrite_def upd_def)
    with Cons \<open>u \<in> set vs\<close> show ?thesis by simp
  qed
qed simp

definition open_left :: "nested_config \<Rightarrow> int \<Rightarrow> int \<Rightarrow> node \<Rightarrow> node" where
  "open_left config pos width = upd config (\<lambda>r. pos \<le> nd_Lft r) (\<lambda>r. r\<lparr>nd_Lft := nd_Lft r + width\<rparr>)"

definition open_right :: "nested_config \<Rightarrow> int \<Rightarrow> int \<Rightarrow> node \<Rightarrow> node" where
  "open_right config pos width = upd config (\<lambda>r. pos \<le> nd_Rgt r) (\<lambda>r. r\<lparr>nd_Rgt := nd_Rgt r + width\<rparr>)"

lemma open_keeps: "keeps config (\<lambda>r. open_right config pos width (open_left config pos width r))"
  by (rule keeps_comp) (simp_all add: open_left_def open_right_def)

lemma open_in_scope:
  "in_scope config r \<Longrightarrow> open_right config pos width (open_left config pos width r) = relabel (open_gap pos width) r"
  by (simp add: open_left_def open_right_def upd_def relabel_def open_gap_def)

definition shifted :: "nested_config \<Rightarrow> node \<Rightarrow> int \<Rightarrow> node \<Rightarrow> node" where
  "shifted config nd pos r =
     open_right config pos (nd_Rgt nd - nd_Lft nd + 1) (open_left config pos (nd_Rgt nd - nd_Lft nd + 1)
       (close_right config nd (close_left config nd r)))"

lemma shifted_keeps: "keeps config (shifted config nd pos)"
  unfolding shifted_def by (rule keeps_comp [OF open_keeps close_keeps])

lemma shifted_in_scope:
  assumes "in_scope config r"
  shows "shifted config nd pos r =
    relabel (open_gap pos (nd_Rgt nd - nd_Lft nd + 1)) (relabel (close_gap nd) r)"
proof -
  have "in_scope config (relabel (close_gap nd) r)" using assms by (simp add: in_scope_def)
  then show ?thesis by (simp add: shifted_def close_in_scope [OF assms] open_in_scope)
qed

lemma moveSubtree_success:
  assumes "moveSubtree config nd pos parent depth db = (Inr x, db')" and "nd \<in> scope_set config (td_rows db)"
  shows "td_rows db' = map (\<lambda>r. fold (overwrite config nd)
      (map (moved_row nd pos parent depth) (sort_key nd_Lft
        (filter (\<lambda>r. in_scope config r \<and> nd_Lft nd \<le> nd_Lft r \<and> nd_Rgt r \<le> nd_Rgt nd) (td_rows db))))
      (shifted config nd pos r)) (td_rows db)"
proof -
  let ?models = "filter (\<lambda>r. in_scope config r \<and> nd_Lft nd \<le> nd_Lft r \<and> nd_Rgt r \<le> nd_Rgt nd) (td_rows db)"
  have "nd \<in> set ?models" using assms(2) by (simp add: scope_set_def)
  then have nonempty: "?models \<noteq> []" by (metis list.set(1) empty_iff)
  from assms(1) obtain models db0 where sel: "tree_select config (\<lambda>r. nd_Lft nd \<le> nd_Lft r \<and> nd_Rgt r \<le> nd_Rgt nd) db = (Inr models, db0)"
    by (auto simp: moveSubtree_def success_simps)
  note sel' = select_success [OF sel]
  with assms(1) sel nonempty show ?thesis
    by (auto simp: moveSubtree_def success_simps Let_def shifted_def close_left_def close_right_def open_left_def open_right_def
        dest!: update_success write_moved_success)
qed

lemma move_rows:
  fixes pos :: int and parent :: "(64 word) option" and depth :: int
  assumes "tree_inv config rows" and "nd \<in> scope_set config rows"
  defines "us \<equiv> map (moved_row nd pos parent depth) (sort_key nd_Lft
      (filter (\<lambda>r. in_scope config r \<and> nd_Lft nd \<le> nd_Lft r \<and> nd_Rgt r \<le> nd_Rgt nd) rows))"
  defines "g \<equiv> \<lambda>r. fold (overwrite config nd) us (shifted config nd pos r)"
  shows "keeps config g"
    and "r \<in> subtree (scope_set config rows) nd \<Longrightarrow> g r = moved_row nd pos parent depth r"
    and "r \<in> outside (scope_set config rows) nd \<Longrightarrow>
      g r = relabel (open_gap pos (nd_Rgt nd - nd_Lft nd + 1)) (relabel (close_gap nd) r)"
proof -
  let ?N = "scope_set config rows"
  have k: "keeps config (shifted config nd pos)" by (rule shifted_keeps)
  show "keeps config g" unfolding g_def by (rule keeps_comp [OF fold_keeps k])
  have us: "set us = moved_row nd pos parent depth ` subtree ?N nd"
    by (auto simp: us_def subtree_def scope_set_def)
  have ids: "nd_ID (shifted config nd pos r) = nd_ID r" "in_scope config (shifted config nd pos r) = in_scope config r" for r
    using k by (simp_all add: keeps_def in_scope_def)
  have inj: "inj_on nd_ID (set rows)" "distinct rows" using assms(1) by (auto simp: tree_inv_def distinct_map)
  show "g r = moved_row nd pos parent depth r" if r: "r \<in> subtree ?N nd"
  proof -
    have "in_scope config r" using r by (simp add: subtree_def scope_set_def)
    have "distinct (map nd_ID us)"
      using inj by (auto simp: us_def distinct_map comp_def inj_on_def)
    then have "g r = overwrite config nd (moved_row nd pos parent depth r) (shifted config nd pos r)"
      unfolding g_def using us r ids \<open>in_scope config r\<close> by (intro fold_overwrite_hit) auto
    also have "\<dots> = moved_row nd pos parent depth r"
      using \<open>in_scope config r\<close> ids by (simp add: overwrite_def upd_def shifted_in_scope relabel_def moved_row_def)
    finally show ?thesis .
  qed
  show "g r = relabel (open_gap pos (nd_Rgt nd - nd_Lft nd + 1)) (relabel (close_gap nd) r)" if r: "r \<in> outside ?N nd"
  proof -
    have "in_scope config r" "r \<in> set rows" using r by (simp_all add: outside_def scope_set_def)
    have "nd_ID r \<notin> nd_ID ` set us"
    proof
      assume "nd_ID r \<in> nd_ID ` set us"
      then obtain s where "s \<in> subtree ?N nd" "nd_ID r = nd_ID s" using us by auto
      with inj(1) \<open>r \<in> set rows\<close> have "r \<in> subtree ?N nd" by (auto simp: inj_on_def subtree_def scope_set_def)
      with r show False by (simp add: outside_def)
    qed
    then show ?thesis
      using ids \<open>in_scope config r\<close> by (simp add: g_def fold_overwrite_other shifted_in_scope)
  qed
qed

lemma moveSubtree_after:
  assumes "moveSubtree config nd pos parent depth db = (Inr x, db')" and "tree_inv config (td_rows db)"
    and "nd \<in> scope_set config (td_rows db)"
  obtains g where "td_rows db' = map g (td_rows db)" "keeps config g"
    "g ` scope_set config (td_rows db) = after_move (scope_set config (td_rows db)) nd pos parent depth"
    "\<And>r. r \<in> scope_set config (td_rows db) \<Longrightarrow> nd_ParentID (g r) = (if nd_ID r = nd_ID nd then parent else nd_ParentID r)"
proof -
  let ?N = "scope_set config (td_rows db)"
  define us where "us = map (moved_row nd pos parent depth) (sort_key nd_Lft
      (filter (\<lambda>r. in_scope config r \<and> nd_Lft nd \<le> nd_Lft r \<and> nd_Rgt r \<le> nd_Rgt nd) (td_rows db)))"
  define g where "g = (\<lambda>r. fold (overwrite config nd) us (shifted config nd pos r))"
  note rows = moveSubtree_success [OF assms(1,3), folded us_def, folded g_def]
  note g = move_rows [OF assms(2,3), where pos = pos and parent = parent and depth = depth, folded us_def, folded g_def]
  have sub: "g r = moved_row nd pos parent depth r" if "r \<in> subtree ?N nd" for r
    using g(2) [OF that] by (simp add: g_def)
  have out: "g r = relabel (open_gap pos (nd_Rgt nd - nd_Lft nd + 1)) (relabel (close_gap nd) r)" if "r \<in> outside ?N nd" for r
    using g(3) [OF that] by (simp add: g_def)
  have "g ` ?N = g ` outside ?N nd \<union> g ` subtree ?N nd"
    using split_subtree(1) [OF assms(3)] by (metis image_Un)
  also have "\<dots> = after_move ?N nd pos parent depth"
    unfolding after_move_def image_image using sub out by (intro arg_cong2 [where f = "(\<union>)"] image_cong) auto
  finally have image: "g ` ?N = after_move ?N nd pos parent depth" .
  have parent: "nd_ParentID (g r) = (if nd_ID r = nd_ID nd then parent else nd_ParentID r)" if r: "r \<in> ?N" for r
  proof (cases "r \<in> subtree ?N nd")
    case False
    have "inj_on nd_ID ?N" using assms(2) by (simp add: tree_inv_def nested_def intervals_def)
    with False r assms(3) subtree_self have "nd_ID r \<noteq> nd_ID nd" by (auto simp: inj_on_def)
    with False r out show ?thesis by (simp add: outside_def)
  qed (simp add: sub)
  show ?thesis by (rule that [OF rows g(1) image parent])
qed

lemma move_to_keeps:
  assumes "move_to config nd (pos, parent, depth) db = (Inr x, db')" and "tree_inv config (td_rows db)"
    and "nd \<in> scope_set config (td_rows db)"
    and "nested (after_move (scope_set config (td_rows db)) nd (close_gap nd pos) parent depth)"
  shows "tree_inv config (td_rows db') \<and> others config (td_rows db') = others config (td_rows db)"
proof (cases "close_gap nd pos = nd_Lft nd")
  case True
  then show ?thesis using assms(1,2) by (auto simp: move_to_def close_gap_def success_simps split: if_splits)
next
  case False
  then have "moveSubtree config nd (close_gap nd pos) parent depth db = (Inr x, db')"
    using assms(1) by (simp add: move_to_def close_gap_def Let_def split: if_splits)
  then obtain g where
    g: "td_rows db' = map g (td_rows db)" "keeps config g"
      "g ` scope_set config (td_rows db) = after_move (scope_set config (td_rows db)) nd (close_gap nd pos) parent depth"
    by (rule moveSubtree_after [OF _ assms(2,3)])
  then have "scope_set config (td_rows db') = after_move (scope_set config (td_rows db)) nd (close_gap nd pos) parent depth"
    by (simp only: keeps_map(1))
  then show ?thesis
    using assms(2,4) by (simp only: tree_inv_def g(1) keeps_map(2,3) [OF g(2)] simp_thms)
qed

lemma find_target:
  assumes "tree_inv config rows" and "nd \<in> scope_set config rows" and "target \<in> scope_set config rows"
    and "\<not> (nd_Lft nd \<le> nd_Lft target \<and> nd_Rgt target \<le> nd_Rgt nd)"
  shows "target \<in> outside (scope_set config rows) nd"
  using assms by (auto simp: outside_def subtree_def)

lemma move_in_tx_cases:
  assumes "move_in_tx config nodeID targetID mode db = (Inr x, db')" and "tree_inv config (td_rows db)"
  defines "N \<equiv> scope_set config (td_rows db)"
  obtains "td_rows db' = td_rows db" "nodeID \<notin> nd_ID ` N \<or> mode \<noteq> moveRoot \<and> targetID \<notin> nd_ID ` N"
  | nd pos parent depth db1 where "td_rows db1 = td_rows db" "nd \<in> N" "nd_ID nd = nodeID"
      "move_to config nd (pos, parent, depth) db1 = (Inr x, db')"
      "mode = moveRoot" "(pos, parent, depth) = (2 * int (card N) + 1, None, 0)"
  | nd pos parent depth db1 target where "td_rows db1 = td_rows db" "nd \<in> N" "nd_ID nd = nodeID"
      "move_to config nd (pos, parent, depth) db1 = (Inr x, db')"
      "mode \<noteq> moveRoot" "target \<in> outside N nd" "nd_ID target = targetID" "move_place mode 0 target = (pos, parent, depth)"
proof -
  from assms(1) obtain found db1 where find: "nodeForUpdate config nodeID db = (Inr found, db1)"
    by (auto simp: move_in_tx_def success_simps)
  note find' = nodeForUpdate_success [OF find]
  have nested: "nested N" using assms(2) by (simp add: tree_inv_def N_def)
  note run = assms(1) [unfolded move_in_tx_def]
  show ?thesis
  proof (cases found)
    case None
    then show ?thesis using run find find' by (intro that(1)) (auto simp: success_simps N_def)
  next
    case (Some nd)
    show ?thesis
    proof (cases "mode = moveRoot")
      case True
      with run find Some obtain right db2 where
        "maxRight config db1 = (Inr right, db2)" "move_to config nd (move_place moveRoot right nd) db2 = (Inr x, db')"
        by (auto simp: success_simps)
      with maxRight_success [of config db1 right db2] nested find' Some True show ?thesis
        by (intro that(2) [of db2 nd "right + 1" None 0]) (auto simp: move_place_def N_def)
    next
      case False
      with run find Some obtain found_target db2 where find2: "nodeForUpdate config targetID db1 = (Inr found_target, db2)"
        by (auto simp: success_simps)
      note find2' = nodeForUpdate_success [OF find2]
      show ?thesis
      proof (cases found_target)
        case None
        then show ?thesis
          using run find find' find2 find2' Some False by (intro that(1)) (auto simp: success_simps N_def)
      next
        case target: (Some target)
        obtain pos parent depth where place: "move_place mode 0 target = (pos, parent, depth)" by (metis prod_cases3)
        from run find Some False find2 target place
        have "move_to config nd (pos, parent, depth) db2 = (Inr x, db')"
          and "\<not> (nd_Lft nd \<le> nd_Lft target \<and> nd_Rgt target \<le> nd_Rgt nd)"
          by (auto simp: success_simps split: if_splits)
        with find_target [OF assms(2), of nd target] place find' find2' Some target False show ?thesis
          by (intro that(3) [of db2 nd pos parent depth target]) (auto simp: N_def)
      qed
    qed
  qed
qed

lemma move_in_tx_fits:
  assumes "move_in_tx config nodeID targetID mode db = (Inr x, db')" and "tree_inv config (td_rows db)"
  defines "N \<equiv> scope_set config (td_rows db)"
  obtains "td_rows db' = td_rows db" "nodeID \<notin> nd_ID ` N \<or> mode \<noteq> moveRoot \<and> targetID \<notin> nd_ID ` N"
  | nd pos parent depth db1 where "td_rows db1 = td_rows db" "nd \<in> N" "nd_ID nd = nodeID"
      "move_to config nd (pos, parent, depth) db1 = (Inr x, db')"
      "nested (after_move N nd (close_gap nd pos) parent depth)"
      "fits (relabel (close_gap nd) ` outside N nd) (moved_row nd (close_gap nd pos) parent depth nd) (close_gap nd pos)"
      "if mode = moveRoot then parent = None
       else \<exists>target \<in> N. nd_ID target = targetID \<and> move_place mode 0 target = (pos, parent, depth)"
proof -
  have nested: "nested N" using assms(2) by (simp add: tree_inv_def N_def)
  show ?thesis
    using assms(1,2)
  proof (cases rule: move_in_tx_cases)
    case 1
    then show ?thesis using that(1) by (simp add: N_def)
  next
    case (2 nd pos parent depth db1)
    then show ?thesis
      using move_root_nested [OF nested, of nd] move_root_fits(1) [OF nested, of nd]
      by (intro that(2) [of db1 nd pos parent depth]) (simp_all add: N_def)
  next
    case (3 nd pos parent depth db1 target)
    then have nd: "nd \<in> N" "target \<in> outside N nd" by (simp_all add: N_def)
    have "target \<in> N" using nd(2) by (simp add: outside_def)
    with 3 move_nested [OF nested nd 3(5,8)] move_fits(1) [OF nested nd 3(5,8)] show ?thesis
      by (intro that(2) [of db1 nd pos parent depth]) (auto simp: N_def)
  qed
qed

lemma nested_move_keeps: "op_keeps config (nested_move config nodeID targetID mode)"
  unfolding nested_move_def
proof (rule write_keeps)
  fix db x db'
  assume run: "move_in_tx config nodeID targetID mode db = (Inr x, db')" and inv: "tree_inv config (td_rows db)"
  then show "tree_inv config (td_rows db') \<and> others config (td_rows db') = others config (td_rows db)"
  proof (cases rule: move_in_tx_fits)
    case (2 nd pos parent depth db1)
    with move_to_keeps [OF 2(4)] inv show ?thesis by simp
  qed (use inv in simp)
qed

section \<open>Sequences of operations\<close>

lemma op_keepsD:
  "op_keeps config run \<Longrightarrow> run db = (res, db') \<Longrightarrow> tree_inv config (td_rows db) \<Longrightarrow>
     tree_inv config (td_rows db') \<and> others config (td_rows db') = others config (td_rows db)"
  by (simp add: op_keeps_def)

lemma op_keeps_bind:
  assumes "op_keeps config m" and "\<And>x. op_keeps config (f x)"
  shows "op_keeps config (tree_bind m f)"
  unfolding op_keeps_def
proof (intro allI impI)
  fix db res db'
  assume run: "tree_bind m f db = (res, db')" and inv: "tree_inv config (td_rows db)"
  obtain r db1 where m: "m db = (r, db1)" by force
  note keep = op_keepsD [OF assms(1) m inv]
  show "tree_inv config (td_rows db') \<and> others config (td_rows db') = others config (td_rows db)"
  proof (cases r)
    case (Inl err)
    with run m keep show ?thesis by (simp add: tree_bind_def)
  next
    case (Inr x)
    with run m have "f x db1 = (res, db')" by (simp add: tree_bind_def)
    from op_keepsD [OF assms(2) this] keep show ?thesis by simp
  qed
qed

lemma op_keeps_return: "op_keeps config (tree_return x)"
  by (auto simp: op_keeps_def tree_return_def)

lemma op_keeps_fail: "op_keeps config (tree_fail err)"
  by (auto simp: op_keeps_def tree_fail_def)

lemma op_keeps_read: "op_keeps config (statement (\<lambda>rows. (h rows, rows)))"
  by (auto simp: op_keeps_def statement_def split: list.splits option.splits)

lemmas op_keeps_intros = op_keeps_bind op_keeps_return op_keeps_fail op_keeps_read nested_move_keeps

lemma with_node_keeps: "(\<And>nd. op_keeps config (f nd)) \<Longrightarrow> op_keeps config (with_node config i missing f)"
  unfolding with_node_def tree_first_def by (intro op_keeps_intros) (auto split: option.split intro: op_keeps_intros)

lemma MoveUp_keeps: "op_keeps config (MoveUp config i)"
  unfolding MoveUp_def PrevSibling_def tree_select_def
  by (intro op_keeps_intros with_node_keeps) (auto split: option.split intro: op_keeps_intros)

lemma MoveDown_keeps: "op_keeps config (MoveDown config i)"
  unfolding MoveDown_def NextSibling_def tree_select_def
  by (intro op_keeps_intros with_node_keeps) (auto split: option.split intro: op_keeps_intros)

text \<open>Other columns do not matter to the tree.\<close>

lemma set_values_simps [simp]:
  "nd_ID (set_values vs r) = nd_ID r" "nd_ParentID (set_values vs r) = nd_ParentID r" "nd_Lft (set_values vs r) = nd_Lft r"
  "nd_Rgt (set_values vs r) = nd_Rgt r" "nd_Depth (set_values vs r) = nd_Depth r"
  by (simp_all add: set_values_def)

lemma nested_same_bounds:
  assumes "nested N" and g: "\<And>r. nd_ID (g r) = nd_ID r \<and> nd_ParentID (g r) = nd_ParentID r \<and> nd_Lft (g r) = nd_Lft r \<and>
      nd_Rgt (g r) = nd_Rgt r \<and> nd_Depth (g r) = nd_Depth r"
  shows "nested (g ` N)"
proof -
  have iv: "intervals N" and ends: "endpoints N = {1..2 * int (card N)}" using assms(1) by (simp_all add: nested_def)
  have enc: "encloses (g a) (g b) = encloses a b" "apart (g a) (g b) = apart a b" "sits_under (g a) (g b) = sits_under a b" for a b
    by (simp_all add: encloses_def apart_def sits_under_def g)
  have inj: "inj_on g N" using intervalsD(2) [OF iv] by (metis g inj_onI inj_on_def)
  have "intervals (g ` N)"
    using intervalsD [OF iv] by (fastforce simp: intervals_def inj_on_def enc g)
  moreover have "placed (g ` N) (g a)" if "placed N a" for a
  proof -
    have inner: "innermost (g ` N) (g b) (g a)" if "innermost N b a" for b
      using that by (auto simp: innermost_def enc)
    from that consider "nd_ParentID a = None" "nd_Depth a = 0" "\<forall>c \<in> N. \<not> encloses c a"
      | b where "innermost N b a" "sits_under a b" by (auto simp: placed_def)
    then show ?thesis
    proof cases
      case 2
      with inner enc(3) show ?thesis unfolding placed_def by blast
    qed (simp add: placed_def enc g)
  qed
  moreover have "endpoints (g ` N) = endpoints N" by (auto simp: endpoints_def g)
  ultimately show ?thesis using assms(1) ends card_image [OF inj] by (auto simp: nested_def)
qed

lemma clean_in_scope: "in_scope config (set_values (cleanUpdateValues config vs) r) = in_scope config r"
proof -
  have "map_of (nd_values (set_values (cleanUpdateValues config vs) r)) field = map_of (nd_values r) field"
    if "field \<in> fst ` set (nc_Scope config)" for field
  proof -
    have not_set: "field \<notin> fst ` set (cleanUpdateValues config vs)" using that by (force simp: cleanUpdateValues_def)
    have "map_of (filter (\<lambda>(k, _). k \<notin> K) xs) field = map_of xs field" if "field \<notin> K" for K and xs :: gomap
      using that by (induction xs) auto
    with not_set show ?thesis by (simp add: set_values_def map_add_def map_of_eq_None_iff [THEN iffD2])
  qed
  then show ?thesis unfolding in_scope_def list_all_iff by fastforce
qed

lemma values_update_keeps:
  "op_keeps config (tree_update config (\<lambda>r. nd_ID r = i) (set_values (cleanUpdateValues config vs)))"
  unfolding op_keeps_def
proof (intro allI impI)
  fix db res db'
  let ?g = "upd config (\<lambda>r. nd_ID r = i) (set_values (cleanUpdateValues config vs))"
  assume run: "tree_update config (\<lambda>r. nd_ID r = i) (set_values (cleanUpdateValues config vs)) db = (res, db')"
    and inv: "tree_inv config (td_rows db)"
  show "tree_inv config (td_rows db') \<and> others config (td_rows db') = others config (td_rows db)"
  proof (cases res)
    case (Inl err)
    with run have "td_rows db' = td_rows db"
      by (auto simp: tree_update_def statement_def split: list.splits option.splits)
    with inv show ?thesis by simp
  next
    case (Inr x)
    have rows: "td_rows db' = map ?g (td_rows db)" using update_success run Inr by blast
    have scope: "in_scope config (?g r) = in_scope config r" for r by (simp add: upd_def clean_in_scope)
    have "scope_set config (map ?g (td_rows db)) = ?g ` scope_set config (td_rows db)"
      by (auto simp: scope_set_def scope)
    moreover have "nested (?g ` scope_set config (td_rows db))"
      using inv by (intro nested_same_bounds) (auto simp: tree_inv_def upd_def)
    moreover have "map nd_ID (map ?g (td_rows db)) = map nd_ID (td_rows db)" by (simp add: upd_def)
    moreover have "others config (map ?g rows) = others config rows" for rows
      by (induction rows) (auto simp: others_def scope, auto simp: upd_def)
    ultimately show ?thesis using inv by (simp only: tree_inv_def rows simp_thms)
  qed
qed

lemma UpdateValues_keeps: "op_keeps config (nested_UpdateValues config i vs)"
proof -
  have "op_keeps config (tree_bind (nodeForUpdate config i) (\<lambda>found.
       case found of
         None \<Rightarrow> tree_return ()
       | Some current \<Rightarrow>
           (case UpdateValues_parent config vs current of
              Inl err \<Rightarrow> tree_fail err
            | Inr nextParent \<Rightarrow>
                tree_bind
                  (if cleanUpdateValues config vs = [] then tree_return ()
                   else tree_update config (\<lambda>r. nd_ID r = i) (set_values (cleanUpdateValues config vs))) (\<lambda>_.
                if nd_ParentID current = nextParent then tree_return ()
                else (case nextParent of
                        Some parent \<Rightarrow> nested_move config i parent moveLastChild
                      | None \<Rightarrow> nested_move config i 0 moveRoot)))))"
    unfolding nodeForUpdate_def tree_first_def
    by (intro op_keeps_bind op_keeps_read)
      (auto split: option.split sum.split intro!: op_keeps_intros values_update_keeps)
  then show ?thesis
    unfolding nested_UpdateValues_def by (intro write_keeps) (rule op_keepsD)
qed

lemma Create_keeps:
  assumes "distinct (map fst (nc_Scope config))"
  shows "op_keeps config (nested_Create fresh config model)"
  using assms by (auto simp: nested_Create_def split: option.split
      intro!: op_keeps_intros createRoot_keeps createAtNode_keeps)

datatype tree_cmd =
    CmdCreate node
  | CmdCreateAt "64 word" node create_mode
  | CmdUpdateValues "64 word" gomap
  | CmdMove "64 word" "64 word" move_mode
  | CmdMoveUp "64 word"
  | CmdMoveDown "64 word"
  | CmdDelete "64 word"

fun run_cmd :: "(node list \<Rightarrow> 64 word) \<Rightarrow> nested_config \<Rightarrow> tree_cmd \<Rightarrow> tree_db \<Rightarrow> tree_db" where
  "run_cmd fresh config (CmdCreate model) db = snd (nested_Create fresh config model db)"
| "run_cmd fresh config (CmdCreateAt i model mode) db = snd (createAtNode fresh config i model mode db)"
| "run_cmd fresh config (CmdUpdateValues i vs) db = snd (nested_UpdateValues config i vs db)"
| "run_cmd fresh config (CmdMove i target mode) db = snd (nested_move config i target mode db)"
| "run_cmd fresh config (CmdMoveUp i) db = snd (MoveUp config i db)"
| "run_cmd fresh config (CmdMoveDown i) db = snd (MoveDown config i db)"
| "run_cmd fresh config (CmdDelete i) db = snd (DeleteSubtree config i db)"

lemma run_cmd_keeps:
  assumes "distinct (map fst (nc_Scope config))" and "tree_inv config (td_rows db)"
  shows "tree_inv config (td_rows (run_cmd fresh config cmd db)) \<and>
    others config (td_rows (run_cmd fresh config cmd db)) = others config (td_rows db)"
  by (cases cmd)
      (simp_all add: op_keepsD [OF _ prod.collapse [symmetric] assms(2)] Create_keeps [OF assms(1)]
        createAtNode_keeps [OF assms(1)] UpdateValues_keeps nested_move_keeps MoveUp_keeps MoveDown_keeps DeleteSubtree_keeps)

text \<open>
  C4. Nested sets stay trees: through any sequence of creations, updates, moves and deletions, whichever statements fail,
  the rows of the scope have distinct identifiers, their bounds are nested intervals that use every number from one to
  twice the number of rows, and each row's parent and depth are those of the innermost interval around it; rows of other
  scopes are not touched.
\<close>

theorem nested_set_stays_tree:
  assumes "distinct (map fst (nc_Scope config))" and "tree_inv config (td_rows db)"
  shows "tree_inv config (td_rows (fold (run_cmd fresh config) cmds db)) \<and>
    others config (td_rows (fold (run_cmd fresh config) cmds db)) = others config (td_rows db)"
  using assms(2)
proof (induction cmds arbitrary: db)
  case (Cons cmd cmds)
  with run_cmd_keeps [OF assms(1), of db fresh cmd] show ?case by simp
qed simp

lemma tree_inv_Nil: "tree_inv config []"
  by (simp add: tree_inv_def nested_def intervals_def scope_set_def endpoints_def)

definition new_node :: "64 word \<Rightarrow> node" where
  "new_node i = \<lparr>nd_ID = i, nd_ParentID = None, nd_Lft = 0, nd_Rgt = 0, nd_Depth = 0, nd_values = []\<rparr>"

theorem nested_set_stays_tree_witness:
  "tree_inv default_config (td_rows (fold (run_cmd (\<lambda>rows. 9) default_config)
     [CmdCreate (new_node 1), CmdCreateAt 1 (new_node 2) childLast, CmdMove 2 1 moveBefore, CmdDelete 1]
     \<lparr>td_rows = [], td_faults = [None, None, None, None, None, None, Some (GoError ''connection lost'')]\<rparr>))"
  using nested_set_stays_tree [of default_config
      "\<lparr>td_rows = [], td_faults = [None, None, None, None, None, None, Some (GoError ''connection lost'')]\<rparr>" "\<lambda>rows. 9"
      "[CmdCreate (new_node 1), CmdCreateAt 1 (new_node 2) childLast, CmdMove 2 1 moveBefore, CmdDelete 1]"]
  by (simp add: tree_inv_Nil default_config_def)

section \<open>What a move does\<close>

definition parents :: "nested_config \<Rightarrow> node list \<Rightarrow> 64 word \<Rightarrow> (64 word) option option" where
  "parents config rows = map_of (map (\<lambda>r. (nd_ID r, nd_ParentID r)) (filter (in_scope config) rows))"

definition new_parent :: "move_mode \<Rightarrow> node \<Rightarrow> (64 word) option" where
  "new_parent mode target = fst (snd (move_place mode 0 target))"

lemma innermost_unique:
  assumes "innermost N b a" and "innermost N c a"
  shows "b = c"
proof -
  have "b = c \<or> encloses b c" "c = b \<or> encloses c b" using assms unfolding innermost_def by blast+
  then show ?thesis by (auto simp: encloses_def)
qed

lemma parents_Some:
  assumes "tree_inv config rows" and "r \<in> scope_set config rows"
  shows "parents config rows (nd_ID r) = Some (nd_ParentID r)"
  unfolding parents_def
proof (rule map_of_is_SomeI)
  show "distinct (map fst (map (\<lambda>r. (nd_ID r, nd_ParentID r)) (filter (in_scope config) rows)))"
    using assms(1) by (simp add: tree_inv_def comp_def distinct_map_filter)
qed (use assms(2) in \<open>auto simp: scope_set_def\<close>)

lemma parents_None: "i \<notin> nd_ID ` scope_set config rows \<Longrightarrow> parents config rows i = None"
  by (auto simp: parents_def map_of_eq_None_iff scope_set_def)

text \<open>At its own place a subtree already has the parent of the place.\<close>

lemma spans_own_place:
  assumes "intervals N" and "nd \<in> N" and "c \<in> outside N nd"
  shows "spans (relabel (close_gap nd) c) (nd_Lft nd) \<longleftrightarrow> encloses c nd"
proof -
  have "c \<in> N" using assms(3) by (simp add: outside_def)
  with outside_cases [OF assms] intervalsD(3) [OF assms(1,2)] intervalsD(3) [OF assms(1)] show ?thesis
    unfolding spans_def encloses_def apart_def relabel_simps close_gap_def by (smt (verit))
qed

lemma fits_own_place:
  assumes "nested N" and "nd \<in> N" and "fits (relabel (close_gap nd) ` outside N nd) rt (nd_Lft nd)"
  shows "nd_ParentID rt = nd_ParentID nd"
proof -
  have iv: "intervals N" and placed: "placed N nd" using assms(1,2) by (simp_all add: nested_def)
  have outer: "c \<in> outside N nd" if "c \<in> N" "encloses c nd" for c
    using that by (auto simp: outside_def subtree_def encloses_def)
  note own = spans_own_place [OF iv assms(2)]
  from assms(3) consider
    "nd_ParentID rt = None" "\<forall>c \<in> outside N nd. \<not> spans (relabel (close_gap nd) c) (nd_Lft nd)"
    | q where "q \<in> outside N nd" "encloses q nd" "sits_under rt (relabel (close_gap nd) q)"
      "\<forall>c \<in> outside N nd. encloses c nd \<longrightarrow> relabel (close_gap nd) c = relabel (close_gap nd) q \<or>
         encloses (relabel (close_gap nd) c) (relabel (close_gap nd) q)"
    unfolding fits_def using own by (auto simp: image_iff)
  then show ?thesis
  proof cases
    case 1
    then have "\<forall>c \<in> N. \<not> encloses c nd" using own outer by blast
    with placed 1(1) show ?thesis by (auto simp: placed_def innermost_def)
  next
    case 2
    have out: "intervals (outside N nd)" by (rule intervals_subset [OF iv]) (auto simp: outside_def)
    note inj = relabel_inj [OF intervalsD(2) [OF out], of "close_gap nd"]
    note enc = relabel_encloses(1) [OF close_gap_monotone [OF iv assms(2)]]
    have "innermost N q nd"
      unfolding innermost_def
    proof (intro conjI ballI impI)
      fix c assume c: "c \<in> N" "encloses c nd"
      with outer 2(4) have "relabel (close_gap nd) c = relabel (close_gap nd) q \<or> encloses c q"
        using enc [OF _ 2(1)] by blast
      with inj outer [OF c] 2(1) show "c = q \<or> encloses c q" by (auto dest: inj_onD)
    qed (use 2(1,2) in \<open>auto simp: outside_def\<close>)
    with placed obtain "sits_under nd q" using innermost_unique by (auto simp: placed_def innermost_def)
    with 2(3) show ?thesis by (simp add: sits_under_def)
  qed
qed

lemma move_to_parents:
  assumes "move_to config nd (pos, parent, depth) db = (Inr x, db')" and "tree_inv config (td_rows db)"
    and "nd \<in> scope_set config (td_rows db)"
    and "fits (relabel (close_gap nd) ` outside (scope_set config (td_rows db)) nd)
      (moved_row nd (close_gap nd pos) parent depth nd) (close_gap nd pos)"
  obtains g where "td_rows db' = map g (td_rows db)" "keeps config g"
    "\<And>r. r \<in> scope_set config (td_rows db) \<Longrightarrow> nd_ParentID (g r) = (if nd_ID r = nd_ID nd then parent else nd_ParentID r)"
proof (cases "close_gap nd pos = nd_Lft nd")
  case True
  let ?N = "scope_set config (td_rows db)"
  have N: "nested ?N" "inj_on nd_ID ?N" using assms(2) by (simp_all add: tree_inv_def nested_def intervals_def)
  have "td_rows db' = td_rows db"
    using assms(1) True by (auto simp: move_to_def close_gap_def success_simps split: if_splits)
  moreover have "nd_ParentID nd = parent" using fits_own_place [OF N(1) assms(3) assms(4) [unfolded True]] by simp
  then have "nd_ParentID r = (if nd_ID r = nd_ID nd then parent else nd_ParentID r)" if "r \<in> ?N" for r
    using that assms(3) N(2) by (auto simp: inj_on_def)
  ultimately show ?thesis by (intro that [of "\<lambda>r. r"]) simp_all
next
  case False
  then have "moveSubtree config nd (close_gap nd pos) parent depth db = (Inr x, db')"
    using assms(1) by (simp add: move_to_def close_gap_def Let_def split: if_splits)
  then show ?thesis by (rule moveSubtree_after [OF _ assms(2,3)]) (rule that)
qed

lemma parents_map:
  assumes "tree_inv config rows" and "tree_inv config (map g rows)" and "keeps config g" and "i \<in> nd_ID ` scope_set config rows"
    and "\<And>r. r \<in> scope_set config rows \<Longrightarrow> nd_ParentID (g r) = (if nd_ID r = i then parent else nd_ParentID r)"
  shows "parents config (map g rows) = (parents config rows)(i \<mapsto> parent)"
proof
  fix j
  note scope = keeps_map(1) [OF assms(3)]
  show "parents config (map g rows) j = ((parents config rows)(i \<mapsto> parent)) j"
  proof (cases "j \<in> nd_ID ` scope_set config rows")
    case True
    then obtain r where r: "r \<in> scope_set config rows" "nd_ID r = j" by blast
    then have "g r \<in> scope_set config (map g rows)" by (simp only: scope image_eqI)
    from parents_Some [OF assms(2) this] parents_Some [OF assms(1) r(1)] assms(3,5) r show ?thesis
      by (simp add: keeps_def)
  next
    case False
    have "nd_ID ` scope_set config (map g rows) = nd_ID ` scope_set config rows"
      unfolding scope image_image using assms(3) by (simp add: keeps_def)
    with False assms(4) show ?thesis using parents_None by (metis fun_upd_apply)
  qed
qed

text \<open>
  C12. A move changes the tree in one place: when it succeeds on a node and a target that exist, the parent of the node is
  the one the mode asks for, also when the node already was where it was sent, and every other row keeps its parent. With
  the previous property this determines the whole tree.
\<close>

theorem move_changes_one_parent:
  assumes "tree_inv config (td_rows db)" and "nested_move config i t mode db = (Inr (), db')"
    and "i \<in> nd_ID ` scope_set config (td_rows db)"
    and "mode \<noteq> moveRoot \<longrightarrow> target \<in> scope_set config (td_rows db) \<and> nd_ID target = t"
  shows "parents config (td_rows db') = (parents config (td_rows db))(i \<mapsto> new_parent mode target)"
proof -
  from write_success [OF assms(2) [unfolded nested_move_def]] obtain db1 db2 where
    rows: "td_rows db1 = td_rows db" "td_rows db' = td_rows db2" and body: "move_in_tx config i t mode db1 = (Inr (), db2)" by auto
  have inj: "inj_on nd_ID (scope_set config (td_rows db))" using assms(1) by (simp add: tree_inv_def nested_def intervals_def)
  have inv: "tree_inv config (td_rows db')" using op_keepsD [OF nested_move_keeps assms(2,1)] by simp
  from body assms(1) [folded rows(1)] show ?thesis
  proof (cases rule: move_in_tx_fits)
    case 1
    then show ?thesis using assms(3,4) rows(1) by auto
  next
    case (2 nd pos parent depth db3)
    have "parent = new_parent mode target"
    proof (cases "mode = moveRoot")
      case False
      with 2(7) rows(1) obtain target' where
        "target' \<in> scope_set config (td_rows db)" "nd_ID target' = t" "move_place mode 0 target' = (pos, parent, depth)" by auto
      with False assms(4) inj_onD [OF inj, of target' target] show ?thesis by (simp add: new_parent_def)
    qed (use 2(7) in \<open>simp add: new_parent_def move_place_def\<close>)
    moreover have pre: "tree_inv config (td_rows db3)" "nd \<in> scope_set config (td_rows db3)"
      "fits (relabel (close_gap nd) ` outside (scope_set config (td_rows db3)) nd)
        (moved_row nd (close_gap nd pos) parent depth nd) (close_gap nd pos)"
      using 2(1,2,6) assms(1) rows(1) by simp_all
    moreover obtain g where "td_rows db2 = map g (td_rows db3)" "keeps config g"
      "\<And>r. r \<in> scope_set config (td_rows db3) \<Longrightarrow> nd_ParentID (g r) = (if nd_ID r = nd_ID nd then parent else nd_ParentID r)"
      by (rule move_to_parents [OF 2(4) pre]) blast
    ultimately show ?thesis using parents_map [OF assms(1) _ _ assms(3), of g parent] inv 2(1,3) rows by simp
  qed
qed

definition sample_tree :: tree_db where
  "sample_tree = fold (run_cmd (\<lambda>rows. 9) default_config) [CmdCreate (new_node 1), CmdCreate (new_node 2)]
     \<lparr>td_rows = [], td_faults = []\<rparr>"

lemma sample_tree_inv: "tree_inv default_config (td_rows sample_tree)"
proof -
  have "distinct (map fst (nc_Scope default_config))" by (simp add: default_config_def)
  note keep = run_cmd_keeps [OF this, THEN conjunct1]
  show ?thesis
    unfolding sample_tree_def fold_Cons fold_Nil comp_apply id_apply by (intro keep) (simp add: tree_inv_Nil)
qed

lemma sample_tree_rows:
  "td_rows sample_tree =
     [\<lparr>nd_ID = 1, nd_ParentID = None, nd_Lft = 1, nd_Rgt = 2, nd_Depth = 0, nd_values = []\<rparr>,
      \<lparr>nd_ID = 2, nd_ParentID = None, nd_Lft = 3, nd_Rgt = 4, nd_Depth = 0, nd_values = []\<rparr>]"
  by code_simp

lemma default_scope: "scope_set default_config rows = set rows"
  by (auto simp: scope_set_def in_scope_def default_config_def)

theorem move_changes_one_parent_witness:
  "parents default_config (td_rows (snd (nested_move default_config 2 1 moveLastChild sample_tree))) 2 = Some (Some 1)"
proof -
  let ?t = "\<lparr>nd_ID = 1, nd_ParentID = None, nd_Lft = 1, nd_Rgt = 2, nd_Depth = 0, nd_values = []\<rparr>"
  obtain db' where run: "nested_move default_config 2 1 moveLastChild sample_tree = (Inr (), db')"
  proof -
    have "fst (nested_move default_config 2 1 moveLastChild sample_tree) = Inr ()" by code_simp
    then show ?thesis by (metis prod.collapse that)
  qed
  have "?t \<in> scope_set default_config (td_rows sample_tree)" "2 \<in> nd_ID ` scope_set default_config (td_rows sample_tree)"
    by (simp_all add: default_scope sample_tree_rows)
  with move_changes_one_parent [OF sample_tree_inv run, of ?t] show ?thesis
    by (simp add: run new_parent_def move_place_def)
qed

end
