(* ===== verification/Nested_Set_Reads.thy ===== *)
theory Nested_Set_Reads
  imports Nested_Set_Correct
begin

text \<open>
  What the reading operations return on a table that is a tree: the queries by bounds agree with the parent links, and
  the check of the table accepts it.
\<close>

section \<open>Ancestors and descendants\<close>

definition parent_links :: "node set \<Rightarrow> (node \<times> node) set" where
  "parent_links N = {(a, b). a \<in> N \<and> b \<in> N \<and> nd_ParentID a = Some (nd_ID b)}"

lemma parent_link_innermost:
  assumes "nested N"
  shows "(a, b) \<in> parent_links N \<longleftrightarrow> a \<in> N \<and> innermost N b a"
proof
  have inj: "inj_on nd_ID N" using assms by (simp add: nested_def intervals_def)
  show "a \<in> N \<and> innermost N b a" if link: "(a, b) \<in> parent_links N"
  proof -
    have "placed N a" using assms link by (simp add: nested_def parent_links_def)
    then obtain c where "innermost N c a" "sits_under a c" using link by (auto simp: placed_def parent_links_def)
    with inj link show ?thesis by (auto simp: parent_links_def sits_under_def innermost_def inj_on_def)
  qed
  show "(a, b) \<in> parent_links N" if "a \<in> N \<and> innermost N b a"
  proof -
    have "placed N a" using assms that by (simp add: nested_def)
    with that innermost_unique [of N b a] show ?thesis
      by (auto simp: placed_def parent_links_def sits_under_def innermost_def)
  qed
qed

lemma encloses_parent_links:
  assumes "nested N" and "a \<in> N" and "b \<in> N"
  shows "encloses b a \<longleftrightarrow> (a, b) \<in> (parent_links N)\<^sup>+"
proof
  show "(a, b) \<in> (parent_links N)\<^sup>+" if "encloses b a"
    using assms(2) that
  proof (induction "nat (nd_Lft a - nd_Lft b)" arbitrary: a rule: less_induct)
    case less
    have "placed N a" using assms(1) less.prems(1) by (simp add: nested_def)
    with less.prems assms(3) obtain c where c: "innermost N c a" by (auto simp: placed_def)
    then have link: "(a, c) \<in> parent_links N" using parent_link_innermost [OF assms(1)] less.prems(1) by simp
    from c less.prems(2) assms(3) have "b = c \<or> encloses b c" by (auto simp: innermost_def)
    then show ?case
    proof
      assume "encloses b c"
      moreover have "nat (nd_Lft c - nd_Lft b) < nat (nd_Lft a - nd_Lft b)" "c \<in> N"
        using c less.prems(2) by (auto simp: innermost_def encloses_def)
      ultimately have "(c, b) \<in> (parent_links N)\<^sup>+" using less.hyps by blast
      with link show ?thesis by (rule trancl_into_trancl2)
    qed (use link in auto)
  qed
  show "encloses b a" if "(a, b) \<in> (parent_links N)\<^sup>+"
    using that
  proof (induction rule: trancl_induct)
    case (base c)
    then show ?case using parent_link_innermost [OF assms(1)] by (simp add: innermost_def)
  next
    case (step c d)
    then have "encloses d c" using parent_link_innermost [OF assms(1)] by (simp add: innermost_def)
    with step.IH show ?case by (rule encloses_trans [rotated])
  qed
qed

lemma with_node_success:
  assumes "with_node config i missing f db = (Inr x, db')" and "tree_inv config (td_rows db)"
    and "nd \<in> scope_set config (td_rows db)" and "nd_ID nd = i"
  obtains db1 where "td_rows db1 = td_rows db" "f nd db1 = (Inr x, db')"
proof -
  from assms(1) obtain found db1 where
    find: "nodeForUpdate config i db = (Inr found, db1)" and
    rest: "(case found of None \<Rightarrow> tree_return missing | Some nd \<Rightarrow> f nd) db1 = (Inr x, db')"
    by (auto simp: with_node_def nodeForUpdate_def success_simps)
  note find' = nodeForUpdate_success [OF find]
  have "inj_on nd_ID (scope_set config (td_rows db))" using assms(2) by (simp add: tree_inv_def nested_def intervals_def)
  with find' assms(3,4) have "found = Some nd" by (auto simp: inj_on_def split: option.splits)
  with rest find' show ?thesis by (intro that [of db1]) simp_all
qed

lemma sorted_success:
  assumes "tree_sorted config P db = (Inr rows, db')"
  shows "set rows = {r \<in> scope_set config (td_rows db). P r}" "sorted (map nd_Lft rows)"
    "rows = sort_key nd_Lft (filter (\<lambda>r. in_scope config r \<and> P r) (td_rows db))"
  using assms by (auto simp: tree_sorted_def success_simps scope_set_def dest!: select_success)

text \<open>
  C24. The queries by bounds return the tree relations: ancestors are the transitive closure of the parent links, from the
  root downwards, and descendants its inverse, in the order of their left bounds.
\<close>

theorem ancestors_by_bounds:
  assumes "tree_inv config (td_rows db)" and "nd \<in> scope_set config (td_rows db)"
    and "nested_Ancestors config (nd_ID nd) db = (Inr up, db1)" and "nested_Descendants config (nd_ID nd) db = (Inr down, db2)"
  shows "set up = {a. (nd, a) \<in> (parent_links (scope_set config (td_rows db)))\<^sup>+} \<and> sorted (map nd_Lft up) \<and>
    set down = {a. (a, nd) \<in> (parent_links (scope_set config (td_rows db)))\<^sup>+} \<and> sorted (map nd_Lft down)"
proof -
  let ?N = "scope_set config (td_rows db)"
  have N: "nested ?N" using assms(1) by (simp add: tree_inv_def)
  have links: "a \<in> ?N \<and> b \<in> ?N" if "(a, b) \<in> (parent_links ?N)\<^sup>+" for a b
    using that by (induction rule: trancl_induct) (auto simp: parent_links_def)
  obtain db3 where up: "td_rows db3 = td_rows db"
    "tree_sorted config (\<lambda>r. nd_Lft r < nd_Lft nd \<and> nd_Rgt nd < nd_Rgt r) db3 = (Inr up, db1)"
    using assms(3) [unfolded nested_Ancestors_def] by (rule with_node_success) (use assms(1,2) in auto)
  obtain db4 where down: "td_rows db4 = td_rows db"
    "tree_sorted config (\<lambda>r. nd_Lft nd < nd_Lft r \<and> nd_Rgt r < nd_Rgt nd) db4 = (Inr down, db2)"
    using assms(4) [unfolded nested_Descendants_def] by (rule with_node_success) (use assms(1,2) in auto)
  have "set up = {a \<in> ?N. encloses a nd}" "set down = {a \<in> ?N. encloses nd a}"
    using sorted_success(1) [OF up(2)] sorted_success(1) [OF down(2)] up(1) down(1) by (simp_all add: encloses_def)
  then show ?thesis
    using encloses_parent_links [OF N] links assms(2) sorted_success(2) [OF up(2)] sorted_success(2) [OF down(2)] by blast
qed

definition sample_child :: tree_db where
  "sample_child = snd (nested_move default_config 2 1 moveLastChild sample_tree)"

theorem ancestors_by_bounds_witness:
  "(\<lparr>nd_ID = 2, nd_ParentID = Some 1, nd_Lft = 2, nd_Rgt = 3, nd_Depth = 1, nd_values = []\<rparr>,
    \<lparr>nd_ID = 1, nd_ParentID = None, nd_Lft = 1, nd_Rgt = 4, nd_Depth = 0, nd_values = []\<rparr>)
     \<in> (parent_links (scope_set default_config (td_rows sample_child)))\<^sup>+"
proof -
  let ?a = "\<lparr>nd_ID = 1, nd_ParentID = None, nd_Lft = 1, nd_Rgt = 4, nd_Depth = 0, nd_values = []\<rparr>"
  let ?b = "\<lparr>nd_ID = 2, nd_ParentID = Some 1, nd_Lft = 2, nd_Rgt = 3, nd_Depth = 1, nd_values = []\<rparr>"
  have inv: "tree_inv default_config (td_rows sample_child)"
    unfolding sample_child_def using op_keepsD [OF nested_move_keeps _ sample_tree_inv] by (metis prod.collapse)
  have rows: "td_rows sample_child = [?a, ?b]" by code_simp
  then have b: "?b \<in> scope_set default_config (td_rows sample_child)" by (simp add: default_scope)
  obtain db1 where up: "nested_Ancestors default_config (nd_ID ?b) sample_child = (Inr [?a], db1)"
  proof -
    have "fst (nested_Ancestors default_config (nd_ID ?b) sample_child) = Inr [?a]" by code_simp
    then show ?thesis by (metis prod.collapse that)
  qed
  obtain db2 where down: "nested_Descendants default_config (nd_ID ?b) sample_child = (Inr [], db2)"
  proof -
    have "fst (nested_Descendants default_config (nd_ID ?b) sample_child) = Inr []" by code_simp
    then show ?thesis by (metis prod.collapse that)
  qed
  from ancestors_by_bounds [OF inv b up down, THEN conjunct1] have "?a \<in> {a. (?b, a) \<in> (parent_links (scope_set default_config (td_rows sample_child)))\<^sup>+}"
    by (metis list.set_intros(1))
  then show ?thesis by (rule CollectD)
qed

section \<open>The check\<close>

lemma filter_unique:
  assumes "distinct xs" and "a \<in> set xs" and "\<And>b. b \<in> set xs \<Longrightarrow> P b \<longleftrightarrow> b = a"
  shows "length (filter P xs) = 1"
proof -
  have "set (filter P xs) = {a}" using assms(2,3) by auto
  then show ?thesis using assms(1) distinct_card [of "filter P xs"] by simp
qed

lemma filter_none: "(\<And>b. b \<in> set xs \<Longrightarrow> \<not> P b) \<Longrightarrow> length (filter P xs) = 0"
  by simp

lemma seen_once:
  assumes "nested N" and "set rows = N" and "distinct rows" and "v \<in> endpoints N"
  shows "seen_count rows v = 1"
proof -
  have iv: "intervals N" using assms(1) by (simp add: nested_def)
  note distinct = endpoints_distinct [OF iv]
  from assms(4) obtain a where a: "a \<in> N" "v = nd_Lft a \<or> v = nd_Rgt a" by (auto simp: endpoints_def)
  have lr: "nd_Lft b < nd_Rgt b" if "b \<in> N" for b using that by (rule intervalsD(3) [OF iv])
  from a(2) show ?thesis
  proof
    assume v: "v = nd_Lft a"
    have "length (filter (\<lambda>r. nd_Lft r = v) rows) = 1"
      using distinct(1) a(1) assms(2,3) v by (intro filter_unique [of _ a]) auto
    moreover have "length (filter (\<lambda>r. nd_Rgt r = v) rows) = 0"
      using distinct(4) [OF _ a(1)] lr a(1) assms(2) v by (intro filter_none) fastforce
    ultimately show ?thesis by (simp add: seen_count_def)
  next
    assume v: "v = nd_Rgt a"
    have "length (filter (\<lambda>r. nd_Rgt r = v) rows) = 1"
      using distinct(2) a(1) assms(2,3) v by (intro filter_unique [of _ a]) auto
    moreover have "length (filter (\<lambda>r. nd_Lft r = v) rows) = 0"
      using distinct(3) [OF _ a(1)] lr a(1) assms(2) v by (intro filter_none) fastforce
    ultimately show ?thesis by (simp add: seen_count_def)
  qed
qed

lemma nested_row_valid:
  assumes "nested N" and "a \<in> N"
  shows "\<not> invalid_row a"
  using bounds_in_range [OF assms] subtree_width [OF assms] unfolding invalid_row_def by presburger

lemma nested_parent_valid:
  assumes "nested N" and "set rows = N" and "a \<in> N"
  shows "parent_error rows a = []"
proof (cases "nd_ParentID a")
  case (Some p)
  have "placed N a" using assms(1,3) by (simp add: nested_def)
  with Some obtain b where b: "innermost N b a" "sits_under a b" by (auto simp: placed_def)
  have inj: "inj_on nd_ID N" using assms(1) by (simp add: nested_def intervals_def)
  from b have bN: "b \<in> set rows" "nd_ID b = p" using Some assms(2) by (auto simp: innermost_def sits_under_def)
  then obtain c where c: "find (\<lambda>c. nd_ID c = p) rows = Some c" by (cases "find (\<lambda>c. nd_ID c = p) rows") (auto simp: find_None_iff)
  then have "c \<in> set rows" "nd_ID c = p" by (auto simp: find_Some_iff)
  with bN inj assms(2) have "c = b" by (auto simp: inj_on_def)
  with b c Some show ?thesis by (simp add: parent_error_def innermost_def encloses_def sits_under_def)
qed (simp add: parent_error_def)

lemma fold_max_right:
  "fold (\<lambda>r m. if m < nd_Rgt r then nd_Rgt r else m) rows m = Max (insert m (nd_Rgt ` set rows))"
proof (induction rows arbitrary: m)
  case (Cons r rows)
  have "(if m < nd_Rgt r then nd_Rgt r else m) = max m (nd_Rgt r)" by simp
  then show ?case using Cons [of "max m (nd_Rgt r)"]
    by (cases "rows = []") (auto simp: Max_insert insert_commute max.commute max.left_commute)
qed simp

lemma nested_max_right:
  assumes "nested N" and "set rows = N" and "rows \<noteq> []"
  shows "fold (\<lambda>r m. if m < nd_Rgt r then nd_Rgt r else m) rows 0 = 2 * int (card N)"
proof -
  have "0 < card N" using assms(2,3) by (auto simp: card_gt_0_iff)
  then have "2 * int (card N) \<in> endpoints N" using assms(1) by (simp add: nested_def)
  then obtain a where "a \<in> N" "2 * int (card N) = nd_Lft a \<or> 2 * int (card N) = nd_Rgt a" by (auto simp: endpoints_def)
  with bounds_in_range [OF assms(1)] have "2 * int (card N) = nd_Rgt a" "a \<in> N" by fastforce+
  then show ?thesis
    unfolding fold_max_right using assms(2) bounds_in_range(3) [OF assms(1)] by (intro Max_eqI) auto
qed

lemma check_rows_valid:
  assumes "nested N" and "set rows = N" and "distinct rows"
  shows "cr_Valid (check_rows rows)"
proof -
  have card: "card N = length rows" using assms(2,3) distinct_card by blast
  have "seen_count rows v = 1" if "v \<in> set [1..2 * int (length rows)]" for v
    using that seen_once [OF assms, of v] assms(1) card by (simp add: nested_def)
  moreover have "filter invalid_row rows = []" using nested_row_valid [OF assms(1)] assms(2) by (simp add: filter_empty_conv)
  moreover have "concat (map (parent_error rows) rows) = []"
    using nested_parent_valid [OF assms(1,2)] assms(2) by simp
  moreover have "rows \<noteq> [] \<Longrightarrow> fold (\<lambda>r m. if m < nd_Rgt r then nd_Rgt r else m) rows 0 = 2 * int (length rows)"
    using nested_max_right [OF assms(1,2)] card by simp
  ultimately show ?thesis by (auto simp: check_rows_def Let_def filter_empty_conv)
qed

definition crossing_rows :: "node list" where
  "crossing_rows = map (\<lambda>i. \<lparr>nd_ID = word_of_int i, nd_ParentID = None, nd_Lft = i, nd_Rgt = i + 3, nd_Depth = 0, nd_values = []\<rparr>) [1, 2, 3]"

text \<open>
  C36. The check accepts every tree, but not only trees: it counts bounds and compares rows with their parents, never rows
  with their neighbours, so three overlapping roots with bounds (1, 4), (2, 5) and (3, 6) are reported valid.
\<close>

theorem check_accepts_trees_and_more:
  "(tree_inv config (td_rows db) \<and> nested_Check config db = (Inr result, db') \<longrightarrow> cr_Valid result) \<and>
   cr_Valid (check_rows crossing_rows) \<and> \<not> nested (set crossing_rows)"
proof (intro conjI impI)
  assume A: "tree_inv config (td_rows db) \<and> nested_Check config db = (Inr result, db')"
  then obtain rows db1 where rows: "tree_sorted config (\<lambda>r. True) db = (Inr rows, db1)" "result = check_rows rows"
    by (auto simp: nested_Check_def nested_All_def success_simps)
  have "distinct (td_rows db)" using A by (simp add: tree_inv_def distinct_map)
  then have "distinct rows" using sorted_success(3) [OF rows(1)] by simp
  then show "cr_Valid result"
    using A check_rows_valid [of "scope_set config (td_rows db)" rows] sorted_success(1) [OF rows(1)] rows(2)
    by (simp add: tree_inv_def)
next
  show "cr_Valid (check_rows crossing_rows)" by code_simp
  show "\<not> nested (set crossing_rows)"
    by (auto simp: crossing_rows_def nested_def intervals_def apart_def encloses_def)
qed

theorem check_accepts_trees_and_more_witness:
  "cr_Valid (check_rows (td_rows sample_tree))"
proof -
  obtain db' where "nested_Check default_config sample_tree = (Inr (check_rows (td_rows sample_tree)), db')"
  proof -
    have "fst (nested_Check default_config sample_tree) = Inr (check_rows (td_rows sample_tree))" by code_simp
    then show ?thesis by (metis prod.collapse that)
  qed
  with check_accepts_trees_and_more [THEN conjunct1] sample_tree_inv show ?thesis by blast
qed

end
