(* ===== verification/Schema_Sync.thy ===== *)
theory Schema_Sync
  imports Query_AST
begin

text \<open>
  Schema synchronisation: the difference between a table and the columns a model declares (internal/syncdiff), the
  snapshot of the declared columns that makes renames visible (internal/schemasnapshot), and the synchronisation of one
  table on one connection (syncer.go). The database is a state: the table, with the columns as they were declared, and
  the rows of the snapshot table. What the driver's inspector reports as the type of a column is a parameter, since
  databases report types under their own names.
\<close>

section \<open>Types and indexes\<close>

definition columnTypeKind :: "string \<Rightarrow> string" where
  "columnTypeKind type_name =
     (let typ = to_lower (trim_space type_name);
          has = (\<lambda>words. list_ex (contains typ) words)
      in if typ = [] then []
         else if typ \<in> {''bool'', ''boolean'', ''tinyint(1)''} then ''bool''
         else if typ = ''point'' then ''point''
         else if typ \<in> {''json'', ''jsonb'', ''oro.jsonraw''} then ''json''
         else if typ \<in> {''string_array'', ''int_array''} then ''json''
         else if contains typ ''time.time'' \<or> typ = ''datetime'' \<or> has_prefix typ ''timestamp'' \<or> typ = ''date'' \<or>
                 has_prefix typ ''time '' then ''time''
         else if contains typ ''json'' then ''json''
         else if has [''decimal'', ''numeric''] then ''decimal''
         else if has [''blob'', ''bytea'', ''binary''] then ''binary''
         else if has [''char'', ''text'', ''clob'', ''enum'', ''email'', ''url'', ''uuid'', ''ip'', ''mac'', ''phone'', ''slug'',
                      ''color''] then ''string''
         else if has [''uint'', ''int'', ''serial''] then ''integer''
         else if has [''float'', ''double'', ''real''] then ''float''
         else typ)"

definition compatibleColumnType :: "string \<Rightarrow> string \<Rightarrow> bool" where
  "compatibleColumnType current target =
     (let currentKind = columnTypeKind current; targetKind = columnTypeKind target
      in if currentKind = [] \<or> targetKind = [] then current = target else currentKind = targetKind)"

definition unsafeColumnChange :: "column_spec \<Rightarrow> column_spec \<Rightarrow> bool" where
  "unsafeColumnChange current target \<longleftrightarrow>
     col_Primary current \<noteq> col_Primary target \<or>
     \<not> col_Primary target \<and> col_Nullable current \<and> \<not> col_Nullable target \<or>
     \<not> compatibleColumnType (col_Type current) (col_Type target)"

definition sameIndexSpec :: "index_spec \<Rightarrow> index_spec \<Rightarrow> bool" where
  "sameIndexSpec left right \<longleftrightarrow>
     idx_Name left = idx_Name right \<and> idx_Unique left = idx_Unique right \<and> idx_FullText left = idx_FullText right \<and>
     idx_Fields left = idx_Fields right"

definition IndexName :: "string \<Rightarrow> string \<Rightarrow> string \<Rightarrow> string \<Rightarrow> bool \<Rightarrow> string" where
  "IndexName table column name defaultMarker unique =
     (if name \<noteq> [] \<and> name \<noteq> defaultMarker then name
      else if unique then ''uk_'' @ table @ ''_'' @ column
      else ''idx_'' @ table @ ''_'' @ column)"

definition FullTextIndexName :: "string \<Rightarrow> string \<Rightarrow> string \<Rightarrow> string \<Rightarrow> string" where
  "FullTextIndexName table column name defaultMarker =
     (if name \<noteq> [] \<and> name \<noteq> defaultMarker then name else ''ft_'' @ table @ ''_'' @ column)"

definition CompositeIndexName :: "string \<Rightarrow> string list \<Rightarrow> bool \<Rightarrow> string" where
  "CompositeIndexName table columns unique =
     fold (\<lambda>column name. name @ ''_'' @ column) columns ((if unique then ''uk_'' else ''idx_'') @ table)"

definition CompositeFullTextIndexName :: "string \<Rightarrow> string list \<Rightarrow> string" where
  "CompositeFullTextIndexName table columns = fold (\<lambda>column name. name @ ''_'' @ column) columns (''ft_'' @ table)"

section \<open>The difference\<close>

text \<open>A Go map from column names that the code fills in list order: the last column of a name stays.\<close>

definition by_column :: "column_spec list \<Rightarrow> string \<Rightarrow> column_spec option" where
  "by_column columns = map_of (rev (map (\<lambda>c. (col_ColumnName c, c)) columns))"

definition by_field :: "column_spec list \<Rightarrow> string \<Rightarrow> column_spec option" where
  "by_field columns = map_of (rev (map (\<lambda>c. (col_FieldName c, c)) columns))"

definition by_index :: "index_spec list \<Rightarrow> string \<Rightarrow> index_spec option" where
  "by_index indexes = map_of (rev (map (\<lambda>i. (idx_Name i, i)) indexes))"

definition change_on :: "schema_change_kind \<Rightarrow> string \<Rightarrow> schema_change" where
  "change_on kind table =
     \<lparr>chg_Kind = kind, chg_Table = named_table table, chg_Column = zero_column, chg_Current = zero_column, chg_Index = zero_index\<rparr>"

text \<open>The candidate of one column of the snapshot, with the column it is renamed from and to.\<close>

definition rename_candidate :: "table_spec \<Rightarrow> table_spec \<Rightarrow> column_spec \<Rightarrow> schema_change option" where
  "rename_candidate current target oldColumn =
     (if col_FieldName oldColumn = [] then None
      else (case (by_column (tbl_Columns current) (col_ColumnName oldColumn), by_field (tbl_Columns target) (col_FieldName oldColumn)) of
              (Some currentColumn, Some targetColumn) \<Rightarrow>
                if by_column (tbl_Columns current) (col_ColumnName targetColumn) \<noteq> None then None
                else if col_ColumnName oldColumn = col_ColumnName targetColumn then None
                else if \<not> compatibleColumnType (col_Type currentColumn) (col_Type targetColumn) then None
                else Some ((change_on SchemaRenameColumn (tbl_Name target))\<lparr>chg_Current := currentColumn, chg_Column := targetColumn\<rparr>)
            | _ \<Rightarrow> None))"

definition rename_candidates :: "table_spec \<Rightarrow> table_spec \<Rightarrow> table_spec option \<Rightarrow> schema_change list" where
  "rename_candidates current target snapshot =
     (case snapshot of None \<Rightarrow> [] | Some s \<Rightarrow> List.map_filter (rename_candidate current target) (tbl_Columns s))"

text \<open>The rename, if there is exactly one candidate; \<open>None\<close> when there are several.\<close>

definition detectRenameChanges :: "table_spec \<Rightarrow> table_spec \<Rightarrow> table_spec option \<Rightarrow> (schema_change option) option" where
  "detectRenameChanges current target snapshot =
     (case rename_candidates current target snapshot of
        [] \<Rightarrow> Some None
      | [change] \<Rightarrow>
          if by_column (tbl_Columns target) (col_ColumnName (chg_Column change)) = None then Some None else Some (Some change)
      | _ \<Rightarrow> None)"

definition column_change :: "table_spec \<Rightarrow> table_spec \<Rightarrow> table_spec option \<Rightarrow> string list \<Rightarrow> column_spec \<Rightarrow> schema_change list" where
  "column_change current target snapshot renamedTarget column =
     (if col_ColumnName column \<in> set renamedTarget then []
      else (case by_column (tbl_Columns current) (col_ColumnName column) of
              None \<Rightarrow> [(change_on SchemaAddColumn (tbl_Name target))\<lparr>chg_Column := column\<rparr>]
            | Some currentColumn \<Rightarrow>
                (let logicalCurrent =
                   (case (case snapshot of None \<Rightarrow> None | Some s \<Rightarrow> by_column (tbl_Columns s) (col_ColumnName column)) of
                      None \<Rightarrow> currentColumn
                    | Some snapshotColumn \<Rightarrow> currentColumn\<lparr>col_Type := col_Type snapshotColumn\<rparr>)
                 in if unsafeColumnChange logicalCurrent column
                    then [(change_on SchemaUnsafeChange (tbl_Name target))\<lparr>chg_Column := column, chg_Current := currentColumn\<rparr>]
                    else [])))"

definition dropped_change :: "table_spec \<Rightarrow> string list \<Rightarrow> column_spec \<Rightarrow> schema_change list" where
  "dropped_change target renamedCurrent column =
     (if col_ColumnName column \<in> set renamedCurrent then []
      else if col_ColumnName column \<notin> col_ColumnName ` set (tbl_Columns target)
      then [(change_on SchemaUnsafeChange (tbl_Name target))\<lparr>chg_Current := column\<rparr>] else [])"

definition index_change :: "table_spec \<Rightarrow> table_spec \<Rightarrow> index_spec \<Rightarrow> schema_change list" where
  "index_change current target index =
     (case by_index (tbl_Indexes current) (idx_Name index) of
        None \<Rightarrow> [(change_on SchemaCreateIndex (tbl_Name target))\<lparr>chg_Index := index\<rparr>]
      | Some currentIndex \<Rightarrow>
          if \<not> sameIndexSpec currentIndex index
          then [(change_on SchemaUnsafeChange (tbl_Name target))\<lparr>chg_Index := index\<rparr>] else [])"

definition DiffWithSnapshot :: "table_spec option \<Rightarrow> table_spec \<Rightarrow> table_spec option \<Rightarrow> schema_change list" where
  "DiffWithSnapshot currento target snapshot =
     (case currento of
        Some current \<Rightarrow>
          if tbl_Columns current = [] then
            (change_on SchemaCreateTable [])\<lparr>chg_Table := target\<rparr> #
              map (\<lambda>index. (change_on SchemaCreateIndex (tbl_Name target))\<lparr>chg_Index := index\<rparr>) (tbl_Indexes target)
          else
            (case detectRenameChanges current target snapshot of
               None \<Rightarrow> [change_on SchemaUnsafeChange (tbl_Name target)]
             | Some rename \<Rightarrow>
                 (let renames = (case rename of None \<Rightarrow> [] | Some change \<Rightarrow> [change]);
                      renamedCurrent = map (\<lambda>change. col_ColumnName (chg_Current change)) renames;
                      renamedTarget = map (\<lambda>change. col_ColumnName (chg_Column change)) renames
                  in renames @
                     concat (map (column_change current target snapshot renamedTarget) (tbl_Columns target)) @
                     concat (map (dropped_change target renamedCurrent) (tbl_Columns current)) @
                     concat (map (index_change current target) (tbl_Indexes target))))
      | None \<Rightarrow>
          (change_on SchemaCreateTable [])\<lparr>chg_Table := target\<rparr> #
            map (\<lambda>index. (change_on SchemaCreateIndex (tbl_Name target))\<lparr>chg_Index := index\<rparr>) (tbl_Indexes target))"

definition Diff :: "table_spec option \<Rightarrow> table_spec \<Rightarrow> schema_change list" where
  "Diff current target = DiffWithSnapshot current target None"

section \<open>The snapshot\<close>

record snapshot =
  snap_Model :: string
  snap_Table :: string
  snap_Columns :: "column_spec list"

definition BoolInt :: "bool \<Rightarrow> goany" where
  "BoolInt b = AInt (if b then 1 else 0)"

text \<open>\<open>sql.NullBool\<close> is not among the values a row holds here.\<close>

definition Truthy :: "goany \<Rightarrow> bool" where
  "Truthy v =
     (case v of
        ABool b \<Rightarrow> b
      | AInt i \<Rightarrow> i \<noteq> 0
      | AInt64 i \<Rightarrow> i \<noteq> 0
      | AUint64 i \<Rightarrow> i \<noteq> 0
      | ABytes s \<Rightarrow> s \<noteq> [] \<and> hd s \<noteq> CHR ''0''
      | AString s \<Rightarrow> s \<noteq> [] \<and> s \<noteq> ''0''
      | _ \<Rightarrow> False)"

definition as_string :: "goany \<Rightarrow> string option" where
  "as_string v = (case v of AString s \<Rightarrow> Some s | _ \<Rightarrow> None)"

definition string_or_empty :: "goany \<Rightarrow> string" where
  "string_or_empty v = (case as_string v of None \<Rightarrow> [] | Some s \<Rightarrow> s)"

definition snapshot_column :: "gomap \<Rightarrow> column_spec" where
  "snapshot_column row =
     zero_column\<lparr>col_FieldName := string_or_empty (map_get row ''field_name''),
       col_ColumnName := string_or_empty (map_get row ''column_name''),
       col_Type := string_or_empty (map_get row ''logical_type''), col_Nullable := Truthy (map_get row ''nullable''),
       col_Primary := Truthy (map_get row ''primary_key'')\<rparr>"

definition FromRows :: "string \<Rightarrow> gomap list \<Rightarrow> snapshot option" where
  "FromRows model rows =
     (if rows = [] then None
      else Some \<lparr>snap_Model = model,
        snap_Table = fold (\<lambda>row table. if table = [] then string_or_empty (map_get row ''table_name'') else table) rows [],
        snap_Columns = map snapshot_column rows\<rparr>)"

definition snapshot_TableSpec :: "snapshot option \<Rightarrow> table_spec option" where
  "snapshot_TableSpec = map_option (\<lambda>s. (named_table (snap_Table s))\<lparr>tbl_Columns := snap_Columns s\<rparr>)"

record snapshot_dialect =
  sd_QuoteIdent :: "string \<Rightarrow> string"
  sd_Placeholder :: "nat \<Rightarrow> string"
  sd_DataType :: "column_spec \<Rightarrow> string result"

definition snapshot_table_name :: "string \<Rightarrow> string" where
  "snapshot_table_name tableName = (if tableName = [] then ''oro_schema'' else tableName)"

definition CreateTableSQL :: "snapshot_dialect \<Rightarrow> string \<Rightarrow> string result" where
  "CreateTableSQL d tableName =
     (let q = sd_QuoteIdent d in
      bind_res (sd_DataType d (zero_column\<lparr>col_ColumnName := ''model'', col_Type := ''string''\<rparr>)) (\<lambda>textType.
      bind_res (sd_DataType d (zero_column\<lparr>col_ColumnName := ''synced_at'', col_Type := ''time.Time''\<rparr>)) (\<lambda>timeType.
        Inr (''create table if not exists '' @ q (snapshot_table_name tableName) @ '' ('' @
          q ''model'' @ '' '' @ textType @ '' not null, '' @
          q ''table_name'' @ '' '' @ textType @ '' not null, '' @
          q ''field_name'' @ '' '' @ textType @ '' not null, '' @
          q ''column_name'' @ '' '' @ textType @ '' not null, '' @
          q ''logical_type'' @ '' '' @ textType @ '' not null, '' @
          q ''nullable'' @ '' integer not null, '' @
          q ''primary_key'' @ '' integer not null, '' @
          q ''synced_at'' @ '' '' @ timeType @ '' not null, '' @
          ''primary key ('' @ q ''model'' @ '', '' @ q ''field_name'' @ '')'' @ '')''))))"

definition SelectSQL :: "snapshot_dialect \<Rightarrow> string \<Rightarrow> string \<Rightarrow> fragment" where
  "SelectSQL d tableName model =
     (let q = sd_QuoteIdent d in
      (''select '' @ join '', '' (map q [''model'', ''table_name'', ''field_name'', ''column_name'', ''logical_type'', ''nullable'',
          ''primary_key'']) @
       '' from '' @ q (snapshot_table_name tableName) @ '' where '' @ q ''model'' @ '' = '' @ sd_Placeholder d 1 @
       '' order by '' @ q ''field_name'', [AString model]))"

definition DeleteSQL :: "snapshot_dialect \<Rightarrow> string \<Rightarrow> string \<Rightarrow> fragment" where
  "DeleteSQL d tableName model =
     (''delete from '' @ sd_QuoteIdent d (snapshot_table_name tableName) @ '' where '' @ sd_QuoteIdent d ''model'' @ '' = '' @
        sd_Placeholder d 1, [AString model])"

definition snapshot_columns :: "string list" where
  "snapshot_columns = [''model'', ''table_name'', ''field_name'', ''column_name'', ''logical_type'', ''nullable'', ''primary_key'',
     ''synced_at'']"

definition snapshot_args :: "string \<Rightarrow> table_spec \<Rightarrow> string \<Rightarrow> column_spec \<Rightarrow> goany list" where
  "snapshot_args model table syncedAt column =
     [AString model, AString (tbl_Name table), AString (col_FieldName column), AString (col_ColumnName column),
      AString (col_Type column), BoolInt (col_Nullable column), BoolInt (col_Primary column), ATime syncedAt]"

definition InsertSQL :: "snapshot_dialect \<Rightarrow> string \<Rightarrow> string \<Rightarrow> table_spec \<Rightarrow> column_spec \<Rightarrow> string \<Rightarrow> fragment" where
  "InsertSQL d tableName model table column syncedAt =
     (''insert into '' @ sd_QuoteIdent d (snapshot_table_name tableName) @ '' ('' @
        join '', '' (map (sd_QuoteIdent d) snapshot_columns) @ '') values ('' @ join '', '' (map (sd_Placeholder d) [1..<9]) @ '')'',
      snapshot_args model table syncedAt column)"

end
