(* ===== verification/Schema_Syncer.thy ===== *)
theory Schema_Syncer
  imports Schema_Sync Sqlite_Dialect Mysql_Dialect Pgsql_Dialect
begin

text \<open>
  The synchronisation of one table on one connection (syncer.go). Every statement may fail, as the list of faults says,
  and nothing is rolled back. A change of the table takes place with the first statement it is compiled to; further
  statements set comments.
\<close>

section \<open>Schemas\<close>

record field_schema =
  fs_Name :: string
  fs_Column :: string
  fs_Type :: string
  fs_Size :: int
  fs_SizeSet :: bool
  fs_Precision :: int
  fs_Scale :: int
  fs_Default :: "default_spec option"
  fs_EnumValues :: "string list"
  fs_Comment :: string
  fs_Primary :: bool
  fs_Nullable :: bool
  fs_Ignore :: bool
  fs_Virtual :: bool
  fs_Hidden :: bool
  fs_Optimistic :: bool
  fs_AutoCreate :: bool
  fs_AutoUpdate :: bool
  fs_SoftDelete :: bool

record sync_schema =
  ss_Name :: string
  ss_Table :: string
  ss_Connection :: string
  ss_ShardGroup :: string
  ss_Fields :: "field_schema list"
  ss_Primary :: "string list"
  ss_Indexes :: "index_spec list"

definition column_of_field :: "field_schema \<Rightarrow> column_spec" where
  "column_of_field field =
     \<lparr>col_FieldName = fs_Name field, col_ColumnName = fs_Column field, col_Type = fs_Type field, col_Size = fs_Size field,
      col_SizeSet = fs_SizeSet field, col_Precision = fs_Precision field, col_Scale = fs_Scale field,
      col_Default = fs_Default field, col_EnumValues = fs_EnumValues field, col_Comment = fs_Comment field,
      col_Primary = fs_Primary field, col_Nullable = fs_Nullable field\<rparr>"

definition TableSpecFromSchema :: "sync_schema \<Rightarrow> table_spec" where
  "TableSpecFromSchema schema =
     \<lparr>tbl_Name = ss_Table schema,
      tbl_Columns = map column_of_field (filter (\<lambda>field. \<not> fs_Ignore field \<and> \<not> fs_Virtual field) (ss_Fields schema)),
      tbl_Indexes = ss_Indexes schema\<rparr>"

text \<open>Appending the elements of a list whose key is not there yet.\<close>

fun append_new :: "('a \<Rightarrow> string) \<Rightarrow> 'a list \<Rightarrow> 'a list \<Rightarrow> 'a list" where
  "append_new key have [] = have"
| "append_new key have (x # xs) = append_new key (if key x \<in> key ` set have then have else have @ [x]) xs"

definition mergeSyncSchema :: "sync_schema \<Rightarrow> sync_schema \<Rightarrow> sync_schema" where
  "mergeSyncSchema target source =
     target\<lparr>ss_Fields := append_new fs_Column (ss_Fields target) (ss_Fields source),
       ss_Primary := append_new (\<lambda>p. p) (ss_Primary target) (ss_Primary source),
       ss_Indexes := append_new idx_Name (ss_Indexes target) (ss_Indexes source)\<rparr>"

definition sync_key :: "(string \<Rightarrow> string) \<Rightarrow> sync_schema \<Rightarrow> string" where
  "sync_key Physical schema = ss_Connection schema @ ''|'' @ ss_ShardGroup schema @ ''|'' @ Physical (ss_Table schema)"

fun merge_into :: "(string \<Rightarrow> string) \<Rightarrow> sync_schema list \<Rightarrow> sync_schema \<Rightarrow> sync_schema list" where
  "merge_into Physical [] schema = [schema]"
| "merge_into Physical (s # ss) schema =
     (if sync_key Physical s = sync_key Physical schema then mergeSyncSchema s schema # ss
      else s # merge_into Physical ss schema)"

definition uniqueSyncSchemas :: "(string \<Rightarrow> string) \<Rightarrow> sync_schema list \<Rightarrow> sync_schema list" where
  "uniqueSyncSchemas Physical schemas =
     (if length schemas < 2 then schemas else fold (\<lambda>schema merged. merge_into Physical merged schema) schemas [])"

section \<open>The database\<close>

record sync_db =
  sy_table :: "table_spec option"
  sy_snapshot :: "gomap list"
  sy_faults :: "go_error option list"

record sync_env =
  se_compile :: "schema_change \<Rightarrow> compiled_sql list result"
  se_phys :: "column_spec \<Rightarrow> string"
  se_translate :: "go_error \<Rightarrow> go_error"

type_synonym sync_step = "sync_db \<Rightarrow> go_error option \<times> sync_db"

text \<open>What the inspector reports: the columns without field names, with the type as the database calls it.\<close>

definition inspect :: "sync_env \<Rightarrow> table_spec \<Rightarrow> table_spec" where
  "inspect env t = t\<lparr>tbl_Columns := map (\<lambda>c. c\<lparr>col_FieldName := [], col_Type := se_phys env c\<rparr>) (tbl_Columns t)\<rparr>"

definition rename_column :: "string \<Rightarrow> string \<Rightarrow> column_spec \<Rightarrow> column_spec" where
  "rename_column old new c = (if col_ColumnName c = old then c\<lparr>col_ColumnName := new\<rparr> else c)"

definition apply_change :: "schema_change \<Rightarrow> table_spec option \<Rightarrow> table_spec option" where
  "apply_change change t =
     (case chg_Kind change of
        SchemaCreateTable \<Rightarrow>
          (case t of None \<Rightarrow> Some ((chg_Table change)\<lparr>tbl_Indexes := []\<rparr>)
           | Some t' \<Rightarrow> if tbl_Columns t' = [] then Some ((chg_Table change)\<lparr>tbl_Indexes := []\<rparr>) else Some t')
      | SchemaAddColumn \<Rightarrow> map_option (\<lambda>t. t\<lparr>tbl_Columns := tbl_Columns t @ [chg_Column change]\<rparr>) t
      | SchemaCreateIndex \<Rightarrow> map_option (\<lambda>t. t\<lparr>tbl_Indexes := tbl_Indexes t @ [chg_Index change]\<rparr>) t
      | SchemaRenameColumn \<Rightarrow>
          map_option (\<lambda>t. t\<lparr>tbl_Columns := map (rename_column (col_ColumnName (chg_Current change)) (col_ColumnName (chg_Column change)))
            (tbl_Columns t)\<rparr>) t
      | _ \<Rightarrow> t)"

definition sync_exec :: "(sync_db \<Rightarrow> sync_db) \<Rightarrow> sync_step" where
  "sync_exec f db =
     (case sy_faults db of
        Some err # faults \<Rightarrow> (Some err, db\<lparr>sy_faults := faults\<rparr>)
      | faults \<Rightarrow> (None, (f db)\<lparr>sy_faults := tl faults\<rparr>))"

definition then_step :: "sync_step \<Rightarrow> sync_step \<Rightarrow> sync_step" where
  "then_step first second db = (case first db of (Some err, db') \<Rightarrow> (Some err, db') | (None, db') \<Rightarrow> second db')"

definition translated :: "sync_env \<Rightarrow> sync_step \<Rightarrow> sync_step" where
  "translated env step db = (case step db of (err, db') \<Rightarrow> (map_option (se_translate env) err, db'))"

fun run_statements :: "compiled_sql list \<Rightarrow> (sync_db \<Rightarrow> sync_db) \<Rightarrow> sync_step" where
  "run_statements [] f db = (None, db)"
| "run_statements (s # ss) f db = then_step (sync_exec f) (run_statements ss (\<lambda>db. db)) db"

definition run_change :: "sync_env \<Rightarrow> schema_change \<Rightarrow> sync_step" where
  "run_change env change db =
     (case se_compile env change of
        Inl err \<Rightarrow> (Some err, db)
      | Inr stmts \<Rightarrow> translated env (run_statements stmts (\<lambda>db. db\<lparr>sy_table := apply_change change (sy_table db)\<rparr>)) db)"

fun run_changes :: "sync_env \<Rightarrow> schema_change list \<Rightarrow> sync_step" where
  "run_changes env [] db = (None, db)"
| "run_changes env (change # changes) db = then_step (run_change env change) (run_changes env changes) db"

section \<open>The snapshot table\<close>

definition snapshot_row :: "string \<Rightarrow> table_spec \<Rightarrow> string \<Rightarrow> column_spec \<Rightarrow> gomap" where
  "snapshot_row model table syncedAt column = zip snapshot_columns (snapshot_args model table syncedAt column)"

definition loadSchemaSnapshot :: "string \<Rightarrow> gomap list \<Rightarrow> snapshot option" where
  "loadSchemaSnapshot model rows =
     FromRows model (sort_key (\<lambda>row. string_or_empty (map_get row ''field_name''))
       (filter (\<lambda>row. map_get row ''model'' = AString model) rows))"

definition delete_model_rows :: "string \<Rightarrow> sync_db \<Rightarrow> sync_db" where
  "delete_model_rows model db = db\<lparr>sy_snapshot := filter (\<lambda>row. map_get row ''model'' \<noteq> AString model) (sy_snapshot db)\<rparr>"

text \<open>The primary key of the snapshot table is the model with the field name.\<close>

definition insert_snapshot_row :: "gomap \<Rightarrow> sync_step" where
  "insert_snapshot_row row db =
     (if list_ex (\<lambda>r. map_get r ''model'' = map_get row ''model'' \<and> map_get r ''field_name'' = map_get row ''field_name'') (sy_snapshot db)
      then (Some (mk_error ''sync'' ErrConflict), db)
      else sync_exec (\<lambda>db. db\<lparr>sy_snapshot := sy_snapshot db @ [row]\<rparr>) db)"

fun insert_snapshot_rows :: "gomap list \<Rightarrow> sync_step" where
  "insert_snapshot_rows [] db = (None, db)"
| "insert_snapshot_rows (row # rows) db = then_step (insert_snapshot_row row) (insert_snapshot_rows rows) db"

definition saveSchemaSnapshot :: "string \<Rightarrow> table_spec \<Rightarrow> string \<Rightarrow> sync_step" where
  "saveSchemaSnapshot model table now =
     then_step (sync_exec (delete_model_rows model))
       (insert_snapshot_rows (map (snapshot_row model table now) (tbl_Columns table)))"

definition sync_changes :: "sync_env \<Rightarrow> string \<Rightarrow> table_spec \<Rightarrow> sync_db \<Rightarrow> schema_change list" where
  "sync_changes env model target db =
     DiffWithSnapshot (map_option (inspect env) (sy_table db)) target
       (snapshot_TableSpec (loadSchemaSnapshot model (sy_snapshot db)))"

text \<open>Creating the snapshot table, loading the snapshot and inspecting the table are statements without an effect here.\<close>

definition syncSchemaOnConnection :: "sync_env \<Rightarrow> string \<Rightarrow> table_spec \<Rightarrow> string \<Rightarrow> sync_step" where
  "syncSchemaOnConnection env model target now =
     then_step (translated env (sync_exec (\<lambda>db. db)))
       (then_step (translated env (sync_exec (\<lambda>db. db)))
         (then_step (translated env (sync_exec (\<lambda>db. db)))
           (\<lambda>db. then_step (run_changes env (sync_changes env model target db))
             (translated env (saveSchemaSnapshot model target now)) db)))"

end
