(* ===== verification/Schema_Sync_Correct.thy ===== *)
theory Schema_Sync_Correct
  imports Schema_Syncer
begin

text \<open>
  Synchronisation reaches the declared table without losing a column, a second synchronisation has nothing to do, and the
  snapshot of a table can be read back.
\<close>

section \<open>What a dialect promises of schema changes\<close>

locale schema_compiler =
  fixes compile :: "schema_change \<Rightarrow> compiled_sql list result"
  assumes unsafe_refused: "chg_Kind change = SchemaUnsafeChange \<Longrightarrow> \<exists>err. compile change = Inl err"
    and makes_statement: "compile change = Inr stmts \<Longrightarrow> stmts \<noteq> []"
    and table_has_columns: "compile change = Inr stmts \<Longrightarrow> chg_Kind change = SchemaCreateTable \<Longrightarrow> tbl_Columns (chg_Table change) \<noteq> []"
begin

lemma safe_if_compiled: "compile change = Inr stmts \<Longrightarrow> chg_Kind change \<noteq> SchemaUnsafeChange"
  using unsafe_refused by fastforce

end

lemmas compile_schema_defs =
  sqlite_CompileSchema_def sqlite_compileCreateTable_def sqlite_compileCreateIndex_def
  mysql_CompileSchema_def mysql_compileCreateTable_def mysql_compileCreateIndex_def
  pgsql_CompileSchema_def pgsql_compileCreateTable_def pgsql_compileCreateIndex_def

interpretation sqlite_schema: schema_compiler "sqlite_CompileSchema sprint" for sprint
  by unfold_locales
    (auto simp: compile_schema_defs bind_res_def split: schema_change_kind.splits sum.splits if_splits)

interpretation mysql_schema: schema_compiler "mysql_CompileSchema sprint" for sprint
  by unfold_locales
    (auto simp: compile_schema_defs bind_res_def Let_def split: schema_change_kind.splits sum.splits if_splits)

interpretation pgsql_schema: schema_compiler "pgsql_CompileSchema sprint" for sprint
  by unfold_locales
    (auto simp: compile_schema_defs bind_res_def Let_def split: schema_change_kind.splits sum.splits if_splits)

section \<open>Steps\<close>

lemma then_step_success:
  "then_step first second db = (None, db') \<longleftrightarrow> (\<exists>db1. first db = (None, db1) \<and> second db1 = (None, db'))"
  by (auto simp: then_step_def split: prod.splits option.splits)

lemma translated_success: "translated env step db = (None, db') \<longleftrightarrow> step db = (None, db')"
  by (auto simp: translated_def split: prod.splits)

lemma sync_exec_success:
  "sync_exec f db = (None, db') \<Longrightarrow> sy_table db' = sy_table (f db) \<and> sy_snapshot db' = sy_snapshot (f db)"
  by (auto simp: sync_exec_def split: list.splits option.splits)

lemma run_statements_id:
  "run_statements ss (\<lambda>db. db) db = (None, db') \<Longrightarrow> sy_table db' = sy_table db \<and> sy_snapshot db' = sy_snapshot db"
  by (induction ss arbitrary: db) (auto simp: then_step_success dest!: sync_exec_success)

definition effect :: "schema_change list \<Rightarrow> table_spec option \<Rightarrow> table_spec option" where
  "effect changes t = fold apply_change changes t"

context schema_compiler
begin

lemma run_change_success:
  assumes "run_change env change db = (None, db')" and "se_compile env = compile"
  shows "\<exists>stmts. compile change = Inr stmts" "sy_table db' = apply_change change (sy_table db)" "sy_snapshot db' = sy_snapshot db"
proof -
  from assms obtain stmts where stmts: "compile change = Inr stmts"
    "run_statements stmts (\<lambda>db. db\<lparr>sy_table := apply_change change (sy_table db)\<rparr>) db = (None, db')"
    by (auto simp: run_change_def translated_success split: sum.splits)
  from makes_statement [OF stmts(1)] obtain s ss where "stmts = s # ss" by (cases stmts) auto
  with stmts(2) show "sy_table db' = apply_change change (sy_table db)" "sy_snapshot db' = sy_snapshot db"
    by (auto simp: then_step_success dest!: sync_exec_success run_statements_id)
  show "\<exists>stmts. compile change = Inr stmts" using stmts(1) by blast
qed

lemma run_changes_success:
  assumes "run_changes env changes db = (None, db')" and "se_compile env = compile"
  shows "(\<forall>change \<in> set changes. \<exists>stmts. compile change = Inr stmts) \<and> sy_table db' = effect changes (sy_table db) \<and>
    sy_snapshot db' = sy_snapshot db"
  using assms(1)
proof (induction changes arbitrary: db)
  case (Cons change changes)
  then obtain db1 where "run_change env change db = (None, db1)" "run_changes env changes db1 = (None, db')"
    by (auto simp: then_step_success)
  with Cons.IH run_change_success [OF _ assms(2)] show ?case by (auto simp: effect_def)
qed (simp add: effect_def)

end

section \<open>The snapshot\<close>

definition snapshot_view :: "column_spec \<Rightarrow> column_spec" where
  "snapshot_view c =
     zero_column\<lparr>col_FieldName := col_FieldName c, col_ColumnName := col_ColumnName c, col_Type := col_Type c,
       col_Nullable := col_Nullable c, col_Primary := col_Primary c\<rparr>"

lemma snapshot_row_get:
  "map_get (snapshot_row model table now c) ''model'' = AString model"
  "map_get (snapshot_row model table now c) ''table_name'' = AString (tbl_Name table)"
  "map_get (snapshot_row model table now c) ''field_name'' = AString (col_FieldName c)"
  "map_get (snapshot_row model table now c) ''column_name'' = AString (col_ColumnName c)"
  "map_get (snapshot_row model table now c) ''logical_type'' = AString (col_Type c)"
  "map_get (snapshot_row model table now c) ''nullable'' = BoolInt (col_Nullable c)"
  "map_get (snapshot_row model table now c) ''primary_key'' = BoolInt (col_Primary c)"
  by (simp_all add: snapshot_row_def snapshot_columns_def snapshot_args_def map_get_def)

lemma Truthy_BoolInt [simp]: "Truthy (BoolInt b) = b"
  by (simp add: Truthy_def BoolInt_def)

lemma string_or_empty_AString [simp]: "string_or_empty (AString s) = s"
  by (simp add: string_or_empty_def as_string_def)

lemma snapshot_column_row [simp]: "snapshot_column (snapshot_row model table now c) = snapshot_view c"
  by (simp add: snapshot_column_def snapshot_view_def snapshot_row_get)

lemma insert_snapshot_rows_success:
  "insert_snapshot_rows rows db = (None, db') \<Longrightarrow> sy_snapshot db' = sy_snapshot db @ rows \<and> sy_table db' = sy_table db"
proof (induction rows arbitrary: db)
  case (Cons row rows)
  then obtain db1 where "insert_snapshot_row row db = (None, db1)" "insert_snapshot_rows rows db1 = (None, db')"
    by (auto simp: then_step_success)
  with Cons.IH show ?case by (auto simp: insert_snapshot_row_def split: if_splits dest!: sync_exec_success)
qed simp

lemma saveSchemaSnapshot_success:
  assumes "saveSchemaSnapshot model table now db = (None, db')"
  shows "sy_table db' = sy_table db"
    "sy_snapshot db' = filter (\<lambda>row. map_get row ''model'' \<noteq> AString model) (sy_snapshot db) @
       map (snapshot_row model table now) (tbl_Columns table)"
  using assms by (auto simp: saveSchemaSnapshot_def then_step_success delete_model_rows_def
      dest!: sync_exec_success insert_snapshot_rows_success)

lemma insort_key_map: "map f (insort_key (\<lambda>x. g (f x)) x xs) = insort_key g (f x) (map f xs)"
  by (induction xs) auto

lemma sort_key_map: "map f (sort_key (\<lambda>x. g (f x)) xs) = sort_key g (map f xs)"
  by (induction xs) (simp_all add: insort_key_map)

lemma sort_key_Nil_iff [simp]: "sort_key f xs = [] \<longleftrightarrow> xs = []"
  by (metis length_0_conv length_sort)

lemma load_saved:
  assumes "saveSchemaSnapshot model table now db = (None, db')" and "tbl_Columns table \<noteq> []"
  shows "\<exists>s. loadSchemaSnapshot model (sy_snapshot db') = Some s \<and> snap_Model s = model \<and>
    snap_Columns s = sort_key col_FieldName (map snapshot_view (tbl_Columns table))"
proof -
  have rows: "filter (\<lambda>row. map_get row ''model'' = AString model) (sy_snapshot db') =
      map (snapshot_row model table now) (tbl_Columns table)"
    by (simp add: saveSchemaSnapshot_success(2) [OF assms(1)] filter_map comp_def snapshot_row_get)
  have "map snapshot_column (sort_key (\<lambda>row. string_or_empty (map_get row ''field_name''))
      (map (snapshot_row model table now) (tbl_Columns table))) =
    sort_key col_FieldName (map snapshot_column (map (snapshot_row model table now) (tbl_Columns table)))"
    by (subst sort_key_map [symmetric]) (simp add: snapshot_column_def)
  also have "map snapshot_column (map (snapshot_row model table now) (tbl_Columns table)) = map snapshot_view (tbl_Columns table)"
    by simp
  finally show ?thesis using assms(2) by (simp add: loadSchemaSnapshot_def rows FromRows_def)
qed

section \<open>The declared table is reached\<close>

text \<open>The columns of a table by name; names are distinct.\<close>

definition column_names :: "table_spec \<Rightarrow> string list" where
  "column_names t = map col_ColumnName (tbl_Columns t)"

lemma by_column_Some:
  assumes "distinct (map col_ColumnName cs)"
  shows "by_column cs n = Some c \<longleftrightarrow> c \<in> set cs \<and> col_ColumnName c = n"
  using assms map_of_eq_Some_iff [of "rev (map (\<lambda>c. (col_ColumnName c, c)) cs)" n c]
  by (auto simp: by_column_def rev_map [symmetric] comp_def)

lemma by_column_None: "by_column cs n = None \<longleftrightarrow> n \<notin> col_ColumnName ` set cs"
  by (auto simp: by_column_def map_of_eq_None_iff image_image)

lemma by_index_Some:
  assumes "distinct (map idx_Name is)"
  shows "by_index is n = Some i \<longleftrightarrow> i \<in> set is \<and> idx_Name i = n"
  using assms map_of_eq_Some_iff [of "rev (map (\<lambda>i. (idx_Name i, i)) is)" n i]
  by (auto simp: by_index_def rev_map [symmetric] comp_def)

lemma by_index_None: "by_index is n = None \<longleftrightarrow> n \<notin> idx_Name ` set is"
  by (auto simp: by_index_def map_of_eq_None_iff image_image)

lemma compatible_refl [simp]: "compatibleColumnType t t"
  by (simp add: compatibleColumnType_def Let_def)

text \<open>Nullability and primary key of a column as the difference wants them, whatever its type.\<close>

definition attributes_fit :: "column_spec \<Rightarrow> column_spec \<Rightarrow> bool" where
  "attributes_fit current target \<longleftrightarrow>
     col_Primary current = col_Primary target \<and> (col_Primary target \<or> \<not> col_Nullable current \<or> col_Nullable target)"

lemma unsafe_iff:
  "unsafeColumnChange c target \<longleftrightarrow> \<not> attributes_fit c target \<or> \<not> compatibleColumnType (col_Type c) (col_Type target)"
  by (auto simp: unsafeColumnChange_def attributes_fit_def)

text \<open>A table that has the declared columns and indexes needs no change.\<close>

definition matches :: "table_spec \<Rightarrow> table_spec \<Rightarrow> bool" where
  "matches t target \<longleftrightarrow>
     distinct (column_names t) \<and> set (column_names t) = set (column_names target) \<and>
     (\<forall>c \<in> set (tbl_Columns t). \<forall>d \<in> set (tbl_Columns target). col_ColumnName c = col_ColumnName d \<longrightarrow> attributes_fit c d) \<and>
     (\<forall>i \<in> set (tbl_Indexes target). \<exists>j. by_index (tbl_Indexes t) (idx_Name i) = Some j \<and> sameIndexSpec j i)"

lemma inspect_names [simp]: "column_names (inspect env t) = column_names t" "tbl_Indexes (inspect env t) = tbl_Indexes t"
  by (simp_all add: inspect_def column_names_def comp_def)

lemma inspect_attributes:
  assumes "c \<in> set (tbl_Columns (inspect env t))"
  obtains c' where "c' \<in> set (tbl_Columns t)" "col_ColumnName c = col_ColumnName c'" "\<And>d. attributes_fit c d = attributes_fit c' d"
proof -
  from assms obtain c' where "c' \<in> set (tbl_Columns t)" "c = c'\<lparr>col_FieldName := [], col_Type := se_phys env c'\<rparr>"
    by (auto simp: inspect_def)
  then show ?thesis by (intro that [of c']) (simp_all add: attributes_fit_def)
qed

lemma matches_inspect: "matches t target \<Longrightarrow> matches (inspect env t) target"
  unfolding matches_def inspect_names by (metis inspect_attributes)

lemma column_change_none:
  assumes "matches t target" and "d \<in> set (tbl_Columns target)" and "distinct (column_names target)"
    and "distinct (map col_ColumnName scs)" and "snapshot_view d \<in> set scs"
  shows "column_change t target (Some (tb\<lparr>tbl_Columns := scs\<rparr>)) [] d = []"
proof -
  have "col_ColumnName d \<in> set (column_names t)" using assms(1,2) by (auto simp: matches_def column_names_def)
  then obtain c where c: "c \<in> set (tbl_Columns t)" "col_ColumnName c = col_ColumnName d" by (auto simp: column_names_def)
  have t: "by_column (tbl_Columns t) (col_ColumnName d) = Some c"
    using assms(1) c by (subst by_column_Some) (auto simp: matches_def column_names_def)
  have s: "by_column scs (col_ColumnName d) = Some (snapshot_view d)"
    using assms(4,5) by (subst by_column_Some) (auto simp: snapshot_view_def)
  have "attributes_fit c d" using assms(1,2) c by (auto simp: matches_def)
  then have "\<not> unsafeColumnChange (c\<lparr>col_Type := col_Type (snapshot_view d)\<rparr>) d"
    by (simp add: unsafe_iff snapshot_view_def attributes_fit_def)
  with t s show ?thesis by (simp add: column_change_def)
qed

lemma matches_no_rename:
  assumes "matches t target"
  shows "detectRenameChanges t target snapshot = Some None"
proof -
  have "rename_candidate t target old = None" for old
  proof -
    have "by_column (tbl_Columns t) (col_ColumnName d) \<noteq> None" if "by_field (tbl_Columns target) f = Some d" for f d
    proof -
      have "d \<in> set (tbl_Columns target)" using that by (auto simp: by_field_def dest!: map_of_SomeD)
      then show ?thesis using assms by (auto simp: by_column_None matches_def column_names_def)
    qed
    then show ?thesis by (auto simp: rename_candidate_def split: option.splits)
  qed
  then have "rename_candidates t target snapshot = []"
    by (cases snapshot) (simp_all add: rename_candidates_def List.map_filter_def)
  then show ?thesis by (simp add: detectRenameChanges_def)
qed

lemma matches_no_change:
  assumes "matches t target" and "distinct (column_names target)" and "tbl_Columns target \<noteq> []"
    and "set scs = snapshot_view ` set (tbl_Columns target)" and "distinct (map col_ColumnName scs)"
  shows "DiffWithSnapshot (Some t) target (Some (tb\<lparr>tbl_Columns := scs\<rparr>)) = []"
proof -
  have "tbl_Columns t \<noteq> []" using assms(1,3) by (auto simp: matches_def column_names_def)
  moreover have "column_change t target (Some (tb\<lparr>tbl_Columns := scs\<rparr>)) [] d = []" if "d \<in> set (tbl_Columns target)" for d
    using column_change_none [OF assms(1) that assms(2,5)] that assms(4) by simp
  moreover have "dropped_change target [] c = []" if "c \<in> set (tbl_Columns t)" for c
    using assms(1) that by (auto simp: dropped_change_def matches_def column_names_def)
  moreover have "index_change t target i = []" if "i \<in> set (tbl_Indexes target)" for i
    using assms(1) that by (auto simp: index_change_def matches_def)
  ultimately show ?thesis
    using matches_no_rename [OF assms(1)] by (simp add: DiffWithSnapshot_def)
qed


section \<open>The effect of the changes\<close>

definition add_change :: "string \<Rightarrow> column_spec \<Rightarrow> schema_change" where
  "add_change table column = (change_on SchemaAddColumn table)\<lparr>chg_Column := column\<rparr>"

definition create_index_change :: "string \<Rightarrow> index_spec \<Rightarrow> schema_change" where
  "create_index_change table index = (change_on SchemaCreateIndex table)\<lparr>chg_Index := index\<rparr>"

definition safe :: "schema_change list \<Rightarrow> bool" where
  "safe changes \<longleftrightarrow> (\<forall>change \<in> set changes. chg_Kind change \<noteq> SchemaUnsafeChange)"

lemma safe_append [simp]: "safe (a @ b) \<longleftrightarrow> safe a \<and> safe b"
  by (auto simp: safe_def)

lemma safe_concat: "safe (concat (map f xs)) \<longleftrightarrow> (\<forall>x \<in> set xs. safe (f x))"
  by (auto simp: safe_def)

lemma effect_append: "effect (a @ b) t = effect b (effect a t)"
  by (simp add: effect_def)

lemma effect_adds:
  "effect (map (add_change n) cs) (Some t) = Some (t\<lparr>tbl_Columns := tbl_Columns t @ cs\<rparr>)"
  by (induction cs arbitrary: t) (simp_all add: effect_def add_change_def change_on_def apply_change_def)

lemma effect_indexes:
  "effect (map (create_index_change n) is) (Some t) = Some (t\<lparr>tbl_Indexes := tbl_Indexes t @ is\<rparr>)"
  by (induction "is" arbitrary: t) (simp_all add: effect_def create_index_change_def change_on_def apply_change_def)

lemma concat_map_filter:
  assumes "\<And>x. x \<in> set xs \<Longrightarrow> f x = (if P x then [g x] else [])"
  shows "concat (map f xs) = map g (filter P xs)"
  using assms by (induction xs) auto

lemma column_change_safe:
  assumes "safe (column_change cur target s rt d)"
  shows "column_change cur target s rt d =
      (if col_ColumnName d \<notin> set rt \<and> by_column (tbl_Columns cur) (col_ColumnName d) = None then [add_change (tbl_Name target) d] else [])"
    "col_ColumnName d \<notin> set rt \<Longrightarrow> by_column (tbl_Columns cur) (col_ColumnName d) = Some c \<Longrightarrow> attributes_fit c d"
  using assms by (auto simp: column_change_def add_change_def safe_def change_on_def unsafe_iff attributes_fit_def Let_def
      split: option.splits if_splits)

lemma dropped_change_safe:
  assumes "safe (dropped_change target rc c)"
  shows "dropped_change target rc c = []" "col_ColumnName c \<in> set rc \<or> col_ColumnName c \<in> set (column_names target)"
  using assms by (auto simp: dropped_change_def safe_def change_on_def column_names_def split: if_splits)

lemma index_change_safe:
  assumes "safe (index_change cur target i)"
  shows "index_change cur target i =
      (if by_index (tbl_Indexes cur) (idx_Name i) = None then [create_index_change (tbl_Name target) i] else [])"
    "by_index (tbl_Indexes cur) (idx_Name i) = Some j \<Longrightarrow> sameIndexSpec j i"
  using assms by (auto simp: index_change_def create_index_change_def safe_def change_on_def split: option.splits if_splits)

lemma attributes_fit_refl [simp]: "attributes_fit c c"
  by (auto simp: attributes_fit_def)

lemma sameIndexSpec_refl [simp]: "sameIndexSpec i i"
  by (simp add: sameIndexSpec_def)

lemma by_index_append: "by_index (a @ b) n = (case by_index b n of None \<Rightarrow> by_index a n | Some i \<Rightarrow> Some i)"
  by (simp add: by_index_def map_add_def split: option.splits)

lemma distinct_names_eq:
  "distinct (map f xs) \<Longrightarrow> x \<in> set xs \<Longrightarrow> y \<in> set xs \<Longrightarrow> f x = f y \<Longrightarrow> x = y"
  by (metis distinct_map inj_onD)

text \<open>A table just created.\<close>

lemma created_matches:
  assumes "distinct (column_names target)" and "distinct (map idx_Name (tbl_Indexes target))"
  shows "matches target target"
  unfolding matches_def
proof (intro conjI ballI impI)
  fix c d assume "c \<in> set (tbl_Columns target)" "d \<in> set (tbl_Columns target)" "col_ColumnName c = col_ColumnName d"
  then have "c = d" using assms(1) distinct_names_eq [of col_ColumnName] by (simp add: column_names_def)
  then show "attributes_fit c d" by simp
next
  fix i assume "i \<in> set (tbl_Indexes target)"
  then show "\<exists>j. by_index (tbl_Indexes target) (idx_Name i) = Some j \<and> sameIndexSpec j i"
    using assms(2) by (intro exI [of _ i]) (simp add: by_index_Some)
qed (use assms in auto)

lemma create_effect:
  assumes "t = None \<or> (\<exists>t'. t = Some t' \<and> tbl_Columns t' = [])"
  shows "effect (DiffWithSnapshot (map_option (inspect env) t) target s) t = Some target"
proof -
  have diff: "DiffWithSnapshot (map_option (inspect env) t) target s =
      [(change_on SchemaCreateTable [])\<lparr>chg_Table := target\<rparr>] @ map (create_index_change (tbl_Name target)) (tbl_Indexes target)"
    using assms by (auto simp: DiffWithSnapshot_def inspect_def create_index_change_def)
  have one: "effect [(change_on SchemaCreateTable [])\<lparr>chg_Table := target\<rparr>] t = Some (target\<lparr>tbl_Indexes := []\<rparr>)"
    using assms by (auto simp: effect_def apply_change_def change_on_def)
  show ?thesis unfolding diff effect_append one effect_indexes by simp
qed


text \<open>A table that is changed: the columns, with the renamed one, the new columns behind them, and the new indexes.\<close>

definition renamed :: "schema_change option \<Rightarrow> column_spec \<Rightarrow> column_spec" where
  "renamed rename c =
     (case rename of None \<Rightarrow> c
      | Some change \<Rightarrow> rename_column (col_ColumnName (chg_Current change)) (col_ColumnName (chg_Column change)) c)"

definition clean_rename :: "table_spec \<Rightarrow> schema_change \<Rightarrow> bool" where
  "clean_rename target change \<longleftrightarrow>
     col_ColumnName (chg_Current change) \<notin> set (column_names target) \<and> attributes_fit (chg_Current change) (chg_Column change)"

lemma by_field_member: "by_field cs f = Some c \<Longrightarrow> c \<in> set cs"
  by (auto simp: by_field_def dest!: map_of_SomeD)

lemma by_column_member: "by_column cs f = Some c \<Longrightarrow> c \<in> set cs \<and> col_ColumnName c = f"
  by (auto simp: by_column_def dest!: map_of_SomeD)

lemma rename_candidate_Some:
  assumes "rename_candidate cur target old = Some change"
  shows "chg_Kind change = SchemaRenameColumn" "chg_Current change \<in> set (tbl_Columns cur)"
    "chg_Column change \<in> set (tbl_Columns target)" "col_ColumnName (chg_Column change) \<notin> set (column_names cur)"
  using assms by (auto simp: rename_candidate_def change_on_def by_column_None column_names_def
      dest: by_field_member by_column_member split: if_splits option.splits)

lemma detectRename_Some:
  assumes "detectRenameChanges cur target s = Some (Some change)"
  shows "chg_Kind change = SchemaRenameColumn" "chg_Current change \<in> set (tbl_Columns cur)"
    "chg_Column change \<in> set (tbl_Columns target)" "col_ColumnName (chg_Column change) \<notin> set (column_names cur)"
proof -
  have "rename_candidates cur target s = [change]"
    using assms by (auto simp: detectRenameChanges_def split: list.splits if_splits)
  then have "change \<in> set (rename_candidates cur target s)" by simp
  then obtain old where "rename_candidate cur target old = Some change"
    by (auto simp: rename_candidates_def map_filter_def split: option.splits)
  from rename_candidate_Some [OF this]
  show "chg_Kind change = SchemaRenameColumn" "chg_Current change \<in> set (tbl_Columns cur)"
    "chg_Column change \<in> set (tbl_Columns target)" "col_ColumnName (chg_Column change) \<notin> set (column_names cur)" .
qed

definition new_columns :: "table_spec \<Rightarrow> table_spec \<Rightarrow> schema_change option \<Rightarrow> column_spec list" where
  "new_columns cur target rename =
     filter (\<lambda>d. col_ColumnName d \<notin> (\<lambda>change. col_ColumnName (chg_Column change)) ` set_option rename \<and>
        by_column (tbl_Columns cur) (col_ColumnName d) = None) (tbl_Columns target)"

definition new_indexes :: "table_spec \<Rightarrow> table_spec \<Rightarrow> index_spec list" where
  "new_indexes cur target = filter (\<lambda>i. by_index (tbl_Indexes cur) (idx_Name i) = None) (tbl_Indexes target)"

text \<open>The difference of a table and its target, when it has no unsafe change.\<close>

lemma safe_difference:
  assumes "safe (DiffWithSnapshot (Some cur) target s)" and "tbl_Columns cur \<noteq> []"
  obtains rename where "detectRenameChanges cur target s = Some rename"
    "DiffWithSnapshot (Some cur) target s = (case rename of None \<Rightarrow> [] | Some change \<Rightarrow> [change]) @
       map (add_change (tbl_Name target)) (new_columns cur target rename) @
       map (create_index_change (tbl_Name target)) (new_indexes cur target)"
    "\<And>c d. d \<in> set (tbl_Columns target) \<Longrightarrow> by_column (tbl_Columns cur) (col_ColumnName d) = Some c \<Longrightarrow> attributes_fit c d"
    "\<And>c. c \<in> set (tbl_Columns cur) \<Longrightarrow>
       col_ColumnName c \<in> (\<lambda>change. col_ColumnName (chg_Current change)) ` set_option rename \<or> col_ColumnName c \<in> set (column_names target)"
    "\<And>i j. i \<in> set (tbl_Indexes target) \<Longrightarrow> by_index (tbl_Indexes cur) (idx_Name i) = Some j \<Longrightarrow> sameIndexSpec j i"
proof -
  from assms obtain rename where rename: "detectRenameChanges cur target s = Some rename"
    by (cases "detectRenameChanges cur target s") (auto simp: DiffWithSnapshot_def safe_def change_on_def)
  define renames where "renames = (case rename of None \<Rightarrow> [] | Some change \<Rightarrow> [change])"
  define rc where "rc = map (\<lambda>change. col_ColumnName (chg_Current change)) renames"
  define rt where "rt = map (\<lambda>change. col_ColumnName (chg_Column change)) renames"
  have diff: "DiffWithSnapshot (Some cur) target s = renames @
      concat (map (column_change cur target s rt) (tbl_Columns target)) @
      concat (map (dropped_change target rc) (tbl_Columns cur)) @ concat (map (index_change cur target) (tbl_Indexes target))"
    using assms(2) by (simp add: DiffWithSnapshot_def rename renames_def rc_def rt_def Let_def)
  have sets: "set renames = set_option rename" by (cases rename) (simp_all add: renames_def)
  have rt: "set rt = (\<lambda>change. col_ColumnName (chg_Column change)) ` set_option rename" by (simp add: rt_def sets)
  have columns: "\<forall>d \<in> set (tbl_Columns target). safe (column_change cur target s rt d)"
    and dropped: "\<forall>c \<in> set (tbl_Columns cur). safe (dropped_change target rc c)"
    and indexes: "\<forall>i \<in> set (tbl_Indexes target). safe (index_change cur target i)"
    using assms(1) by (simp_all add: diff safe_concat)
  have 1: "concat (map (column_change cur target s rt) (tbl_Columns target)) =
      map (add_change (tbl_Name target)) (new_columns cur target rename)"
    unfolding new_columns_def by (intro concat_map_filter) (use columns in \<open>simp add: column_change_safe(1) rt\<close>)
  have 2: "concat (map (dropped_change target rc) (tbl_Columns cur)) = []"
    using dropped by (auto dest: dropped_change_safe(1))
  have 3: "concat (map (index_change cur target) (tbl_Indexes target)) =
      map (create_index_change (tbl_Name target)) (new_indexes cur target)"
    unfolding new_indexes_def by (intro concat_map_filter) (use indexes in \<open>simp add: index_change_safe(1)\<close>)
  show ?thesis
  proof (rule that [OF rename])
    show "DiffWithSnapshot (Some cur) target s = (case rename of None \<Rightarrow> [] | Some change \<Rightarrow> [change]) @
       map (add_change (tbl_Name target)) (new_columns cur target rename) @
       map (create_index_change (tbl_Name target)) (new_indexes cur target)"
      by (simp add: diff 1 2 3 renames_def)
    fix c d assume d: "d \<in> set (tbl_Columns target)" "by_column (tbl_Columns cur) (col_ColumnName d) = Some c"
    have "col_ColumnName d \<notin> set rt"
      using by_column_member [OF d(2)] rename
      by (cases rename) (fastforce simp: rt_def renames_def column_names_def image_iff dest!: detectRename_Some(4))+
    then show "attributes_fit c d" using columns d column_change_safe(2) by blast
  next
    fix c assume "c \<in> set (tbl_Columns cur)"
    then show "col_ColumnName c \<in> (\<lambda>change. col_ColumnName (chg_Current change)) ` set_option rename \<or>
        col_ColumnName c \<in> set (column_names target)"
      using dropped dropped_change_safe(2) by (fastforce simp: rc_def sets)
  next
    fix i j assume "i \<in> set (tbl_Indexes target)" "by_index (tbl_Indexes cur) (idx_Name i) = Some j"
    then show "sameIndexSpec j i" using indexes index_change_safe(2) by blast
  qed
qed


lemma rename_effect:
  assumes "detectRenameChanges cur target s = Some rename"
  shows "effect (case rename of None \<Rightarrow> [] | Some change \<Rightarrow> [change]) (Some t) =
    Some (t\<lparr>tbl_Columns := map (renamed rename) (tbl_Columns t)\<rparr>)"
  using assms by (cases rename)
    (simp_all add: effect_def renamed_def [abs_def] apply_change_def detectRename_Some(1))

definition changed_table :: "table_spec \<Rightarrow> table_spec \<Rightarrow> schema_change option \<Rightarrow> table_spec" where
  "changed_table t target rename =
     t\<lparr>tbl_Columns := map (renamed rename) (tbl_Columns t) @ new_columns t target rename,
       tbl_Indexes := tbl_Indexes t @ new_indexes t target\<rparr>"

lemma by_column_inspect [simp]:
  "by_column (tbl_Columns (inspect env t)) n = None \<longleftrightarrow> by_column (tbl_Columns t) n = None"
  by (simp add: by_column_None inspect_def image_image)

lemma new_inspect [simp]:
  "new_columns (inspect env t) target rename = new_columns t target rename"
  "new_indexes (inspect env t) target = new_indexes t target"
  by (simp_all add: new_columns_def new_indexes_def)

lemma renamed_name:
  "col_ColumnName (renamed rename c) = col_ColumnName c \<or>
   (\<exists>change. rename = Some change \<and> col_ColumnName c = col_ColumnName (chg_Current change) \<and>
      col_ColumnName (renamed rename c) = col_ColumnName (chg_Column change))"
  by (cases rename) (simp_all add: renamed_def rename_column_def)

lemma attributes_renamed [simp]: "attributes_fit (renamed rename c) d = attributes_fit c d"
  by (cases rename) (simp_all add: renamed_def rename_column_def attributes_fit_def)


lemma changed_names_distinct:
  assumes "distinct (column_names t)" and "distinct (column_names target)"
    and "\<And>change. rename = Some change \<Longrightarrow> col_ColumnName (chg_Column change) \<notin> set (column_names t)"
  shows "distinct (column_names (changed_table t target rename))"
proof -
  have inj: "inj_on (\<lambda>c. col_ColumnName (renamed rename c)) (set (tbl_Columns t))"
  proof (rule inj_onI)
    fix c d assume "c \<in> set (tbl_Columns t)" "d \<in> set (tbl_Columns t)"
      and "col_ColumnName (renamed rename c) = col_ColumnName (renamed rename d)"
    moreover from this have "col_ColumnName c = col_ColumnName d"
      using renamed_name [of rename c] renamed_name [of rename d] assms(3) by (fastforce simp: column_names_def image_iff)
    ultimately show "c = d" using assms(1) distinct_names_eq [of col_ColumnName] by (simp add: column_names_def)
  qed
  have "distinct (tbl_Columns t)" using assms(1) by (simp add: column_names_def distinct_map)
  with inj have 1: "distinct (map (\<lambda>c. col_ColumnName (renamed rename c)) (tbl_Columns t))" by (simp add: distinct_map)
  have 2: "distinct (map col_ColumnName (new_columns t target rename))"
    using assms(2) by (auto simp: new_columns_def column_names_def distinct_map inj_on_def)
  have 3: "col_ColumnName (renamed rename c) \<noteq> col_ColumnName d"
    if "c \<in> set (tbl_Columns t)" "d \<in> set (new_columns t target rename)" for c d
    using renamed_name [of rename c] that by (fastforce simp: new_columns_def by_column_None image_iff)
  show ?thesis using 1 2 3 by (fastforce simp: column_names_def changed_table_def comp_def)
qed

lemma renamed_in:
  "c \<in> set (tbl_Columns t) \<Longrightarrow> col_ColumnName (renamed rename c) = n \<Longrightarrow> n \<in> set (column_names (changed_table t target rename))"
  by (auto simp: column_names_def changed_table_def)

lemma changed_covers:
  assumes "d \<in> set (tbl_Columns target)"
    and "\<And>change. rename = Some change \<Longrightarrow> col_ColumnName (chg_Current change) \<notin> set (column_names target) \<and>
      (\<exists>c \<in> set (tbl_Columns t). col_ColumnName c = col_ColumnName (chg_Current change))"
  shows "col_ColumnName d \<in> set (column_names (changed_table t target rename))"
proof -
  consider (new) "d \<in> set (new_columns t target rename)"
    | (renamed) change where "rename = Some change" "col_ColumnName d = col_ColumnName (chg_Column change)"
    | (there) c where "c \<in> set (tbl_Columns t)" "col_ColumnName c = col_ColumnName d"
  proof -
    have "d \<in> set (new_columns t target rename) \<or> (\<exists>change. rename = Some change \<and> col_ColumnName d = col_ColumnName (chg_Column change)) \<or>
        (\<exists>c \<in> set (tbl_Columns t). col_ColumnName d = col_ColumnName c)"
      using assms(1) by (cases rename) (auto simp: new_columns_def by_column_None image_iff)
    then show thesis using that by metis
  qed
  then show ?thesis
  proof cases
    case new
    then show ?thesis by (simp add: column_names_def changed_table_def)
  next
    case renamed
    then obtain c where "c \<in> set (tbl_Columns t)" "col_ColumnName c = col_ColumnName (chg_Current change)" using assms(2) by blast
    then have "c \<in> set (tbl_Columns t)" "col_ColumnName (Schema_Sync_Correct.renamed rename c) = col_ColumnName d"
      using renamed by (simp_all add: renamed_def rename_column_def)
    then show ?thesis by (rule renamed_in)
  next
    case there
    have "col_ColumnName d \<in> set (column_names target)" using assms(1) by (simp add: column_names_def)
    then have "col_ColumnName (Schema_Sync_Correct.renamed rename c) = col_ColumnName d"
      using renamed_name [of rename c] there(2) assms(2) by auto
    with there(1) show ?thesis by (rule renamed_in)
  qed
qed

lemma changed_index:
  assumes "distinct (map idx_Name (tbl_Indexes target))" and "i \<in> set (tbl_Indexes target)"
    and "\<And>j. by_index (tbl_Indexes t) (idx_Name i) = Some j \<Longrightarrow> sameIndexSpec j i"
  shows "\<exists>j. by_index (tbl_Indexes (changed_table t target rename)) (idx_Name i) = Some j \<and> sameIndexSpec j i"
proof (cases "by_index (tbl_Indexes t) (idx_Name i)")
  case None
  have "distinct (map idx_Name (new_indexes t target))"
    using assms(1) by (auto simp: new_indexes_def distinct_map inj_on_def)
  then have "by_index (new_indexes t target) (idx_Name i) = Some i"
    using assms(2) None by (simp add: by_index_Some) (simp add: new_indexes_def)
  then show ?thesis by (simp add: changed_table_def by_index_append)
next
  case (Some j)
  then have "by_index (new_indexes t target) (idx_Name i) = None"
    unfolding by_index_None [of "new_indexes t target"] by (auto simp: new_indexes_def)
  with Some assms(3) show ?thesis by (simp add: changed_table_def by_index_append)
qed

lemma changed_matches:
  assumes distinct: "distinct (column_names t)" "distinct (column_names target)" "distinct (map idx_Name (tbl_Indexes target))"
    and rename: "\<And>change. rename = Some change \<Longrightarrow> col_ColumnName (chg_Column change) \<notin> set (column_names t) \<and>
      chg_Column change \<in> set (tbl_Columns target) \<and> col_ColumnName (chg_Current change) \<notin> set (column_names target) \<and>
      (\<exists>c \<in> set (tbl_Columns t). col_ColumnName c = col_ColumnName (chg_Current change) \<and> attributes_fit c (chg_Column change))"
    and kept: "\<And>c d. c \<in> set (tbl_Columns t) \<Longrightarrow> d \<in> set (tbl_Columns target) \<Longrightarrow> col_ColumnName c = col_ColumnName d \<Longrightarrow>
      attributes_fit c d"
    and dropped: "\<And>c. c \<in> set (tbl_Columns t) \<Longrightarrow>
       col_ColumnName c \<in> (\<lambda>change. col_ColumnName (chg_Current change)) ` set_option rename \<or> col_ColumnName c \<in> set (column_names target)"
    and indexes: "\<And>i j. i \<in> set (tbl_Indexes target) \<Longrightarrow> by_index (tbl_Indexes t) (idx_Name i) = Some j \<Longrightarrow> sameIndexSpec j i"
  shows "matches (changed_table t target rename) target"
proof -
  have columns: "set (tbl_Columns (changed_table t target rename)) =
      renamed rename ` set (tbl_Columns t) \<union> set (new_columns t target rename)"
    by (simp add: changed_table_def)
  have fits: "\<exists>d \<in> set (tbl_Columns target). col_ColumnName (renamed rename c) = col_ColumnName d \<and> attributes_fit c d"
    if c: "c \<in> set (tbl_Columns t)" for c
  proof (cases "\<exists>change. rename = Some change \<and> col_ColumnName c = col_ColumnName (chg_Current change)")
    case True
    then obtain change where change: "rename = Some change" "col_ColumnName c = col_ColumnName (chg_Current change)" by blast
    from rename [OF change(1)] obtain c' where "c' \<in> set (tbl_Columns t)" "col_ColumnName c' = col_ColumnName c"
      "attributes_fit c' (chg_Column change)" using change(2) by auto
    moreover from this c distinct(1) have "c' = c" using distinct_names_eq [of col_ColumnName] by (simp add: column_names_def)
    ultimately show ?thesis using rename [OF change(1)] change
      by (intro bexI [of _ "chg_Column change"]) (simp_all add: renamed_def rename_column_def)
  next
    case False
    then have name: "col_ColumnName (renamed rename c) = col_ColumnName c" using renamed_name by blast
    from False dropped [OF c] obtain d where "d \<in> set (tbl_Columns target)" "col_ColumnName c = col_ColumnName d"
      by (cases rename) (auto simp: column_names_def)
    with kept c name show ?thesis by auto
  qed
  have same: "d = e" if "d \<in> set (tbl_Columns target)" "e \<in> set (tbl_Columns target)" "col_ColumnName d = col_ColumnName e" for d e
    using that distinct(2) distinct_names_eq [of col_ColumnName] by (simp add: column_names_def)
  have new: "set (new_columns t target rename) \<subseteq> set (tbl_Columns target)" by (auto simp: new_columns_def)
  show ?thesis
    unfolding matches_def
  proof (intro conjI ballI impI equalityI subsetI)
    show "distinct (column_names (changed_table t target rename))"
      by (rule changed_names_distinct [OF distinct(1,2)]) (use rename in blast)
  next
    fix n assume "n \<in> set (column_names (changed_table t target rename))"
    with fits new show "n \<in> set (column_names target)" by (fastforce simp: column_names_def columns image_iff)
  next
    fix n assume "n \<in> set (column_names target)"
    then obtain d where d: "d \<in> set (tbl_Columns target)" "n = col_ColumnName d" by (auto simp: column_names_def)
    show "n \<in> set (column_names (changed_table t target rename))"
      unfolding d(2) by (rule changed_covers [OF d(1)]) (use rename in blast)
  next
    fix c d assume "c \<in> set (tbl_Columns (changed_table t target rename))" "d \<in> set (tbl_Columns target)"
      "col_ColumnName c = col_ColumnName d"
    then show "attributes_fit c d" using fits new same by (fastforce simp: columns)
  next
    fix i assume i: "i \<in> set (tbl_Indexes target)"
    show "\<exists>j. by_index (tbl_Indexes (changed_table t target rename)) (idx_Name i) = Some j \<and> sameIndexSpec j i"
      by (rule changed_index [OF distinct(3) i]) (use indexes i in blast)
  qed
qed


text \<open>What the table is after safe changes, and that it matches.\<close>

lemma inspect_column:
  assumes "c \<in> set (tbl_Columns t)"
  shows "\<exists>c' \<in> set (tbl_Columns (inspect env t)). col_ColumnName c' = col_ColumnName c \<and> (\<forall>d. attributes_fit c' d = attributes_fit c d)"
  using assms by (intro bexI [of _ "c\<lparr>col_FieldName := [], col_Type := se_phys env c\<rparr>"]) (auto simp: inspect_def attributes_fit_def)

lemma safe_effect:
  assumes "safe (DiffWithSnapshot (Some (inspect env t)) target s)" and "tbl_Columns t \<noteq> []"
    and "distinct (column_names t)" and "distinct (column_names target)" and "distinct (map idx_Name (tbl_Indexes target))"
    and clean: "\<forall>change \<in> set (DiffWithSnapshot (Some (inspect env t)) target s). chg_Kind change = SchemaRenameColumn \<longrightarrow> clean_rename target change"
  shows "\<exists>rename. effect (DiffWithSnapshot (Some (inspect env t)) target s) (Some t) = Some (changed_table t target rename) \<and>
    matches (changed_table t target rename) target"
proof -
  let ?cur = "inspect env t"
  have "tbl_Columns ?cur \<noteq> []" using assms(2) by (simp add: inspect_def)
  with assms(1) obtain rename where rename: "detectRenameChanges ?cur target s = Some rename"
    and diff': "DiffWithSnapshot (Some ?cur) target s = (case rename of None \<Rightarrow> [] | Some change \<Rightarrow> [change]) @
       map (add_change (tbl_Name target)) (new_columns ?cur target rename) @
       map (create_index_change (tbl_Name target)) (new_indexes ?cur target)"
    and kept: "\<And>c d. d \<in> set (tbl_Columns target) \<Longrightarrow> by_column (tbl_Columns ?cur) (col_ColumnName d) = Some c \<Longrightarrow> attributes_fit c d"
    and dropped: "\<And>c. c \<in> set (tbl_Columns ?cur) \<Longrightarrow>
       col_ColumnName c \<in> (\<lambda>change. col_ColumnName (chg_Current change)) ` set_option rename \<or> col_ColumnName c \<in> set (column_names target)"
    and indexes: "\<And>i j. i \<in> set (tbl_Indexes target) \<Longrightarrow> by_index (tbl_Indexes ?cur) (idx_Name i) = Some j \<Longrightarrow> sameIndexSpec j i"
    by (rule safe_difference) blast
  note diff = diff' [unfolded new_inspect]
  have "effect (DiffWithSnapshot (Some ?cur) target s) (Some t) = Some (changed_table t target rename)"
    unfolding diff effect_append rename_effect [OF rename] effect_adds effect_indexes by (simp add: changed_table_def)
  moreover have "matches (changed_table t target rename) target"
  proof (rule changed_matches [OF assms(3-5)])
    fix change assume change: "rename = Some change"
    note detected = detectRename_Some [OF rename [unfolded change]]
    have "clean_rename target change" using clean detected(1) by (simp add: diff change)
    moreover obtain c where "c \<in> set (tbl_Columns t)" "col_ColumnName (chg_Current change) = col_ColumnName c"
      "\<And>d. attributes_fit (chg_Current change) d = attributes_fit c d"
      using inspect_attributes [OF detected(2)] by blast
    ultimately show "col_ColumnName (chg_Column change) \<notin> set (column_names t) \<and>
      chg_Column change \<in> set (tbl_Columns target) \<and> col_ColumnName (chg_Current change) \<notin> set (column_names target) \<and>
      (\<exists>c \<in> set (tbl_Columns t). col_ColumnName c = col_ColumnName (chg_Current change) \<and> attributes_fit c (chg_Column change))"
      using detected(3,4) by (auto simp: clean_rename_def)
  next
    fix c d assume c: "c \<in> set (tbl_Columns t)" "d \<in> set (tbl_Columns target)" "col_ColumnName c = col_ColumnName d"
    from inspect_column [OF c(1)] obtain c' where c': "c' \<in> set (tbl_Columns ?cur)" "col_ColumnName c' = col_ColumnName d"
      "attributes_fit c' d = attributes_fit c d" using c(3) by metis
    moreover have "distinct (map col_ColumnName (tbl_Columns ?cur))" using assms(3) inspect_names(1) by (simp add: column_names_def)
    ultimately show "attributes_fit c d" using kept [OF c(2)] by (simp add: by_column_Some)
  next
    fix c assume "c \<in> set (tbl_Columns t)"
    then show "col_ColumnName c \<in> (\<lambda>change. col_ColumnName (chg_Current change)) ` set_option rename \<or>
        col_ColumnName c \<in> set (column_names target)"
      using inspect_column dropped by metis
  next
    fix i j assume "i \<in> set (tbl_Indexes target)" "by_index (tbl_Indexes t) (idx_Name i) = Some j"
    then show "sameIndexSpec j i" using indexes by simp
  qed
  ultimately show ?thesis by blast
qed


lemma DiffWithSnapshot_create:
  assumes "t = None \<or> (\<exists>t'. t = Some t' \<and> tbl_Columns t' = [])"
  shows "(change_on SchemaCreateTable [])\<lparr>chg_Table := target\<rparr> \<in> set (DiffWithSnapshot (map_option (inspect env) t) target s)"
  using assms by (auto simp: DiffWithSnapshot_def inspect_def)

text \<open>Every column of a table is still in the other, at its place, under its name or another.\<close>

definition columns_kept :: "table_spec \<Rightarrow> table_spec \<Rightarrow> bool" where
  "columns_kept t t' \<longleftrightarrow> (\<exists>cs extra. tbl_Columns t' = cs @ extra \<and> list_all2 (\<lambda>c c'. c' = c\<lparr>col_ColumnName := col_ColumnName c'\<rparr>) (tbl_Columns t) cs)"

lemma renamed_only_name: "renamed rename c = c\<lparr>col_ColumnName := col_ColumnName (renamed rename c)\<rparr>"
  by (cases rename) (simp_all add: renamed_def rename_column_def)

lemma columns_kept_renamed:
  assumes "tbl_Columns t' = map (renamed rename) (tbl_Columns t) @ extra"
  shows "columns_kept t t'"
  unfolding columns_kept_def assms
  by (intro exI [of _ "map (renamed rename) (tbl_Columns t)"] exI [of _ extra])
    (simp add: list_all2_map2 list_all2_same renamed_only_name [symmetric])

lemma columns_kept_changed: "columns_kept t (changed_table t target rename)"
  by (rule columns_kept_renamed [of _ rename _ "new_columns t target rename"]) (simp add: changed_table_def)

lemma columns_kept_refl [simp]: "columns_kept t t"
  unfolding columns_kept_def by (intro exI [of _ "tbl_Columns t"] exI [of _ "[]"]) (simp add: list.rel_refl)

lemma columns_kept_trans:
  assumes "columns_kept a b" and "columns_kept b c"
  shows "columns_kept a c"
proof -
  let ?R = "\<lambda>c c' :: column_spec. c' = c\<lparr>col_ColumnName := col_ColumnName c'\<rparr>"
  from assms(1) obtain cs extra where b: "tbl_Columns b = cs @ extra" "list_all2 ?R (tbl_Columns a) cs"
    by (auto simp: columns_kept_def)
  from assms(2) obtain ds extra' where c: "tbl_Columns c = ds @ extra'" "list_all2 ?R (cs @ extra) ds"
    by (auto simp: columns_kept_def b(1))
  from c(2) obtain ds1 ds2 where ds: "ds = ds1 @ ds2" "list_all2 ?R cs ds1" by (auto simp: list_all2_append1)
  have "list_all2 ?R (tbl_Columns a) ds1"
  proof (rule list_all2_trans [OF _ b(2) ds(2)])
    fix x y z :: column_spec assume y: "?R x y" and z: "?R y z"
    have "y\<lparr>col_ColumnName := col_ColumnName z\<rparr> = x\<lparr>col_ColumnName := col_ColumnName z\<rparr>"
      by (subst y) simp
    with z show "?R x z" by simp
  qed
  then show ?thesis unfolding columns_kept_def c(1) ds(1) by (intro exI [of _ ds1] exI [of _ "ds2 @ extra'"]) simp
qed

context schema_compiler
begin

lemma sync_success:
  assumes "syncSchemaOnConnection env model target now db = (None, db')" and "se_compile env = compile"
    and "\<And>t. sy_table db = Some t \<Longrightarrow> distinct (column_names t)"
    and "distinct (column_names target)" and "distinct (map idx_Name (tbl_Indexes target))"
    and clean: "\<forall>change \<in> set (sync_changes env model target db). chg_Kind change = SchemaRenameColumn \<longrightarrow> clean_rename target change"
  shows "\<exists>t'. sy_table db' = Some t' \<and> matches t' target \<and> (\<forall>t. sy_table db = Some t \<longrightarrow> columns_kept t t') \<and>
    sync_changes env model target db' = []"
proof -
  define changes where "changes = sync_changes env model target db"
  from assms(1) obtain db0 db1 where db0: "sy_table db0 = sy_table db" "sy_snapshot db0 = sy_snapshot db"
    and run: "run_changes env (sync_changes env model target db0) db0 = (None, db1)"
    and save: "saveSchemaSnapshot model target now db1 = (None, db')"
    by (auto simp: syncSchemaOnConnection_def then_step_success translated_success dest!: sync_exec_success)
  have "sync_changes env model target db0 = changes" by (simp add: sync_changes_def changes_def db0)
  with run_changes_success [OF run assms(2)] have compiled: "\<And>change. change \<in> set changes \<Longrightarrow> \<exists>stmts. compile change = Inr stmts"
    and table: "sy_table db1 = effect changes (sy_table db)" by (auto simp: db0)
  have safe: "safe changes" unfolding safe_def using compiled safe_if_compiled by blast
  define s where "s = snapshot_TableSpec (loadSchemaSnapshot model (sy_snapshot db))"
  have diff: "changes = DiffWithSnapshot (map_option (inspect env) (sy_table db)) target s"
    by (simp add: changes_def sync_changes_def s_def)
  have reached: "\<exists>t'. sy_table db1 = Some t' \<and> matches t' target \<and> tbl_Columns target \<noteq> [] \<and> (\<forall>t. sy_table db = Some t \<longrightarrow> columns_kept t t')"
  proof (cases "sy_table db = None \<or> (\<exists>t'. sy_table db = Some t' \<and> tbl_Columns t' = [])")
    case True
    from compiled [unfolded diff, OF DiffWithSnapshot_create [OF True]] have "tbl_Columns target \<noteq> []"
      using table_has_columns by (fastforce simp: change_on_def)
    moreover have "columns_kept t target" if "sy_table db = Some t" for t
      using True that by (auto simp: columns_kept_def)
    ultimately show ?thesis
      using create_effect [OF True, of env target s] created_matches [OF assms(4,5)] by (simp add: table diff)
  next
    case False
    then obtain t where t: "sy_table db = Some t" "tbl_Columns t \<noteq> []" by auto
    from safe_effect [of env t target s] safe t assms(3-5) clean
    obtain rename where rename: "sy_table db1 = Some (changed_table t target rename)" "matches (changed_table t target rename) target"
      by (auto simp: table diff changes_def [symmetric])
    from rename(2) t(2) have "tbl_Columns target \<noteq> []" by (auto simp: matches_def column_names_def changed_table_def)
    with rename t(1) columns_kept_changed show ?thesis by simp
  qed
  then obtain t' where t': "sy_table db' = Some t'" "matches t' target" "tbl_Columns target \<noteq> []"
    "\<forall>t. sy_table db = Some t \<longrightarrow> columns_kept t t'" using saveSchemaSnapshot_success(1) [OF save] by auto
  from load_saved [OF save t'(3)] obtain snap where
    snap: "loadSchemaSnapshot model (sy_snapshot db') = Some snap" "snap_Columns snap = sort_key col_FieldName (map snapshot_view (tbl_Columns target))"
    by blast
  have "distinct (map col_ColumnName (map snapshot_view (tbl_Columns target)))"
    using assms(4) by (simp add: column_names_def snapshot_view_def comp_def)
  then have "distinct (map col_ColumnName (snap_Columns snap))"
    by (metis distinct_map distinct_sort set_sort snap(2))
  moreover have "set (snap_Columns snap) = snapshot_view ` set (tbl_Columns target)" by (simp add: snap(2))
  ultimately have "sync_changes env model target db' = []"
    using matches_no_change [OF matches_inspect [OF t'(2)] assms(4) t'(3)]
    by (simp add: sync_changes_def t'(1) snap(1) snapshot_TableSpec_def)
  with t' show ?thesis by blast
qed

end

section \<open>Failing synchronisation\<close>

text \<open>A step, whether it fails or not, after which the table has all its columns and indexes and other models their snapshot.\<close>

definition keeps :: "string \<Rightarrow> sync_db \<Rightarrow> sync_db \<Rightarrow> bool" where
  "keeps model db db' \<longleftrightarrow>
     (\<forall>t. sy_table db = Some t \<and> tbl_Columns t \<noteq> [] \<longrightarrow>
        (\<exists>t' more. sy_table db' = Some t' \<and> columns_kept t t' \<and> tbl_Indexes t' = tbl_Indexes t @ more)) \<and>
     filter (\<lambda>row. map_get row ''model'' \<noteq> AString model) (sy_snapshot db') =
     filter (\<lambda>row. map_get row ''model'' \<noteq> AString model) (sy_snapshot db)"

lemma columns_kept_nonempty: "columns_kept t t' \<Longrightarrow> tbl_Columns t \<noteq> [] \<Longrightarrow> tbl_Columns t' \<noteq> []"
  by (auto simp: columns_kept_def)

lemma keeps_refl: "sy_table db' = sy_table db \<Longrightarrow> sy_snapshot db' = sy_snapshot db \<Longrightarrow> keeps model db db'"
  by (auto simp: keeps_def)

lemma keeps_trans:
  assumes "keeps model a b" and "keeps model b c"
  shows "keeps model a c"
  unfolding keeps_def
proof (intro conjI allI impI)
  fix t assume t: "sy_table a = Some t \<and> tbl_Columns t \<noteq> []"
  with assms(1) obtain t' more where b: "sy_table b = Some t'" "columns_kept t t'" "tbl_Indexes t' = tbl_Indexes t @ more"
    by (auto simp: keeps_def)
  with t columns_kept_nonempty have "tbl_Columns t' \<noteq> []" by blast
  with b(1) assms(2) obtain t'' more' where "sy_table c = Some t''" "columns_kept t' t''" "tbl_Indexes t'' = tbl_Indexes t' @ more'"
    by (auto simp: keeps_def)
  with b columns_kept_trans show "\<exists>t' more. sy_table c = Some t' \<and> columns_kept t t' \<and> tbl_Indexes t' = tbl_Indexes t @ more"
    by (metis append_assoc)
qed (use assms in \<open>simp add: keeps_def\<close>)

definition keeping :: "string \<Rightarrow> sync_step \<Rightarrow> bool" where
  "keeping model step \<longleftrightarrow> (\<forall>db. keeps model db (snd (step db)))"

lemma keeping_then:
  assumes "keeping model first" and "keeping model second"
  shows "keeping model (then_step first second)"
  unfolding keeping_def
proof
  fix db
  obtain e db1 where first: "first db = (e, db1)" by fastforce
  with assms(1) have one: "keeps model db db1" by (metis keeping_def snd_conv)
  show "keeps model db (snd (then_step first second db))"
    using one keeps_trans [OF one] assms(2) by (cases e) (auto simp: then_step_def first keeping_def)
qed

lemma keeping_translated: "keeping model step \<Longrightarrow> keeping model (translated env step)"
  by (auto simp: keeping_def translated_def split: prod.splits) (metis snd_conv)

lemma keeping_exec:
  assumes "\<And>d. keeps model d (f d)"
  shows "keeping model (sync_exec f)"
  unfolding keeping_def
proof
  fix db
  have "keeps model (f db) ((f db)\<lparr>sy_faults := fs\<rparr>)" for fs by (rule keeps_refl) simp_all
  then have "keeps model db ((f db)\<lparr>sy_faults := fs\<rparr>)" for fs using assms(1) keeps_trans by blast
  moreover have "keeps model db (db\<lparr>sy_faults := fs\<rparr>)" for fs by (rule keeps_refl) simp_all
  ultimately show "keeps model db (snd (sync_exec f db))" by (auto simp: sync_exec_def split: list.splits option.splits)
qed

lemma keeps_same [intro]: "keeps model db db"
  by (rule keeps_refl) simp_all

lemma keeping_body: "(\<And>db. keeping model (step db)) \<Longrightarrow> keeping model (\<lambda>db. step db db)"
  by (simp add: keeping_def)

lemma keeps_apply_change: "keeps model db (db\<lparr>sy_table := apply_change change (sy_table db)\<rparr>)"
proof -
  have "columns_kept t (t\<lparr>tbl_Columns := tbl_Columns t @ [c]\<rparr>)" for t c
    by (rule columns_kept_renamed [of _ None _ "[c]"]) (simp add: renamed_def [abs_def])
  moreover have "columns_kept t (t\<lparr>tbl_Indexes := i\<rparr>)" for t i
    by (rule columns_kept_renamed [of _ None _ "[]"]) (simp add: renamed_def [abs_def])
  moreover have "columns_kept t (t\<lparr>tbl_Columns := map (rename_column (col_ColumnName (chg_Current change)) (col_ColumnName (chg_Column change)))
      (tbl_Columns t)\<rparr>)" for t
    by (rule columns_kept_renamed [of _ "Some change" _ "[]"]) (simp add: renamed_def [abs_def])
  ultimately show ?thesis
    unfolding keeps_def by (cases "chg_Kind change") (auto simp: apply_change_def)
qed

lemma keeping_run_statements: "(\<And>d. keeps model d (f d)) \<Longrightarrow> keeping model (run_statements ss f)"
proof (induction ss arbitrary: f)
  case (Cons st ss)
  have "run_statements (st # ss) f = then_step (sync_exec f) (run_statements ss (\<lambda>db. db))" by (rule ext) simp
  moreover have "keeping model (run_statements ss (\<lambda>db. db))" by (rule Cons.IH) (rule keeps_same)
  ultimately show ?case using Cons.prems by (simp add: keeping_then keeping_exec)
qed (auto simp: keeping_def)

lemma keeping_run_change: "keeping model (run_change env change)"
proof (cases "se_compile env change")
  case (Inr stmts)
  then have "run_change env change = translated env (run_statements stmts (\<lambda>db. db\<lparr>sy_table := apply_change change (sy_table db)\<rparr>))"
    by (simp add: run_change_def [abs_def])
  then show ?thesis by (simp add: keeping_translated keeping_run_statements keeps_apply_change)
qed (auto simp: run_change_def keeping_def)

lemma keeping_run_changes: "keeping model (run_changes env changes)"
proof (induction changes)
  case (Cons change changes)
  have "run_changes env (change # changes) = then_step (run_change env change) (run_changes env changes)" by (rule ext) simp
  with Cons keeping_run_change show ?case by (metis keeping_then)
qed (auto simp: keeping_def)

lemma keeping_insert_snapshot_row:
  assumes "map_get row ''model'' = AString model"
  shows "keeping model (insert_snapshot_row row)"
proof -
  have "keeping model (sync_exec (\<lambda>db. db\<lparr>sy_snapshot := sy_snapshot db @ [row]\<rparr>))"
    using assms by (intro keeping_exec) (auto simp: keeps_def)
  then show ?thesis by (auto simp: insert_snapshot_row_def keeping_def)
qed

lemma keeping_insert_snapshot_rows:
  "\<forall>row \<in> set rows. map_get row ''model'' = AString model \<Longrightarrow> keeping model (insert_snapshot_rows rows)"
proof (induction rows)
  case (Cons row rows)
  have "insert_snapshot_rows (row # rows) = then_step (insert_snapshot_row row) (insert_snapshot_rows rows)" by (rule ext) simp
  with Cons keeping_insert_snapshot_row show ?case by (metis keeping_then list.set_intros)
qed (auto simp: keeping_def)

lemma keeping_save: "keeping model (saveSchemaSnapshot model table now)"
  unfolding saveSchemaSnapshot_def
  by (intro keeping_then keeping_exec keeping_insert_snapshot_rows) (auto simp: snapshot_row_get keeps_def delete_model_rows_def)

lemma keeping_sync: "keeping model (syncSchemaOnConnection env model target now)"
proof -
  have "keeping model (then_step (run_changes env (sync_changes env model target db)) (translated env (saveSchemaSnapshot model target now)))"
    for db by (intro keeping_then keeping_translated keeping_run_changes keeping_save)
  from keeping_body [OF this] show ?thesis
    unfolding syncSchemaOnConnection_def by (intro keeping_then keeping_translated keeping_exec keeps_same)
qed

section \<open>Properties\<close>

lemma sync_success_dialects:
  assumes "se_compile env \<in> {sqlite_CompileSchema sprint, mysql_CompileSchema sprint, pgsql_CompileSchema sprint}"
    and "syncSchemaOnConnection env model target now db = (None, db')"
    and "\<And>t. sy_table db = Some t \<Longrightarrow> distinct (column_names t)"
    and "distinct (column_names target)" and "distinct (map idx_Name (tbl_Indexes target))"
    and "\<forall>change \<in> set (sync_changes env model target db). chg_Kind change = SchemaRenameColumn \<longrightarrow> clean_rename target change"
  shows "\<exists>t'. sy_table db' = Some t' \<and> matches t' target \<and> (\<forall>t. sy_table db = Some t \<longrightarrow> columns_kept t t') \<and>
    sync_changes env model target db' = []"
  using assms(1) sqlite_schema.sync_success [OF assms(2) _ assms(3-6)] mysql_schema.sync_success [OF assms(2) _ assms(3-6)]
    pgsql_schema.sync_success [OF assms(2) _ assms(3-6)] by blast

definition sample_column :: "string \<Rightarrow> string \<Rightarrow> string \<Rightarrow> column_spec" where
  "sample_column field column type_name =
     zero_column\<lparr>col_FieldName := field, col_ColumnName := column, col_Type := type_name, col_Nullable := True\<rparr>"

definition sample_users :: "string \<Rightarrow> table_spec" where
  "sample_users column =
     (named_table ''users'')\<lparr>tbl_Columns := [(sample_column ''ID'' ''id'' ''int64'')\<lparr>col_Primary := True\<rparr>, sample_column ''Name'' column ''string'']\<rparr>"

definition sample_target :: table_spec where
  "sample_target = (sample_users ''full_name'')\<lparr>tbl_Columns := tbl_Columns (sample_users ''full_name'') @ [sample_column ''Age'' ''age'' ''int'']\<rparr>"

definition sample_sync_env :: sync_env where
  "sample_sync_env = \<lparr>se_compile = sqlite_CompileSchema (\<lambda>_. []), se_phys = col_Type, se_translate = (\<lambda>e. e)\<rparr>"

definition sample_sync_db :: sync_db where
  "sample_sync_db =
     snd (syncSchemaOnConnection sample_sync_env ''User'' (sample_users ''name'') ''t0'' \<lparr>sy_table = None, sy_snapshot = [], sy_faults = []\<rparr>)"





text \<open>
  C33. The snapshot of a table that was saved is read back with the field, column, type, nullability and key of every
  column, in the order of the fields.
\<close>

theorem snapshot_roundtrip:
  assumes "saveSchemaSnapshot model table now db = (None, db')" and "tbl_Columns table \<noteq> []"
  shows "\<exists>s. loadSchemaSnapshot model (sy_snapshot db') = Some s \<and> snap_Model s = model \<and>
    snap_Columns s = sort_key col_FieldName
      (map (\<lambda>c. zero_column\<lparr>col_FieldName := col_FieldName c, col_ColumnName := col_ColumnName c, col_Type := col_Type c,
         col_Nullable := col_Nullable c, col_Primary := col_Primary c\<rparr>) (tbl_Columns table))"
  using load_saved [OF assms] unfolding snapshot_view_def [abs_def] .

theorem snapshot_roundtrip_witness:
  "\<exists>s. loadSchemaSnapshot ''User'' (sy_snapshot (snd (saveSchemaSnapshot ''User'' sample_target ''t1'' sample_sync_db))) = Some s \<and>
     map col_FieldName (snap_Columns s) = [''Age'', ''ID'', ''Name'']"
proof -
  have "fst (saveSchemaSnapshot ''User'' sample_target ''t1'' sample_sync_db) = None" by code_simp
  then have run: "saveSchemaSnapshot ''User'' sample_target ''t1'' sample_sync_db =
      (None, snd (saveSchemaSnapshot ''User'' sample_target ''t1'' sample_sync_db))" by (metis prod.collapse)
  have columns: "tbl_Columns sample_target \<noteq> []" by code_simp
  have "map col_FieldName (sort_key col_FieldName
      (map (\<lambda>c. zero_column\<lparr>col_FieldName := col_FieldName c, col_ColumnName := col_ColumnName c, col_Type := col_Type c,
         col_Nullable := col_Nullable c, col_Primary := col_Primary c\<rparr>) (tbl_Columns sample_target))) = [''Age'', ''ID'', ''Name'']"
    by code_simp
  with snapshot_roundtrip [OF run columns] show ?thesis by metis
qed

text \<open>The field \<open>Name\<close> moves from the column \<open>name\<close> to \<open>full_name\<close>, and a new field takes the column \<open>name\<close>.\<close>

definition sample_reuse :: table_spec where
  "sample_reuse = (sample_users ''full_name'')\<lparr>tbl_Columns := tbl_Columns (sample_users ''full_name'') @ [sample_column ''Nick'' ''name'' ''string'']\<rparr>"

text \<open>
  When a new field takes the name of the column that a rename frees, the synchronisation succeeds without the
  column: the rename is applied, and the declared column \<open>name\<close> was counted as present. Only the next synchronisation adds it.
\<close>

theorem sync_rename_misses_column:
  "(case syncSchemaOnConnection sample_sync_env ''User'' sample_reuse ''t1'' sample_sync_db of (err, db) \<Rightarrow>
      err = None \<and> map_option column_names (sy_table db) = Some [''id'', ''full_name''] \<and>
      map chg_Kind (sync_changes sample_sync_env ''User'' sample_reuse db) = [SchemaAddColumn])
   \<and> column_names sample_reuse = [''id'', ''full_name'', ''name'']"
  by code_simp

end
