(* ===== verification/Model_Convert.thy ===== *)
theory Model_Convert
  imports Query_Helpers Schema_Syncer Where_Builder "HOL-Library.AList"
begin

text \<open>
  From a model query to a query on its table (query\_helpers.go): names of Go fields become names of columns, values to
  write are filtered by the write options, and the scopes of soft deletion and optimistic locking are added. A schema is
  given by the fields the conversion reads; the field \<open>Model\<close> of an error is left out. The query is a value, as the code
  converts a clone of it.
\<close>

section \<open>Schemas\<close>

record model_schema =
  ms_Name :: string
  ms_Table :: string
  ms_Connection :: string
  ms_Fields :: "field_schema list"
  ms_FieldByGo :: "string \<Rightarrow> field_schema option"
  ms_PrimaryColumns :: "string list"
  ms_InsertFields :: "field_schema list"
  ms_DefaultExprs :: "sel_item list"

datatype soft_delete_mode = softDeleteDefault | softDeleteWith | softDeleteOnly

definition isQualifiedIdentifier :: "string \<Rightarrow> bool" where
  "isQualifiedIdentifier name = contains name ''.''"

definition isJSONFieldType :: "string \<Rightarrow> bool" where
  "isJSONFieldType fieldType \<longleftrightarrow> fieldType = ''json'' \<or> contains fieldType ''JSON''"

definition cond_op :: "condition \<Rightarrow> string" where
  "cond_op condition = to_lower (trim_space (cond_Op condition))"

fun set_cond_Field :: "string \<Rightarrow> condition \<Rightarrow> condition" where
  "set_cond_Field field (Condition b f op v cs esc) = Condition b field op v cs esc"

fun set_cond_Value :: "goany \<Rightarrow> condition \<Rightarrow> condition" where
  "set_cond_Value value (Condition b f op v cs esc) = Condition b f op value cs esc"

fun set_cond_Conditions :: "condition list \<Rightarrow> condition \<Rightarrow> condition" where
  "set_cond_Conditions conditions (Condition b f op v cs esc) = Condition b f op v conditions esc"

text \<open>\<open>schema.FieldByGo[name]\<close> with the error of an unknown field.\<close>

definition field_by_go :: "model_schema \<Rightarrow> string \<Rightarrow> string \<Rightarrow> field_schema result" where
  "field_by_go schema op name =
     (case ms_FieldByGo schema name of None \<Rightarrow> Inl (mk_field_error op ErrUnknownField name) | Some field \<Rightarrow> Inr field)"

section \<open>Conditions\<close>

definition convertModelJSONCondition :: "model_schema \<Rightarrow> condition \<Rightarrow> condition result" where
  "convertModelJSONCondition schema condition =
     (case cond_Value condition of
        AJSONCondition name parts op v \<Rightarrow>
          bind_res (field_by_go schema ''where'' name) (\<lambda>field.
            if \<not> isJSONFieldType (fs_Type field) then Inl (mk_field_error ''where'' ErrInvalidArgument name)
            else Inr (set_cond_Value (AJSONCondition (fs_Column field) parts op v) (set_cond_Field (fs_Column field) condition)))
      | _ \<Rightarrow> Inl (mk_field_error ''where'' ErrInvalidArgument (cond_Field condition)))"

fun convertFullTextFields :: "model_schema \<Rightarrow> string list \<Rightarrow> string list result" where
  "convertFullTextFields schema [] = Inr []"
| "convertFullTextFields schema (name # names) =
     bind_res (if isQualifiedIdentifier name then Inr name
               else bind_res (field_by_go schema ''where'' name) (\<lambda>field. Inr (fs_Column field))) (\<lambda>column.
     bind_res (convertFullTextFields schema names) (\<lambda>columns. Inr (column # columns)))"

definition convertModelFullTextCondition :: "model_schema \<Rightarrow> condition \<Rightarrow> condition result" where
  "convertModelFullTextCondition schema condition =
     (case cond_Value condition of
        AFullTextExpr names query alias' isScore \<Rightarrow>
          bind_res (convertFullTextFields schema names) (\<lambda>columns.
            Inr (set_cond_Value (AFullTextExpr columns query alias' isScore) condition))
      | _ \<Rightarrow> Inl (mk_error ''where'' ErrInvalidArgument))"

definition invalid_condition :: "string \<Rightarrow> condition \<Rightarrow> go_error" where
  "invalid_condition opName condition =
     (case cond_Value condition of AError err \<Rightarrow> err | _ \<Rightarrow> mk_field_error opName ErrInvalidArgument (cond_Field condition))"

definition convert_column_condition :: "model_schema \<Rightarrow> condition \<Rightarrow> string \<Rightarrow> condition result" where
  "convert_column_condition schema condition opName =
     (case cond_Value condition of
        AColumnCondition cop right \<Rightarrow>
          if isQualifiedIdentifier (cond_Field condition) then Inr condition
          else bind_res (field_by_go schema opName (cond_Field condition)) (\<lambda>field.
            let condition = set_cond_Field (fs_Column field) condition in
            if right \<noteq> [] \<and> \<not> isQualifiedIdentifier right
            then bind_res (field_by_go schema opName right) (\<lambda>rightField.
                   Inr (set_cond_Value (AColumnCondition cop (fs_Column rightField)) condition))
            else Inr condition)
      | _ \<Rightarrow> Inl (mk_field_error opName ErrInvalidArgument (cond_Field condition)))"

lemma size_nested_conditions: "2 * size_list size (cond_Conditions c) < Suc (Suc (2 * size c + n))"
  using size_cond_Conditions [of c] by simp

function (sequential) convertModelConditions :: "model_schema \<Rightarrow> condition list \<Rightarrow> condition list result"
  and convertModelBasicCondition :: "model_schema \<Rightarrow> condition \<Rightarrow> string \<Rightarrow> condition result" where
  "convertModelConditions schema [] = Inr []"
| "convertModelConditions schema (condition # conditions) =
     bind_res
       (if cond_op condition = ''invalid'' then Inl (invalid_condition ''where'' condition)
        else if cond_op condition = ''group'' \<or> cond_op condition = ''not''
        then bind_res (convertModelConditions schema (cond_Conditions condition)) (\<lambda>nested.
               Inr (set_cond_Conditions nested condition))
        else if cond_op condition = ''json'' then convertModelJSONCondition schema condition
        else if cond_op condition = ''fulltext'' then convertModelFullTextCondition schema condition
        else convertModelBasicCondition schema condition ''where'') (\<lambda>converted.
     bind_res (convertModelConditions schema conditions) (\<lambda>rest. Inr (converted # rest)))"
| "convertModelBasicCondition schema condition opName =
     (if cond_op condition = ''invalid'' then Inl (invalid_condition opName condition)
      else if cond_op condition = ''raw'' then Inr condition
      else if cond_op condition = ''group'' \<or> cond_op condition = ''not''
      then bind_res (convertModelConditions schema (cond_Conditions condition)) (\<lambda>nested.
             Inr (set_cond_Conditions nested condition))
      else if cond_op condition = ''exists'' then Inr condition
      else if cond_op condition = ''count'' then Inr condition
      else if cond_op condition = ''column'' then convert_column_condition schema condition opName
      else if isQualifiedIdentifier (cond_Field condition) then Inr condition
      else bind_res (field_by_go schema opName (cond_Field condition)) (\<lambda>field.
             Inr (set_cond_Field (fs_Column field) condition)))"
  by pat_completeness auto
termination
  by (relation "measure (\<lambda>x. case x of Inl (_, cs) \<Rightarrow> 2 * size_list size cs | Inr (_, c, _) \<Rightarrow> 2 * size c)")
    (auto simp: size_cond_Conditions size_nested_conditions)

section \<open>Selections, order and groups\<close>

definition isStructuredSelectExpression :: "string \<Rightarrow> bool" where
  "isStructuredSelectExpression expr \<longleftrightarrow> expr = ''__oro_aggregate__'' \<or> expr = ''__oro_fulltext_score__''"

fun set_sel_Args :: "goany list \<Rightarrow> sel_item \<Rightarrow> sel_item" where
  "set_sel_Args args (SelectExpr e a r as s) = SelectExpr e a r args s"

fun set_sel_Expr :: "string \<Rightarrow> sel_item \<Rightarrow> sel_item" where
  "set_sel_Expr expr (SelectExpr e a r as s) = SelectExpr expr a r as s"

fun set_ord_Expr :: "string \<Rightarrow> order_item \<Rightarrow> order_item" where
  "set_ord_Expr expr (OrderExpr e d r as) = OrderExpr expr d r as"

definition convertModelSelectExpression :: "model_schema \<Rightarrow> sel_item \<Rightarrow> sel_item result" where
  "convertModelSelectExpression schema item =
     (if sel_Expr item = ''__oro_aggregate__''
      then (case sel_Args item of
              AAggregateExpr func field alias' # args \<Rightarrow>
                bind_res (if field \<noteq> ''*'' \<and> \<not> isQualifiedIdentifier field
                          then bind_res (field_by_go schema ''select'' field) (\<lambda>schemaField. Inr (fs_Column schemaField))
                          else Inr field) (\<lambda>column.
                  Inr (set_sel_Args (AAggregateExpr func column alias' # args) item))
            | _ \<Rightarrow> Inl (mk_error ''select'' ErrInvalidArgument))
      else if sel_Expr item = ''__oro_fulltext_score__''
      then (case sel_Args item of
              AFullTextExpr names query alias' isScore # args \<Rightarrow>
                bind_res (convertFullTextFields schema names) (\<lambda>columns.
                  Inr (set_sel_Args (AFullTextExpr columns query alias' isScore # args) item))
            | _ \<Rightarrow> Inl (mk_error ''select'' ErrInvalidArgument))
      else Inr item)"

definition convert_select_item :: "model_schema \<Rightarrow> sel_item \<Rightarrow> sel_item result" where
  "convert_select_item schema item =
     (if sel_Source item \<noteq> None then Inr item
      else if sel_Expr item = ''__oro_relation_exists__'' then Inr item
      else if isStructuredSelectExpression (sel_Expr item) then convertModelSelectExpression schema item
      else if sel_Raw item then convertModelSelectExpression schema item
      else if isQualifiedIdentifier (sel_Expr item) then Inr item
      else bind_res (field_by_go schema ''select'' (sel_Expr item)) (\<lambda>field.
             if fs_Hidden field then Inl (mk_field_error ''select'' ErrInvalidArgument (sel_Expr item))
             else Inr (set_sel_Expr (fs_Column field) item)))"

definition convert_order_item :: "model_schema \<Rightarrow> order_item \<Rightarrow> order_item result" where
  "convert_order_item schema item =
     (if ord_Raw item then Inr item
      else if isQualifiedIdentifier (ord_Expr item) then Inr item
      else bind_res (field_by_go schema ''order'' (ord_Expr item)) (\<lambda>field. Inr (set_ord_Expr (fs_Column field) item)))"

definition convert_group_item :: "model_schema \<Rightarrow> string \<Rightarrow> string result" where
  "convert_group_item schema name =
     (if isQualifiedIdentifier name then Inr name
      else bind_res (field_by_go schema ''group'' name) (\<lambda>field. Inr (fs_Column field)))"

definition convert_having_item :: "model_schema \<Rightarrow> condition \<Rightarrow> condition result" where
  "convert_having_item schema condition =
     (if cond_Op condition = ''raw'' then Inr condition else convertModelBasicCondition schema condition ''having'')"

fun convert_items :: "('a \<Rightarrow> 'b result) \<Rightarrow> 'a list \<Rightarrow> 'b list result" where
  "convert_items f [] = Inr []"
| "convert_items f (x # xs) = bind_res (f x) (\<lambda>y. bind_res (convert_items f xs) (\<lambda>ys. Inr (y # ys)))"

definition convertModelSelects :: "model_schema \<Rightarrow> list_spec \<Rightarrow> list_spec result" where
  "convertModelSelects schema spec =
     bind_res (convert_items (convert_select_item schema) (spec_Select spec)) (\<lambda>selects.
     bind_res (convert_items (convert_order_item schema) (spec_Order spec)) (\<lambda>orders.
     bind_res (convert_items (convert_group_item schema) (spec_Group spec)) (\<lambda>groups.
     bind_res (convert_items (convert_having_item schema) (spec_Having spec)) (\<lambda>havings.
       Inr (spec\<lparr>spec_Select := selects, spec_Order := orders, spec_Group := groups, spec_Having := havings\<rparr>)))))"

definition hidden_item :: "model_schema \<Rightarrow> string \<Rightarrow> sel_item result" where
  "hidden_item schema name =
     bind_res (field_by_go schema ''select'' name) (\<lambda>field.
       if \<not> fs_Hidden field then Inl (mk_field_error ''select'' ErrInvalidArgument name)
       else Inr (SelectExpr (fs_Column field) [] False [] None))"

definition applyModelSelectVisibility :: "model_schema \<Rightarrow> list_spec \<Rightarrow> string list \<Rightarrow> list_spec result" where
  "applyModelSelectVisibility schema spec hiddenFields =
     (let selects = (if hiddenFields \<noteq> [] \<and> spec_Select spec = [] then ms_DefaultExprs schema else spec_Select spec)
      in bind_res (convert_items (hidden_item schema) hiddenFields) (\<lambda>hidden.
           let selects = selects @ hidden
           in Inr (spec\<lparr>spec_Select := (if selects \<noteq> [] then selects else ms_DefaultExprs schema)\<rparr>)))"

section \<open>Values to write\<close>

definition map_put :: "string \<Rightarrow> goany \<Rightarrow> gomap \<Rightarrow> gomap" where
  "map_put k v m = AList.update k v m"

definition skips_field :: "write_options \<Rightarrow> bool \<Rightarrow> string \<Rightarrow> field_schema \<Rightarrow> bool" where
  "skips_field options update name field \<longleftrightarrow>
     fs_Ignore field \<or> fs_Virtual field \<or>
     (fs_Primary field \<or> update \<and> fs_AutoCreate field) \<and> name \<notin> set (wo_only options) \<or>
     wo_only options \<noteq> [] \<and> name \<notin> set (wo_only options) \<or>
     name \<in> set (wo_omit options)"

text \<open>The loop of the conversion, over the fields in the order of one iteration of the map.\<close>

fun convert_values :: "model_schema \<Rightarrow> write_options \<Rightarrow> bool \<Rightarrow> gomap \<Rightarrow> gomap \<Rightarrow> gomap result" where
  "convert_values schema options update [] converted = Inr converted"
| "convert_values schema options update ((name, v) # values') converted =
     bind_res (field_by_go schema ''map'' name) (\<lambda>field.
       if skips_field options update name field then convert_values schema options update values' converted
       else if update \<and> fs_Optimistic field then Inl (mk_field_error ''map'' ErrInvalidArgument name)
       else convert_values schema options update values' (map_put (fs_Column field) v converted))"

definition convertModelMap :: "model_schema \<Rightarrow> gomap \<Rightarrow> write_options \<Rightarrow> bool \<Rightarrow> gomap result" where
  "convertModelMap schema values' options update = convert_values schema options update values' []"

definition optimisticLockField :: "model_schema \<Rightarrow> field_schema option" where
  "optimisticLockField schema = find fs_Optimistic (ms_Fields schema)"

definition applyOptimisticLock :: "model_schema \<Rightarrow> list_spec \<Rightarrow> gomap \<Rightarrow> write_options \<Rightarrow> (list_spec \<times> gomap) result" where
  "applyOptimisticLock schema spec values' options =
     (case wo_version options of
        None \<Rightarrow> Inr (spec, values')
      | Some version \<Rightarrow>
          (case optimisticLockField schema of
             None \<Rightarrow> Inl (OroError ''update'' ErrInvalidArgument (ms_Table schema) [] None)
           | Some field \<Rightarrow>
               if fs_Column field \<in> set (keys_of values')
               then Inl (OroError ''update'' ErrInvalidArgument (ms_Table schema) (fs_Name field) None)
               else Inr (spec\<lparr>spec_Where := spec_Where spec @ [Condition [] (fs_Column field) ''='' version [] []]\<rparr>,
                         map_put (fs_Column field) (AIncrementExpr (AInt 1)) values')))"

definition autoUpdateColumns :: "model_schema \<Rightarrow> string \<Rightarrow> write_options \<Rightarrow> gomap" where
  "autoUpdateColumns schema now options =
     fold (\<lambda>field values'. if fs_Virtual field then values'
       else if fs_AutoUpdate field \<and> fs_Name field \<notin> set (wo_omit options) then map_put (fs_Column field) (ATime now) values'
       else values') (ms_Fields schema) []"

text \<open>The values of \<open>ModelQuery.Update\<close>: the converted values, the lock, and the columns updated by themselves that are not set.\<close>

definition add_missing :: "gomap \<Rightarrow> gomap \<Rightarrow> gomap" where
  "add_missing values' converted =
     fold (\<lambda>(column, v) converted. if column \<in> set (keys_of converted) then converted else map_put column v converted) values' converted"

definition update_values :: "model_schema \<Rightarrow> list_spec \<Rightarrow> gomap \<Rightarrow> write_options \<Rightarrow> string \<Rightarrow> (list_spec \<times> gomap) result" where
  "update_values schema spec values' options now =
     bind_res (convertModelMap schema values' options True) (\<lambda>converted.
     bind_res (applyOptimisticLock schema spec converted options) (\<lambda>(spec, converted).
       Inr (spec, add_missing (autoUpdateColumns schema now options) converted)))"

section \<open>Scopes\<close>

definition softDeleteField :: "model_schema \<Rightarrow> field_schema option" where
  "softDeleteField schema = find fs_SoftDelete (ms_Fields schema)"

definition applyQualifiedSoftDeleteScope :: "model_schema \<Rightarrow> list_spec \<Rightarrow> string \<Rightarrow> soft_delete_mode \<Rightarrow> list_spec" where
  "applyQualifiedSoftDeleteScope schema spec qualifier mode =
     (case softDeleteField schema of
        None \<Rightarrow> spec
      | Some f \<Rightarrow>
          (let field = (if qualifier \<noteq> [] then qualifier @ ''.'' @ fs_Column f else fs_Column f) in
           case mode of
             softDeleteDefault \<Rightarrow> spec\<lparr>spec_Where := spec_Where spec @ [isNullCondition field]\<rparr>
           | softDeleteOnly \<Rightarrow> spec\<lparr>spec_Where := spec_Where spec @ [isNotNullCondition field]\<rparr>
           | softDeleteWith \<Rightarrow> spec))"

definition applySoftDeleteScope :: "model_schema \<Rightarrow> list_spec \<Rightarrow> soft_delete_mode \<Rightarrow> list_spec" where
  "applySoftDeleteScope schema spec mode =
     (case softDeleteField schema of
        None \<Rightarrow> spec
      | Some f \<Rightarrow>
          (case mode of
             softDeleteDefault \<Rightarrow> spec\<lparr>spec_Where := spec_Where spec @ [isNullCondition (fs_Column f)]\<rparr>
           | softDeleteOnly \<Rightarrow> spec\<lparr>spec_Where := spec_Where spec @ [isNotNullCondition (fs_Column f)]\<rparr>
           | softDeleteWith \<Rightarrow> spec))"

definition applyModelConnection :: "bool \<Rightarrow> string \<Rightarrow> model_schema \<Rightarrow> list_spec \<Rightarrow> list_spec" where
  "applyModelConnection manual defaultName schema spec =
     (if manual then spec
      else if ms_Connection schema \<noteq> [] then spec\<lparr>spec_Connection := ms_Connection schema\<rparr>
      else if spec_Connection spec = [] then spec\<lparr>spec_Connection := defaultName\<rparr>
      else spec)"

section \<open>Conflicts\<close>

definition conflict_field :: "model_schema \<Rightarrow> string \<Rightarrow> string result" where
  "conflict_field schema name =
     bind_res (field_by_go schema ''conflict'' name) (\<lambda>field.
       if fs_Virtual field then Inl (mk_field_error ''conflict'' ErrInvalidArgument name) else Inr (fs_Column field))"

fun convert_update_map :: "model_schema \<Rightarrow> gomap \<Rightarrow> gomap \<Rightarrow> gomap result" where
  "convert_update_map schema [] converted = Inr converted"
| "convert_update_map schema ((name, v) # values') converted =
     bind_res (conflict_field schema name) (\<lambda>column. convert_update_map schema values' (map_put column v converted))"

definition convertModelConflict :: "model_schema \<Rightarrow> conflict_spec option \<Rightarrow> conflict_spec option result" where
  "convertModelConflict schema conflict =
     (case conflict of
        None \<Rightarrow> Inr None
      | Some conflict \<Rightarrow>
          bind_res (convert_items (conflict_field schema) (conf_Columns conflict)) (\<lambda>columns.
          bind_res (convert_items (conflict_field schema) (conf_Update conflict)) (\<lambda>updates.
          bind_res (convert_items (conflict_field schema) (conf_UpdateExcept conflict)) (\<lambda>excepts.
          bind_res (convert_update_map schema (conf_UpdateMap conflict) []) (\<lambda>updateMap.
            Inr (Some \<lparr>conf_Columns = columns, conf_DoNothing = conf_DoNothing conflict, conf_UpdateAll = conf_UpdateAll conflict,
              conf_UpdateExcept = excepts, conf_Update = updates, conf_UpdateMap = updateMap\<rparr>))))))"

definition modelUpdateAllColumns :: "model_schema \<Rightarrow> string list \<Rightarrow> string list \<Rightarrow> gomap list \<Rightarrow> string list" where
  "modelUpdateAllColumns schema conflictColumns exceptColumns values' =
     (case values' of
        [] \<Rightarrow> []
      | row # _ \<Rightarrow>
          sort (map fs_Column (filter (\<lambda>field.
            \<not> (fs_Ignore field \<or> fs_Virtual field \<or> fs_AutoCreate field) \<and>
            \<not> (fs_Column field \<notin> set (keys_of row) \<or>
               fs_Column field \<in> set conflictColumns \<union> set exceptColumns \<union> set (ms_PrimaryColumns schema)))
            (ms_InsertFields schema))))"

definition resolveModelConflict :: "model_schema \<Rightarrow> conflict_spec option \<Rightarrow> gomap list \<Rightarrow> conflict_spec option result" where
  "resolveModelConflict schema conflict values' =
     bind_res (convertModelConflict schema conflict) (\<lambda>converted.
       Inr (map_option (\<lambda>c. if conf_UpdateAll c
         then c\<lparr>conf_Update := modelUpdateAllColumns schema (conf_Columns c) (conf_UpdateExcept c) values', conf_UpdateAll := False\<rparr>
         else c) converted))"

end
