(* ===== verification/Model_Convert_Correct.thy ===== *)
theory Model_Convert_Correct
  imports Model_Convert
begin

text \<open>
  Model queries are typed by their schema: the conversion accepts exactly the conditions whose names the schema knows,
  and what it returns names columns only. The values of an update and its optimistic lock fit together.
\<close>

section \<open>Typing of conditions\<close>

text \<open>A name that can be converted, and a name that has been.\<close>

definition known_name :: "model_schema \<Rightarrow> string \<Rightarrow> bool" where
  "known_name schema n \<longleftrightarrow> isQualifiedIdentifier n \<or> ms_FieldByGo schema n \<noteq> None"

definition is_column :: "model_schema \<Rightarrow> string \<Rightarrow> bool" where
  "is_column schema n \<longleftrightarrow> isQualifiedIdentifier n \<or> (\<exists>f field. ms_FieldByGo schema f = Some field \<and> n = fs_Column field)"

text \<open>
  Conditions by operator: groups by their parts, JSON and full-text conditions by the names in their value, comparisons
  of columns by both sides unless the left one is qualified, and raw, exists and count conditions as they are.
\<close>

fun well_named :: "(string \<Rightarrow> bool) \<Rightarrow> (string \<Rightarrow> bool) \<Rightarrow> condition \<Rightarrow> bool" where
  "well_named json_ok name_ok (Condition b f operator v cs esc) =
     (let op = to_lower (trim_space operator)
      in if op = ''invalid'' then False
         else if op = ''group'' \<or> op = ''not'' then list_all (well_named json_ok name_ok) cs
         else if op = ''json'' then (case v of AJSONCondition n _ _ _ \<Rightarrow> json_ok n | _ \<Rightarrow> False)
         else if op = ''fulltext'' then (case v of AFullTextExpr ns _ _ _ \<Rightarrow> list_all name_ok ns | _ \<Rightarrow> False)
         else if op = ''raw'' \<or> op = ''exists'' \<or> op = ''count'' then True
         else if op = ''column''
         then (case v of AColumnCondition _ right \<Rightarrow> isQualifiedIdentifier f \<or> name_ok f \<and> (right = [] \<or> name_ok right) | _ \<Rightarrow> False)
         else name_ok f)"

definition json_field :: "model_schema \<Rightarrow> string \<Rightarrow> bool" where
  "json_field schema n \<longleftrightarrow> (\<exists>field. ms_FieldByGo schema n = Some field \<and> isJSONFieldType (fs_Type field))"

definition json_column :: "model_schema \<Rightarrow> string \<Rightarrow> bool" where
  "json_column schema n \<longleftrightarrow>
     (\<exists>f field. ms_FieldByGo schema f = Some field \<and> isJSONFieldType (fs_Type field) \<and> n = fs_Column field)"

definition convertible :: "model_schema \<Rightarrow> condition \<Rightarrow> bool" where
  "convertible schema = well_named (json_field schema) (known_name schema)"

definition resolved :: "model_schema \<Rightarrow> condition \<Rightarrow> bool" where
  "resolved schema = well_named (json_column schema) (is_column schema)"

definition same_shape :: "condition \<Rightarrow> condition \<Rightarrow> bool" where
  "same_shape c c' \<longleftrightarrow> cond_Bool c' = cond_Bool c \<and> cond_Op c' = cond_Op c \<and> cond_Escape c' = cond_Escape c"

text \<open>The outcome of a conversion: an error exactly for what is not convertible, and a resolved condition otherwise.\<close>

definition typed :: "model_schema \<Rightarrow> condition \<Rightarrow> condition result \<Rightarrow> bool" where
  "typed schema c r \<longleftrightarrow>
     (case r of Inl _ \<Rightarrow> \<not> convertible schema c
      | Inr c' \<Rightarrow> convertible schema c \<and> resolved schema c' \<and> same_shape c c')"

definition typed_list :: "model_schema \<Rightarrow> condition list \<Rightarrow> condition list result \<Rightarrow> bool" where
  "typed_list schema cs r \<longleftrightarrow>
     (case r of Inl _ \<Rightarrow> \<not> list_all (convertible schema) cs
      | Inr cs' \<Rightarrow> list_all (convertible schema) cs \<and> list_all (resolved schema) cs' \<and> list_all2 same_shape cs cs')"

lemma typed_cons:
  "typed schema c r \<Longrightarrow> typed_list schema cs rs \<Longrightarrow> typed_list schema (c # cs) (bind_res r (\<lambda>c'. bind_res rs (\<lambda>cs'. Inr (c' # cs'))))"
  by (auto simp: typed_def typed_list_def bind_res_def split: sum.splits)

lemma column_of_field_name: "ms_FieldByGo schema n = Some field \<Longrightarrow> is_column schema (fs_Column field)"
  by (auto simp: is_column_def)

lemma qualified_names: "isQualifiedIdentifier n \<Longrightarrow> known_name schema n \<and> is_column schema n"
  by (simp add: known_name_def is_column_def)

lemma known_unqualified: "\<not> isQualifiedIdentifier n \<Longrightarrow> known_name schema n \<longleftrightarrow> ms_FieldByGo schema n \<noteq> None"
  by (simp add: known_name_def)

lemmas typing_defs = typed_def convertible_def resolved_def same_shape_def cond_op_def field_by_go_def bind_res_def

lemma typed_json: "cond_op c = ''json'' \<Longrightarrow> typed schema c (convertModelJSONCondition schema c)"
  by (cases c) (auto simp: typing_defs convertModelJSONCondition_def json_field_def json_column_def
      split: goany.splits option.splits)

lemma convertFullTextFields_typed:
  "case convertFullTextFields schema ns of
     Inl _ \<Rightarrow> \<not> list_all (known_name schema) ns
   | Inr ns' \<Rightarrow> list_all (known_name schema) ns \<and> list_all (is_column schema) ns'"
  by (induction ns) (auto simp: bind_res_def field_by_go_def qualified_names known_unqualified column_of_field_name
      split: sum.splits option.splits if_splits)

lemma convertFullTextFields_cases:
  "convertFullTextFields schema ns = Inl err \<Longrightarrow> \<not> list_all (known_name schema) ns"
  "convertFullTextFields schema ns = Inr ns' \<Longrightarrow> list_all (known_name schema) ns \<and> list_all (is_column schema) ns'"
  using convertFullTextFields_typed [of schema ns] by simp_all

lemma typed_fulltext: "cond_op c = ''fulltext'' \<Longrightarrow> typed schema c (convertModelFullTextCondition schema c)"
  by (cases c) (auto simp: typing_defs convertModelFullTextCondition_def dest: convertFullTextFields_cases split: goany.splits sum.splits)

lemma typed_column: "cond_op c = ''column'' \<Longrightarrow> typed schema c (convert_column_condition schema c op)"
  by (cases c) (auto simp: typing_defs convert_column_condition_def known_name_def qualified_names column_of_field_name Let_def
      split: goany.splits sum.splits option.splits)

lemma typed_group:
  assumes "cond_op c = ''group'' \<or> cond_op c = ''not''" and "typed_list schema (cond_Conditions c) r"
  shows "typed schema c (bind_res r (\<lambda>nested. Inr (set_cond_Conditions nested c)))"
  using assms by (cases c) (auto simp: typing_defs typed_list_def split: sum.splits)

lemma typed_name:
  assumes "cond_op c \<notin> {''invalid'', ''group'', ''not'', ''json'', ''fulltext'', ''raw'', ''exists'', ''count'', ''column''}"
  shows "typed schema c (if isQualifiedIdentifier (cond_Field c) then Inr c
    else bind_res (field_by_go schema op (cond_Field c)) (\<lambda>field. Inr (set_cond_Field (fs_Column field) c)))"
  using assms by (cases c) (auto simp: typing_defs known_name_def qualified_names column_of_field_name split: option.splits)

lemma typed_kept: "cond_op c \<in> {''raw'', ''exists'', ''count''} \<Longrightarrow> typed schema c (Inr c)"
  by (cases c) (auto simp: typing_defs)

lemma typed_invalid: "cond_op c = ''invalid'' \<Longrightarrow> typed schema c (Inl err)"
  by (cases c) (auto simp: typing_defs)

lemma conversion_typed:
  "typed_list schema cs (convertModelConditions schema cs)"
  "cond_op c \<notin> {''json'', ''fulltext''} \<Longrightarrow> typed schema c (convertModelBasicCondition schema c opName)"
proof (induction schema cs and schema c opName rule: convertModelConditions_convertModelBasicCondition.induct)
  case (1 schema)
  show ?case by (simp add: typed_list_def)
next
  case (2 schema c cs)
  show ?case
    unfolding convertModelConditions.simps(2)
    by (rule typed_cons) (use 2 in \<open>simp_all add: typed_invalid typed_group typed_json typed_fulltext\<close>)
next
  case (3 schema c opName)
  then show ?case
    using typed_name [of c schema opName]
    by (simp add: typed_invalid typed_group typed_kept typed_column del: well_named.simps)
qed

section \<open>Values of an update\<close>

text \<open>What the schema parser establishes: fields are found under their names, and have columns of their own.\<close>

definition wf_schema :: "model_schema \<Rightarrow> bool" where
  "wf_schema schema \<longleftrightarrow>
     (\<forall>field \<in> set (ms_Fields schema). ms_FieldByGo schema (fs_Name field) = Some field) \<and>
     (\<forall>name field. ms_FieldByGo schema name = Some field \<longrightarrow> field \<in> set (ms_Fields schema) \<and> fs_Name field = name) \<and>
     distinct (map fs_Column (ms_Fields schema))"

definition written :: "model_schema \<Rightarrow> write_options \<Rightarrow> bool \<Rightarrow> string \<Rightarrow> string \<Rightarrow> bool" where
  "written schema options update name column \<longleftrightarrow>
     (\<exists>field. ms_FieldByGo schema name = Some field \<and> fs_Column field = column \<and> \<not> skips_field options update name field)"

lemma wf_schema_column:
  assumes "wf_schema schema" and "ms_FieldByGo schema a = Some f" and "ms_FieldByGo schema b = Some g" and "fs_Column f = fs_Column g"
  shows "f = g" "a = b"
proof -
  have "f \<in> set (ms_Fields schema)" "g \<in> set (ms_Fields schema)" "fs_Name f = a" "fs_Name g = b"
    using assms(1-3) by (auto simp: wf_schema_def)
  moreover from this assms(1,4) show "f = g" by (auto simp: wf_schema_def distinct_map inj_on_def)
  ultimately show "a = b" by simp
qed

lemma map_of_map_put [simp]: "map_of (map_put k v m) = (map_of m)(k \<mapsto> v)"
  by (simp add: map_put_def update_conv')

lemma written_unique: "wf_schema schema \<Longrightarrow> written schema options u a c \<Longrightarrow> written schema options u b c \<Longrightarrow> a = b"
  unfolding written_def using wf_schema_column(2) by metis

lemma convert_values_lookup:
  assumes "wf_schema schema" and "wf_map values'" and "convert_values schema options update values' acc = Inr m"
  shows "map_of m column = Some v \<longleftrightarrow>
    (\<exists>name. map_of values' name = Some v \<and> written schema options update name column) \<or>
    (\<forall>name \<in> set (keys_of values'). \<not> written schema options update name column) \<and> map_of acc column = Some v"
  using assms(2,3)
proof (induction values' arbitrary: acc)
  case (Cons entry rest)
  obtain name w where entry: "entry = (name, w)" by fastforce
  have rest: "wf_map rest" "name \<notin> set (keys_of rest)" using Cons.prems(1) by (auto simp: wf_map_def keys_of_def entry)
  from Cons.prems(2) obtain field where field: "ms_FieldByGo schema name = Some field"
    by (auto simp: entry bind_res_def field_by_go_def split: option.splits)
  have absent: "map_of rest name = None" using rest(2) by (simp add: keys_of_def map_of_eq_None_iff)
  show ?case
  proof (cases "skips_field options update name field")
    case True
    then have run: "convert_values schema options update rest acc = Inr m"
      using Cons.prems(2) by (simp add: entry bind_res_def field_by_go_def field)
    have "\<not> written schema options update name column" using True field by (simp add: written_def)
    then show ?thesis using Cons.IH [OF rest(1) run] by (auto simp: entry keys_of_def)
  next
    case False
    then have run: "convert_values schema options update rest (map_put (fs_Column field) w acc) = Inr m"
      using Cons.prems(2) by (auto simp: entry bind_res_def field_by_go_def field split: if_splits)
    have written: "written schema options update name (fs_Column field)" using False field by (simp add: written_def)
    show ?thesis
    proof (cases "column = fs_Column field")
      case True
      have only: "written schema options update n column \<longleftrightarrow> n = name" for n
        using written_unique [OF assms(1) written] written True by blast
      show ?thesis unfolding Cons.IH [OF rest(1) run] only using True rest(2) absent by (auto simp: entry keys_of_def)
    next
      case False
      then have "\<not> written schema options update name column" using field by (auto simp: written_def)
      then show ?thesis using Cons.IH [OF rest(1) run] False by (auto simp: entry keys_of_def)
    qed
  qed
qed (simp add: keys_of_def)

lemma convert_values_not_optimistic:
  assumes "convert_values schema options True values' acc = Inr m" and "name \<in> set (keys_of values')"
    and "ms_FieldByGo schema name = Some field" and "\<not> skips_field options True name field"
  shows "\<not> fs_Optimistic field"
  using assms(1,2)
proof (induction values' arbitrary: acc)
  case (Cons entry rest)
  then show ?case using assms(3,4)
    by (cases entry) (auto simp: bind_res_def field_by_go_def keys_of_def split: option.splits if_splits)
qed (simp add: keys_of_def)

lemma convertModelMap_lookup:
  assumes "wf_schema schema" and "wf_map values'" and "convertModelMap schema values' options update = Inr m"
  shows "map_of m column = Some v \<longleftrightarrow> (\<exists>name. map_of values' name = Some v \<and> written schema options update name column)"
  using convert_values_lookup [OF assms(1,2) assms(3) [unfolded convertModelMap_def]] by simp

text \<open>The lock column is never among the converted values of an update.\<close>

lemma lock_column_free:
  assumes "wf_schema schema" and "wf_map values'" and "convertModelMap schema values' options True = Inr m"
    and "optimisticLockField schema = Some lock"
  shows "map_of m (fs_Column lock) = None"
proof (rule ccontr)
  assume "map_of m (fs_Column lock) \<noteq> None"
  then obtain v where "map_of m (fs_Column lock) = Some v" by blast
  with convertModelMap_lookup [OF assms(1-3)] obtain name field where name: "map_of values' name = Some v"
    "ms_FieldByGo schema name = Some field" "fs_Column field = fs_Column lock" "\<not> skips_field options True name field"
    by (auto simp: written_def)
  from assms(4) have lock: "lock \<in> set (ms_Fields schema)" "fs_Optimistic lock"
    by (auto simp: optimisticLockField_def find_Some_iff)
  with assms(1) have "ms_FieldByGo schema (fs_Name lock) = Some lock" by (simp add: wf_schema_def)
  with wf_schema_column(1) [OF assms(1) name(2)] name(3) have "field = lock" by blast
  moreover have "name \<in> set (keys_of values')" using map_of_SomeD [OF name(1)] by (force simp: keys_of_def)
  ultimately show False
    using convert_values_not_optimistic [OF assms(3) [unfolded convertModelMap_def] _ name(2,4)] lock(2) by simp
qed

definition auto_updated :: "model_schema \<Rightarrow> write_options \<Rightarrow> string \<Rightarrow> bool" where
  "auto_updated schema options column \<longleftrightarrow>
     (\<exists>field \<in> set (ms_Fields schema). fs_Column field = column \<and> \<not> fs_Virtual field \<and> fs_AutoUpdate field \<and>
        fs_Name field \<notin> set (wo_omit options))"

lemma autoUpdateColumns_lookup:
  "map_of (autoUpdateColumns schema now options) column = (if auto_updated schema options column then Some (ATime now) else None)"
proof -
  let ?step = "\<lambda>field values'. if fs_Virtual field then values'
       else if fs_AutoUpdate field \<and> fs_Name field \<notin> set (wo_omit options) then map_put (fs_Column field) (ATime now) values'
       else values'"
  have lookup: "map_of (fold ?step fields acc) column =
      (if \<exists>field \<in> set fields. fs_Column field = column \<and> \<not> fs_Virtual field \<and> fs_AutoUpdate field \<and> fs_Name field \<notin> set (wo_omit options)
       then Some (ATime now) else map_of acc column)" for fields :: "field_schema list" and acc
    by (induction fields arbitrary: acc) auto
  show ?thesis unfolding autoUpdateColumns_def auto_updated_def lookup by auto
qed

lemma distinct_autoUpdateColumns: "wf_map (autoUpdateColumns schema now options)"
proof -
  have "distinct (map fst (fold (\<lambda>field values'. if fs_Virtual field then values'
       else if fs_AutoUpdate field \<and> fs_Name field \<notin> set (wo_omit options) then map_put (fs_Column field) (ATime now) values'
       else values') fields acc))" if "distinct (map fst acc)" for fields :: "field_schema list" and acc
    using that by (induction fields arbitrary: acc) (auto simp: map_put_def distinct_update)
  then show ?thesis by (simp add: autoUpdateColumns_def wf_map_def keys_of_def)
qed

lemma add_missing_lookup:
  assumes "wf_map values'"
  shows "map_of (add_missing values' m) column = (case map_of m column of None \<Rightarrow> map_of values' column | Some v \<Rightarrow> Some v)"
  using assms
proof (induction values' arbitrary: m)
  case (Cons entry rest)
  obtain k v where entry: "entry = (k, v)" by fastforce
  have rest: "wf_map rest" "map_of rest k = None" using Cons.prems by (auto simp: wf_map_def keys_of_def entry map_of_eq_None_iff)
  have step: "add_missing (entry # rest) m = add_missing rest (if k \<in> set (keys_of m) then m else map_put k v m)"
    by (simp add: add_missing_def entry)
  have "map_of m k = None \<longleftrightarrow> k \<notin> set (keys_of m)" by (simp add: keys_of_def map_of_eq_None_iff)
  then show ?case unfolding step Cons.IH [OF rest(1)] using rest(2) by (auto simp: entry split: option.splits)
qed (simp add: add_missing_def split: option.splits)

section \<open>Properties\<close>

definition sample_field :: "string \<Rightarrow> string \<Rightarrow> field_schema" where
  "sample_field name column =
     \<lparr>fs_Name = name, fs_Column = column, fs_Type = ''string'', fs_Size = 0, fs_SizeSet = False, fs_Precision = 0, fs_Scale = 0,
      fs_Default = None, fs_EnumValues = [], fs_Comment = [], fs_Primary = False, fs_Nullable = False, fs_Ignore = False,
      fs_Virtual = False, fs_Hidden = False, fs_Optimistic = False, fs_AutoCreate = False, fs_AutoUpdate = False,
      fs_SoftDelete = False\<rparr>"

definition sample_fields :: "field_schema list" where
  "sample_fields = [sample_field ''Name'' ''name'', (sample_field ''Version'' ''version'')\<lparr>fs_Optimistic := True\<rparr>,
     (sample_field ''UpdatedAt'' ''updated_at'')\<lparr>fs_AutoUpdate := True\<rparr>]"

definition sample_schema :: model_schema where
  "sample_schema =
     \<lparr>ms_Name = ''User'', ms_Table = ''users'', ms_Connection = [], ms_Fields = sample_fields,
      ms_FieldByGo = map_of (map (\<lambda>f. (fs_Name f, f)) sample_fields), ms_PrimaryColumns = [], ms_InsertFields = [],
      ms_DefaultExprs = []\<rparr>"



text \<open>
  C13. An update of a model, once its values are converted, sets exactly these columns: the lock column, incremented, when
  a version is expected; the columns of the values that the options let through; and the columns updated by themselves
  that neither of these sets. The expected version is added to the conditions, and never clashes with a value.
\<close>

theorem model_update_sets:
  assumes "wf_schema schema" and "wf_map values'" and "convertModelMap schema values' options True = Inr converted"
    and "wo_version options = Some version" and "optimisticLockField schema = Some lock"
  shows "\<exists>m. update_values schema spec values' options now =
      Inr (spec\<lparr>spec_Where := spec_Where spec @ [Condition [] (fs_Column lock) ''='' version [] []]\<rparr>, m) \<and>
    (\<forall>column v. map_of m column = Some v \<longleftrightarrow>
       (if column = fs_Column lock then v = AIncrementExpr (AInt 1)
        else if \<exists>name w. map_of values' name = Some w \<and> written schema options True name column
        then \<exists>name. map_of values' name = Some v \<and> written schema options True name column
        else auto_updated schema options column \<and> v = ATime now))"
proof -
  have free: "fs_Column lock \<notin> set (keys_of converted)"
    using lock_column_free [OF assms(1-3,5)] by (simp add: keys_of_def map_of_eq_None_iff)
  let ?m = "add_missing (autoUpdateColumns schema now options) (map_put (fs_Column lock) (AIncrementExpr (AInt 1)) converted)"
  have run: "update_values schema spec values' options now =
      Inr (spec\<lparr>spec_Where := spec_Where spec @ [Condition [] (fs_Column lock) ''='' version [] []]\<rparr>, ?m)"
    using free by (simp add: update_values_def assms(3-5) applyOptimisticLock_def bind_res_def)
  have lookup: "map_of ?m column = (if column = fs_Column lock then Some (AIncrementExpr (AInt 1))
      else case map_of converted column of None \<Rightarrow> (if auto_updated schema options column then Some (ATime now) else None)
        | Some v \<Rightarrow> Some v)" for column
    unfolding add_missing_lookup [OF distinct_autoUpdateColumns] autoUpdateColumns_lookup by simp
  note conv = convertModelMap_lookup [OF assms(1-3)]
  show ?thesis
  proof (intro exI [of _ ?m] conjI run allI)
    fix column v
    have set_column: "(\<exists>name w. map_of values' name = Some w \<and> written schema options True name column) \<longleftrightarrow> (\<exists>w. map_of converted column = Some w)"
      using conv by blast
    show "map_of ?m column = Some v \<longleftrightarrow>
       (if column = fs_Column lock then v = AIncrementExpr (AInt 1)
        else if \<exists>name w. map_of values' name = Some w \<and> written schema options True name column
        then \<exists>name. map_of values' name = Some v \<and> written schema options True name column
        else auto_updated schema options column \<and> v = ATime now)"
      unfolding lookup set_column conv [symmetric] by (cases "map_of converted column") auto
  qed
qed

theorem model_update_sets_witness:
  "\<forall>spec. \<exists>m. update_values sample_schema spec [(''Name'', AString ''x'')] (CheckVersion (AInt 7) zero_write_options) ''t'' =
      Inr (spec\<lparr>spec_Where := spec_Where spec @ [Condition [] ''version'' ''='' (AInt 7) [] []]\<rparr>, m) \<and>
     map_of m ''version'' = Some (AIncrementExpr (AInt 1))"
proof
  fix spec
  have fields: "wf_schema sample_schema"
    by (auto simp: wf_schema_def sample_schema_def sample_fields_def sample_field_def split: if_splits)
  have row: "wf_map [(''Name'', AString ''x'')]" by code_simp
  have converted: "convertModelMap sample_schema [(''Name'', AString ''x'')] (CheckVersion (AInt 7) zero_write_options) True =
      Inr [(''name'', AString ''x'')]" by code_simp
  have version: "wo_version (CheckVersion (AInt 7) zero_write_options) = Some (AInt 7)" by code_simp
  have lock: "optimisticLockField sample_schema = Some ((sample_field ''Version'' ''version'')\<lparr>fs_Optimistic := True\<rparr>)" by code_simp
  have column: "fs_Column ((sample_field ''Version'' ''version'')\<lparr>fs_Optimistic := True\<rparr>) = ''version''" by code_simp
  show "\<exists>m. update_values sample_schema spec [(''Name'', AString ''x'')] (CheckVersion (AInt 7) zero_write_options) ''t'' =
      Inr (spec\<lparr>spec_Where := spec_Where spec @ [Condition [] ''version'' ''='' (AInt 7) [] []]\<rparr>, m) \<and>
     map_of m ''version'' = Some (AIncrementExpr (AInt 1))"
    using model_update_sets [OF fields row converted version lock, of spec "''t''"] unfolding column by auto
qed

end
