(* ===== verification/Table_Names.thy ===== *)
theory Table_Names
  imports Table_Query "HOL-Library.AList"
begin

text \<open>
  The resolution of logical table names to physical ones (table\_names.go): the configured prefix is put before the
  names of tables in a query, in the sources nested in it, and in the qualifiers of its columns. A sub-query is resolved
  when it is compiled and again with the query around it, so resolving twice must be resolving once.
\<close>

section \<open>Names\<close>

definition Physical :: "string \<Rightarrow> string \<Rightarrow> string" where
  "Physical prefix' logical =
     (if prefix' = [] \<or> logical = [] then logical
      else if has_prefix logical prefix' then logical
      else let parts = split_on (CHR ''.'') logical; name = last parts
           in if has_prefix name prefix' then logical else join ''.'' (butlast parts @ [prefix' @ name]))"

definition names_Snapshot :: "string \<Rightarrow> string" where
  "names_Snapshot prefix' = Physical prefix' ''oro_schema''"

definition lastTableNamePart :: "string \<Rightarrow> string" where
  "lastTableNamePart v = (if v = [] then [] else last (split_on (CHR ''.'') v))"

type_synonym name_context = "(string \<times> string) list"

definition addTable :: "string \<Rightarrow> string \<Rightarrow> string \<Rightarrow> name_context \<Rightarrow> name_context" where
  "addTable prefix' logical alias' tables =
     (if prefix' = [] \<or> logical = [] \<or> alias' \<noteq> [] then tables
      else let physical = Physical prefix' logical
           in if physical = logical then tables
              else let tables = AList.update logical physical tables;
                       logicalName = lastTableNamePart logical;
                       physicalName = lastTableNamePart physical
                   in if logicalName \<noteq> [] \<and> physicalName \<noteq> [] \<and> logicalName \<noteq> logical
                      then AList.update logicalName physicalName tables else tables)"

definition addSource :: "string \<Rightarrow> source_ast \<Rightarrow> name_context \<Rightarrow> name_context" where
  "addSource prefix' source = addTable prefix' (src_Table source) (src_Alias source)"

definition addJoin :: "string \<Rightarrow> join_item \<Rightarrow> name_context \<Rightarrow> name_context" where
  "addJoin prefix' j tables =
     (let alias' = (if join_Alias j = [] then src_Alias (join_Source j) else join_Alias j)
      in addSource prefix' (join_Source j) (addTable prefix' (join_Table j) alias' tables))"

definition selectContext :: "string \<Rightarrow> select_ast \<Rightarrow> name_context" where
  "selectContext prefix' ast =
     fold (addJoin prefix') (stmt_Joins ast)
       (addSource prefix' (stmt_From ast) (addTable prefix' (stmt_Table ast) (stmt_Alias ast) []))"

definition queryContext :: "string \<Rightarrow> list_spec \<Rightarrow> name_context" where
  "queryContext prefix' spec =
     fold (addJoin prefix') (spec_Joins spec)
       (addSource prefix' (spec_From spec) (addTable prefix' (spec_Table spec) (spec_Alias spec) []))"

definition resolve_identifier :: "string \<Rightarrow> name_context \<Rightarrow> string \<Rightarrow> string" where
  "resolve_identifier prefix' tables ident =
     (if prefix' = [] \<or> ident = [] \<or> tables = [] then ident
      else let parts = split_on (CHR ''.'') ident
           in if length parts < 2 then ident
              else (case map_of tables (join ''.'' (butlast parts)) of
                      None \<Rightarrow> ident
                    | Some replacement \<Rightarrow> replacement @ ''.'' @ last parts))"

definition Qualifier :: "string \<Rightarrow> list_spec \<Rightarrow> string \<Rightarrow> string" where
  "Qualifier prefix' spec logicalTable = (if spec_Alias spec \<noteq> [] then spec_Alias spec else Physical prefix' logicalTable)"

section \<open>Queries\<close>

fun names_fullText :: "string \<Rightarrow> name_context \<Rightarrow> goany \<Rightarrow> goany" where
  "names_fullText prefix' tables (AFullTextExpr names query alias' isScore) =
     AFullTextExpr (map (resolve_identifier prefix' tables) names) query alias' isScore"
| "names_fullText prefix' tables v = v"

fun applyJoinCondition :: "string \<Rightarrow> name_context \<Rightarrow> join_cond \<Rightarrow> join_cond" where
  "applyJoinCondition prefix' tables (JoinCondition b left op right v column grouped err) =
     (if grouped \<noteq> [] then JoinCondition b left op right v column (map (applyJoinCondition prefix' tables) grouped) err
      else JoinCondition b (resolve_identifier prefix' tables left) op (if column then resolve_identifier prefix' tables right else right)
             v column grouped err)"

fun applyOrder :: "string \<Rightarrow> name_context \<Rightarrow> order_item \<Rightarrow> order_item" where
  "applyOrder prefix' tables (OrderExpr e d raw args) = OrderExpr (if raw then e else resolve_identifier prefix' tables e) d raw args"

lemma member_less: "x \<in> set xs \<Longrightarrow> f x < Suc (size_list f xs)"
  by (induction xs) auto

lemma size_members:
  "c \<in> set (stmt_Where st) \<Longrightarrow> size c < size st"
  "c \<in> set (stmt_Having st) \<Longrightarrow> size c < size st"
  "i \<in> set (stmt_Select st) \<Longrightarrow> sel_size i < size st"
  "j \<in> set (stmt_Joins st) \<Longrightarrow> join_size j < size st"
  "d \<in> set (cond_Conditions c) \<Longrightarrow> size d < size c"
  using size_stmt [of st] size_cond_Conditions [of c] member_less [of c "stmt_Where st" size] member_less [of c "stmt_Having st" size]
    member_less [of i "stmt_Select st" sel_size] member_less [of j "stmt_Joins st" join_size] member_less [of d "cond_Conditions c" size]
  by simp_all

lemma size_arg [ast_size_dest]:
  "sel_Args i = [ASourcePtr s] \<Longrightarrow> size s < sel_size i" "cond_Value c = ASource s \<Longrightarrow> size s < size c"
  by (cases i; auto) (cases c; auto)

function (sequential) applySource :: "string \<Rightarrow> source_ast \<Rightarrow> source_ast"
  and applySelect :: "string \<Rightarrow> select_ast \<Rightarrow> select_ast"
  and applyJoin :: "string \<Rightarrow> name_context \<Rightarrow> join_item \<Rightarrow> join_item"
  and applySelectExpr :: "string \<Rightarrow> name_context \<Rightarrow> sel_item \<Rightarrow> sel_item"
  and applyCondition :: "string \<Rightarrow> name_context \<Rightarrow> condition \<Rightarrow> condition" where
  "applySource prefix' source =
     SourceAST (Physical prefix' (src_Table source)) (src_Alias source) (map_option (applySelect prefix') (src_Query source))
       (src_Raw source)"
| "applySelect prefix' ast =
     (let context = selectContext prefix' ast
      in SelectAST (Physical prefix' (stmt_Table ast)) (stmt_Alias ast) (applySource prefix' (stmt_From ast))
           (map (applyJoin prefix' context) (stmt_Joins ast)) (map (applyCondition prefix' context) (stmt_Where ast))
           (map (applySelectExpr prefix' context) (stmt_Select ast)) (map (resolve_identifier prefix' context) (stmt_Group ast))
           (map (applyCondition prefix' context) (stmt_Having ast)) (map (applyOrder prefix' context) (stmt_Order ast))
           (stmt_Limit ast) (stmt_Offset ast) (stmt_Lock ast))"
| "applyJoin prefix' context j =
     JoinAST (join_Type j) (Physical prefix' (join_Table j)) (join_Alias j) (applySource prefix' (join_Source j)) (join_Raw j)
       (join_Err j) (map (applyJoinCondition prefix' context) (join_Conditions j))"
| "applySelectExpr prefix' context item =
     (let item' = (\<lambda>e args source. SelectExpr e (sel_Alias item) (sel_Raw item) args source) in
      case sel_Source item of
        Some source \<Rightarrow> item' (sel_Expr item) (sel_Args item) (Some (applySource prefix' source))
      | None \<Rightarrow>
          if sel_Expr item = ''__oro_relation_exists__''
          then (case sel_Args item of
                  [ASource source] \<Rightarrow> item' (sel_Expr item) [ASource (applySource prefix' source)] None
                | [ASourcePtr source] \<Rightarrow> item' (sel_Expr item) [ASourcePtr (applySource prefix' source)] None
                | _ \<Rightarrow> item)
          else if sel_Expr item = ''__oro_aggregate__''
          then (case sel_Args item of
                  AAggregateExpr func field alias' # args \<Rightarrow>
                    item' (sel_Expr item) (AAggregateExpr func (resolve_identifier prefix' context field) alias' # args) None
                | _ \<Rightarrow> item)
          else if sel_Expr item = ''__oro_fulltext_score__''
          then (case sel_Args item of
                  arg # args \<Rightarrow> item' (sel_Expr item) (names_fullText prefix' context arg # args) None
                | [] \<Rightarrow> item)
          else if sel_Raw item then item
          else item' (resolve_identifier prefix' context (sel_Expr item)) (sel_Args item) None)"
| "applyCondition prefix' context c =
     Condition (cond_Bool c)
       (if to_lower (trim_space (cond_Op c)) \<noteq> ''raw'' then resolve_identifier prefix' context (cond_Field c) else cond_Field c)
       (cond_Op c)
       (case cond_Value c of
          AColumnCondition op right \<Rightarrow> AColumnCondition op (resolve_identifier prefix' context right)
        | ACountCondition source op v \<Rightarrow> ACountCondition (map_option (applySource prefix') source) op v
        | AJSONCondition field parts op v \<Rightarrow> AJSONCondition (resolve_identifier prefix' context field) parts op v
        | AFullTextExpr names query alias' isScore \<Rightarrow> names_fullText prefix' context (AFullTextExpr names query alias' isScore)
        | ASourcePtr source \<Rightarrow> ASourcePtr (applySource prefix' source)
        | ASource source \<Rightarrow> ASource (applySource prefix' source)
        | v \<Rightarrow> v)
       (map (applyCondition prefix' context) (cond_Conditions c)) (cond_Escape c)"
  by pat_completeness auto
termination
  by (relation "measure (case_sum (case_sum (\<lambda>(_, s). size s) (\<lambda>(_, st). size st))
        (case_sum (\<lambda>(_, _, j). join_size j) (case_sum (\<lambda>(_, _, i). sel_size i) (\<lambda>(_, _, c). size c))))")
     (auto simp: ast_size size_members simp del: source_ast.size dest: ast_size_dest)

definition ApplyQuery :: "string \<Rightarrow> list_spec \<Rightarrow> list_spec" where
  "ApplyQuery prefix' spec =
     (if prefix' = [] then spec
      else let context = queryContext prefix' spec
           in spec\<lparr>spec_Table := Physical prefix' (spec_Table spec), spec_From := applySource prefix' (spec_From spec),
                spec_Select := map (applySelectExpr prefix' context) (spec_Select spec),
                spec_Where := map (applyCondition prefix' context) (spec_Where spec),
                spec_Having := map (applyCondition prefix' context) (spec_Having spec),
                spec_Joins := map (applyJoin prefix' context) (spec_Joins spec),
                spec_Group := map (resolve_identifier prefix' context) (spec_Group spec),
                spec_Order := map (applyOrder prefix' context) (spec_Order spec)\<rparr>)"

text \<open>The table of the embedded query is the table of the write.\<close>

definition ApplyWrite :: "string \<Rightarrow> write_spec \<Rightarrow> write_spec" where
  "ApplyWrite prefix' spec =
     (if prefix' = [] then spec
      else let query = ApplyQuery prefix' (write_Query spec)
           in spec\<lparr>write_Query := query\<lparr>spec_Table := Physical prefix' (spec_Table query)\<rparr>\<rparr>)"

definition names_ApplySource :: "string \<Rightarrow> source_ast \<Rightarrow> source_ast" where
  "names_ApplySource prefix' source = (if prefix' = [] then source else applySource prefix' source)"

definition names_ApplySelect :: "string \<Rightarrow> select_ast \<Rightarrow> select_ast" where
  "names_ApplySelect prefix' ast = (if prefix' = [] then ast else applySelect prefix' ast)"

definition ApplyTableSpec :: "string \<Rightarrow> table_spec \<Rightarrow> table_spec" where
  "ApplyTableSpec prefix' table =
     table\<lparr>tbl_Name := Physical prefix' (tbl_Name table),
       tbl_Indexes := map (\<lambda>i. i\<lparr>idx_Name := Physical prefix' (idx_Name i)\<rparr>) (tbl_Indexes table)\<rparr>"

end
