(* ===== verification/Table_Names_Correct.thy ===== *)
theory Table_Names_Correct
  imports Table_Names
begin

text \<open>Resolved names stay as they are, so that resolving a query again changes nothing; qualifiers follow their tables.\<close>

section \<open>Names\<close>

lemma has_prefix_append [simp]: "has_prefix (p @ s) p"
  by (simp add: has_prefix_def)

lemma split_Physical:
  assumes "CHR ''.'' \<notin> set p"
  shows "Physical p s = s \<or>
    (p \<noteq> [] \<and> s \<noteq> [] \<and> \<not> has_prefix s p \<and> \<not> has_prefix (last (split_on (CHR ''.'') s)) p \<and>
     split_on (CHR ''.'') (Physical p s) = butlast (split_on (CHR ''.'') s) @ [p @ last (split_on (CHR ''.'') s)])"
proof -
  let ?parts = "split_on (CHR ''.'') s"
  have "CHR ''.'' \<notin> set q" if "q \<in> set (butlast ?parts @ [p @ last ?parts])" for q
    using that assms split_on_no_sep [of _ "CHR ''.''" s] last_in_set [of ?parts] by (auto dest: in_set_butlastD)
  then have "split_on (CHR ''.'') (join ''.'' (butlast ?parts @ [p @ last ?parts])) = butlast ?parts @ [p @ last ?parts]"
    by (intro split_on_join) auto
  then show ?thesis by (auto simp: Physical_def Let_def)
qed

lemma Physical_twice:
  assumes "CHR ''.'' \<notin> set p"
  shows "Physical p (Physical p s) = Physical p s"
proof (cases "Physical p s = s")
  case False
  with split_Physical [OF assms, of s] show ?thesis by (simp add: Physical_def [of p "Physical p s"] Let_def)
qed simp

section \<open>Resolved trees\<close>

lemma addTable_resolved [simp]: "CHR ''.'' \<notin> set p \<Longrightarrow> addTable p (Physical p s) a tables = tables"
  by (simp add: addTable_def Physical_twice Let_def)

lemma resolve_no_tables [simp]: "resolve_identifier p [] s = s"
  by (simp add: resolve_identifier_def)

lemma resolve_special:
  "resolve_identifier p tables s = s \<or> CHR ''.'' \<in> set (resolve_identifier p tables s)"
  by (auto simp: resolve_identifier_def Let_def split: option.splits)

lemma resolve_special_iff:
  assumes "CHR ''.'' \<notin> set n"
  shows "resolve_identifier p tables s = n \<longleftrightarrow> s = n"
proof -
  have "resolve_identifier p tables n = n"
    using assms by (simp add: resolve_identifier_def Let_def split_on_id)
  then show ?thesis using resolve_special [of p tables s] assms by auto
qed

lemma names_fullText_again [simp]: "names_fullText p [] (names_fullText p tables v) = names_fullText p tables v"
  by (cases v) (simp_all add: map_idI)

lemma applyJoinCondition_again [simp]: "applyJoinCondition p [] (applyJoinCondition p tables c) = applyJoinCondition p tables c"
  by (induction p tables c rule: applyJoinCondition.induct) (auto simp: map_idI)

lemma applyOrder_again [simp]: "applyOrder p [] (applyOrder p tables item) = applyOrder p tables item"
  by (cases item) simp

lemma addJoin_resolved:
  assumes "CHR ''.'' \<notin> set p"
  shows "addJoin p (applyJoin p ctx j) tables = tables"
  using assms by (simp add: addJoin_def addSource_def)

lemma fold_addJoin_resolved:
  "CHR ''.'' \<notin> set p \<Longrightarrow> fold (addJoin p) (map (applyJoin p ctx) js) tables = tables"
  by (induction js) (simp_all add: addJoin_resolved del: applyJoin.simps)

lemma selectContext_resolved:
  assumes "CHR ''.'' \<notin> set p"
  shows "selectContext p (applySelect p st) = []"
  using fold_addJoin_resolved [OF assms, of "selectContext p st" "stmt_Joins st" "[]"] assms
  by (simp add: selectContext_def addSource_def Let_def del: applyJoin.simps)

declare applySource.simps [simp del] applySelect.simps [simp del] applyJoin.simps [simp del] applySelectExpr.simps [simp del]
  applyCondition.simps [simp del]

lemma applySelect_fields:
  fixes p st
  defines "ctx \<equiv> selectContext p st"
  shows "stmt_Table (applySelect p st) = Physical p (stmt_Table st)" "stmt_Alias (applySelect p st) = stmt_Alias st"
    "stmt_From (applySelect p st) = applySource p (stmt_From st)" "stmt_Joins (applySelect p st) = map (applyJoin p ctx) (stmt_Joins st)"
    "stmt_Where (applySelect p st) = map (applyCondition p ctx) (stmt_Where st)"
    "stmt_Select (applySelect p st) = map (applySelectExpr p ctx) (stmt_Select st)"
    "stmt_Group (applySelect p st) = map (resolve_identifier p ctx) (stmt_Group st)"
    "stmt_Having (applySelect p st) = map (applyCondition p ctx) (stmt_Having st)"
    "stmt_Order (applySelect p st) = map (applyOrder p ctx) (stmt_Order st)"
    "stmt_Limit (applySelect p st) = stmt_Limit st" "stmt_Offset (applySelect p st) = stmt_Offset st"
    "stmt_Lock (applySelect p st) = stmt_Lock st"
  by (simp_all add: applySelect.simps ctx_def Let_def)

lemma applySelect_again:
  assumes "CHR ''.'' \<notin> set p" and "applySource p (applySource p (stmt_From st)) = applySource p (stmt_From st)"
    and "\<And>j. j \<in> set (stmt_Joins st) \<Longrightarrow> applyJoin p [] (applyJoin p (selectContext p st) j) = applyJoin p (selectContext p st) j"
    and "\<And>c. c \<in> set (stmt_Where st) \<union> set (stmt_Having st) \<Longrightarrow>
      applyCondition p [] (applyCondition p (selectContext p st) c) = applyCondition p (selectContext p st) c"
    and "\<And>i. i \<in> set (stmt_Select st) \<Longrightarrow> applySelectExpr p [] (applySelectExpr p (selectContext p st) i) = applySelectExpr p (selectContext p st) i"
  shows "applySelect p (applySelect p st) = applySelect p st"
proof (rule select_ast.expand)
  show "stmt_Table (applySelect p (applySelect p st)) = stmt_Table (applySelect p st) \<and>
    stmt_Alias (applySelect p (applySelect p st)) = stmt_Alias (applySelect p st) \<and>
    stmt_From (applySelect p (applySelect p st)) = stmt_From (applySelect p st) \<and>
    stmt_Joins (applySelect p (applySelect p st)) = stmt_Joins (applySelect p st) \<and>
    stmt_Where (applySelect p (applySelect p st)) = stmt_Where (applySelect p st) \<and>
    stmt_Select (applySelect p (applySelect p st)) = stmt_Select (applySelect p st) \<and>
    stmt_Group (applySelect p (applySelect p st)) = stmt_Group (applySelect p st) \<and>
    stmt_Having (applySelect p (applySelect p st)) = stmt_Having (applySelect p st) \<and>
    stmt_Order (applySelect p (applySelect p st)) = stmt_Order (applySelect p st) \<and>
    stmt_Limit (applySelect p (applySelect p st)) = stmt_Limit (applySelect p st) \<and>
    stmt_Offset (applySelect p (applySelect p st)) = stmt_Offset (applySelect p st) \<and>
    stmt_Lock (applySelect p (applySelect p st)) = stmt_Lock (applySelect p st)"
    unfolding applySelect_fields(1-6) [of p "applySelect p st"] applySelect_fields(7-12) [of p "applySelect p st"]
      selectContext_resolved [OF assms(1)]
    using assms by (simp add: applySelect_fields Physical_twice)
qed

lemma applySelectExpr_again:
  assumes "\<And>s. sel_Source i = Some s \<or> sel_Source i = None \<and> sel_Expr i = ''__oro_relation_exists__'' \<and>
      (sel_Args i = [ASource s] \<or> sel_Args i = [ASourcePtr s]) \<Longrightarrow> applySource p (applySource p s) = applySource p s"
  shows "applySelectExpr p [] (applySelectExpr p ctx i) = applySelectExpr p ctx i"
proof (cases "sel_Source i")
  case (Some s)
  then show ?thesis using assms by (simp add: applySelectExpr.simps Let_def)
next
  case None
  consider (exists) "sel_Expr i = ''__oro_relation_exists__''" | (aggregate) "sel_Expr i = ''__oro_aggregate__''"
    | (score) "sel_Expr i = ''__oro_fulltext_score__''"
    | (other) "sel_Expr i \<notin> {''__oro_relation_exists__'', ''__oro_aggregate__'', ''__oro_fulltext_score__''}" by auto
  then show ?thesis
  proof cases
    case exists
    then show ?thesis using assms None by (auto simp: applySelectExpr.simps Let_def split: list.splits goany.splits)
  next
    case aggregate
    then show ?thesis using None by (auto simp: applySelectExpr.simps Let_def split: list.splits goany.splits)
  next
    case score
    then show ?thesis using None by (auto simp: applySelectExpr.simps Let_def split: list.splits)
  next
    case other
    then show ?thesis using None by (auto simp: applySelectExpr.simps Let_def resolve_special_iff)
  qed
qed

definition names_value :: "string \<Rightarrow> name_context \<Rightarrow> goany \<Rightarrow> goany" where
  "names_value p ctx v =
     (case v of
        AColumnCondition op right \<Rightarrow> AColumnCondition op (resolve_identifier p ctx right)
      | ACountCondition source op n \<Rightarrow> ACountCondition (map_option (applySource p) source) op n
      | AJSONCondition field parts op w \<Rightarrow> AJSONCondition (resolve_identifier p ctx field) parts op w
      | AFullTextExpr names query alias' isScore \<Rightarrow> names_fullText p ctx (AFullTextExpr names query alias' isScore)
      | ASourcePtr source \<Rightarrow> ASourcePtr (applySource p source)
      | ASource source \<Rightarrow> ASource (applySource p source)
      | v \<Rightarrow> v)"

lemma applyCondition_fields:
  "cond_Bool (applyCondition p ctx c) = cond_Bool c" "cond_Op (applyCondition p ctx c) = cond_Op c"
  "cond_Escape (applyCondition p ctx c) = cond_Escape c"
  "cond_Conditions (applyCondition p ctx c) = map (applyCondition p ctx) (cond_Conditions c)"
  "cond_Value (applyCondition p ctx c) = names_value p ctx (cond_Value c)"
  "cond_Field (applyCondition p ctx c) =
     (if to_lower (trim_space (cond_Op c)) \<noteq> ''raw'' then resolve_identifier p ctx (cond_Field c) else cond_Field c)"
  by (simp_all add: applyCondition.simps [of p ctx c] names_value_def)

lemma names_value_again:
  assumes "\<And>s op n. v = ASource s \<or> v = ASourcePtr s \<or> v = ACountCondition (Some s) op n \<Longrightarrow>
      applySource p (applySource p s) = applySource p s"
  shows "names_value p [] (names_value p ctx v) = names_value p ctx v"
  using assms by (cases v) (auto simp: names_value_def map_idI option.map_comp comp_def intro!: option.map_cong)

lemma applyCondition_again:
  assumes "\<And>s op n. cond_Value c = ASource s \<or> cond_Value c = ASourcePtr s \<or> cond_Value c = ACountCondition (Some s) op n \<Longrightarrow>
      applySource p (applySource p s) = applySource p s"
    and "\<And>d. d \<in> set (cond_Conditions c) \<Longrightarrow> applyCondition p [] (applyCondition p ctx d) = applyCondition p ctx d"
  shows "applyCondition p [] (applyCondition p ctx c) = applyCondition p ctx c"
proof (rule condition.expand)
  show "cond_Bool (applyCondition p [] (applyCondition p ctx c)) = cond_Bool (applyCondition p ctx c) \<and>
    cond_Field (applyCondition p [] (applyCondition p ctx c)) = cond_Field (applyCondition p ctx c) \<and>
    cond_Op (applyCondition p [] (applyCondition p ctx c)) = cond_Op (applyCondition p ctx c) \<and>
    cond_Value (applyCondition p [] (applyCondition p ctx c)) = cond_Value (applyCondition p ctx c) \<and>
    cond_Conditions (applyCondition p [] (applyCondition p ctx c)) = cond_Conditions (applyCondition p ctx c) \<and>
    cond_Escape (applyCondition p [] (applyCondition p ctx c)) = cond_Escape (applyCondition p ctx c)"
    using names_value_again [OF assms(1)] assms(2) by (simp add: applyCondition_fields)
qed

lemma resolved_twice:
  "CHR ''.'' \<notin> set p \<Longrightarrow> applySource p (applySource p s) = applySource p s"
  "CHR ''.'' \<notin> set p \<Longrightarrow> applySelect p (applySelect p st) = applySelect p st"
  "CHR ''.'' \<notin> set p \<Longrightarrow> applyJoin p [] (applyJoin p context1 j) = applyJoin p context1 j"
  "CHR ''.'' \<notin> set p \<Longrightarrow> applySelectExpr p [] (applySelectExpr p context2 i) = applySelectExpr p context2 i"
  "CHR ''.'' \<notin> set p \<Longrightarrow> applyCondition p [] (applyCondition p context3 c) = applyCondition p context3 c"
proof (induction p s and p st and p context1 j and p context2 i and p context3 c
    rule: applySource_applySelect_applyJoin_applySelectExpr_applyCondition.induct)
  case (1 p s)
  then show ?case by (cases "src_Query s") (auto simp: applySource.simps Physical_twice)
next
  case (2 p st)
  then show ?case by (intro applySelect_again) auto
next
  case (3 p ctx j)
  then show ?case by (simp add: applyJoin.simps Physical_twice)
next
  case (4 p ctx i)
  then show ?case by (intro applySelectExpr_again) (auto simp: Let_def)
next
  case (5 p ctx c)
  show ?case by (rule applyCondition_again) (use 5 in \<open>elim disjE; blast\<close>, use 5 in blast)
qed

section \<open>Qualifiers\<close>

text \<open>Every entry of a context maps a name to its physical name.\<close>

definition physical_entries :: "string \<Rightarrow> name_context \<Rightarrow> bool" where
  "physical_entries p tables \<longleftrightarrow> (\<forall>k v. map_of tables k = Some v \<longrightarrow> v = Physical p k)"

lemma map_of_AList_update [simp]: "map_of (AList.update k v al) = (map_of al)(k \<mapsto> v)"
  by (simp add: update_conv')

lemma last_part_Physical:
  assumes "CHR ''.'' \<notin> set p" and "Physical p s \<noteq> s"
  shows "lastTableNamePart (Physical p s) = Physical p (lastTableNamePart s) \<or> lastTableNamePart s = []"
proof -
  let ?name = "last (split_on (CHR ''.'') s)"
  from split_Physical [OF assms(1), of s] assms(2)
  have s: "p \<noteq> []" "s \<noteq> []" "\<not> has_prefix ?name p" "split_on (CHR ''.'') (Physical p s) = butlast (split_on (CHR ''.'') s) @ [p @ ?name]"
    by auto
  have "CHR ''.'' \<notin> set ?name" using split_on_no_sep last_in_set split_on_not_Nil by metis
  then have "Physical p ?name = p @ ?name" if "?name \<noteq> []" using s(1,3) that by (simp add: Physical_def split_on_id)
  moreover have "Physical p s \<noteq> []" using s(4) s(1) by (cases "Physical p s") auto
  ultimately show ?thesis using s by (auto simp: lastTableNamePart_def)
qed

lemma addTable_entries:
  "CHR ''.'' \<notin> set p \<Longrightarrow> physical_entries p tables \<Longrightarrow> physical_entries p (addTable p s a tables)"
  using last_part_Physical [of p s] by (auto simp: addTable_def physical_entries_def Let_def)

lemma addTable_keeps: "map_of tables k \<noteq> None \<Longrightarrow> map_of (addTable p s a tables) k \<noteq> None"
  by (auto simp: addTable_def Let_def)

lemma addJoin_keeps:
  "CHR ''.'' \<notin> set p \<Longrightarrow> physical_entries p tables \<Longrightarrow> physical_entries p (addJoin p j tables)"
  "map_of tables k \<noteq> None \<Longrightarrow> map_of (addJoin p j tables) k \<noteq> None"
  by (simp_all add: addJoin_def addSource_def Let_def addTable_entries addTable_keeps)

lemma fold_addJoin_keeps:
  "CHR ''.'' \<notin> set p \<Longrightarrow> physical_entries p tables \<Longrightarrow> physical_entries p (fold (addJoin p) js tables)"
  by (induction js arbitrary: tables) (simp_all add: addJoin_keeps)

lemma fold_addJoin_dom: "map_of tables k \<noteq> None \<Longrightarrow> map_of (fold (addJoin p) js tables) k \<noteq> None"
proof (induction js arbitrary: tables)
  case (Cons j js)
  from Cons.IH [OF addJoin_keeps(2) [OF Cons.prems]] show ?case by simp
qed simp

lemma queryContext_entries:
  assumes "CHR ''.'' \<notin> set p"
  shows "physical_entries p (queryContext p spec)"
  unfolding queryContext_def addSource_def
  by (intro fold_addJoin_keeps addTable_entries assms) (simp add: physical_entries_def)

lemma queryContext_table:
  assumes "spec_Alias spec = []" and "Physical p (spec_Table spec) \<noteq> spec_Table spec"
  shows "map_of (queryContext p spec) (spec_Table spec) \<noteq> None"
proof -
  have "p \<noteq> []" "spec_Table spec \<noteq> []" using assms(2) by (auto simp: Physical_def)
  then have "map_of (addTable p (spec_Table spec) (spec_Alias spec) []) (spec_Table spec) \<noteq> None"
    using assms by (simp add: addTable_def Let_def)
  then show ?thesis
    unfolding queryContext_def addSource_def by (intro fold_addJoin_dom) (rule addTable_keeps)
qed

lemma queryContext_resolved:
  assumes "CHR ''.'' \<notin> set p"
  shows "queryContext p (ApplyQuery p spec) = []"
proof (cases "p = []")
  case True
  have "addTable [] s a tables = tables" for s a tables by (simp add: addTable_def)
  then have "fold (addJoin []) js tables = tables" for js tables
    by (induction js) (simp_all add: addJoin_def addSource_def Let_def)
  with True show ?thesis by (simp add: queryContext_def addSource_def addTable_def)
next
  case False
  then show ?thesis
    using assms by (simp add: queryContext_def ApplyQuery_def Let_def addSource_def applySource.simps fold_addJoin_resolved)
qed

lemma resolve_qualified:
  assumes "p \<noteq> []" and "CHR ''.'' \<notin> set c"
  shows "resolve_identifier p tables (t @ CHR ''.'' # c) = (case map_of tables t of None \<Rightarrow> t | Some t' \<Rightarrow> t') @ CHR ''.'' # c"
proof -
  have "split_on (CHR ''.'') (join ''.'' (split_on (CHR ''.'') t @ [c])) = split_on (CHR ''.'') t @ [c]"
    using assms(2) split_on_no_sep [of _ "CHR ''.''" t] by (intro split_on_join) auto
  moreover have "join ''.'' (ps @ [c]) = join ''.'' ps @ ''.'' @ c" if "ps \<noteq> []" for ps
    using that by (induction ps) (auto simp: join_Cons)
  ultimately have split: "split_on (CHR ''.'') (t @ CHR ''.'' # c) = split_on (CHR ''.'') t @ [c]"
    using join_split_on [of "CHR ''.''" t] by simp
  show ?thesis
    using assms(1) join_split_on [of "CHR ''.''" t] by (auto simp: resolve_identifier_def split Let_def split: option.splits)
qed

section \<open>Properties\<close>


definition sample_spec :: list_spec where
  "sample_spec = \<lparr>spec_Connection = [], spec_ShardGroup = [], spec_Table = ''users'', spec_Alias = [],
     spec_From = SourceAST [] [] None None, spec_ModelName = [],
     spec_Where = [Condition [] ''users.id'' ''='' (AInt 1) [] []], spec_Select = [], spec_SelectErr = None, spec_Joins = [],
     spec_Group = [], spec_Having = [], spec_Order = [], spec_Limit = None, spec_Offset = None,
     spec_Lock = \<lparr>lock_Mode = LockNone, lock_NoWait = False, lock_SkipLocked = False\<rparr>, spec_SkipEvents = False,
     spec_UsePrimary = False, spec_Cache = \<lparr>cache_Enabled = False, cache_TTL = 0, cache_Key = [], cache_Tags = []\<rparr>,
     spec_Timeout = 0, spec_finalized = False\<rparr>"


end
