(* ===== verification/Tenant.thy ===== *)
theory Tenant
  imports Model_Convert Table_Names Transactions
begin

text \<open>
  Extensions (extension.go), the tenant extension (extensions/tenant) and the finishing of a read (query\_helpers.go): the
  conditions a tenant and soft deletion add to a query. The state of the extension on the database handle and in the
  context is given; resolver and router of the application are functions. The schema of a query is given beside it, and
  the field \<open>Model\<close> of an error is left out.
\<close>

section \<open>Extensions\<close>

type_synonym query_hook = "list_spec \<Rightarrow> list_spec result"
type_synonym write_hook = "write_spec \<Rightarrow> write_spec result"

text \<open>An extension that does not implement a hook is \<open>None\<close>.\<close>

fun apply_hooks :: "('s \<Rightarrow> 's result) option list \<Rightarrow> 's \<Rightarrow> 's result" where
  "apply_hooks [] spec = Inr spec"
| "apply_hooks (hook # hooks) spec =
     (case hook of
        None \<Rightarrow> apply_hooks hooks spec
      | Some h \<Rightarrow> bind_res (h spec) (apply_hooks hooks))"

definition applyConnectionExtensions :: "query_hook option list \<Rightarrow> query_hook" where
  "applyConnectionExtensions = apply_hooks"

definition applyQueryExtensions :: "query_hook option list \<Rightarrow> query_hook" where
  "applyQueryExtensions = apply_hooks"

definition applyWriteExtensions :: "write_hook option list \<Rightarrow> write_hook" where
  "applyWriteExtensions = apply_hooks"

definition hasWriteExtensions :: "write_hook option list \<Rightarrow> bool" where
  "hasWriteExtensions hooks = list_ex (\<lambda>hook. hook \<noteq> None) hooks"

text \<open>The values of every extension that has some, later ones replacing earlier ones.\<close>

fun collect_shard_values :: "(gomap \<times> bool) result option list \<Rightarrow> gomap \<Rightarrow> gomap result" where
  "collect_shard_values [] values' = Inr values'"
| "collect_shard_values (hook # hooks) values' =
     (case hook of
        None \<Rightarrow> collect_shard_values hooks values'
      | Some result \<Rightarrow>
          bind_res result (\<lambda>(more, ok).
            collect_shard_values hooks (if ok then fold (\<lambda>(k, v) m. map_put k v m) more values' else values')))"

definition extensionShardValues :: "(gomap \<times> bool) result option list \<Rightarrow> gomap result" where
  "extensionShardValues hooks = collect_shard_values hooks []"

section \<open>The tenant extension\<close>

record tenant_state =
  ts_values :: gomap
  ts_without :: bool

record tenant_config =
  tc_Fields :: "string list"
  tc_Resolver :: "(gomap \<times> bool) result option"
  tc_Router :: "(gomap \<Rightarrow> string result) option"

text \<open>Where a call comes from: the state on the handle and the one in the context.\<close>

record tenant_call =
  tcall_db :: "tenant_state option"
  tcall_ctx :: "tenant_state option"

record tenant_schema = model_schema +
  ms_TenantFields :: "string list"
  ms_NoTenant :: bool

type_synonym tenant_option = "tenant_config \<Rightarrow> tenant_config"

definition tenant_Fields :: "string list \<Rightarrow> tenant_option" where
  "tenant_Fields names config = config\<lparr>tc_Fields := names\<rparr>"

definition WithResolver :: "(gomap \<times> bool) result option \<Rightarrow> tenant_option" where
  "WithResolver resolver config = config\<lparr>tc_Resolver := resolver\<rparr>"

definition WithRouter :: "(gomap \<Rightarrow> string result) option \<Rightarrow> tenant_option" where
  "WithRouter router config = config\<lparr>tc_Router := router\<rparr>"

definition tenant_Extension :: "tenant_option option list \<Rightarrow> tenant_config" where
  "tenant_Extension options =
     fold (\<lambda>opt config. case opt of None \<Rightarrow> config | Some f \<Rightarrow> f config) options
       \<lparr>tc_Fields = [], tc_Resolver = None, tc_Router = None\<rparr>"

definition tenant_Use :: "gomap \<Rightarrow> tenant_call \<Rightarrow> tenant_call" where
  "tenant_Use values' call = call\<lparr>tcall_db := Some \<lparr>ts_values = values', ts_without = False\<rparr>\<rparr>"

definition tenant_Without :: "tenant_call \<Rightarrow> tenant_call" where
  "tenant_Without call = call\<lparr>tcall_db := Some \<lparr>ts_values = [], ts_without = True\<rparr>\<rparr>"

definition tenant_With :: "gomap \<Rightarrow> tenant_call \<Rightarrow> tenant_call" where
  "tenant_With values' call = call\<lparr>tcall_ctx := Some \<lparr>ts_values = values', ts_without = False\<rparr>\<rparr>"

definition tenant_WithoutContext :: "tenant_call \<Rightarrow> tenant_call" where
  "tenant_WithoutContext call = call\<lparr>tcall_ctx := Some \<lparr>ts_values = [], ts_without = True\<rparr>\<rparr>"

definition tenant_Values :: "tenant_call \<Rightarrow> gomap option" where
  "tenant_Values call =
     (case tcall_ctx call of
        None \<Rightarrow> None
      | Some st \<Rightarrow> if ts_without st \<or> ts_values st = [] then None else Some (ts_values st))"

text \<open>\<open>values\<close> returns the values, whether the tenant is switched off, and whether there is one.\<close>

definition tenant_values :: "tenant_config \<Rightarrow> tenant_call \<Rightarrow> (gomap \<times> bool \<times> bool) result" where
  "tenant_values config call =
     (let from_state = (\<lambda>state otherwise.
        case state of
          None \<Rightarrow> otherwise
        | Some st \<Rightarrow> if ts_without st then Inr ([], True, True)
            else if ts_values st \<noteq> [] then Inr (ts_values st, False, True) else otherwise)
      in from_state (tcall_db call) (from_state (tcall_ctx call)
        (case tc_Resolver config of
           None \<Rightarrow> Inr ([], False, False)
         | Some resolved \<Rightarrow> bind_res resolved (\<lambda>(values', ok). Inr (if ok then (values', False, True) else ([], False, False))))))"

definition TenantFieldsForSchema :: "string list \<Rightarrow> tenant_schema option \<Rightarrow> string list" where
  "TenantFieldsForSchema names schema =
     (case schema of
        None \<Rightarrow> []
      | Some s \<Rightarrow>
          if ms_NoTenant s then []
          else if ms_TenantFields s \<noteq> [] then ms_TenantFields s
          else if names = [] then []
          else if list_ex (\<lambda>name. ms_FieldByGo s name = None) names then []
          else names)"

fun tenant_conditions :: "tenant_schema \<Rightarrow> gomap \<Rightarrow> string list \<Rightarrow> condition list \<Rightarrow> condition list result" where
  "tenant_conditions schema values' [] conditions = Inr conditions"
| "tenant_conditions schema values' (name # names) conditions =
     (case ms_FieldByGo schema name of
        None \<Rightarrow> Inl (mk_field_error ''tenant'' ErrUnknownTenant name)
      | Some field \<Rightarrow>
          (case map_of values' name of
             None \<Rightarrow> Inl (mk_field_error ''tenant'' ErrTenantRequired name)
           | Some v \<Rightarrow> tenant_conditions schema values' names (conditions @ [Condition [] (fs_Column field) ''='' v [] []])))"

text \<open>The schema is that of the query, or for a table query the one registered for its table.\<close>

definition SchemaForTable :: "string \<Rightarrow> tenant_schema list \<Rightarrow> string \<Rightarrow> tenant_schema option" where
  "SchemaForTable prefix' schemas table =
     (if table = [] then None
      else find (\<lambda>schema. ms_Table schema = table \<or> Physical prefix' (ms_Table schema) = Physical prefix' table) schemas)"

definition tenant_model :: "string \<Rightarrow> tenant_schema list \<Rightarrow> tenant_schema option \<Rightarrow> list_spec \<Rightarrow> tenant_schema option" where
  "tenant_model prefix' schemas model spec =
     (if model = None \<and> spec_Table spec \<noteq> [] then SchemaForTable prefix' schemas (spec_Table spec) else model)"

definition tenant_ApplyQuery ::
  "tenant_config \<Rightarrow> tenant_call \<Rightarrow> string \<Rightarrow> tenant_schema list \<Rightarrow> tenant_schema option \<Rightarrow> query_hook" where
  "tenant_ApplyQuery config call prefix' schemas model spec =
     (case tenant_model prefix' schemas model spec of
        None \<Rightarrow> Inr spec
      | Some schema \<Rightarrow>
          (let names = TenantFieldsForSchema (tc_Fields config) (Some schema) in
           if names = [] then Inr spec
           else bind_res (tenant_values config call) (\<lambda>(values', without, ok).
             if without then Inr spec
             else if \<not> ok then Inl (mk_error ''tenant'' ErrTenantRequired)
             else bind_res (tenant_conditions schema values' names (spec_Where spec)) (\<lambda>conditions.
               Inr (spec\<lparr>spec_Where := conditions\<rparr>)))))"

fun tenant_row :: "tenant_schema \<Rightarrow> gomap \<Rightarrow> string list \<Rightarrow> gomap \<Rightarrow> gomap result" where
  "tenant_row schema values' [] row = Inr row"
| "tenant_row schema values' (name # names) row =
     (case map_of values' name of
        None \<Rightarrow> Inl (mk_field_error ''tenant'' ErrTenantRequired name)
      | Some v \<Rightarrow>
          (case ms_FieldByGo schema name of
             None \<Rightarrow> Inl (mk_field_error ''tenant'' ErrUnknownTenant name)
           | Some field \<Rightarrow> tenant_row schema values' names (map_put (fs_Column field) v row)))"

definition tenant_ApplyWrite :: "tenant_config \<Rightarrow> tenant_call \<Rightarrow> tenant_schema option \<Rightarrow> write_hook" where
  "tenant_ApplyWrite config call model spec =
     (case model of
        None \<Rightarrow> Inr spec
      | Some schema \<Rightarrow>
          (let names = TenantFieldsForSchema (tc_Fields config) (Some schema) in
           if names = [] then Inr spec
           else bind_res (tenant_values config call) (\<lambda>(values', without, ok).
             if without then Inr spec
             else if \<not> ok then Inl (mk_error ''tenant'' ErrTenantRequired)
             else bind_res (convert_items (tenant_row schema values' names) (write_Values spec)) (\<lambda>rows.
               Inr (spec\<lparr>write_Values := rows\<rparr>)))))"

definition tenant_ApplyConnection :: "tenant_config \<Rightarrow> tenant_call \<Rightarrow> query_hook" where
  "tenant_ApplyConnection config call spec =
     (case tc_Router config of
        None \<Rightarrow> Inr spec
      | Some router \<Rightarrow>
          bind_res (tenant_values config call) (\<lambda>(values', without, ok).
            if without \<or> \<not> ok then Inr spec
            else (case router values' of
                    Inl err \<Rightarrow>
                      Inl (OroError ''tenant'' (if errors_Is err ErrTenantRequired then ErrTenantRequired else ErrUnknownTenant) [] []
                        (Some err))
                  | Inr connection \<Rightarrow> if connection = [] then Inr spec else Inr (spec\<lparr>spec_Connection := connection\<rparr>))))"

text \<open>\<open>ShardValues\<close> and \<open>CacheKeyValues\<close> have one body.\<close>

definition tenant_ShardValues :: "tenant_config \<Rightarrow> tenant_call \<Rightarrow> (gomap \<times> bool) result" where
  "tenant_ShardValues config call =
     bind_res (tenant_values config call) (\<lambda>(values', without, ok).
       if without \<or> \<not> ok then Inr ([], False) else Inr (values', True))"

definition tenant_CacheKeyValues :: "tenant_config \<Rightarrow> tenant_call \<Rightarrow> (gomap \<times> bool) result" where
  "tenant_CacheKeyValues config call =
     bind_res (tenant_values config call) (\<lambda>(values', without, ok).
       if without \<or> \<not> ok then Inr ([], False) else Inr (values', True))"

section \<open>Finishing a read\<close>

definition applyTableSoftDeleteScope ::
  "string \<Rightarrow> tenant_schema list \<Rightarrow> tenant_schema option \<Rightarrow> list_spec \<Rightarrow> list_spec" where
  "applyTableSoftDeleteScope prefix' schemas model spec =
     (if model \<noteq> None \<or> spec_Table spec = [] then spec
      else (case SchemaForTable prefix' schemas (spec_Table spec) of
              None \<Rightarrow> spec
            | Some schema \<Rightarrow> applySoftDeleteScope (model_schema.truncate schema) spec softDeleteDefault))"

definition finalizeReadSpec ::
  "query_hook option list \<Rightarrow> query_hook option list \<Rightarrow> string \<Rightarrow> tenant_schema list \<Rightarrow> tenant_schema option \<Rightarrow> query_hook" where
  "finalizeReadSpec connectionHooks queryHooks prefix' schemas model spec =
     (if spec_finalized spec then Inr spec
      else bind_res (applyConnectionExtensions connectionHooks spec) (\<lambda>spec.
           bind_res (applyQueryExtensions queryHooks spec) (\<lambda>spec.
             Inr ((applyTableSoftDeleteScope prefix' schemas model spec)\<lparr>spec_finalized := True\<rparr>))))"

end
