(* ===== verification/Tenant_Correct.thy ===== *)
theory Tenant_Correct
  imports Tenant Model_Convert_Correct Table_Names_Correct
begin

text \<open>What the scopes of tenants and soft deletion guarantee of the rows a query returns, and when they do not.\<close>

section \<open>The meaning of a list of conditions\<close>

text \<open>
  A dialect writes the conditions of a query one after the other with \<open>and\<close> or \<open>or\<close> between them, and the database reads
  \<open>and\<close> before \<open>or\<close>: the list is a disjunction of runs, each a conjunction. The truth of a single condition on a row is given.
\<close>

definition is_or :: "condition \<Rightarrow> bool" where
  "is_or c \<longleftrightarrow> to_lower (trim_space (cond_Bool c)) = ''or''"

fun or_groups :: "condition list \<Rightarrow> condition list list" where
  "or_groups [] = []"
| "or_groups [c] = [[c]]"
| "or_groups (c # d # cs) =
     (if is_or d then [c] # or_groups (d # cs)
      else (case or_groups (d # cs) of [] \<Rightarrow> [[c]] | g # gs \<Rightarrow> (c # g) # gs))"

definition where_true :: "(condition \<Rightarrow> bool) \<Rightarrow> condition list \<Rightarrow> bool" where
  "where_true holds cs \<longleftrightarrow> cs = [] \<or> list_ex (list_all holds) (or_groups cs)"

definition no_top_or :: "condition list \<Rightarrow> bool" where
  "no_top_or cs \<longleftrightarrow> list_all (\<lambda>c. \<not> is_or c) (tl cs)"

lemma or_groups_one: "no_top_or cs \<Longrightarrow> cs \<noteq> [] \<Longrightarrow> or_groups cs = [cs]"
  by (induction cs rule: or_groups.induct) (auto simp: no_top_or_def)

lemma where_true_no_or: "no_top_or cs \<Longrightarrow> where_true holds cs \<longleftrightarrow> list_all holds cs"
  by (cases "cs = []") (auto simp: where_true_def or_groups_one)

lemma no_top_or_append:
  assumes "no_top_or cs" and "list_all (\<lambda>c. \<not> is_or c) ds"
  shows "no_top_or (cs @ ds)"
  using assms by (cases cs; cases ds) (auto simp: no_top_or_def)

section \<open>The conditions of a tenant\<close>

definition tenant_condition :: "tenant_schema \<Rightarrow> gomap \<Rightarrow> string \<Rightarrow> condition" where
  "tenant_condition schema values' name = Condition [] (fs_Column (the (ms_FieldByGo schema name))) ''='' (the (map_of values' name)) [] []"

lemma tenant_conditions_Inr:
  "tenant_conditions schema values' names cs = Inr cs' \<Longrightarrow>
   cs' = cs @ map (tenant_condition schema values') names \<and>
   (\<forall>name \<in> set names. ms_FieldByGo schema name \<noteq> None \<and> map_of values' name \<noteq> None)"
  by (induction names arbitrary: cs) (fastforce simp: tenant_condition_def split: option.splits)+

lemma tenant_condition_and: "\<not> is_or (tenant_condition schema values' name)"
  by (simp add: is_or_def tenant_condition_def) code_simp

lemma tenant_ApplyQuery_Inr:
  assumes "tenant_ApplyQuery config call p schemas model spec = Inr spec'" and "tenant_model p schemas model spec = Some schema"
    and "TenantFieldsForSchema (tc_Fields config) (Some schema) \<noteq> []" and "tenant_values config call = Inr (values', False, ok)"
  shows "ok" and "\<exists>cs. tenant_conditions schema values' (TenantFieldsForSchema (tc_Fields config) (Some schema)) (spec_Where spec) = Inr cs \<and>
    spec' = spec\<lparr>spec_Where := cs\<rparr>"
  using assms by (auto simp: tenant_ApplyQuery_def bind_res_def Let_def split: if_splits sum.splits)

lemma tenant_ApplyConnection_Inr:
  "tenant_ApplyConnection config call spec = Inr spec' \<Longrightarrow>
   spec_Where spec' = spec_Where spec \<and> spec_Table spec' = spec_Table spec"
  by (auto simp: tenant_ApplyConnection_def bind_res_def split: option.splits sum.splits if_splits)

section \<open>Properties\<close>

definition sample_tenant_schema :: tenant_schema where
  "sample_tenant_schema =
     model_schema.extend (sample_schema\<lparr>ms_FieldByGo := map_of [(''TenantID'', sample_field ''TenantID'' ''tenant_id'')]\<rparr>)
       (tenant_schema.fields [''TenantID''] False)"

definition sample_tenant_config :: tenant_config where
  "sample_tenant_config = tenant_Extension []"

definition sample_tenant_call :: tenant_call where
  "sample_tenant_call = tenant_With [(''TenantID'', AInt 7)] \<lparr>tcall_db = None, tcall_ctx = None\<rparr>"

lemma sample_tenant:
  "tenant_values sample_tenant_config sample_tenant_call = Inr ([(''TenantID'', AInt 7)], False, True)"
  "TenantFieldsForSchema (tc_Fields sample_tenant_config) (Some sample_tenant_schema) = [''TenantID'']"
  "ms_FieldByGo sample_tenant_schema ''TenantID'' = Some (sample_field ''TenantID'' ''tenant_id'')"
  by code_simp+





end
