(* ===== verification/Spec2Isabelle.thy ===== *)
theory Spec2Isabelle
  imports Sqlite_Correct Mysql_Correct Pgsql_Correct Where_Correct Table_Query_Correct Transactions_Correct
    Sharding_Correct Mem_Cache Query_Helpers_Correct Nested_Set_Reads Schema_Sync_Correct Model_Convert_Correct
    Table_Names_Correct Tenant_Correct
begin

text \<open>
  \<^bold>\<open>oro\<close> is an object-relational mapper for Go with drivers for SQLite, MySQL and PostgreSQL. This library models its
  core as HOL functions and proves what makes it correct. Names of definitions are the names of the Go functions where HOL
  allows it; a dialect's functions carry the dialect's name in front.

  \<^bold>\<open>The parts of the program and how they work together.\<close> A program describes a query by chained calls (query\_table.go,
  where.go, expression.go, join.go); the calls fill a query specification. Model queries name Go fields, which are
  converted to columns by the schema of the model (query\_helpers.go); logical table names are replaced by physical ones
  (table\_names.go); a sharded table routes the query to a connection (shard.go, internal/shardstrategy). The planner
  (runtime.go) turns the specification into a statement tree (internal/queryast), and the dialect of the connection
  (driver/*/dialect.go) compiles the tree to SQL text with an argument list, through a bounded cache of compiled
  texts (sql\_cache.go, internal/fifocache). Statements run inside transactions (transaction.go), which report to an
  event bus (event.go, internal/eventbus). Results may be kept in a memory store (internal/memcache). The declared
  schema is brought to the database by comparing it with the tables there and with a snapshot of the last declaration
  (syncer.go, internal/syncdiff, internal/schemasnapshot). The nested-set extension (extensions/nestedset) keeps trees in
  tables.

  \<^bold>\<open>Foundations.\<close> \<open>Oro_Prelude\<close> holds errors as values (\<open>'a result\<close> is \<open>go_error + 'a\<close>, a Go panic is one of the errors),
  Go's string functions, 64-bit wrap-around and the lemmas all theories share. \<open>Query_AST\<close> holds the statement trees and
  schema descriptions; a Go interface value is \<open>goany\<close>, with one constructor per dynamic type the code inspects, integers
  at their width. \<open>Go_Slices\<close> models slices as windows on shared arrays, with the growth policy of \<open>append\<close> as a parameter.
  \<open>Query_Util\<close> holds operator white lists, LIKE escaping and SQL literals.

  \<^bold>\<open>Dialects.\<close> \<open>Sqlite_Dialect\<close>, \<open>Mysql_Dialect\<close> and \<open>Pgsql_Dialect\<close> translate the dialect files function by function; mutually
  recursive compilers terminate by the size of the tree. \<open>Sql_Lexer\<close> is an independent reading of SQL text (quotes,
  backslashes, placeholders) by the rules of the databases, \<open>Pg_Scanner\<close> the one for numbered placeholders; \<open>Raw_Fragments\<close>
  and \<open>Pg_Fragments\<close> state what fragments concatenate to. \<open>Sqlite_Correct\<close>, \<open>Mysql_Correct\<close> and \<open>Pgsql_Correct\<close> show that every
  compiled statement is quoted to its end and binds exactly its arguments, whatever names and values the tree holds, when
  the raw SQL the program gives is well formed, and that quoted identifiers are read back. The lemmas are proved once in
  locales over the quoting of a dialect and interpreted on the three dialects.

  \<^bold>\<open>Caches.\<close> \<open>Fifo_Cache\<close> is the bounded cache with the map and the order slice of the code, refined to a queue. \<open>Sql_Cache\<close> is
  the compile-through-cache path with the keys of statements; \<open>Sql_Cache_Keys\<close> shows what a key determines of a statement,
  \<open>Sql_Cache_Correct\<close> states the compiler as a locale, interpreted in \<open>Sql_Cache_Sqlite\<close>, \<open>Sql_Cache_Mysql\<close> and \<open>Sql_Cache_Pgsql\<close>,
  and \<open>Sql_Cache_Transparent\<close> that the cache is not observable. \<open>Mem_Cache\<close> refines the store with its tag index to a map of
  items, with the two critical sections of a read as separate steps.

  \<^bold>\<open>Builders.\<close> \<open>Where_Builder\<close> holds the conditions, expressions and joins a program writes, and \<open>Where_Correct\<close> that
  what they accept compiles to the comparison, group or pattern they stand for. \<open>Table_Query\<close> is the chained builder over
  shared slices and the planner; \<open>Table_Query_Correct\<close> refines a chain of calls to the specification they describe and
  settles when two chains from one query disturb each other.

  \<^bold>\<open>Names and models.\<close> \<open>Model_Convert\<close> is the conversion from fields to columns, the values of an update with its
  optimistic lock, conflicts and scopes; \<open>Model_Convert_Correct\<close> types conditions by the schema and says which columns an
  update sets. \<open>Table_Names\<close> resolves table names through a query and its sub-queries, \<open>Table_Names_Correct\<close> that this
  happens once. \<open>Tenant\<close> holds the hooks of extensions, the tenant extension and the scopes a read is finished with
  (extension.go, extensions/tenant), \<open>Tenant_Correct\<close> that a read returns rows of its tenant only, unless the program's own
  conditions have an \<open>or\<close> at the top level, which escapes the scopes. \<open>Query_Helpers\<close> holds write options, batches, pages, chunks, the guard on raw SQL and the order of
  created rows, with \<open>Query_Helpers_Correct\<close>. A loop that reads chunks until one is short may not end on a table that
  grows: it is a partial function with \<open>None\<close> for not returning, and is shown to return on a table that stays as it is.

  \<^bold>\<open>Sharding.\<close> \<open>Shard_Strategy\<close> and \<open>Sharding\<close> hold the strategies, the routing and the order and page over all shards,
  with floating-point comparison of integers written out; \<open>Sharding_Correct\<close> their correctness.

  \<^bold>\<open>Events and transactions.\<close> \<open>Event_Bus\<close> is refined to the list of live subscriptions. \<open>Transactions\<close> holds begin, commit,
  rollback, savepoints, nesting and retries over an abstract server; \<open>Transactions_Correct\<close> shows all-or-nothing at every
  level against a server with savepoints, when commit happens, and that retrying ends. The number of attempts bounds the
  retry loop, so no fuel is needed.

  \<^bold>\<open>Nested sets.\<close> \<open>Nested_Set\<close> holds creation, update, moves, deletion, queries and the check over a table of rows. Every
  statement may fail, as a list of faults in the state says, and a failed operation is rolled back. \<open>Nested_Intervals\<close> is
  the geometry of intervals; \<open>Nested_Set_Correct\<close> shows that the rows stay a forest through any sequence of operations and
  that a move changes one parent; \<open>Nested_Set_Reads\<close> that queries by bounds are the closure of the parent links.

  \<^bold>\<open>Schema synchronisation.\<close> \<open>Schema_Sync\<close> holds the difference of tables and the snapshot, \<open>Schema_Syncer\<close> the run over
  one table with failing statements. \<open>Schema_Sync_Correct\<close> states what a dialect promises of schema changes as a locale,
  interpreted on the three dialects, and shows that a successful run reaches the declaration, that a second one has
  nothing to do, and that no run loses a column or an index.

  \<^bold>\<open>Parameters.\<close> Code outside the repository is an argument of the definitions that use it: the formatting of values by
  \<open>fmt\<close>, database/sql and the drivers (statements that succeed or fail, error translation), handlers and callbacks of the
  application, the type names a database reports. Finite lists of faults let any statement fail; statements beyond the list succeed.

  \<^bold>\<open>Not modelled.\<close> Code that works by reflection on Go structs has no counterpart here: schema parsing (schema\_parser.go,
  schema\_builder.go), scanning and serialising models (model\_scan.go, mapper.go, serialize.go), loading and writing relations
  (relation\_*.go), the methods of model queries that read and write structs (query\_model.go, typed\_query.go), and the
  translation extension. Connections, prepared statements and the drivers' own files are input and output. Scopes,
  hooks and the extensions for audit, log rotation and metrics run callbacks of the application. Locks are left out where each operation runs under one
  from its start to its end; the memory store, whose read does not, has its critical sections as steps.
\<close>

end
